(* ===== verification/Js_Prelude.thy ===== *)
theory Js_Prelude
  imports Main "HOL-Library.Char_ord" "HOL-Library.List_Lexorder" "HOL-Library.Product_Lexorder"
    "HOL-Library.Multiset"
begin

text \<open>
  Shared vocabulary of the development: the error values of the program (\<open>src/src/errors.ts\<close>),
  the result type of fallible operations, the JavaScript values that cross its trust boundary
  (plain data only), and the pieces of the ECMAScript library the sources use: string order and
  trimming, \<open>Set\<close> de-duplication, the stable \<open>Array.prototype.sort\<close>, own-property order and
  canonical timestamps. Strings are lists of code units below 256; every operation used on them
  (equality, length, code-unit order, search for ASCII characters) is uniform in the code unit.
\<close>

section \<open>Errors and results\<close>

datatype error_code =
    USAGE_ERROR | VALIDATION_ERROR | NOT_FOUND | CONFLICT | DATABASE_ERROR | BACKPRESSURE
  | SERVICE_UNAVAILABLE | SECURITY_REJECTION | AUTHENTICATION_ERROR | INTEGRITY_ERROR
  | PARTIAL_FAILURE | NOT_IMPLEMENTED | UNSUPPORTED_CLIENT

fun EXIT_CODES :: "error_code \<Rightarrow> nat" where
  "EXIT_CODES USAGE_ERROR = 2"
| "EXIT_CODES VALIDATION_ERROR = 3"
| "EXIT_CODES NOT_FOUND = 4"
| "EXIT_CODES CONFLICT = 5"
| "EXIT_CODES DATABASE_ERROR = 6"
| "EXIT_CODES BACKPRESSURE = 6"
| "EXIT_CODES SERVICE_UNAVAILABLE = 6"
| "EXIT_CODES SECURITY_REJECTION = 7"
| "EXIT_CODES AUTHENTICATION_ERROR = 7"
| "EXIT_CODES INTEGRITY_ERROR = 8"
| "EXIT_CODES PARTIAL_FAILURE = 9"
| "EXIT_CODES NOT_IMPLEMENTED = 2"
| "EXIT_CODES UNSUPPORTED_CLIENT = 2"

text \<open>
  What a \<open>throw\<close> can carry: an error of the program, an error of the SQLite driver (its extended
  result code and message), the aggregate of a failed operation with its failed clean-up, the
  uncertain commit of \<open>src/src/db/transaction.ts\<close>, or another JavaScript error.
\<close>

datatype js_error =
    KiokukoError error_code string
  | SqliteError nat string
  | AggregateError "js_error list" string
  | TransactionCommitUncertainError js_error js_error
  | OtherError string

fun exitCodeFor :: "js_error \<Rightarrow> nat" where
  "exitCodeFor (KiokukoError c m) = EXIT_CODES c"
| "exitCodeFor e = EXIT_CODES INTEGRITY_ERROR"

type_synonym 'a result = "js_error + 'a"

named_theorems result_inv \<open>inversion of a successful composition\<close>

definition rbind :: "'a result \<Rightarrow> ('a \<Rightarrow> 'b result) \<Rightarrow> 'b result" where
  "rbind m f = (case m of Inl e \<Rightarrow> Inl e | Inr x \<Rightarrow> f x)"

text \<open>\<open>check b e\<close> is the guard \<open>if (!b) throw e\<close>.\<close>

definition check :: "bool \<Rightarrow> js_error \<Rightarrow> unit result" where
  "check b e = (if b then Inr () else Inl e)"

text \<open>\<open>rtraverse f xs\<close> is \<open>xs.map(f)\<close> for a function that may throw: left to right, first error wins.\<close>

fun rtraverse :: "('a \<Rightarrow> 'b result) \<Rightarrow> 'a list \<Rightarrow> 'b list result" where
  "rtraverse f [] = Inr []"
| "rtraverse f (x # xs) = rbind (f x) (\<lambda>y. rbind (rtraverse f xs) (\<lambda>ys. Inr (y # ys)))"

lemma rbind_Inr [simp]: "rbind (Inr x) f = f x"
  by (simp add: rbind_def)

lemma rbind_Inl [simp]: "rbind (Inl e) f = Inl e"
  by (simp add: rbind_def)

lemma rbind_eq_Inr [result_inv]: "rbind m f = Inr y \<longleftrightarrow> (\<exists>x. m = Inr x \<and> f x = Inr y)"
  by (cases m) auto

lemma rbind_eq_Inl: "rbind m f = Inl e \<longleftrightarrow> m = Inl e \<or> (\<exists>x. m = Inr x \<and> f x = Inl e)"
  by (cases m) auto

lemma rbind_cong [fundef_cong]:
  "m = m' \<Longrightarrow> (\<And>x. m' = Inr x \<Longrightarrow> f x = f' x) \<Longrightarrow> rbind m f = rbind m' f'"
  by (cases m') auto

lemma check_True [simp]: "check True e = Inr ()"
  by (simp add: check_def)

lemma check_False [simp]: "check False e = Inl e"
  by (simp add: check_def)

lemma check_eq_Inr [simp, result_inv]: "check b e = Inr u \<longleftrightarrow> b"
  by (simp add: check_def)

lemma check_eq_Inl [simp]: "check b e = Inl e' \<longleftrightarrow> \<not> b \<and> e' = e"
  by (auto simp: check_def)

lemma rtraverse_cong [fundef_cong]:
  "xs = ys \<Longrightarrow> (\<And>x. x \<in> set ys \<Longrightarrow> f x = g x) \<Longrightarrow> rtraverse f xs = rtraverse g ys"
proof (induction ys arbitrary: xs)
  case Nil
  then show ?case by simp
next
  case (Cons y ys)
  have "rtraverse f ys = rtraverse g ys"
    by (rule Cons.IH) (simp_all add: Cons.prems(2))
  with Cons.prems show ?case by simp
qed

lemma rtraverse_Inr_iff: "rtraverse f xs = Inr ys \<longleftrightarrow> list_all2 (\<lambda>x y. f x = Inr y) xs ys"
proof (induction xs arbitrary: ys)
  case Nil
  then show ?case by auto
next
  case (Cons x xs)
  then show ?case
    by (auto simp: rbind_eq_Inr list_all2_Cons1)
qed

lemma rtraverse_length: "rtraverse f xs = Inr ys \<Longrightarrow> length ys = length xs"
  by (auto simp: rtraverse_Inr_iff dest: list_all2_lengthD)

lemma rtraverse_memD:
  assumes "rtraverse f xs = Inr ys" and "y \<in> set ys"
  shows "\<exists>x \<in> set xs. f x = Inr y"
proof -
  have l2: "list_all2 (\<lambda>x y. f x = Inr y) xs ys"
    using assms(1) by (simp add: rtraverse_Inr_iff)
  obtain i where "i < length ys" and "y = ys ! i"
    using assms(2) by (auto simp: in_set_conv_nth)
  with l2 have "xs ! i \<in> set xs" and "f (xs ! i) = Inr y"
    by (auto simp: list_all2_conv_all_nth)
  then show ?thesis by blast
qed

lemma rtraverse_Inr_map: "(\<And>x. x \<in> set xs \<Longrightarrow> f x = Inr (g x)) \<Longrightarrow> rtraverse f xs = Inr (map g xs)"
  by (induction xs) auto

lemma rtraverse_Inr_proj:
  "rtraverse f xs = Inr ys \<longleftrightarrow> (\<forall>x \<in> set xs. \<not> isl (f x)) \<and> ys = map (\<lambda>x. projr (f x)) xs"
proof (induction xs arbitrary: ys)
  case Nil
  then show ?case by auto
next
  case (Cons x xs)
  then show ?case by (cases "f x") (auto simp: rbind_eq_Inr)
qed

lemma map_sum_InrD: "map_sum id f x = Inr y \<Longrightarrow> \<exists>z. x = Inr z \<and> f z = y"
  by (cases x) auto

lemma fst_InrD: "map_sum id f (fst p) = Inr y \<Longrightarrow> \<exists>x d. p = (Inr x, d)"
  by (cases p; cases "fst p") auto

text \<open>A search that can find only one element finds it.\<close>

lemma find_unique: "x \<in> set xs \<Longrightarrow> P x \<Longrightarrow> (\<And>y. y \<in> set xs \<Longrightarrow> P y \<Longrightarrow> y = x) \<Longrightarrow> find P xs = Some x"
proof (induction xs)
  case Nil
  then show ?case by simp
next
  case (Cons z zs)
  show ?case
  proof (cases "P z")
    case True
    with Cons.prems(3) [of z] show ?thesis by simp
  next
    case False
    with Cons.prems(1,2) have "x \<in> set zs" by auto
    with Cons.IH [OF _ Cons.prems(2)] Cons.prems(3) False show ?thesis by simp
  qed
qed

text \<open>A condition on an optional value, when it is there.\<close>

fun opt_all :: "('a \<Rightarrow> bool) \<Rightarrow> 'a option \<Rightarrow> bool" where
  "opt_all P None = True"
| "opt_all P (Some x) = P x"

lemma opt_all_iff: "opt_all P x \<longleftrightarrow> (\<forall>y. x = Some y \<longrightarrow> P y)"
  by (cases x) auto

section \<open>JavaScript values\<close>

text \<open>
  The values a boundary function of type \<open>unknown\<close> inspects. \<open>VNum n\<close> is a finite number with an
  integral value (magnitude below \<open>10\<^sup>2\<^sup>1\<close>), \<open>VFrac s\<close> any other finite number, carried by its
  ECMAScript decimal text, \<open>VNonFinite\<close> one of NaN and the infinities. \<open>VObj\<close> is a plain object
  (prototype \<open>Object.prototype\<close> or \<open>null\<close>) with own enumerable data properties in insertion order;
  \<open>VOpaque\<close> is everything else (functions, symbols, big integers, class instances, proxies,
  objects with accessor, symbol or hidden properties, sparse or subclassed arrays).
\<close>

datatype jsvalue =
    VUndefined
  | VNull
  | VBool bool
  | VNum int
  | VFrac string
  | VNonFinite
  | VStr string
  | VArr "jsvalue list"
  | VObj "(string \<times> jsvalue) list"
  | VOpaque

type_synonym fields = "(string \<times> jsvalue) list"

definition hasOwn :: "fields \<Rightarrow> string \<Rightarrow> bool" where
  "hasOwn fs k = (map_of fs k \<noteq> None)"

definition getp :: "fields \<Rightarrow> string \<Rightarrow> jsvalue" where
  "getp fs k = (case map_of fs k of None \<Rightarrow> VUndefined | Some v \<Rightarrow> v)"

text \<open>
  The object filled by assignments \<open>result[key] = child\<close> on an empty literal: an assignment to
  \<open>__proto__\<close> is no own property, and an object given to it replaces the prototype.
\<close>

definition assigned_object :: "fields \<Rightarrow> jsvalue" where
  "assigned_object fs =
     (case map_of fs ''__proto__'' of
        Some (VObj _) \<Rightarrow> VOpaque
      | Some (VArr _) \<Rightarrow> VOpaque
      | Some VOpaque \<Rightarrow> VOpaque
      | _ \<Rightarrow> VObj (filter (\<lambda>f. fst f \<noteq> ''__proto__'') fs))"

definition keys_within :: "fields \<Rightarrow> string list \<Rightarrow> bool" where
  "keys_within fs allowed = list_all (\<lambda>(k, v). k \<in> set allowed) fs"

definition has_all :: "fields \<Rightarrow> string list \<Rightarrow> bool" where
  "has_all fs required = list_all (hasOwn fs) required"

definition MAX_SAFE_INTEGER :: int where
  "MAX_SAFE_INTEGER = 9007199254740991"

fun is_safe_integer :: "jsvalue \<Rightarrow> bool" where
  "is_safe_integer (VNum n) = (- MAX_SAFE_INTEGER \<le> n \<and> n \<le> MAX_SAFE_INTEGER)"
| "is_safe_integer v = False"

fun as_string :: "js_error \<Rightarrow> jsvalue \<Rightarrow> string result" where
  "as_string e (VStr s) = Inr s"
| "as_string e v = Inl e"

fun as_bool :: "js_error \<Rightarrow> jsvalue \<Rightarrow> bool result" where
  "as_bool e (VBool b) = Inr b"
| "as_bool e v = Inl e"

fun as_fields :: "js_error \<Rightarrow> jsvalue \<Rightarrow> fields result" where
  "as_fields e (VObj fs) = Inr fs"
| "as_fields e v = Inl e"

fun as_array :: "js_error \<Rightarrow> jsvalue \<Rightarrow> jsvalue list result" where
  "as_array e (VArr xs) = Inr xs"
| "as_array e v = Inl e"

lemma as_string_Inr [simp, result_inv]: "as_string e v = Inr s \<longleftrightarrow> v = VStr s"
  by (cases v) auto

lemma as_bool_Inr [simp, result_inv]: "as_bool e v = Inr b \<longleftrightarrow> v = VBool b"
  by (cases v) auto

lemma as_fields_Inr [simp, result_inv]: "as_fields e v = Inr fs \<longleftrightarrow> v = VObj fs"
  by (cases v) auto

lemma as_array_Inr [simp, result_inv]: "as_array e v = Inr xs \<longleftrightarrow> v = VArr xs"
  by (cases v) auto

section \<open>Strings\<close>

text \<open>Characters are compared through integers when a witness is evaluated.\<close>

lemma less_eq_char_int [code]: "c \<le> d \<longleftrightarrow> (of_char c :: int) \<le> of_char d"
  by (metis less_eq_char_def of_nat_le_iff of_nat_of_char)

lemma less_char_int [code]: "c < d \<longleftrightarrow> (of_char c :: int) < of_char d"
  by (metis less_char_def of_nat_less_iff of_nat_of_char)

definition is_js_space :: "char \<Rightarrow> bool" where
  "is_js_space c = ((of_char c :: int) \<in> {9, 10, 11, 12, 13, 32, 160})"

definition trim :: "string \<Rightarrow> string" where
  "trim s = rev (dropWhile is_js_space (rev (dropWhile is_js_space s)))"

definition is_digit :: "char \<Rightarrow> bool" where
  "is_digit c = (CHR ''0'' \<le> c \<and> c \<le> CHR ''9'')"

definition digit_value :: "char \<Rightarrow> int" where
  "digit_value c = (of_char c :: int) - 48"

definition number_of_digits :: "string \<Rightarrow> int" where
  "number_of_digits ds = foldl (\<lambda>n c. 10 * n + digit_value c) 0 ds"

text \<open>A fixed-width regular expression as a list of character classes; \<open>search\<close> is \<open>RegExp.test\<close>.\<close>

fun match_here :: "(char \<Rightarrow> bool) list \<Rightarrow> string \<Rightarrow> bool" where
  "match_here [] s = True"
| "match_here (p # ps) [] = False"
| "match_here (p # ps) (c # s) = (p c \<and> match_here ps s)"

fun search :: "(char \<Rightarrow> bool) list \<Rightarrow> string \<Rightarrow> bool" where
  "search ps [] = match_here ps []"
| "search ps (c # s) = (match_here ps (c # s) \<or> search ps s)"

definition ascii_lower :: "char \<Rightarrow> char" where
  "ascii_lower c = (if CHR ''A'' \<le> c \<and> c \<le> CHR ''Z'' then char_of (of_char c + 32 :: int) else c)"

definition literal :: "string \<Rightarrow> (char \<Rightarrow> bool) list" where
  "literal s = map (\<lambda>c x. x = c) s"

definition literal_i :: "string \<Rightarrow> (char \<Rightarrow> bool) list" where
  "literal_i s = map (\<lambda>c x. ascii_lower x = ascii_lower c) s"

lemma match_here_literal: "match_here (literal p) s \<longleftrightarrow> (\<exists>r. s = p @ r)"
proof (induction p arbitrary: s)
  case Nil
  then show ?case by (simp add: literal_def)
next
  case (Cons c p)
  then show ?case by (cases s) (auto simp: literal_def)
qed

text \<open>A search for a literal is substring containment.\<close>

lemma search_literal: "search (literal p) s \<longleftrightarrow> (\<exists>a b. s = a @ p @ b)"
proof (induction s)
  case Nil
  then show ?case by (auto simp: match_here_literal)
next
  case (Cons c s)
  have "(\<exists>a b. c # s = a @ p @ b) \<longleftrightarrow> (\<exists>r. c # s = p @ r) \<or> (\<exists>a b. s = a @ p @ b)"
    by (metis append_Cons append_Nil append_eq_Cons_conv)
  with Cons.IH show ?case by (simp add: match_here_literal)
qed

end
