(* ===== verification/Js_Order.thy ===== *)
theory Js_Order
  imports Js_Prelude
begin

text \<open>
  Ordering in the ECMAScript library. A comparator is a function into the integers as
  \<open>Array.prototype.sort\<close> takes it; the locale \<open>js_comparator\<close> states what the program's comparators
  must satisfy for the sort to be meaningful, \<open>keyed_comparator\<close> derives it from an order on keys,
  and the components interpret the latter for each comparator of the sources.
\<close>

section \<open>Set de-duplication\<close>

text \<open>\<open>[...new Set(xs)]\<close>: first occurrences, in order.\<close>

definition js_set :: "'a list \<Rightarrow> 'a list" where
  "js_set xs = rev (remdups (rev xs))"

lemma set_js_set [simp]: "set (js_set xs) = set xs"
  by (simp add: js_set_def)

lemma distinct_js_set [simp]: "distinct (js_set xs)"
  by (simp add: js_set_def)

lemma js_set_distinct [simp]: "distinct xs \<Longrightarrow> js_set xs = xs"
  by (simp add: js_set_def distinct_remdups_id)

lemma length_js_set_le: "length (js_set xs) \<le> length xs"
  using length_remdups_leq [of "rev xs"] by (simp add: js_set_def)

section \<open>The stable sort\<close>

fun js_insert :: "('a \<Rightarrow> 'a \<Rightarrow> int) \<Rightarrow> 'a \<Rightarrow> 'a list \<Rightarrow> 'a list" where
  "js_insert cmp x [] = [x]"
| "js_insert cmp x (y # ys) = (if cmp x y \<le> 0 then x # y # ys else y # js_insert cmp x ys)"

definition js_sort :: "('a \<Rightarrow> 'a \<Rightarrow> int) \<Rightarrow> 'a list \<Rightarrow> 'a list" where
  "js_sort cmp xs = foldr (js_insert cmp) xs []"

text \<open>The idiom \<open>a || b\<close> on comparison results.\<close>

definition cmp_or :: "int \<Rightarrow> int \<Rightarrow> int" where
  "cmp_or a b = (if a \<noteq> 0 then a else b)"

lemma mset_js_insert [simp]: "mset (js_insert cmp x xs) = add_mset x (mset xs)"
  by (induction xs) auto

lemma mset_js_sort [simp]: "mset (js_sort cmp xs) = mset xs"
  by (induction xs) (auto simp: js_sort_def)

lemma set_js_sort [simp]: "set (js_sort cmp xs) = set xs"
  by (metis mset_js_sort set_mset_mset)

lemma length_js_sort [simp]: "length (js_sort cmp xs) = length xs"
  by (metis mset_js_sort size_mset)

lemma distinct_js_sort [simp]: "distinct (js_sort cmp xs) = distinct xs"
  by (metis mset_js_sort mset_eq_imp_distinct_iff)

lemma js_sort_eq_Nil [simp]: "js_sort cmp xs = [] \<longleftrightarrow> xs = []"
  by (metis length_0_conv length_js_sort)

locale js_comparator =
  fixes cmp :: "'a \<Rightarrow> 'a \<Rightarrow> int"
  assumes cmp_flip: "cmp x y < 0 \<longleftrightarrow> 0 < cmp y x"
    and cmp_trans: "cmp x y \<le> 0 \<Longrightarrow> cmp y z \<le> 0 \<Longrightarrow> cmp x z \<le> 0"
begin

lemma cmp_total: "\<not> cmp x y \<le> 0 \<Longrightarrow> cmp y x \<le> 0"
  using cmp_flip [of y x] by linarith

lemma js_insert_sorted:
  "sorted_wrt (\<lambda>a b. cmp a b \<le> 0) xs \<Longrightarrow> sorted_wrt (\<lambda>a b. cmp a b \<le> 0) (js_insert cmp x xs)"
proof (induction xs)
  case Nil
  then show ?case by simp
next
  case (Cons y ys)
  have "set (js_insert cmp x ys) = insert x (set ys)"
    by (metis mset_js_insert set_mset_add_mset_insert set_mset_mset)
  with Cons show ?case
    by (auto intro: cmp_trans cmp_total)
qed

lemma js_sort_sorted: "sorted_wrt (\<lambda>a b. cmp a b \<le> 0) (js_sort cmp xs)"
  by (induction xs) (auto simp: js_sort_def intro: js_insert_sorted)

lemma js_sort_hd_least:
  assumes "x \<in> set xs"
  shows "cmp (hd (js_sort cmp xs)) x \<le> 0"
proof -
  from assms have "x \<in> set (js_sort cmp xs)" by simp
  moreover obtain y ys where s: "js_sort cmp xs = y # ys"
    using assms by (cases "js_sort cmp xs") auto
  ultimately have "x = y \<or> x \<in> set ys" by simp
  moreover have "cmp y y \<le> 0" using cmp_total by blast
  ultimately show ?thesis
    using js_sort_sorted [of xs] s by auto
qed

lemma js_insert_least: "(\<And>y. y \<in> set xs \<Longrightarrow> cmp x y \<le> 0) \<Longrightarrow> js_insert cmp x xs = x # xs"
  by (cases xs) auto

text \<open>Sorting a sorted list changes nothing: a second sort of the same data is a no-op.\<close>

lemma js_sort_id: "sorted_wrt (\<lambda>a b. cmp a b \<le> 0) xs \<Longrightarrow> js_sort cmp xs = xs"
  by (induction xs) (auto simp: js_sort_def js_insert_least)

end

locale keyed_comparator =
  fixes cmp :: "'a \<Rightarrow> 'a \<Rightarrow> int" and key :: "'a \<Rightarrow> 'k::linorder"
  assumes cmp_neg: "cmp x y < 0 \<longleftrightarrow> key x < key y"
    and cmp_pos: "0 < cmp x y \<longleftrightarrow> key y < key x"
begin

lemma cmp_le: "cmp x y \<le> 0 \<longleftrightarrow> key x \<le> key y"
  using cmp_pos [of x y] by (metis not_le)

lemma js_insert_insort_key: "js_insert cmp x xs = insort_key key x xs"
  by (induction xs) (auto simp: cmp_le)

text \<open>A comparator that compares keys sorts as the library's \<open>sort_key\<close>.\<close>

lemma js_sort_sort_key: "js_sort cmp xs = sort_key key xs"
  unfolding js_sort_def sort_key_def
  by (induction xs) (simp_all add: js_insert_insort_key)

end

sublocale keyed_comparator \<subseteq> js_comparator
  by unfold_locales (auto simp: cmp_le cmp_neg cmp_pos)

section \<open>String comparison\<close>

text \<open>\<open>src/src/serialization/validate.ts\<close>: comparison by code units.\<close>

definition compareCanonicalStrings :: "string \<Rightarrow> string \<Rightarrow> int" where
  "compareCanonicalStrings left right =
     (if left = right then 0 else if left < right then - 1 else 1)"

interpretation canonical_strings: keyed_comparator compareCanonicalStrings "\<lambda>s. s"
  by unfold_locales (auto simp: compareCanonicalStrings_def)

text \<open>The de-duplicated, code-unit sorted list of a collection of strings.\<close>

definition canonicalTagOrder :: "string list \<Rightarrow> string list" where
  "canonicalTagOrder tags = js_sort compareCanonicalStrings (js_set tags)"

lemma canonicalTagOrder_sort: "canonicalTagOrder xs = sort (js_set xs)"
  by (simp add: canonicalTagOrder_def canonical_strings.js_sort_sort_key)

lemma set_canonicalTagOrder [simp]: "set (canonicalTagOrder xs) = set xs"
  by (simp add: canonicalTagOrder_def)

lemma distinct_canonicalTagOrder [simp]: "distinct (canonicalTagOrder xs)"
  by (simp add: canonicalTagOrder_def)

lemma sorted_canonicalTagOrder [simp]: "sorted (canonicalTagOrder xs)"
  by (simp add: canonicalTagOrder_sort)

text \<open>The order depends only on which strings occur.\<close>

lemma canonicalTagOrder_cong: "set xs = set ys \<Longrightarrow> canonicalTagOrder xs = canonicalTagOrder ys"
  by (simp add: sorted_distinct_set_unique)

lemma canonicalTagOrder_idem [simp]: "canonicalTagOrder (canonicalTagOrder xs) = canonicalTagOrder xs"
  by (rule canonicalTagOrder_cong) simp

section \<open>Own-property order\<close>

text \<open>
  The specification's own-property order: array indices first, in numeric order, then the other
  string keys in insertion order.
\<close>

definition is_array_index :: "string \<Rightarrow> bool" where
  "is_array_index k =
     (if k = [] \<or> \<not> list_all is_digit k then False
      else if k = ''0'' then True
      else hd k \<noteq> CHR ''0'' \<and> number_of_digits k < 4294967295)"

definition own_order :: "(string \<times> 'v) list \<Rightarrow> (string \<times> 'v) list" where
  "own_order fs =
     sort_key (\<lambda>f. number_of_digits (fst f)) (filter (\<lambda>f. is_array_index (fst f)) fs)
     @ filter (\<lambda>f. \<not> is_array_index (fst f)) fs"

lemma mset_own_order [simp]: "mset (own_order fs) = mset fs"
  by (simp add: own_order_def)

lemma set_own_order [simp]: "set (own_order fs) = set fs"
  by (metis mset_own_order set_mset_mset)

lemma length_own_order [simp]: "length (own_order fs) = length fs"
  by (metis mset_own_order size_mset)

definition field_order :: "(string \<times> 'v) list \<Rightarrow> (string \<times> 'v) list" where
  "field_order fs = sort_key fst fs"

lemma mset_field_order [simp]: "mset (field_order fs) = mset fs"
  by (simp add: field_order_def)

lemma set_field_order [simp]: "set (field_order fs) = set fs"
  by (simp add: field_order_def)

lemma length_field_order [simp]: "length (field_order fs) = length fs"
  by (simp add: field_order_def)

lemma field_order_unique:
  assumes "mset fs = mset gs" and "distinct (map fst fs)"
  shows "field_order fs = field_order gs"
proof -
  have "mset (map fst fs) = mset (map fst gs)"
    using assms(1) by simp
  from mset_eq_imp_distinct_iff [OF this] assms(2) have d: "distinct (map fst gs)"
    by blast
  have df: "distinct (map fst (field_order hs)) = distinct (map fst hs)"
    for hs :: "(string \<times> 'a) list"
    by (rule mset_eq_imp_distinct_iff) simp
  have "set fs = set gs"
    using assms(1) by (rule mset_eq_setD)
  then have "inj_on fst (set (field_order fs) \<union> set (field_order gs))"
    using assms(2) by (simp add: distinct_map)
  moreover have "sorted (map fst (field_order fs))" "sorted (map fst (field_order gs))"
    by (simp_all add: field_order_def)
  moreover have "distinct (map fst (field_order fs))" "distinct (map fst (field_order gs))"
    using assms d by (simp_all add: df)
  moreover have "set (field_order fs) = set (field_order gs)"
    using \<open>set fs = set gs\<close> by simp
  ultimately show ?thesis using map_sorted_distinct_set_unique by blast
qed

end
