(* ===== verification/Boundary_Json.thy ===== *)
theory Boundary_Json
  imports Js_Order
begin

text \<open>
  The canonical JSON serializer, \<open>src/src/serialization/boundary-json.ts\<close> and \<open>canonicalJson\<close> of
  \<open>src/src/serialization/validate.ts\<close>: a bounded clone of a hostile value through its data
  properties, then a deterministic text. The values of the model are finite trees, so the
  source's cycle check (\<open>seen\<close>) never fires; what its other descriptor checks reject is \<open>VOpaque\<close>.
  The JSON reader is the \<open>JSON.parse\<close> of the language.
\<close>

section \<open>Well-formed Unicode\<close>

text \<open>The code units of a string, and the scan for unpaired surrogates.\<close>

definition code_units :: "string \<Rightarrow> int list" where
  "code_units s = map of_char s"

fun isWellFormedUnicode :: "int list \<Rightarrow> bool" where
  "isWellFormedUnicode [] = True"
| "isWellFormedUnicode (codeUnit # rest) =
     (if 0xD800 \<le> codeUnit \<and> codeUnit \<le> 0xDBFF
      then (case rest of
              [] \<Rightarrow> False
            | trailing # rest' \<Rightarrow>
                if 0xDC00 \<le> trailing \<and> trailing \<le> 0xDFFF then isWellFormedUnicode rest' else False)
      else if 0xDC00 \<le> codeUnit \<and> codeUnit \<le> 0xDFFF then False
      else isWellFormedUnicode rest)"

text \<open>\<open>Buffer.byteLength(value, 'utf8')\<close> on code units; an unpaired surrogate counts as U+FFFD.\<close>

fun utf8_length :: "int list \<Rightarrow> int" where
  "utf8_length [] = 0"
| "utf8_length (u # us) =
     (if u < 0x80 then 1 + utf8_length us
      else if u < 0x800 then 2 + utf8_length us
      else if 0xD800 \<le> u \<and> u \<le> 0xDBFF
      then (case us of
              [] \<Rightarrow> 3
            | t # rest \<Rightarrow>
                if 0xDC00 \<le> t \<and> t \<le> 0xDFFF then 4 + utf8_length rest else 3 + utf8_length us)
      else 3 + utf8_length us)"

definition byteLength :: "string \<Rightarrow> int" where
  "byteLength s = utf8_length (code_units s)"

section \<open>The bounded clone\<close>

record clone_options =
  failure :: js_error
  maximumDepth :: nat
  maximumNodes :: int
  maximumStringBytes :: int

record clone_budget =
  nodes :: int
  stringBytes :: int

definition spend_node :: "clone_options \<Rightarrow> clone_budget \<Rightarrow> clone_budget result" where
  "spend_node opt b =
     (let b' = b\<lparr>nodes := nodes b + 1\<rparr> in
      if nodes b' > maximumNodes opt then Inl (failure opt) else Inr b')"

definition spend_string :: "clone_options \<Rightarrow> string \<Rightarrow> clone_budget \<Rightarrow> clone_budget result" where
  "spend_string opt s b =
     (if \<not> isWellFormedUnicode (code_units s) then Inl (failure opt)
      else let b' = b\<lparr>stringBytes := stringBytes b + byteLength s\<rparr> in
        if stringBytes b' > maximumStringBytes opt then Inl (failure opt) else Inr b')"

lemma size_list_field_order [termination_simp]:
  "size_list f (field_order fs) = size_list f fs"
proof -
  have "size_list f xs = sum_mset (image_mset f (mset xs)) + size (mset xs)" for xs :: "(string \<times> 'a) list"
    by (induction xs) auto
  then show ?thesis by simp
qed

function (sequential) cloneBoundaryJson ::
    "clone_options \<Rightarrow> nat \<Rightarrow> jsvalue \<Rightarrow> clone_budget \<Rightarrow> (jsvalue \<times> clone_budget) result"
  and cloneItems ::
    "clone_options \<Rightarrow> nat \<Rightarrow> jsvalue list \<Rightarrow> clone_budget \<Rightarrow> (jsvalue list \<times> clone_budget) result"
  and cloneFields ::
    "clone_options \<Rightarrow> nat \<Rightarrow> fields \<Rightarrow> clone_budget \<Rightarrow> (fields \<times> clone_budget) result"
where
  "cloneBoundaryJson opt depth VNull b = rbind (spend_node opt b) (\<lambda>b. Inr (VNull, b))"
| "cloneBoundaryJson opt depth (VBool x) b = rbind (spend_node opt b) (\<lambda>b. Inr (VBool x, b))"
| "cloneBoundaryJson opt depth (VNum n) b = rbind (spend_node opt b) (\<lambda>b. Inr (VNum n, b))"
| "cloneBoundaryJson opt depth (VFrac t) b = rbind (spend_node opt b) (\<lambda>b. Inr (VFrac t, b))"
| "cloneBoundaryJson opt depth (VStr s) b =
     rbind (spend_node opt b) (\<lambda>b. rbind (spend_string opt s b) (\<lambda>b. Inr (VStr s, b)))"
| "cloneBoundaryJson opt depth (VArr xs) b =
     rbind (spend_node opt b) (\<lambda>b.
       if depth \<ge> maximumDepth opt then Inl (failure opt)
       else rbind (cloneItems opt (depth + 1) xs b) (\<lambda>(ys, b). Inr (VArr ys, b)))"
| "cloneBoundaryJson opt depth (VObj fs) b =
     rbind (spend_node opt b) (\<lambda>b.
       if depth \<ge> maximumDepth opt then Inl (failure opt)
       else rbind (cloneFields opt (depth + 1) (field_order fs) b) (\<lambda>(gs, b). Inr (VObj gs, b)))"
| "cloneBoundaryJson opt depth v b = rbind (spend_node opt b) (\<lambda>b. Inl (failure opt))"
| "cloneItems opt depth [] b = Inr ([], b)"
| "cloneItems opt depth (x # xs) b =
     rbind (cloneBoundaryJson opt depth x b) (\<lambda>(y, b).
       rbind (cloneItems opt depth xs b) (\<lambda>(ys, b). Inr (y # ys, b)))"
| "cloneFields opt depth [] b = Inr ([], b)"
| "cloneFields opt depth ((k, v) # fs) b =
     rbind (spend_string opt k b) (\<lambda>b.
       rbind (cloneBoundaryJson opt depth v b) (\<lambda>(w, b).
         rbind (cloneFields opt depth fs b) (\<lambda>(gs, b). Inr ((k, w) # gs, b))))"
  by pat_completeness auto
termination
  by (relation "measure (\<lambda>x. case x of
        Inl (opt, d, v, b) \<Rightarrow> size v
      | Inr (Inl (opt, d, xs, b)) \<Rightarrow> size_list size xs
      | Inr (Inr (opt, d, fs, b)) \<Rightarrow> size_list (size_prod (\<lambda>_. 0) size) fs)")
    (auto simp: size_list_field_order)

section \<open>The text\<close>

definition digit_char :: "nat \<Rightarrow> char" where
  "digit_char n = char_of (48 + n)"

fun nat_text :: "nat \<Rightarrow> string" where
  "nat_text n = (if n < 10 then [digit_char n] else nat_text (n div 10) @ [digit_char (n mod 10)])"

declare nat_text.simps [simp del]

definition int_text :: "int \<Rightarrow> string" where
  "int_text n = (if n < 0 then CHR ''-'' # nat_text (nat (- n)) else nat_text (nat n))"

text \<open>The same digits computed over the integers, for evaluation.\<close>

function pos_text :: "int \<Rightarrow> string" where
  "pos_text n = (if n < 10 then [digit_char (nat n)] else pos_text (n div 10) @ [digit_char (nat (n mod 10))])"
  by pat_completeness auto
termination
  by (relation "measure nat") auto

declare pos_text.simps [simp del]

lemma pos_text_int: "pos_text (int n) = nat_text n"
proof (induction n rule: nat_text.induct)
  case (1 n)
  have "int n div 10 = int (n div 10)" "nat (int n mod 10) = n mod 10"
    by (simp_all add: zdiv_int nat_mod_as_int)
  with 1 show ?case
    by (simp add: nat_text.simps [of n] pos_text.simps [of "int n"])
qed

lemma int_text_code [code]:
  "int_text n = (if n < 0 then CHR ''-'' # pos_text (- n) else pos_text n)"
  using pos_text_int [of "nat n"] pos_text_int [of "nat (- n)"] by (auto simp: int_text_def split: if_splits)

lemma nat_text_code [code]: "nat_text n = pos_text (int n)"
  by (simp add: pos_text_int)

definition hex_char :: "nat \<Rightarrow> char" where
  "hex_char n = (if n < 10 then char_of (48 + n) else char_of (87 + n))"

text \<open>\<open>JSON.stringify\<close> of one code unit and of a string.\<close>

definition escape_char :: "char \<Rightarrow> string" where
  "escape_char c =
     (if c = CHR 0x22 then [CHR 0x5C, CHR 0x22]
      else if c = CHR 0x5C then [CHR 0x5C, CHR 0x5C]
      else if c = CHR 0x08 then [CHR 0x5C, CHR ''b'']
      else if c = CHR 0x09 then [CHR 0x5C, CHR ''t'']
      else if c = CHR 0x0A then [CHR 0x5C, CHR ''n'']
      else if c = CHR 0x0C then [CHR 0x5C, CHR ''f'']
      else if c = CHR 0x0D then [CHR 0x5C, CHR ''r'']
      else if c < CHR 0x20
      then let u = (of_char c :: nat) in
        [CHR 0x5C, CHR ''u'', CHR ''0'', CHR ''0'', hex_char (u div 16), hex_char (u mod 16)]
      else [c])"

definition json_quote :: "string \<Rightarrow> string" where
  "json_quote s = CHR 0x22 # concat (map escape_char s) @ [CHR 0x22]"

fun join_commas :: "string list \<Rightarrow> string" where
  "join_commas [] = []"
| "join_commas [x] = x"
| "join_commas (x # xs) = x @ CHR '','' # join_commas xs"

lemma size_field_less: "f \<in> set fs \<Longrightarrow> size (snd f) < Suc (size_list (size_prod (\<lambda>_. 0) size) fs)"
  by (induction fs) (auto simp: size_prod_def split: prod.splits)

lemma size_elem_less: "x \<in> set xs \<Longrightarrow> f x < Suc (size_list f xs)"
  by (induction xs) auto

text \<open>
  The serializer reads \<open>Object.keys\<close>, so the text lists the fields in own-property order. The last
  equation is for values that are not boundary JSON values, which the source's type excludes.
\<close>

function (sequential) stringifyBoundaryJson :: "jsvalue \<Rightarrow> string" where
  "stringifyBoundaryJson VNull = ''null''"
| "stringifyBoundaryJson (VBool b) = (if b then ''true'' else ''false'')"
| "stringifyBoundaryJson (VNum n) = int_text n"
| "stringifyBoundaryJson (VFrac t) = t"
| "stringifyBoundaryJson (VStr s) = json_quote s"
| "stringifyBoundaryJson (VArr xs) =
     CHR ''['' # join_commas (map stringifyBoundaryJson xs) @ '']''"
| "stringifyBoundaryJson (VObj fs) =
     CHR ''{'' # join_commas (map (\<lambda>f. json_quote (fst f) @ CHR '':'' # stringifyBoundaryJson (snd f))
                               (own_order fs)) @ ''}''"
| "stringifyBoundaryJson v = []"
  by pat_completeness auto
termination
  by (relation "measure size") (auto simp: size_field_less size_elem_less)

definition canonical_options :: clone_options where
  "canonical_options =
     \<lparr>failure = KiokukoError VALIDATION_ERROR ''value must be JSON-compatible'',
      maximumDepth = 128, maximumNodes = MAX_SAFE_INTEGER,
      maximumStringBytes = MAX_SAFE_INTEGER\<rparr>"

definition canonicalJson :: "jsvalue \<Rightarrow> string result" where
  "canonicalJson v =
     rbind (cloneBoundaryJson canonical_options 0 v \<lparr>nodes = 0, stringBytes = 0\<rparr>)
       (\<lambda>(w, b). Inr (stringifyBoundaryJson w))"

text \<open>The digest of the canonical text; \<open>sha256\<close> is \<open>node:crypto\<close>'s hexadecimal SHA-256.\<close>

definition canonicalContentHash :: "(string \<Rightarrow> string) \<Rightarrow> jsvalue \<Rightarrow> string result" where
  "canonicalContentHash sha256 v = rbind (canonicalJson v) (\<lambda>t. Inr (sha256 t))"

section \<open>Equality up to the order of fields\<close>

text \<open>
  Two values are the same JSON value when they differ at most in the order in which the fields of
  their objects were added.
\<close>

inductive same_json :: "jsvalue \<Rightarrow> jsvalue \<Rightarrow> bool" where
  same_refl: "same_json v v"
| same_arr: "list_all2 same_json xs ys \<Longrightarrow> same_json (VArr xs) (VArr ys)"
| same_obj: "distinct (map fst gs) \<Longrightarrow> mset hs = mset gs \<Longrightarrow>
     list_all2 (\<lambda>f g. fst f = fst g \<and> same_json (snd f) (snd g)) fs hs \<Longrightarrow>
     same_json (VObj fs) (VObj gs)"

text \<open>An object has one value per key, and a number carries its canonical text.\<close>

fun distinct_keys :: "jsvalue \<Rightarrow> bool" where
  "distinct_keys (VArr xs) = list_all distinct_keys xs"
| "distinct_keys (VObj fs) = (distinct (map fst fs) \<and> list_all (\<lambda>f. distinct_keys (snd f)) fs)"
| "distinct_keys v = True"

lemma insort_key_list_all2:
  assumes "list_all2 (\<lambda>f g. fst f = fst g \<and> P f g) fs gs" and "fst f = fst g" and "P f g"
  shows "list_all2 (\<lambda>f g. fst f = fst g \<and> P f g) (insort_key fst f fs) (insort_key fst g gs)"
  using assms by (induction rule: list_all2_induct) auto

lemma field_order_list_all2:
  assumes "list_all2 (\<lambda>f g. fst f = fst g \<and> P f g) fs gs"
  shows "list_all2 (\<lambda>f g. fst f = fst g \<and> P f g) (field_order fs) (field_order gs)"
  using assms unfolding field_order_def
  by (induction rule: list_all2_induct) (auto intro: insort_key_list_all2)

lemma cloneItems_cong:
  "list_all2 (\<lambda>x y. \<forall>d b. cloneBoundaryJson opt d x b = cloneBoundaryJson opt d y b) xs ys \<Longrightarrow>
   cloneItems opt d xs b = cloneItems opt d ys b"
proof (induction arbitrary: b rule: list_all2_induct)
  case Nil
  then show ?case by simp
next
  case (Cons x xs y ys)
  then show ?case by simp
qed

lemma cloneFields_cong:
  "list_all2 (\<lambda>f g. fst f = fst g \<and>
     (\<forall>d b. cloneBoundaryJson opt d (snd f) b = cloneBoundaryJson opt d (snd g) b)) fs gs \<Longrightarrow>
   cloneFields opt d fs b = cloneFields opt d gs b"
proof (induction arbitrary: b rule: list_all2_induct)
  case Nil
  then show ?case by simp
next
  case (Cons f fs g gs)
  then show ?case by (cases f; cases g) simp
qed

text \<open>The clone does not see the order of fields.\<close>

lemma clone_same_json:
  "same_json v w \<Longrightarrow> \<forall>d b. cloneBoundaryJson opt d v b = cloneBoundaryJson opt d w b"
proof (induction rule: same_json.induct)
  case (same_refl v)
  then show ?case by simp
next
  case (same_arr xs ys)
  then have "list_all2 (\<lambda>x y. \<forall>d b. cloneBoundaryJson opt d x b = cloneBoundaryJson opt d y b) xs ys"
    by (auto elim: list_all2_mono)
  from cloneItems_cong [OF this]
  have "cloneItems opt d xs b = cloneItems opt d ys b" for d b .
  then show ?case by (simp cong: if_cong)
next
  case (same_obj gs hs fs)
  then have "list_all2 (\<lambda>f g. fst f = fst g \<and>
      (\<forall>d b. cloneBoundaryJson opt d (snd f) b = cloneBoundaryJson opt d (snd g) b)) fs hs"
    by (auto elim: list_all2_mono)
  from cloneFields_cong [OF field_order_list_all2 [OF this]]
  have "cloneFields opt d (field_order fs) b = cloneFields opt d (field_order hs) b" for d b .
  moreover have "field_order hs = field_order gs"
    using field_order_unique [of gs hs] same_obj by simp
  ultimately show ?case by (simp cong: if_cong)
qed

text \<open>A successful clone is the same JSON value as its source.\<close>

lemma clone_result_same:
  "cloneBoundaryJson opt d v b = Inr (w, b') \<Longrightarrow> distinct_keys v \<Longrightarrow> same_json v w \<and> distinct_keys w"
  "cloneItems opt d xs b = Inr (ys, b') \<Longrightarrow> list_all distinct_keys xs \<Longrightarrow>
     list_all2 same_json xs ys \<and> list_all distinct_keys ys"
  "cloneFields opt d fs b = Inr (gs, b') \<Longrightarrow> list_all (\<lambda>f. distinct_keys (snd f)) fs \<Longrightarrow>
     list_all2 (\<lambda>f g. fst f = fst g \<and> same_json (snd f) (snd g)) fs gs
     \<and> list_all (\<lambda>f. distinct_keys (snd f)) gs \<and> map fst gs = map fst fs"
proof (induction opt d v b and opt d xs b and opt d fs b arbitrary: w b' and ys b' and gs b'
    rule: cloneBoundaryJson_cloneItems_cloneFields.induct)
  case (6 opt depth xs b)
  then show ?case
    by (fastforce simp: result_inv intro: same_arr split: if_splits)
next
  case (7 opt depth fs b)
  then obtain b1 gs where
    gs: "cloneFields opt (depth + 1) (field_order fs) b1 = Inr (gs, b')" and w: "w = VObj gs"
      and b1: "spend_node opt b = Inr b1" and dep: "\<not> maximumDepth opt \<le> depth"
    by (auto simp: result_inv split: if_splits)
  have "list_all (\<lambda>f. distinct_keys (snd f)) (field_order fs)"
    using "7.prems"(2) by (simp add: list_all_iff)
  from "7.IH" [OF b1 dep gs this]
  have l2: "list_all2 (\<lambda>f g. fst f = fst g \<and> same_json (snd f) (snd g)) (field_order fs) gs"
    and dk: "list_all (\<lambda>f. distinct_keys (snd f)) gs"
    and ks: "map fst gs = map fst (field_order fs)" by simp_all
  have "mset (map fst (field_order fs)) = mset (map fst fs)" by simp
  then have "distinct (map fst gs)"
    using ks "7.prems"(2) mset_eq_imp_distinct_iff by fastforce
  moreover obtain hs where "list_all2 (\<lambda>f g. fst f = fst g \<and> same_json (snd f) (snd g)) fs hs"
      and "mset hs = mset gs"
    using list_all2_reorder_left_invariance [OF l2, of fs] by auto
  ultimately show ?case using w dk by (auto intro: same_obj)
qed (auto simp: result_inv intro: same_refl)

text \<open>
  The canonical text of a value does not depend on the order in which its objects' fields were
  added, at any depth.
\<close>

lemma canonicalJson_same_json: "same_json v w \<Longrightarrow> canonicalJson v = canonicalJson w"
  by (simp add: canonicalJson_def clone_same_json)

end
