(* ===== verification/Json_Reader.thy ===== *)
theory Json_Reader
  imports Boundary_Json
begin

text \<open>
  The language's \<open>JSON.parse\<close>, and that it inverts the canonical serializer: what the program
  writes to a JSON column it reads back as the same value. A number token must be the
  canonical ECMAScript text of its value (the only form the serializer writes), and a \<open>\u\<close> escape
  a code unit of the string model; other tokens are rejected.
\<close>

section \<open>The reader\<close>

definition is_json_space :: "char \<Rightarrow> bool" where
  "is_json_space c = (c \<in> {CHR 0x09, CHR 0x0A, CHR 0x0D, CHR 0x20})"

definition skip_ws :: "string \<Rightarrow> string" where
  "skip_ws s = dropWhile is_json_space s"

definition hex_value :: "char \<Rightarrow> nat option" where
  "hex_value c =
     (let u = (of_char c :: nat) in
      if 48 \<le> u \<and> u \<le> 57 then Some (u - 48)
      else if 97 \<le> u \<and> u \<le> 102 then Some (u - 87)
      else if 65 \<le> u \<and> u \<le> 70 then Some (u - 55)
      else None)"

definition unescape :: "char \<Rightarrow> char option" where
  "unescape c =
     (if c = CHR 0x22 \<or> c = CHR 0x5C \<or> c = CHR ''/'' then Some c
      else if c = CHR ''b'' then Some (CHR 0x08)
      else if c = CHR ''t'' then Some (CHR 0x09)
      else if c = CHR ''n'' then Some (CHR 0x0A)
      else if c = CHR ''f'' then Some (CHR 0x0C)
      else if c = CHR ''r'' then Some (CHR 0x0D)
      else None)"

definition unicode_escape :: "char \<Rightarrow> char \<Rightarrow> char \<Rightarrow> char \<Rightarrow> char option" where
  "unicode_escape c1 c2 c3 c4 =
     (case (hex_value c1, hex_value c2, hex_value c3, hex_value c4) of
        (Some a, Some b, Some c, Some d) \<Rightarrow>
          if a = 0 \<and> b = 0 then Some (char_of (16 * c + d)) else None
      | _ \<Rightarrow> None)"

text \<open>The rest of a string literal, after its opening quote.\<close>

fun parse_chars :: "string \<Rightarrow> (string \<times> string) option" where
  "parse_chars [] = None"
| "parse_chars (c # cs) =
     (if c = CHR 0x22 then Some ([], cs)
      else if c = CHR 0x5C then
        (case cs of
           [] \<Rightarrow> None
         | e # rest \<Rightarrow>
             if e = CHR ''u'' then
               (case rest of
                  c1 # c2 # c3 # c4 # rest' \<Rightarrow>
                    (case unicode_escape c1 c2 c3 c4 of
                       None \<Rightarrow> None
                     | Some x \<Rightarrow> map_option (\<lambda>(t, r). (x # t, r)) (parse_chars rest'))
                | _ \<Rightarrow> None)
             else (case unescape e of
                     None \<Rightarrow> None
                   | Some x \<Rightarrow> map_option (\<lambda>(t, r). (x # t, r)) (parse_chars rest)))
      else if c < CHR 0x20 then None
      else map_option (\<lambda>(t, r). (c # t, r)) (parse_chars cs))"

definition is_number_char :: "char \<Rightarrow> bool" where
  "is_number_char c = (is_digit c \<or> c \<in> {CHR ''-'', CHR ''+'', CHR ''.'', CHR ''e''})"

definition is_nat_text :: "string \<Rightarrow> bool" where
  "is_nat_text t = (t \<noteq> [] \<and> list_all is_digit t \<and> (t = ''0'' \<or> hd t \<noteq> CHR ''0''))"

text \<open>An integer of magnitude below \<open>10\<^sup>2\<^sup>1\<close>, in decimal.\<close>

definition is_int_text :: "string \<Rightarrow> bool" where
  "is_int_text t =
     (case t of
        [] \<Rightarrow> False
      | c # u \<Rightarrow> if c = CHR ''-'' then is_nat_text u \<and> u \<noteq> ''0'' \<and> length u \<le> 21
                 else is_nat_text t \<and> length t \<le> 21)"

definition int_of_text :: "string \<Rightarrow> int" where
  "int_of_text t =
     (case t of
        [] \<Rightarrow> 0
      | c # u \<Rightarrow> if c = CHR ''-'' then - number_of_digits u else number_of_digits t)"

text \<open>A fraction (\<open>12.5\<close>) or an exponent (\<open>1.5e-7\<close>, \<open>1e+21\<close>), optionally negative.\<close>

definition is_exponent :: "string \<Rightarrow> bool" where
  "is_exponent t =
     (case t of
        e # s # ds \<Rightarrow> e = CHR ''e'' \<and> (s = CHR ''+'' \<or> s = CHR ''-'') \<and> is_nat_text ds
      | _ \<Rightarrow> False)"

definition is_frac_text :: "string \<Rightarrow> bool" where
  "is_frac_text t =
     (let u = (case t of c # cs \<Rightarrow> if c = CHR ''-'' then cs else t | [] \<Rightarrow> []);
          ip = takeWhile is_digit u; r = dropWhile is_digit u
      in list_all is_number_char t \<and> is_nat_text ip \<and>
         (case r of
            [] \<Rightarrow> False
          | c # cs \<Rightarrow>
              if c = CHR ''.''
              then (let fp = takeWhile is_digit cs; x = dropWhile is_digit cs
                    in fp \<noteq> [] \<and> last fp \<noteq> CHR ''0'' \<and> (x = [] \<or> is_exponent x))
              else is_exponent r))"

definition parse_number :: "string \<Rightarrow> (jsvalue \<times> string) option" where
  "parse_number s =
     (let t = takeWhile is_number_char s; r = dropWhile is_number_char s
      in if is_int_text t then Some (VNum (int_of_text t), r)
         else if is_frac_text t then Some (VFrac t, r)
         else None)"

fun parse_word :: "string \<Rightarrow> string \<Rightarrow> string option" where
  "parse_word [] s = Some s"
| "parse_word (w # ws) [] = None"
| "parse_word (w # ws) (c # cs) = (if w = c then parse_word ws cs else None)"

fun put_field :: "fields \<Rightarrow> string \<Rightarrow> jsvalue \<Rightarrow> fields" where
  "put_field [] k v = [(k, v)]"
| "put_field ((k', v') # fs) k v = (if k' = k then (k, v) # fs else (k', v') # put_field fs k v)"

definition from_entries :: "fields \<Rightarrow> fields" where
  "from_entries kvs = foldl (\<lambda>fs (k, v). put_field fs k v) [] kvs"

fun parse_value :: "nat \<Rightarrow> string \<Rightarrow> (jsvalue \<times> string) option"
  and parse_items :: "nat \<Rightarrow> string \<Rightarrow> (jsvalue list \<times> string) option"
  and parse_members :: "nat \<Rightarrow> string \<Rightarrow> (fields \<times> string) option"
where
  "parse_value 0 s = None"
| "parse_value (Suc n) s =
     (case skip_ws s of
        [] \<Rightarrow> None
      | c # cs \<Rightarrow>
          if c = CHR 0x22 then map_option (\<lambda>(t, r). (VStr t, r)) (parse_chars cs)
          else if c = CHR ''['' then
            (case skip_ws cs of
               [] \<Rightarrow> None
             | d # ds \<Rightarrow> if d = CHR '']'' then Some (VArr [], ds)
                         else map_option (\<lambda>(xs, r). (VArr xs, r)) (parse_items n cs))
          else if c = CHR ''{'' then
            (case skip_ws cs of
               [] \<Rightarrow> None
             | d # ds \<Rightarrow> if d = CHR ''}'' then Some (VObj [], ds)
                         else map_option (\<lambda>(fs, r). (VObj (from_entries fs), r)) (parse_members n cs))
          else if c = CHR ''n'' then map_option (\<lambda>r. (VNull, r)) (parse_word ''ull'' cs)
          else if c = CHR ''t'' then map_option (\<lambda>r. (VBool True, r)) (parse_word ''rue'' cs)
          else if c = CHR ''f'' then map_option (\<lambda>r. (VBool False, r)) (parse_word ''alse'' cs)
          else parse_number (c # cs))"
| "parse_items 0 s = None"
| "parse_items (Suc n) s =
     (case parse_value n s of
        None \<Rightarrow> None
      | Some (v, r) \<Rightarrow>
          (case skip_ws r of
             [] \<Rightarrow> None
           | c # cs \<Rightarrow>
               if c = CHR '','' then map_option (\<lambda>(vs, r). (v # vs, r)) (parse_items n cs)
               else if c = CHR '']'' then Some ([v], cs) else None))"
| "parse_members 0 s = None"
| "parse_members (Suc n) s =
     (case skip_ws s of
        [] \<Rightarrow> None
      | q # qs \<Rightarrow>
          if q \<noteq> CHR 0x22 then None
          else (case parse_chars qs of
                  None \<Rightarrow> None
                | Some (k, r) \<Rightarrow>
                    (case skip_ws r of
                       [] \<Rightarrow> None
                     | c # cs \<Rightarrow>
                         if c \<noteq> CHR '':'' then None
                         else (case parse_value n cs of
                                 None \<Rightarrow> None
                               | Some (v, r) \<Rightarrow>
                                   (case skip_ws r of
                                      [] \<Rightarrow> None
                                    | c # cs \<Rightarrow>
                                        if c = CHR '','' then map_option (\<lambda>(fs, r). ((k, v) # fs, r)) (parse_members n cs)
                                        else if c = CHR ''}'' then Some ([(k, v)], cs) else None)))))"

text \<open>
  Fuel: an array or object takes two steps of fuel and has two brackets, a further item or field takes one
  step and has a comma and a value, so one more than the length of the text is enough.
\<close>

definition json_parse :: "string \<Rightarrow> jsvalue option" where
  "json_parse s =
     (case parse_value (Suc (length s)) s of
        None \<Rightarrow> None
      | Some (v, r) \<Rightarrow> if skip_ws r = [] then Some v else None)"

section \<open>Reading back strings and integers\<close>

lemma hex_value_hex_char: "k < 16 \<Longrightarrow> hex_value (hex_char k) = Some k"
  by (auto simp: hex_value_def hex_char_def of_char_of Let_def)

lemma parse_chars_escape_char:
  "parse_chars (escape_char c @ t) = map_option (\<lambda>(x, r). (c # x, r)) (parse_chars t)"
proof -
  define u where "u = (of_char c :: nat)"
  have less: "c < CHR 0x20 \<longleftrightarrow> u < 32" by (simp add: less_char_def u_def)
  consider "c \<in> {CHR 0x22, CHR 0x5C, CHR 0x08, CHR 0x09, CHR 0x0A, CHR 0x0C, CHR 0x0D}"
    | "c \<notin> {CHR 0x22, CHR 0x5C, CHR 0x08, CHR 0x09, CHR 0x0A, CHR 0x0C, CHR 0x0D}" "u < 32"
    | "c \<notin> {CHR 0x22, CHR 0x5C, CHR 0x08, CHR 0x09, CHR 0x0A, CHR 0x0C, CHR 0x0D}" "\<not> u < 32"
    by blast
  then show ?thesis
  proof cases
    case 1
    then show ?thesis by (auto simp: escape_char_def unescape_def)
  next
    case 2
    then have esc: "escape_char c = [CHR 0x5C, CHR ''u'', CHR ''0'', CHR ''0'', hex_char (u div 16), hex_char (u mod 16)]"
      by (simp add: escape_char_def Let_def less) (simp add: u_def)
    have z: "hex_value (CHR ''0'') = Some 0" by (simp add: hex_value_def)
    have "unicode_escape (CHR ''0'') (CHR ''0'') (hex_char (u div 16)) (hex_char (u mod 16)) = Some (char_of u)"
      using 2 by (simp add: unicode_escape_def hex_value_hex_char z)
    then show ?thesis by (simp add: esc u_def)
  next
    case 3
    then show ?thesis by (simp add: escape_char_def less)
  qed
qed

lemma parse_chars_quote: "parse_chars (concat (map escape_char s) @ CHR 0x22 # r) = Some (s, r)"
  by (induction s) (simp_all add: parse_chars_escape_char)

lemma number_of_digits_snoc: "number_of_digits (ds @ [d]) = 10 * number_of_digits ds + digit_value d"
  by (simp add: number_of_digits_def)

lemma digit_value_nat: "digit_value c = int (of_char c) - 48"
  by (metis digit_value_def of_nat_of_char)

lemma digit_char_props [simp]:
  "n < 10 \<Longrightarrow> is_digit (digit_char n)" "n < 10 \<Longrightarrow> digit_value (digit_char n) = int n"
  by (auto simp: is_digit_def digit_char_def digit_value_nat less_eq_char_def)

lemma digit_char_zero [simp]: "n < 10 \<Longrightarrow> digit_char n = CHR ''0'' \<longleftrightarrow> n = 0"
  by (simp add: digit_char_def char_of_eq_iff take_bit_nat_eq_self)

lemma nat_text_value: "number_of_digits (nat_text n) = int n"
proof (induction n rule: nat_text.induct)
  case (1 n)
  have "10 * int (n div 10) + int (n mod 10) = int n" by presburger
  with 1 show ?case
    by (cases "n < 10") (simp_all add: nat_text.simps [of n] number_of_digits_snoc, simp add: number_of_digits_def)
qed

lemma nat_text_digits: "list_all is_digit (nat_text n) \<and> nat_text n \<noteq> []"
proof (induction n rule: nat_text.induct)
  case (1 n)
  then show ?case by (cases "n < 10") (simp_all add: nat_text.simps [of n])
qed

lemma nat_text_hd: "0 < n \<Longrightarrow> hd (nat_text n) \<noteq> CHR ''0''"
proof (induction n rule: nat_text.induct)
  case (1 n)
  then show ?case
    using nat_text_digits [of "n div 10"] by (cases "n < 10") (simp_all add: nat_text.simps [of n])
qed

lemma nat_text_length: "n < 10 ^ k \<Longrightarrow> 0 < k \<Longrightarrow> length (nat_text n) \<le> k"
proof (induction n arbitrary: k rule: nat_text.induct)
  case (1 n)
  show ?case
  proof (cases "n < 10")
    case True
    with 1 show ?thesis by (simp add: nat_text.simps [of n])
  next
    case False
    with "1.prems" obtain j where k: "k = Suc j" and j: "0 < j"
      by (cases k; cases "k - 1") auto
    with "1.prems" have "n div 10 < 10 ^ j" by auto
    from "1.IH" [OF False this j] show ?thesis
      using False k by (simp add: nat_text.simps [of n])
  qed
qed

lemma is_nat_text_nat_text: "is_nat_text (nat_text n)"
  using nat_text_digits [of n] nat_text_hd [of n]
  by (cases "n = 0") (auto simp: is_nat_text_def nat_text.simps [of 0] digit_char_def)

lemma digit_is_number_char: "is_digit c \<Longrightarrow> is_number_char c"
  by (simp add: is_number_char_def)

lemma is_digit_not_minus: "is_digit c \<Longrightarrow> c \<noteq> CHR ''-''"
  by (auto simp: is_digit_def less_eq_char_def)

lemma nat_text_Cons:
  obtains c cs where "nat_text n = c # cs" and "is_digit c"
  using nat_text_digits [of n] by (cases "nat_text n") auto

lemma int_text_number_chars: "list_all is_number_char (int_text n)"
proof -
  have "list_all is_number_char (nat_text k)" for k
    using nat_text_digits [of k] by (auto simp: list_all_iff digit_is_number_char)
  then show ?thesis by (simp add: int_text_def) (simp add: is_number_char_def)
qed

lemma int_text_is_int: "\<bar>n\<bar> < 10 ^ 21 \<Longrightarrow> is_int_text (int_text n)"
proof -
  assume n: "\<bar>n\<bar> < 10 ^ 21"
  show ?thesis
  proof (cases "n < 0")
    case True
    with n have "nat (- n) < 10 ^ 21" by simp
    from nat_text_length [OF this] have len: "length (nat_text (nat (- n))) \<le> 21" by simp
    have "nat_text (nat (- n)) \<noteq> ''0''"
      using True nat_text_hd [of "nat (- n)"] by auto
    with True len show ?thesis
      by (simp add: is_int_text_def int_text_def is_nat_text_nat_text)
  next
    case False
    with n have "nat n < 10 ^ 21" by (simp add: nat_less_iff)
    from nat_text_length [OF this] have len: "length (nat_text (nat n)) \<le> 21" by simp
    obtain c cs where ct: "nat_text (nat n) = c # cs" and d: "is_digit c" by (rule nat_text_Cons)
    show ?thesis
      using False len is_nat_text_nat_text [of "nat n"] is_digit_not_minus [OF d]
      by (simp add: is_int_text_def int_text_def ct)
  qed
qed

lemma int_of_int_text: "int_of_text (int_text n) = n"
proof (cases "n < 0")
  case True
  then show ?thesis by (simp add: int_of_text_def int_text_def nat_text_value)
next
  case False
  obtain c cs where ct: "nat_text (nat n) = c # cs" and d: "is_digit c" by (rule nat_text_Cons)
  have "number_of_digits (c # cs) = int (nat n)"
    using nat_text_value [of "nat n"] ct by simp
  with False show ?thesis
    using is_digit_not_minus [OF d] by (simp add: int_of_text_def int_text_def ct)
qed

lemma frac_text_not_int: "is_frac_text t \<Longrightarrow> \<not> is_int_text t"
proof
  assume f: "is_frac_text t" and i: "is_int_text t"
  define u where "u = (case t of c # cs \<Rightarrow> if c = CHR ''-'' then cs else t | [] \<Rightarrow> [])"
  have "list_all is_digit u"
    using i by (cases t) (auto simp: is_int_text_def is_nat_text_def u_def split: if_splits)
  then have "dropWhile is_digit u = []" by (simp add: list_all_iff)
  with f show False unfolding is_frac_text_def u_def [symmetric] by (simp add: Let_def)
qed

section \<open>The round trip\<close>

text \<open>The values the serializer writes: JSON data with canonical numbers and one value per key.\<close>

fun json_ok :: "jsvalue \<Rightarrow> bool" where
  "json_ok (VNum n) = (\<bar>n\<bar> < 10 ^ 21)"
| "json_ok (VFrac t) = is_frac_text t"
| "json_ok (VArr xs) = list_all json_ok xs"
| "json_ok (VObj fs) = (distinct (map fst fs) \<and> list_all (\<lambda>f. json_ok (snd f)) fs)"
| "json_ok VUndefined = False"
| "json_ok VNonFinite = False"
| "json_ok VOpaque = False"
| "json_ok v = True"

definition value_start :: "char \<Rightarrow> bool" where
  "value_start c = (is_digit c \<or> c \<in> {CHR 0x22, CHR ''['', CHR ''{'', CHR ''n'', CHR ''t'', CHR ''f'', CHR ''-''})"

lemma frac_text_start: "is_frac_text t \<Longrightarrow> \<exists>c cs. t = c # cs \<and> (is_digit c \<or> c = CHR ''-'')"
  by (cases t) (auto simp: is_frac_text_def is_nat_text_def Let_def split: if_splits)

lemma int_text_start: "\<exists>c cs. int_text n = c # cs \<and> (is_digit c \<or> c = CHR ''-'')"
  by (metis int_text_def nat_text_Cons)

lemma stringify_start: "json_ok v \<Longrightarrow> \<exists>c cs. stringifyBoundaryJson v = c # cs \<and> value_start c"
  using int_text_start frac_text_start
  by (cases v) (fastforce simp: value_start_def json_quote_def)+

lemma value_start_facts:
  assumes "value_start c"
  shows "\<not> is_json_space c" and "c \<noteq> CHR '']''" and "c \<noteq> CHR ''}''"
  using assms by (auto simp: value_start_def is_json_space_def is_digit_def less_eq_char_def)

lemma skip_ws_start: "value_start c \<Longrightarrow> skip_ws (c # cs) = c # cs"
  by (simp add: skip_ws_def value_start_facts)

definition ends_number :: "string \<Rightarrow> bool" where
  "ends_number r = (r = [] \<or> \<not> is_number_char (hd r))"

lemma parse_number_token:
  assumes "list_all is_number_char t" and "ends_number r"
  shows "parse_number (t @ r) =
    (if is_int_text t then Some (VNum (int_of_text t), r)
     else if is_frac_text t then Some (VFrac t, r) else None)"
proof -
  have "takeWhile is_number_char (t @ r) = t \<and> dropWhile is_number_char (t @ r) = r"
    using assms by (cases r) (auto simp: ends_number_def list_all_iff takeWhile_append dropWhile_append)
  then show ?thesis by (simp add: parse_number_def)
qed

lemma parse_value_number:
  assumes "list_all is_number_char t" and "t = c # cs" and "is_digit c \<or> c = CHR ''-''"
  shows "parse_value (Suc n) (t @ r) = parse_number (t @ r)"
proof -
  have "value_start c" using assms by (auto simp: value_start_def)
  moreover have "c \<notin> {CHR 0x22, CHR ''['', CHR ''{'', CHR ''n'', CHR ''t'', CHR ''f''}"
    using assms(3) by (auto simp: is_digit_def less_eq_char_def)
  ultimately show ?thesis using assms(2) by (simp add: skip_ws_start)
qed

text \<open>What the reader does with the text of a value, for one element of a container.\<close>

definition reads_back :: "jsvalue \<Rightarrow> bool" where
  "reads_back v =
     (\<forall>n r. length (stringifyBoundaryJson v) \<le> n \<longrightarrow> ends_number r \<longrightarrow>
        (\<exists>w. parse_value n (stringifyBoundaryJson v @ r) = Some (w, r) \<and> same_json v w))"

lemma ends_number_punct: "c \<in> {CHR '','', CHR '']'', CHR ''}''} \<Longrightarrow> ends_number (c # r)"
  by (auto simp: ends_number_def is_number_char_def is_digit_def less_eq_char_def)

lemma skip_ws_punct:
  "c \<in> {CHR '','', CHR ''['', CHR '']'', CHR ''{'', CHR ''}'', CHR '':'', CHR 0x22} \<Longrightarrow>
   skip_ws (c # r) = c # r"
  by (auto simp: skip_ws_def is_json_space_def)

lemma reads_backE:
  assumes "reads_back v" and "length (stringifyBoundaryJson v) \<le> n"
    and "c \<in> {CHR '','', CHR '']'', CHR ''}''}"
  obtains w where "parse_value n (stringifyBoundaryJson v @ c # r) = Some (w, c # r)" and "same_json v w"
  using assms ends_number_punct [OF assms(3)] unfolding reads_back_def by blast

lemma parse_items_text:
  assumes "list_all reads_back xs" and "xs \<noteq> []"
    and "length (join_commas (map stringifyBoundaryJson xs)) < n"
  shows "\<exists>ws. parse_items n (join_commas (map stringifyBoundaryJson xs) @ CHR '']'' # r) = Some (ws, r)
           \<and> list_all2 same_json xs ws"
  using assms
proof (induction xs arbitrary: n rule: induct_list012)
  case 1
  then show ?case by simp
next
  case (2 x)
  then obtain m where n: "n = Suc m" and m: "length (stringifyBoundaryJson x) \<le> m"
    by (cases n) auto
  have "reads_back x" using "2.prems" by simp
  from reads_backE [OF this m] obtain w where
    "parse_value m (stringifyBoundaryJson x @ CHR '']'' # r) = Some (w, CHR '']'' # r)"
      and "same_json x w" by blast
  then show ?case by (simp add: n skip_ws_punct)
next
  case (3 x y xs)
  then obtain m where n: "n = Suc m" and m: "length (stringifyBoundaryJson x) \<le> m"
    and m': "length (join_commas (map stringifyBoundaryJson (y # xs))) < m"
    by (cases n) auto
  let ?rest = "join_commas (map stringifyBoundaryJson (y # xs)) @ CHR '']'' # r"
  have "reads_back x" using "3.prems" by simp
  from reads_backE [OF this m, of "CHR '',''" ?rest] obtain w where
    "parse_value m (stringifyBoundaryJson x @ CHR '','' # ?rest) = Some (w, CHR '','' # ?rest)"
      and "same_json x w" by blast
  moreover obtain ws where "parse_items m ?rest = Some (ws, r)" and "list_all2 same_json (y # xs) ws"
    using "3.IH"(2) [of m] m' "3.prems" by auto
  ultimately show ?case by (simp add: n skip_ws_punct)
qed

abbreviation field_text :: "string \<times> jsvalue \<Rightarrow> string" where
  "field_text f \<equiv> json_quote (fst f) @ CHR '':'' # stringifyBoundaryJson (snd f)"

abbreviation same_field :: "string \<times> jsvalue \<Rightarrow> string \<times> jsvalue \<Rightarrow> bool" where
  "same_field f g \<equiv> fst f = fst g \<and> same_json (snd f) (snd g)"

lemma parse_members_text:
  assumes "list_all (\<lambda>f. reads_back (snd f)) fs" and "fs \<noteq> []"
    and "length (join_commas (map field_text fs)) < n"
  shows "\<exists>ws. parse_members n (join_commas (map field_text fs) @ CHR ''}'' # r) = Some (ws, r)
           \<and> list_all2 same_field fs ws"
  using assms
proof (induction fs arbitrary: n rule: induct_list012)
  case 1
  then show ?case by simp
next
  case (2 f)
  then obtain m where n: "n = Suc m" and m: "length (stringifyBoundaryJson (snd f)) \<le> m"
    by (cases n) auto
  have "reads_back (snd f)" using "2.prems" by simp
  from reads_backE [OF this m] obtain w where
    "parse_value m (stringifyBoundaryJson (snd f) @ CHR ''}'' # r) = Some (w, CHR ''}'' # r)"
      and "same_json (snd f) w" by blast
  then show ?case by (simp add: n skip_ws_punct json_quote_def parse_chars_quote)
next
  case (3 f g fs)
  then obtain m where n: "n = Suc m" and m: "length (stringifyBoundaryJson (snd f)) \<le> m"
    and m': "length (join_commas (map field_text (g # fs))) < m"
    by (cases n) auto
  let ?rest = "join_commas (map field_text (g # fs)) @ CHR ''}'' # r"
  have "reads_back (snd f)" using "3.prems" by simp
  from reads_backE [OF this m, of "CHR '',''" ?rest] obtain w where
    "parse_value m (stringifyBoundaryJson (snd f) @ CHR '','' # ?rest) = Some (w, CHR '','' # ?rest)"
      and "same_json (snd f) w" by blast
  moreover obtain ws where "parse_members m ?rest = Some (ws, r)" and "list_all2 same_field (g # fs) ws"
    using "3.IH"(2) [of m] m' "3.prems" by auto
  ultimately show ?case by (simp add: n skip_ws_punct json_quote_def parse_chars_quote)
qed

lemma put_field_new: "k \<notin> fst ` set fs \<Longrightarrow> put_field fs k v = fs @ [(k, v)]"
  by (induction fs) auto

lemma from_entries_distinct: "distinct (map fst fs) \<Longrightarrow> from_entries fs = fs"
proof (induction fs rule: rev_induct)
  case Nil
  then show ?case by (simp add: from_entries_def)
next
  case (snoc f fs)
  then show ?case
    by (cases f) (auto simp: from_entries_def put_field_new)
qed

lemma reads_back_obj:
  assumes "distinct (map fst fs)" and "list_all (\<lambda>f. reads_back (snd f)) fs"
  shows "reads_back (VObj fs)"
  unfolding reads_back_def
proof (intro allI impI)
  fix n r
  assume n: "length (stringifyBoundaryJson (VObj fs)) \<le> n"
  let ?gs = "own_order fs"
  obtain m where m: "n = Suc m" and len: "length (join_commas (map field_text ?gs)) < m"
    using n by (cases n) auto
  have gs: "list_all (\<lambda>f. reads_back (snd f)) ?gs"
    using assms(2) by (simp add: list_all_iff)
  show "\<exists>w. parse_value n (stringifyBoundaryJson (VObj fs) @ r) = Some (w, r) \<and> same_json (VObj fs) w"
  proof (cases "?gs")
    case Nil
    then have "fs = []" by (metis set_own_order set_empty)
    then show ?thesis by (auto simp: m own_order_def skip_ws_def is_json_space_def intro: same_refl)
  next
    case (Cons g hs)
    then obtain ws where
      ws: "parse_members m (join_commas (map field_text ?gs) @ CHR ''}'' # r) = Some (ws, r)"
      and l2: "list_all2 same_field ?gs ws"
      using parse_members_text [OF gs _ len, of r] by auto
    obtain us where us: "list_all2 same_field fs us" and "mset us = mset ws"
      using list_all2_reorder_left_invariance [OF l2, of fs] by auto
    have "map fst us = map fst fs"
      using us by (induction rule: list_all2_induct) auto
    then have "distinct (map fst us)" using assms(1) by simp
    moreover have "mset (map fst us) = mset (map fst ws)"
      using \<open>mset us = mset ws\<close> by simp
    ultimately have d: "distinct (map fst ws)"
      using mset_eq_imp_distinct_iff by blast
    obtain cs where q: "join_commas (map field_text ?gs) = CHR 0x22 # cs"
      by (cases hs) (auto simp: Cons json_quote_def)
    have "parse_value n (stringifyBoundaryJson (VObj fs) @ r) = Some (VObj ws, r)"
      using ws by (simp add: m q skip_ws_punct from_entries_distinct [OF d])
    moreover have "same_json (VObj fs) (VObj ws)"
      using d \<open>mset us = mset ws\<close> us by (rule same_obj)
    ultimately show ?thesis by blast
  qed
qed

lemma reads_back_arr:
  assumes "list_all reads_back xs" and "list_all json_ok xs"
  shows "reads_back (VArr xs)"
  unfolding reads_back_def
proof (intro allI impI)
  fix n r
  assume n: "length (stringifyBoundaryJson (VArr xs)) \<le> n"
  obtain m where m: "n = Suc m" and len: "length (join_commas (map stringifyBoundaryJson xs)) < m"
    using n by (cases n) auto
  show "\<exists>w. parse_value n (stringifyBoundaryJson (VArr xs) @ r) = Some (w, r) \<and> same_json (VArr xs) w"
  proof (cases xs)
    case Nil
    then show ?thesis by (auto simp: m skip_ws_def is_json_space_def intro: same_refl)
  next
    case (Cons x ys)
    then obtain ws where
      ws: "parse_items m (join_commas (map stringifyBoundaryJson xs) @ CHR '']'' # r) = Some (ws, r)"
      and l2: "list_all2 same_json xs ws"
      using parse_items_text [OF assms(1) _ len, of r] by auto
    obtain c cs where c: "stringifyBoundaryJson x = c # cs" "value_start c"
      using stringify_start [of x] assms(2) Cons by auto
    obtain ds where q: "join_commas (map stringifyBoundaryJson xs) = c # ds"
      using c by (cases ys) (auto simp: Cons)
    have "parse_value n (stringifyBoundaryJson (VArr xs) @ r) = Some (VArr ws, r)"
      using ws c by (simp add: m q skip_ws_start skip_ws_punct value_start_facts)
    with l2 show ?thesis by (blast intro: same_arr)
  qed
qed

lemma reads_back_number:
  assumes "list_all is_number_char t" and "t = c # cs" and "is_digit c \<or> c = CHR ''-''"
    and "stringifyBoundaryJson v = t"
    and "(if is_int_text t then Some (VNum (int_of_text t)) else if is_frac_text t then Some (VFrac t) else None) = Some v"
  shows "reads_back v"
  unfolding reads_back_def
proof (intro allI impI)
  fix n r
  assume "length (stringifyBoundaryJson v) \<le> n" and r: "ends_number r"
  then obtain m where m: "n = Suc m" using assms(2,4) by (cases n) auto
  have "parse_value n (t @ r) = parse_number (t @ r)"
    unfolding m by (rule parse_value_number [OF assms(1-3)])
  with parse_number_token [OF assms(1) r] assms(5)
  have "parse_value n (t @ r) = Some (v, r)" by (auto split: if_splits)
  then show "\<exists>w. parse_value n (stringifyBoundaryJson v @ r) = Some (w, r) \<and> same_json v w"
    using assms(4) by (auto intro: same_refl)
qed

lemma reads_back_json: "json_ok v \<Longrightarrow> reads_back v"
proof (induction v rule: json_ok.induct)
  case (1 k)
  obtain c cs where "int_text k = c # cs" "is_digit c \<or> c = CHR ''-''"
    using int_text_start by blast
  then show ?case
    using reads_back_number [of "int_text k" c cs "VNum k"] int_text_number_chars [of k] int_text_is_int [of k]
      int_of_int_text [of k] "1.prems" by simp
next
  case (2 t)
  then obtain c cs where "t = c # cs" "is_digit c \<or> c = CHR ''-''"
    using frac_text_start [of t] by auto
  moreover have "list_all is_number_char t"
    using 2 by (simp add: is_frac_text_def Let_def)
  ultimately show ?case
    using reads_back_number [of t c cs "VFrac t"] frac_text_not_int [of t] 2 by simp
next
  case (3 xs)
  then show ?case by (auto simp: list_all_iff intro!: reads_back_arr)
next
  case (4 fs)
  then show ?case by (auto simp: list_all_iff intro!: reads_back_obj)
next
  case "8_1"
  then show ?case
    by (auto simp: reads_back_def skip_ws_def is_json_space_def intro: same_refl dest!: Suc_le_D)
next
  case "8_2"
  then show ?case
    by (auto simp: reads_back_def skip_ws_def is_json_space_def intro: same_refl dest!: Suc_le_D)
next
  case "8_3"
  then show ?case
    by (auto simp: reads_back_def json_quote_def skip_ws_punct parse_chars_quote intro: same_refl dest!: Suc_le_D)
qed simp_all

text \<open>Reading the text of a JSON value gives the same JSON value.\<close>

lemma json_parse_stringify:
  assumes "json_ok v"
  shows "\<exists>w. json_parse (stringifyBoundaryJson v) = Some w \<and> same_json v w"
proof -
  have "ends_number []" by (simp add: ends_number_def)
  with reads_back_json [OF assms] obtain w where
    "parse_value (Suc (length (stringifyBoundaryJson v))) (stringifyBoundaryJson v @ []) = Some (w, [])"
      and "same_json v w"
    unfolding reads_back_def by (meson le_SucI order_refl)
  then show ?thesis by (simp add: json_parse_def skip_ws_def)
qed

section \<open>JSON columns\<close>

text \<open>
  The representation invariant of \<open>jsvalue\<close>: an object has one value per key and a number is carried
  by its canonical text.
\<close>

fun json_repr :: "jsvalue \<Rightarrow> bool" where
  "json_repr (VNum n) = (\<bar>n\<bar> < 10 ^ 21)"
| "json_repr (VFrac t) = is_frac_text t"
| "json_repr (VArr xs) = list_all json_repr xs"
| "json_repr (VObj fs) = (distinct (map fst fs) \<and> list_all (\<lambda>f. json_repr (snd f)) fs)"
| "json_repr v = True"

lemma json_repr_distinct_keys: "json_repr v \<Longrightarrow> distinct_keys v"
  by (induction v rule: json_repr.induct) (auto simp: list_all_iff)

lemma clone_json_ok:
  "cloneBoundaryJson opt d v b = Inr (w, b') \<Longrightarrow> json_repr v \<Longrightarrow> json_ok w"
  "cloneItems opt d xs b = Inr (ys, b') \<Longrightarrow> list_all json_repr xs \<Longrightarrow> list_all json_ok ys"
  "cloneFields opt d fs b = Inr (gs, b') \<Longrightarrow> list_all (\<lambda>f. json_repr (snd f)) fs \<Longrightarrow>
     list_all (\<lambda>f. json_ok (snd f)) gs \<and> map fst gs = map fst fs"
proof (induction opt d v b and opt d xs b and opt d fs b arbitrary: w b' and ys b' and gs b'
    rule: cloneBoundaryJson_cloneItems_cloneFields.induct)
  case (6 opt depth xs b)
  then show ?case by (fastforce simp: result_inv split: if_splits)
next
  case (7 opt depth fs b)
  then obtain b1 gs where
    gs: "cloneFields opt (depth + 1) (field_order fs) b1 = Inr (gs, b')" and w: "w = VObj gs"
      and b1: "spend_node opt b = Inr b1" and dep: "\<not> maximumDepth opt \<le> depth"
    by (auto simp: result_inv split: if_splits)
  have "list_all (\<lambda>f. json_repr (snd f)) (field_order fs)"
    using "7.prems"(2) by (simp add: list_all_iff)
  from "7.IH" [OF b1 dep gs this]
  have ok: "list_all (\<lambda>f. json_ok (snd f)) gs" and ks: "map fst gs = map fst (field_order fs)"
    by simp_all
  have "mset (map fst (field_order fs)) = mset (map fst fs)" by simp
  then have "distinct (map fst gs)"
    using ks "7.prems"(2) mset_eq_imp_distinct_iff by fastforce
  with ok w show ?case by simp
qed (auto simp: result_inv)

lemma list_all2_compose:
  assumes "list_all2 P xs ys" and "list_all2 Q ys zs" and "\<And>x y z. P x y \<Longrightarrow> Q y z \<Longrightarrow> R x z"
  shows "list_all2 R xs zs"
  using list_all2_trans [OF _ assms(1,2), of R] assms(3) by blast

inductive_cases same_arrE: "same_json (VArr ys) c"
inductive_cases same_objE: "same_json (VObj gs) c"

lemma same_json_trans: "same_json a b \<Longrightarrow> same_json b c \<Longrightarrow> same_json a c"
proof (induction arbitrary: c rule: same_json.induct)
  case (same_refl v)
  then show ?case .
next
  case (same_arr xs ys)
  note IH = same_arr.IH
  from IH have l0: "list_all2 same_json xs ys" by (rule list_all2_mono) simp
  from same_arr.prems show ?case
  proof (rule same_arrE)
    assume "c = VArr ys"
    with l0 show ?thesis by (simp add: same_json.same_arr)
  next
    fix zs assume c: "c = VArr zs" and "list_all2 same_json ys zs"
    from list_all2_compose [OF IH this(2), of same_json] have "list_all2 same_json xs zs" by blast
    then show ?thesis unfolding c by (rule same_json.same_arr)
  qed
next
  case (same_obj gs hs fs)
  note IH = same_obj.IH and m1 = \<open>mset hs = mset gs\<close>
  have l0: "list_all2 (\<lambda>f g. fst f = fst g \<and> same_json (snd f) (snd g)) fs hs"
    using IH by (rule list_all2_mono) simp
  from same_obj.prems show ?case
  proof (rule same_objE)
    assume "c = VObj gs"
    with same_json.same_obj [OF same_obj.hyps(1) m1 l0] show ?thesis by simp
  next
    fix ks js
    assume c: "c = VObj ks" and ks: "distinct (map fst ks)" "mset js = mset ks"
      and l2: "list_all2 (\<lambda>f g. fst f = fst g \<and> same_json (snd f) (snd g)) gs js"
    obtain js' where js': "list_all2 (\<lambda>f g. fst f = fst g \<and> same_json (snd f) (snd g)) hs js'"
      and m: "mset js' = mset js"
      using list_all2_reorder_left_invariance [OF l2 m1] by auto
    from list_all2_compose [OF IH js', of "\<lambda>f g. fst f = fst g \<and> same_json (snd f) (snd g)"]
    have "list_all2 (\<lambda>f g. fst f = fst g \<and> same_json (snd f) (snd g)) fs js'" by simp
    from same_json.same_obj [OF ks(1) _ this] ks(2) m show ?thesis unfolding c by simp
  qed
qed

lemma canonicalJson_read:
  assumes "json_repr v" and "canonicalJson v = Inr t"
  shows "\<exists>w. json_parse t = Some w \<and> same_json v w"
proof -
  obtain c b where c: "cloneBoundaryJson canonical_options 0 v \<lparr>nodes = 0, stringBytes = 0\<rparr> = Inr (c, b)"
    and t: "t = stringifyBoundaryJson c"
    using assms(2) by (auto simp: canonicalJson_def result_inv)
  have "json_ok c" using clone_json_ok(1) [OF c assms(1)] .
  then obtain w where w: "json_parse t = Some w" and "same_json c w"
    using json_parse_stringify t by blast
  have "same_json v c"
    using clone_result_same(1) [OF c json_repr_distinct_keys [OF assms(1)]] by simp
  with w \<open>same_json c w\<close> show ?thesis using same_json_trans by blast
qed

section \<open>What the reader returns\<close>

lemma digit_value_range: "is_digit c \<Longrightarrow> 0 \<le> digit_value c \<and> digit_value c \<le> 9"
proof -
  have "(of_char (CHR ''0'') :: int) = 48" "(of_char (CHR ''9'') :: int) = 57" by simp_all
  then show "is_digit c \<Longrightarrow> ?thesis" by (simp add: is_digit_def digit_value_def less_eq_char_int)
qed

lemma number_of_digits_bound:
  "list_all is_digit ds \<Longrightarrow> 0 \<le> number_of_digits ds \<and> number_of_digits ds < 10 ^ length ds"
proof (induction ds rule: rev_induct)
  case Nil
  then show ?case by (simp add: number_of_digits_def)
next
  case (snoc d ds)
  then show ?case using digit_value_range [of d] by (simp add: number_of_digits_snoc)
qed

lemma int_of_text_bound: "is_int_text t \<Longrightarrow> \<bar>int_of_text t\<bar> < 10 ^ 21"
proof -
  have small: "\<bar>number_of_digits u\<bar> < 10 ^ 21" if "is_nat_text u" "length u \<le> 21" for u
  proof -
    have "0 \<le> number_of_digits u" "number_of_digits u < 10 ^ length u"
      using number_of_digits_bound [of u] that(1) by (auto simp: is_nat_text_def)
    moreover have "(10 :: int) ^ length u \<le> 10 ^ 21" using that(2) by (rule power_increasing) simp
    ultimately show ?thesis by linarith
  qed
  show "is_int_text t \<Longrightarrow> ?thesis"
    using small [of t] small [of "tl t"] by (auto simp: is_int_text_def int_of_text_def split: list.splits if_splits)
qed

lemma put_field_keys: "fst ` set (put_field fs k v) = insert k (fst ` set fs)"
  by (induction fs k v rule: put_field.induct) auto

lemma put_field_repr:
  "distinct (map fst fs) \<and> list_all (\<lambda>f. json_repr (snd f)) fs \<Longrightarrow> json_repr v \<Longrightarrow>
   distinct (map fst (put_field fs k v)) \<and> list_all (\<lambda>f. json_repr (snd f)) (put_field fs k v)"
proof (induction fs k v rule: put_field.induct)
  case (2 k' v' fs k v)
  then show ?case using put_field_keys [of fs k v] by auto
qed simp

lemma from_entries_repr:
  assumes "list_all (\<lambda>f. json_repr (snd f)) kvs"
  shows "json_repr (VObj (from_entries kvs))"
proof -
  have "distinct (map fst (foldl (\<lambda>fs (k, v). put_field fs k v) acc kvs))
      \<and> list_all (\<lambda>f. json_repr (snd f)) (foldl (\<lambda>fs (k, v). put_field fs k v) acc kvs)"
    if "distinct (map fst acc) \<and> list_all (\<lambda>f. json_repr (snd f)) acc" for acc
    using assms that
  proof (induction kvs arbitrary: acc)
    case Nil
    then show ?case by simp
  next
    case (Cons f kvs)
    obtain k v where f: "f = (k, v)" by force
    have "distinct (map fst (put_field acc k v)) \<and> list_all (\<lambda>f. json_repr (snd f)) (put_field acc k v)"
      using Cons.prems f by (intro put_field_repr) simp_all
    from Cons.IH [OF _ this] Cons.prems f show ?case by simp
  qed
  from this [of "[]"] show ?thesis by (simp add: from_entries_def)
qed

lemma parse_number_repr: "parse_number s = Some (v, r) \<Longrightarrow> json_repr v"
  using int_of_text_bound by (auto simp: parse_number_def Let_def split: if_splits)

lemma parse_repr:
  "parse_value n s = Some (v, r) \<Longrightarrow> json_repr v"
  "parse_items n s = Some (vs, r) \<Longrightarrow> list_all json_repr vs"
  "parse_members n s = Some (fs, r) \<Longrightarrow> list_all (\<lambda>f. json_repr (snd f)) fs"
proof (induction n s and n s and n s arbitrary: v r and vs r and fs r
    rule: parse_value_parse_items_parse_members.induct)
  case (2 n s)
  then show ?case
    using from_entries_repr [of "[]"]
    by (auto simp: from_entries_def simp del: json_repr.simps(4)
        intro: from_entries_repr [unfolded from_entries_def] parse_number_repr split: list.splits if_splits)
next
  case (4 n s)
  then show ?case by (auto split: option.splits list.splits if_splits)
next
  case (6 n s)
  then show ?case by (auto split: option.splits list.splits if_splits prod.splits)
qed simp_all

lemma json_parse_repr: "json_parse t = Some v \<Longrightarrow> json_repr v"
  by (auto simp: json_parse_def simp del: parse_value.simps split: option.splits if_splits dest: parse_repr(1))

text \<open>Same JSON objects have the same JSON value under every key.\<close>

lemma same_json_getp:
  assumes "same_json (VObj fs) u" and "distinct (map fst fs)"
  obtains gs where "u = VObj gs" and "\<And>k. same_json (getp fs k) (getp gs k)"
  using assms(1)
proof (rule same_objE)
  assume "u = VObj fs"
  then show ?thesis using that same_json.same_refl by blast
next
  fix gs hs
  assume u: "u = VObj gs" and d: "distinct (map fst gs)" and m: "mset hs = mset gs"
    and l: "list_all2 (\<lambda>f g. fst f = fst g \<and> same_json (snd f) (snd g)) fs hs"
  have "map fst fs = map fst hs" using l by (auto simp: list_all2_conv_all_nth intro: nth_equalityI)
  then have dh: "distinct (map fst hs)" using assms(2) by simp
  have "map_of hs = map_of gs"
    using d dh m by (metis map_of_inject_set set_mset_mset)
  moreover have "same_json (getp fs k) (getp hs k)" for k
    using l by (induction rule: list_all2_induct) (auto simp: getp_def same_json.same_refl split: option.splits)
  ultimately show ?thesis using that u by (simp add: getp_def)
qed

text \<open>They have the same keys.\<close>

lemma same_json_object:
  assumes "same_json (VObj fs) u" and "distinct (map fst fs)"
  obtains gs where "u = VObj gs" and "\<And>k. same_json (getp fs k) (getp gs k)" and "mset (map fst gs) = mset (map fst fs)"
proof -
  from same_json_getp [OF assms] obtain gs where gs: "u = VObj gs" "\<And>k. same_json (getp fs k) (getp gs k)" by blast
  have "mset (map fst gs) = mset (map fst fs)"
    using assms(1)
  proof (rule same_objE)
    fix ks hs
    assume u: "u = VObj ks" and m: "mset hs = mset ks"
      and l: "list_all2 (\<lambda>f g. fst f = fst g \<and> same_json (snd f) (snd g)) fs hs"
    have "map fst fs = map fst hs" using l by (auto simp: list_all2_conv_all_nth intro: nth_equalityI)
    have "mset (map fst hs) = mset (map fst ks)" by (simp add: m)
    moreover have "ks = gs" using u gs(1) by simp
    ultimately show ?thesis using \<open>map fst fs = map fst hs\<close> by simp
  qed (use gs(1) in simp)
  with gs show ?thesis using that by blast
qed

lemma same_json_objectI:
  "list_all2 (\<lambda>f g. fst f = fst g \<and> same_json (snd f) (snd g)) fs gs \<Longrightarrow> distinct (map fst gs) \<Longrightarrow>
   same_json (VObj fs) (VObj gs)"
  by (rule same_json.same_obj [of gs gs]) simp_all

inductive_cases same_strE [elim!]: "same_json (VStr s) u"
inductive_cases same_numE [elim!]: "same_json (VNum n) u"
inductive_cases same_nullE [elim!]: "same_json VNull u"

section \<open>Properties\<close>

text \<open>
  C29: Canonical JSON identifies values exactly: two values have the same canonical text if and only
  if they are the same JSON value up to the order in which object fields were added, at any
  depth. Digests of canonical text therefore neither depend on field order nor confuse two
  different values before hashing.
\<close>

theorem canonicalJson_identifies:
  assumes "json_repr v" and "json_repr w" and "canonicalJson v = Inr t"
  shows "canonicalJson w = Inr t \<longleftrightarrow> (\<exists>u. same_json v u \<and> same_json w u)"
  using canonicalJson_read [OF assms(1,3)] canonicalJson_read [OF assms(2)] assms(3)
    canonicalJson_same_json by (metis option.inject)

theorem canonicalJson_identifies_witness:
  "\<exists>u. same_json (VObj [(''b'', VArr [VNum 1, VStr ''x'']), (''a'', VBool True)]) u
     \<and> same_json (VObj [(''a'', VBool True), (''b'', VArr [VNum 1, VStr ''x''])]) u"
proof -
  let ?v = "VObj [(''b'', VArr [VNum 1, VStr ''x'']), (''a'', VBool True)]"
  let ?w = "VObj [(''a'', VBool True), (''b'', VArr [VNum 1, VStr ''x''])]"
  let ?t = "(CHR ''{'' # json_quote ''a'' @ '':true,'' @ json_quote ''b'' @ '':[1,'' @ json_quote ''x'' @ '']}'')"
  have "json_repr ?v" "json_repr ?w" by simp_all
  moreover have "canonicalJson ?v = Inr ?t" "canonicalJson ?w = Inr ?t" by code_simp+
  ultimately show ?thesis using canonicalJson_identifies [of ?v ?w ?t] by blast
qed

text \<open>
  A value written to a JSON column as canonical text is read back by \<open>JSON.parse\<close> as a value
  with the same canonical text, so hashes recomputed from stored columns agree with the hashes
  computed when they were written.
\<close>

theorem json_column_round_trip:
  assumes "json_repr v" and "canonicalJson v = Inr t"
  shows "\<exists>w. json_parse t = Some w \<and> same_json v w \<and> canonicalJson w = Inr t"
  using canonicalJson_read [OF assms] assms(2) canonicalJson_same_json by metis

theorem json_column_round_trip_witness:
  "\<exists>w t. json_parse t = Some w \<and> canonicalJson w = Inr t \<and>
     same_json (VObj [(''k'', VArr [VNull, VNum (- 7), VFrac ''1.5''])]) w"
proof -
  let ?v = "VObj [(''k'', VArr [VNull, VNum (- 7), VFrac ''1.5''])]"
  have "json_repr ?v" by code_simp
  moreover have "canonicalJson ?v = Inr (CHR ''{'' # json_quote ''k'' @ '':[null,-7,1.5]}'')" by code_simp
  ultimately show ?thesis using json_column_round_trip by blast
qed

text \<open>
  Keys that are array indices come first, in numeric order, whatever their code-unit order: the
  property order of the language overrides the sort.
\<close>

lemma canonicalJson_integer_keys:
  "canonicalJson (VObj [(''10'', VNull), (''9'', VNull), (''1a'', VNull)]) =
   Inr (CHR ''{'' # json_quote ''9'' @ '':null,'' @ json_quote ''10'' @ '':null,'' @ json_quote ''1a'' @ '':null}'')"
  by code_simp

end
