(* ===== verification/Js_Date.thy ===== *)
theory Js_Date
  imports Js_Prelude
begin

text \<open>
  Canonical timestamps: the strings that pass the pattern of \<open>validateTimestamp\<close> and survive
  \<open>new Date(Date.parse(s)).toISOString() === s\<close>, i.e. a fixed-width UTC calendar date and time, and the
  number of milliseconds since the epoch that \<open>Date.parse\<close> returns for them.
\<close>

definition timestamp_pattern :: "(char \<Rightarrow> bool) list" where
  "timestamp_pattern =
     map (\<lambda>p. if p = CHR ''d'' then is_digit else (\<lambda>c. c = p)) ''dddd-dd-ddTdd:dd:dd.dddZ''"

definition is_leap_year :: "int \<Rightarrow> bool" where
  "is_leap_year y = (y mod 4 = 0 \<and> (y mod 100 \<noteq> 0 \<or> y mod 400 = 0))"

definition days_in_month :: "int \<Rightarrow> int \<Rightarrow> int" where
  "days_in_month y m =
     (if m = 2 then (if is_leap_year y then 29 else 28)
      else if m \<in> {4, 6, 9, 11} then 30 else 31)"

definition digits_at :: "nat \<Rightarrow> nat \<Rightarrow> string \<Rightarrow> int" where
  "digits_at i n s = number_of_digits (take n (drop i s))"

definition isCanonicalTimestamp :: "string \<Rightarrow> bool" where
  "isCanonicalTimestamp s =
     (length s = 24 \<and> match_here timestamp_pattern s \<and>
      (let y = digits_at 0 4 s; m = digits_at 5 2 s; d = digits_at 8 2 s
       in 1 \<le> m \<and> m \<le> 12 \<and> 1 \<le> d \<and> d \<le> days_in_month y m
          \<and> digits_at 11 2 s \<le> 23 \<and> digits_at 14 2 s \<le> 59 \<and> digits_at 17 2 s \<le> 59))"

text \<open>Days from the epoch to a date of the proleptic Gregorian calendar.\<close>

definition days_from_civil :: "int \<Rightarrow> int \<Rightarrow> int \<Rightarrow> int" where
  "days_from_civil y m d =
     (let y' = (if m \<le> 2 then y - 1 else y);
          era = y' div 400;
          yoe = y' - era * 400;
          doy = (153 * (if m > 2 then m - 3 else m + 9) + 2) div 5 + d - 1;
          doe = yoe * 365 + yoe div 4 - yoe div 100 + doy
      in era * 146097 + doe - 719468)"

definition date_parse :: "string \<Rightarrow> int" where
  "date_parse s =
     (((days_from_civil (digits_at 0 4 s) (digits_at 5 2 s) (digits_at 8 2 s) * 24
        + digits_at 11 2 s) * 60 + digits_at 14 2 s) * 60 + digits_at 17 2 s) * 1000
     + digits_at 20 3 s"

text \<open>\<open>toISOString\<close>: the calendar date of a day number and the fixed-width text.\<close>

definition civil_from_days :: "int \<Rightarrow> int \<times> int \<times> int" where
  "civil_from_days z =
     (let z' = z + 719468;
          era = z' div 146097;
          doe = z' - era * 146097;
          yoe = (doe - doe div 1460 + doe div 36524 - doe div 146096) div 365;
          doy = doe - (365 * yoe + yoe div 4 - yoe div 100);
          mp = (5 * doy + 2) div 153;
          m = (if mp < 10 then mp + 3 else mp - 9)
      in (yoe + era * 400 + (if m \<le> 2 then 1 else 0), m, doy - (153 * mp + 2) div 5 + 1))"

fun pad_digits :: "nat \<Rightarrow> int \<Rightarrow> string" where
  "pad_digits 0 n = []"
| "pad_digits (Suc k) n = pad_digits k (n div 10) @ [char_of (48 + n mod 10 :: int)]"

definition year_text :: "int \<Rightarrow> string" where
  "year_text y =
     (if 0 \<le> y \<and> y \<le> 9999 then pad_digits 4 y
      else (if y < 0 then ''-'' else ''+'') @ pad_digits 6 \<bar>y\<bar>)"

definition iso_string :: "int \<Rightarrow> string" where
  "iso_string ms =
     (let (y, m, d) = civil_from_days (ms div 86400000); r = ms mod 86400000
      in year_text y @ ''-'' @ pad_digits 2 m @ ''-'' @ pad_digits 2 d @ ''T''
         @ pad_digits 2 (r div 3600000) @ '':'' @ pad_digits 2 (r div 60000 mod 60) @ '':''
         @ pad_digits 2 (r div 1000 mod 60) @ ''.'' @ pad_digits 3 (r mod 1000) @ ''Z'')"

end
