(* ===== verification/Sqlite_Tx.thy ===== *)
theory Sqlite_Tx
  imports Js_Prelude
begin

text \<open>
  Transactions over SQLite: \<open>src/src/db/transaction.ts\<close>, \<open>src/src/db/sqlite-retry.ts\<close> and the batch
  savepoint of \<open>src/src/ledger/store.ts\<close>. A connection is the committed database, the working copy
  of an open transaction with its savepoints, and the outcomes the driver has in store for the
  next transaction-control statements: \<open>None\<close> for success, \<open>Some (e, applied)\<close> for a statement
  that throws \<open>e\<close>, after taking effect when \<open>applied\<close> (a commit whose acknowledgement is lost).
\<close>

section \<open>Connections and statements\<close>

record 'd connection =
  committed :: 'd
  working :: "'d option"
  savepoints :: "'d list"
  outcomes :: "(js_error \<times> bool) option list"

type_synonym ('d, 'a) operation = "'d \<Rightarrow> 'a result \<times> 'd"
type_synonym ('d, 'a) session = "'d connection \<Rightarrow> 'a result \<times> 'd connection"

definition next_outcome :: "'d connection \<Rightarrow> (js_error \<times> bool) option \<times> 'd connection" where
  "next_outcome c =
     (case outcomes c of [] \<Rightarrow> (None, c) | x # xs \<Rightarrow> (x, c\<lparr>outcomes := xs\<rparr>))"

definition exec_begin :: "('d, unit) session" where
  "exec_begin c =
     (case next_outcome c of
        (Some (e, applied), c) \<Rightarrow> (Inl e, c)
      | (None, c) \<Rightarrow>
          (case working c of
             Some d \<Rightarrow> (Inl (SqliteError 1 ''cannot start a transaction within a transaction''), c)
           | None \<Rightarrow> (Inr (), c\<lparr>working := Some (committed c), savepoints := []\<rparr>)))"

definition exec_commit :: "('d, unit) session" where
  "exec_commit c =
     (case working c of
        None \<Rightarrow> (Inl (SqliteError 1 ''cannot commit - no transaction is active''), c)
      | Some d \<Rightarrow>
          (case next_outcome c of
             (Some (e, applied), c) \<Rightarrow>
               (Inl e, if applied then c\<lparr>committed := d, working := None, savepoints := []\<rparr> else c)
           | (None, c) \<Rightarrow> (Inr (), c\<lparr>committed := d, working := None, savepoints := []\<rparr>)))"

definition exec_rollback :: "('d, unit) session" where
  "exec_rollback c =
     (case working c of
        None \<Rightarrow> (Inl (SqliteError 1 ''cannot rollback - no transaction is active''), c)
      | Some d \<Rightarrow>
          (case next_outcome c of
             (Some (e, applied), c) \<Rightarrow> (Inl e, c)
           | (None, c) \<Rightarrow> (Inr (), c\<lparr>working := None, savepoints := []\<rparr>)))"

text \<open>The statements of the operation itself run on the working copy.\<close>

definition run_operation :: "('d, 'a) operation \<Rightarrow> ('d, 'a) session" where
  "run_operation operation c =
     (let (r, d) = operation (case working c of None \<Rightarrow> committed c | Some d \<Rightarrow> d)
      in (r, case working c of None \<Rightarrow> c\<lparr>committed := d\<rparr> | Some _ \<Rightarrow> c\<lparr>working := Some d\<rparr>))"

section \<open>Bounded retry\<close>

definition LOCK_ATTEMPT_LIMIT :: nat where
  "LOCK_ATTEMPT_LIMIT = 5"

fun isSqliteLockError :: "js_error \<Rightarrow> bool" where
  "isSqliteLockError (SqliteError code m) = (code mod 256 = 5 \<or> code mod 256 = 6)"
| "isSqliteLockError e = False"

fun isSqliteOperationalError :: "js_error \<Rightarrow> bool" where
  "isSqliteOperationalError (SqliteError code m) = (code mod 256 \<in> {5, 6, 8, 10, 13, 14})"
| "isSqliteOperationalError e = False"

fun isSqliteCorruptionError :: "js_error \<Rightarrow> bool" where
  "isSqliteCorruptionError (SqliteError code m) = (code mod 256 = 11 \<or> code mod 256 = 26)"
| "isSqliteCorruptionError e = False"

text \<open>The exact primary-key and unique targets a caller turns into a conflict.\<close>

fun isSqliteUniqueConstraintError :: "js_error \<Rightarrow> string list \<Rightarrow> bool" where
  "isSqliteUniqueConstraintError (SqliteError code m) targets =
     ((code = 1555 \<or> code = 2067) \<and> list_ex (\<lambda>t. m = ''UNIQUE constraint failed: '' @ t) targets)"
| "isSqliteUniqueConstraintError e targets = False"

definition backpressure :: js_error where
  "backpressure = KiokukoError BACKPRESSURE ''SQLite remained busy after bounded retry''"

text \<open>\<open>retry_from attempt\<close> is the loop from that attempt on; the waits between attempts change no state.\<close>

function retry_from :: "nat \<Rightarrow> ('s \<Rightarrow> 'a result \<times> 's) \<Rightarrow> 's \<Rightarrow> 'a result \<times> 's" where
  "retry_from attempt operation s =
     (case operation s of
        (Inr x, s') \<Rightarrow> (Inr x, s')
      | (Inl e, s') \<Rightarrow>
          if \<not> isSqliteLockError e then (Inl e, s')
          else if attempt \<ge> LOCK_ATTEMPT_LIMIT then (Inl backpressure, s')
          else retry_from (attempt + 1) operation s')"
  by pat_completeness auto
termination
  by (relation "measure (\<lambda>(attempt, _). LOCK_ATTEMPT_LIMIT - attempt)") auto

declare retry_from.simps [simp del]

definition withSqliteLockRetry :: "('s \<Rightarrow> 'a result \<times> 's) \<Rightarrow> 's \<Rightarrow> 'a result \<times> 's" where
  "withSqliteLockRetry operation s = retry_from 1 operation s"

section \<open>Transactions\<close>

definition rollbackFailedTransaction :: "js_error \<Rightarrow> ('d, 'a) session" where
  "rollbackFailedTransaction operationError c =
     (case exec_rollback c of
        (Inl rollbackError, c) \<Rightarrow>
          (Inl (AggregateError [operationError, rollbackError]
             ''Transaction operation failed and rollback also failed''), c)
      | (Inr _, c) \<Rightarrow> (Inl operationError, c))"

definition commitOrRollback :: "('d, unit) session" where
  "commitOrRollback c =
     (case exec_commit c of
        (Inr _, c) \<Rightarrow> (Inr (), c)
      | (Inl commitError, c) \<Rightarrow>
          (case exec_rollback c of
             (Inl rollbackError, c) \<Rightarrow> (Inl (TransactionCommitUncertainError commitError rollbackError), c)
           | (Inr _, c) \<Rightarrow> (Inl commitError, c)))"

definition transaction_body :: "('d, 'a) operation \<Rightarrow> ('d, 'a) session" where
  "transaction_body operation c =
     (case exec_begin c of
        (Inl e, c) \<Rightarrow> (Inl e, c)
      | (Inr _, c) \<Rightarrow>
          (case run_operation operation c of
             (Inl e, c) \<Rightarrow> rollbackFailedTransaction e c
           | (Inr x, c) \<Rightarrow>
               (case commitOrRollback c of
                  (Inl e, c) \<Rightarrow> (Inl e, c)
                | (Inr _, c) \<Rightarrow> (Inr x, c))))"

definition withImmediateTransaction :: "('d, 'a) operation \<Rightarrow> ('d, 'a) session" where
  "withImmediateTransaction operation = withSqliteLockRetry (transaction_body operation)"

text \<open>A read transaction uses the same control flow without the retry.\<close>

definition withDeferredReadTransaction :: "('d, 'a) operation \<Rightarrow> ('d, 'a) session" where
  "withDeferredReadTransaction operation = transaction_body operation"

section \<open>Savepoints\<close>

text \<open>Statements inside an open transaction; the driver's outcome decides whether they throw.\<close>

definition exec_savepoint :: "('d, unit) session" where
  "exec_savepoint c =
     (case working c of
        None \<Rightarrow> (Inl (SqliteError 1 ''no transaction''), c)
      | Some d \<Rightarrow>
          (case next_outcome c of
             (Some (e, applied), c) \<Rightarrow> (Inl e, c)
           | (None, c) \<Rightarrow> (Inr (), c\<lparr>savepoints := d # savepoints c\<rparr>)))"

definition exec_release :: "('d, unit) session" where
  "exec_release c =
     (case savepoints c of
        [] \<Rightarrow> (Inl (SqliteError 1 ''no such savepoint''), c)
      | d # ds \<Rightarrow>
          (case next_outcome c of
             (Some (e, applied), c) \<Rightarrow> (Inl e, c)
           | (None, c) \<Rightarrow> (Inr (), c\<lparr>savepoints := ds\<rparr>)))"

definition exec_rollback_to :: "('d, unit) session" where
  "exec_rollback_to c =
     (case savepoints c of
        [] \<Rightarrow> (Inl (SqliteError 1 ''no such savepoint''), c)
      | d # ds \<Rightarrow>
          (case next_outcome c of
             (Some (e, applied), c) \<Rightarrow> (Inl e, c)
           | (None, c) \<Rightarrow> (Inr (), c\<lparr>working := Some d\<rparr>)))"

fun thrown :: "'a result \<Rightarrow> js_error list" where
  "thrown (Inl e) = [e]"
| "thrown (Inr x) = []"

definition savepoint_failure :: "js_error \<Rightarrow> ('d, 'a) session" where
  "savepoint_failure error c =
     (let (rollback, c) = exec_rollback_to c;
          (release, c) = exec_release c;
          cleanupFailures = thrown rollback @ thrown release
      in if cleanupFailures \<noteq> []
         then (Inl (AggregateError (error # cleanupFailures)
                 ''Ledger batch failed and savepoint cleanup also failed''), c)
         else (Inl error, c))"

text \<open>
  The \<open>try\<close> covers the operation and the release, so a failed release is handled like a failed
  operation.
\<close>

definition withBatchSavepoint :: "('d, 'a) operation \<Rightarrow> ('d, 'a) session" where
  "withBatchSavepoint operation c =
     (case exec_savepoint c of
        (Inl e, c) \<Rightarrow> (Inl e, c)
      | (Inr _, c) \<Rightarrow>
          (case run_operation operation c of
             (Inl e, c) \<Rightarrow> savepoint_failure e c
           | (Inr x, c) \<Rightarrow>
               (case exec_release c of
                  (Inl e, c) \<Rightarrow> savepoint_failure e c
                | (Inr _, c) \<Rightarrow> (Inr x, c))))"

section \<open>All or nothing\<close>

lemmas statement_defs = exec_begin_def exec_commit_def exec_rollback_def next_outcome_def
  exec_savepoint_def exec_release_def exec_rollback_to_def

text \<open>
  The contract a client relies on: a successful transaction commits exactly what the operation
  computed; a failed one changes nothing, unless it says that the commit is uncertain, and then
  the database is either unchanged or exactly the operation's result.
\<close>

locale transactional =
  fixes run :: "('d, 'a) operation \<Rightarrow> ('d, 'a) session"
  assumes run_success: "working c = None \<Longrightarrow> run operation c = (Inr x, c') \<Longrightarrow>
      operation (committed c) = (Inr x, committed c') \<and> working c' = None"
    and run_failure: "working c = None \<Longrightarrow> run operation c = (Inl e, c') \<Longrightarrow>
      committed c' = committed c \<or>
      (\<exists>e1 e2 x. e = TransactionCommitUncertainError e1 e2 \<and> operation (committed c) = (Inr x, committed c'))"
begin

text \<open>What every successful operation preserves, every transaction preserves.\<close>

lemma run_invariant:
  assumes "\<And>d x d'. I d \<Longrightarrow> operation d = (Inr x, d') \<Longrightarrow> I d'"
    and "working c = None" and "I (committed c)"
  shows "I (committed (snd (run operation c)))"
proof (cases "run operation c")
  case (Pair r c')
  then show ?thesis
    using assms run_success [OF assms(2), of operation _ c'] run_failure [OF assms(2), of operation _ c']
    by (cases r) fastforce+
qed

text \<open>An operation that fails leaves the database as it was.\<close>

lemma run_failing_operation:
  assumes "working c = None" and "operation (committed c) = (Inl e, d)"
  shows "committed (snd (run operation c)) = committed c \<and> (\<exists>e'. fst (run operation c) = Inl e')"
proof (cases "run operation c")
  case (Pair r c')
  then show ?thesis
    using assms run_success [OF assms(1), of operation _ c'] run_failure [OF assms(1), of operation _ c']
    by (cases r) fastforce+
qed

end

definition outcome_of :: "('d, 'a) operation \<Rightarrow> 'd connection \<Rightarrow> 'a result \<Rightarrow> 'd connection \<Rightarrow> bool" where
  "outcome_of operation c r c' =
     (case r of
        Inr x \<Rightarrow> operation (committed c) = (Inr x, committed c') \<and> working c' = None
      | Inl e \<Rightarrow>
          (committed c' = committed c \<and> (isSqliteLockError e \<longrightarrow> working c' = None))
          \<or> (\<exists>e1 e2 x. e = TransactionCommitUncertainError e1 e2
               \<and> operation (committed c) = (Inr x, committed c')))"

lemma transaction_body_outcome:
  assumes "working c = None" and "transaction_body operation c = (r, c')"
  shows "outcome_of operation c r c'"
proof (cases "next_outcome c")
  case (Pair f c1)
  have c1: "committed c1 = committed c" "working c1 = None"
    using Pair assms(1) by (auto simp: next_outcome_def split: list.splits)
  show ?thesis
  proof (cases f)
    case (Some ea)
    with Pair assms(2) c1 show ?thesis
      by (auto simp: transaction_body_def exec_begin_def outcome_of_def split: prod.splits)
  next
    case None
    obtain r0 d where op: "operation (committed c) = (r0, d)" by force
    let ?c2 = "c1\<lparr>savepoints := [], working := Some d\<rparr>"
    have body: "(case r0 of Inl e \<Rightarrow> rollbackFailedTransaction e ?c2
        | Inr x \<Rightarrow> (case commitOrRollback ?c2 of (Inl e, c) \<Rightarrow> (Inl e, c) | (Inr _, c) \<Rightarrow> (Inr x, c)))
      = (r, c')"
      using assms(2) None Pair c1 op
      by (cases r0) (simp_all add: transaction_body_def exec_begin_def run_operation_def)
    show ?thesis
    proof (cases r0)
      case (Inl e)
      with body op c1 show ?thesis
        by (auto simp: rollbackFailedTransaction_def exec_rollback_def next_outcome_def outcome_of_def
            split: list.splits option.splits)
    next
      case (Inr x)
      with body op c1 show ?thesis
        by (auto simp: commitOrRollback_def exec_commit_def exec_rollback_def next_outcome_def
            outcome_of_def split: list.splits option.splits prod.splits if_splits)
    qed
  qed
qed

lemma retry_outcome:
  assumes "working c = None" and "retry_from n (transaction_body operation) c = (r, c')"
  shows "outcome_of operation c r c'"
  using assms
proof (induction n "transaction_body operation" c rule: retry_from.induct)
  case (1 n c)
  obtain r1 c1 where b: "transaction_body operation c = (r1, c1)" by force
  have o: "outcome_of operation c r1 c1"
    using transaction_body_outcome [OF "1.prems"(1) b] .
  show ?case
  proof (cases "\<exists>e. r1 = Inl e \<and> isSqliteLockError e")
    case False
    then have "r = r1" "c' = c1"
      using "1.prems"(2) b by (auto simp: retry_from.simps [of n] split: sum.splits if_splits)
    with o show ?thesis by simp
  next
    case True
    then obtain e where e: "r1 = Inl e" "isSqliteLockError e" by blast
    then have same: "committed c1 = committed c" "working c1 = None"
      using o by (auto simp: outcome_of_def)
    show ?thesis
    proof (cases "n \<ge> LOCK_ATTEMPT_LIMIT")
      case True
      then have "r = Inl backpressure" "c' = c1"
        using "1.prems"(2) b e by (simp_all add: retry_from.simps [of n])
      with same show ?thesis by (simp add: outcome_of_def backpressure_def)
    next
      case False
      then have rec: "retry_from (n + 1) (transaction_body operation) c1 = (r, c')"
        using "1.prems"(2) b e by (simp add: retry_from.simps [of n])
      have "outcome_of operation c1 r c'"
        using "1.hyps" [OF b [symmetric] e(1) _ False same(2) rec] e(2) by simp
      then show ?thesis unfolding outcome_of_def same(1) .
    qed
  qed
qed

lemma immediate_outcome:
  "working c = None \<Longrightarrow> withImmediateTransaction operation c = (r, c') \<Longrightarrow> outcome_of operation c r c'"
  by (simp add: withImmediateTransaction_def withSqliteLockRetry_def retry_outcome)

lemma deferred_outcome:
  "working c = None \<Longrightarrow> withDeferredReadTransaction operation c = (r, c') \<Longrightarrow> outcome_of operation c r c'"
  by (simp add: withDeferredReadTransaction_def transaction_body_outcome)

interpretation immediate: transactional withImmediateTransaction
  by unfold_locales (auto dest!: immediate_outcome simp: outcome_of_def)

interpretation deferred: transactional withDeferredReadTransaction
  by unfold_locales (auto dest!: deferred_outcome simp: outcome_of_def)

text \<open>The retry is bounded: at most five runs of the body, and backpressure after the last.\<close>

lemma retry_busy:
  assumes "\<And>s. \<exists>e. fst (body s) = Inl e \<and> isSqliteLockError e" and "1 \<le> n" and "n \<le> LOCK_ATTEMPT_LIMIT"
  shows "retry_from n body s = (Inl backpressure, ((\<lambda>s. snd (body s)) ^^ (LOCK_ATTEMPT_LIMIT + 1 - n)) s)"
  using assms(2,3)
proof (induction "LOCK_ATTEMPT_LIMIT - n" arbitrary: n s)
  case 0
  then have "n = LOCK_ATTEMPT_LIMIT" by simp
  with assms(1) [of s] show ?case
    by (cases "body s") (auto simp: retry_from.simps [of LOCK_ATTEMPT_LIMIT])
next
  case (Suc k)
  then have lt: "n < LOCK_ATTEMPT_LIMIT" by simp
  then have pow: "LOCK_ATTEMPT_LIMIT + 1 - n = Suc (LOCK_ATTEMPT_LIMIT + 1 - (n + 1))" by simp
  have "retry_from n body s = retry_from (n + 1) body (snd (body s))"
    using assms(1) [of s] lt by (cases "body s") (auto simp: retry_from.simps [of n])
  also have "\<dots> = (Inl backpressure, ((\<lambda>s. snd (body s)) ^^ (LOCK_ATTEMPT_LIMIT + 1 - (n + 1))) (snd (body s)))"
    using Suc.hyps(1) [of "n + 1"] Suc.hyps(2) lt by simp
  finally show ?case by (simp only: pow funpow_Suc_right o_apply)
qed

section \<open>Savepoint isolation\<close>

text \<open>
  Inside an open transaction the batch savepoint keeps or undoes the whole batch. Unless the
  clean-up itself fails (an aggregate error), a failed batch leaves the enclosing transaction's
  working copy and savepoint stack as they were; the committed database never changes.
\<close>

lemma withBatchSavepoint_outcome:
  assumes "working c = Some d" and "withBatchSavepoint operation c = (r, c')"
  shows "committed c' = committed c \<and>
    (case r of
       Inr x \<Rightarrow> \<exists>d'. operation d = (Inr x, d') \<and> working c' = Some d' \<and> savepoints c' = savepoints c
     | Inl (AggregateError es m) \<Rightarrow> True
     | Inl e \<Rightarrow> working c' = Some d \<and> savepoints c' = savepoints c)"
proof (cases "operation d")
  case (Pair r0 d')
  show ?thesis
    using assms Pair
    by (cases r0)
      (auto simp: withBatchSavepoint_def savepoint_failure_def run_operation_def statement_defs
        split: list.splits option.splits prod.splits if_splits js_error.splits sum.splits)
qed

section \<open>Properties\<close>

definition lock_failure :: "'a result \<Rightarrow> bool" where
  "lock_failure r = (case r of Inl e \<Rightarrow> isSqliteLockError e | Inr _ \<Rightarrow> False)"

lemma retry_from_runs:
  assumes "1 \<le> k" and "k \<le> LOCK_ATTEMPT_LIMIT"
  shows "\<exists>n. 1 \<le> n \<and> n \<le> LOCK_ATTEMPT_LIMIT + 1 - k \<and>
    (\<forall>i < n - 1. lock_failure (fst (body (((\<lambda>s. snd (body s)) ^^ i) s)))) \<and>
    (case body (((\<lambda>s. snd (body s)) ^^ (n - 1)) s) of (r, s') \<Rightarrow>
       if lock_failure r
       then n = LOCK_ATTEMPT_LIMIT + 1 - k \<and> retry_from k body s = (Inl backpressure, s')
       else retry_from k body s = (r, s'))"
  using assms
proof (induction "LOCK_ATTEMPT_LIMIT - k" arbitrary: k s)
  case 0
  then have k: "k = LOCK_ATTEMPT_LIMIT" by simp
  obtain r s' where b: "body s = (r, s')" by force
  show ?case
    by (rule exI [of _ 1], cases r)
      (simp_all add: k b lock_failure_def retry_from.simps [of LOCK_ATTEMPT_LIMIT])
next
  case (Suc m)
  then have lt: "k < LOCK_ATTEMPT_LIMIT" and m: "m = LOCK_ATTEMPT_LIMIT - (k + 1)" by simp_all
  obtain r s' where b: "body s = (r, s')" by force
  show ?case
  proof (cases "lock_failure r")
    case False
    with b lt show ?thesis
      by (intro exI [of _ 1], cases r) (simp_all add: lock_failure_def retry_from.simps [of k])
  next
    case True
    with b lt have rec: "retry_from k body s = retry_from (k + 1) body s'"
      by (cases r) (simp_all add: lock_failure_def retry_from.simps [of k])
    obtain n where n: "1 \<le> n" "n \<le> LOCK_ATTEMPT_LIMIT + 1 - (k + 1)"
      and busy: "\<forall>i < n - 1. lock_failure (fst (body (((\<lambda>s. snd (body s)) ^^ i) s')))"
      and last: "case body (((\<lambda>s. snd (body s)) ^^ (n - 1)) s') of (r, s'') \<Rightarrow>
        if lock_failure r then n = LOCK_ATTEMPT_LIMIT + 1 - (k + 1) \<and> retry_from (k + 1) body s' = (Inl backpressure, s'')
        else retry_from (k + 1) body s' = (r, s'')"
      using Suc.hyps(1) [OF m, of s'] lt by auto
    have shift: "((\<lambda>s. snd (body s)) ^^ Suc i) s = ((\<lambda>s. snd (body s)) ^^ i) s'" for i
      by (simp only: funpow_Suc_right o_apply b snd_conv)
    have "lock_failure (fst (body (((\<lambda>s. snd (body s)) ^^ i) s)))" if "i < n" for i
      using that busy True b shift by (cases i) (auto simp del: funpow.simps(2))
    moreover have "((\<lambda>s. snd (body s)) ^^ n) s = ((\<lambda>s. snd (body s)) ^^ (n - 1)) s'"
      using shift [of "n - 1"] n(1) by simp
    ultimately show ?thesis
      using n last rec lt by (intro exI [of _ "Suc n"]) (auto split: prod.splits if_splits)
  qed
qed

text \<open>
  C20: An immediate transaction is all or nothing, whatever the driver does and however often the
  transaction is retried: a returned value means the committed database is exactly what the
  operation computed from the database before; an error means nothing was committed, unless the
  error is the uncertain commit, and then the database is either unchanged or exactly the
  operation's result.
\<close>

theorem withImmediateTransaction_all_or_nothing:
  assumes "working c = None"
  shows "case withImmediateTransaction operation c of
      (Inr x, c') \<Rightarrow> operation (committed c) = (Inr x, committed c') \<and> working c' = None
    | (Inl (TransactionCommitUncertainError commitError rollbackError), c') \<Rightarrow>
        committed c' = committed c \<or> (\<exists>x. operation (committed c) = (Inr x, committed c'))
    | (Inl e, c') \<Rightarrow> committed c' = committed c"
proof (cases "withImmediateTransaction operation c")
  case (Pair r c')
  show ?thesis
    using immediate.run_success [OF assms, of operation _ c'] immediate.run_failure [OF assms, of operation _ c'] Pair
    by (cases r) (fastforce split: js_error.splits)+
qed

text \<open>Two busy attempts and a lost acknowledgement of the commit before the transaction goes through.\<close>

definition sample_connection :: "(js_error \<times> bool) option list \<Rightarrow> nat connection" where
  "sample_connection os = \<lparr>committed = 3, working = None, savepoints = [], outcomes = os\<rparr>"

definition sample_increment :: "(nat, nat) operation" where
  "sample_increment n = (if n < 5 then (Inr n, n + 1) else (Inl (OtherError ''full''), 0))"

theorem withImmediateTransaction_all_or_nothing_witness:
  "working (sample_connection [Some (SqliteError 5 ''busy'', False), Some (SqliteError 517 ''busy'', False)]) = None \<and>
   (case withImmediateTransaction sample_increment
           (sample_connection [Some (SqliteError 5 ''busy'', False), Some (SqliteError 517 ''busy'', False)]) of
      (r, c') \<Rightarrow> r = Inr 3 \<and> committed c' = 4) \<and>
   (case withImmediateTransaction sample_increment (sample_connection [None, Some (OtherError ''io'', True)]) of
      (r, c') \<Rightarrow> committed c' = 3 \<or> (\<exists>x. sample_increment 3 = (Inr x, committed c')))"
proof -
  let ?c = "sample_connection [Some (SqliteError 5 ''busy'', False), Some (SqliteError 517 ''busy'', False)]"
  have "fst (withImmediateTransaction sample_increment ?c) = Inr 3" by code_simp
  moreover have "working ?c = None" by (simp add: sample_connection_def)
  moreover have "fst (withImmediateTransaction sample_increment (sample_connection [None, Some (OtherError ''io'', True)]))
      = Inl (TransactionCommitUncertainError (OtherError ''io'')
          (SqliteError 1 ''cannot rollback - no transaction is active''))" by code_simp
  ultimately show ?thesis
    using withImmediateTransaction_all_or_nothing [of ?c sample_increment]
      withImmediateTransaction_all_or_nothing
        [of "sample_connection [None, Some (OtherError ''io'', True)]" sample_increment]
    by (auto simp: sample_connection_def sample_increment_def split: prod.splits)
qed

text \<open>
  C40: The bounded retry runs its operation at least once and at most five times; every run but the
  last failed with SQLite's busy or locked code. The result is that of the last run, except that
  a fifth busy run is reported as backpressure.
\<close>

theorem withSqliteLockRetry_runs:
  "\<exists>n. 1 \<le> n \<and> n \<le> 5 \<and>
    (\<forall>i < n - 1. lock_failure (fst (operation (((\<lambda>s. snd (operation s)) ^^ i) s)))) \<and>
    (case operation (((\<lambda>s. snd (operation s)) ^^ (n - 1)) s) of (r, s') \<Rightarrow>
       if lock_failure r then n = 5 \<and> withSqliteLockRetry operation s = (Inl backpressure, s')
       else withSqliteLockRetry operation s = (r, s'))"
  using retry_from_runs [of 1 operation s]
  by (simp add: withSqliteLockRetry_def LOCK_ATTEMPT_LIMIT_def cong: if_cong)

text \<open>The operation that is busy twice and then returns how often it ran.\<close>

theorem withSqliteLockRetry_runs_witness:
  "withSqliteLockRetry (\<lambda>n::nat. if n < 2 then (Inl (SqliteError 6 ''locked''), n + 1) else (Inr n, n + 1)) 0
   = (Inr 2, 3) \<and> (\<exists>n \<le> 5. withSqliteLockRetry (\<lambda>k::nat. (Inl (SqliteError 6 ''locked'') :: unit result, k + 1)) 0
   = (Inl backpressure, Suc n - 1))"
proof -
  have "withSqliteLockRetry (\<lambda>n::nat. if n < 2 then (Inl (SqliteError 6 ''locked''), n + 1) else (Inr n, n + 1)) 0
     = (Inr 2, 3)" by code_simp
  moreover have "\<exists>n \<le> 5. withSqliteLockRetry (\<lambda>k::nat. (Inl (SqliteError 6 ''locked'') :: unit result, k + 1)) 0
     = (Inl backpressure, Suc n - 1)"
    using withSqliteLockRetry_runs [of "\<lambda>k::nat. (Inl (SqliteError 6 ''locked'') :: unit result, k + 1)" 0]
    by (auto simp: lock_failure_def)
  ultimately show ?thesis by blast
qed

text \<open>
  Inside an open transaction a batch runs under a savepoint that keeps it whole or undoes it
  whole: the committed database never changes; on success the working copy is what the batch
  computed; on failure, unless the clean-up itself failed, the working copy and the enclosing
  savepoints are those from before the batch, so the enclosing transaction can go on.
\<close>

theorem withBatchSavepoint_isolates:
  assumes "working c = Some d"
  shows "case withBatchSavepoint operation c of (r, c') \<Rightarrow>
    committed c' = committed c \<and>
    (case r of
       Inr x \<Rightarrow> operation d = (Inr x, the (working c')) \<and> working c' \<noteq> None \<and> savepoints c' = savepoints c
     | Inl (AggregateError es m) \<Rightarrow> True
     | Inl e \<Rightarrow> working c' = Some d \<and> savepoints c' = savepoints c)"
  using withBatchSavepoint_outcome [OF assms, of operation]
  by (cases "withBatchSavepoint operation c") (auto split: sum.splits js_error.splits)

theorem withBatchSavepoint_isolates_witness:
  "case withBatchSavepoint (\<lambda>n. (Inl (OtherError ''conflict''), n + 7))
          (\<lparr>committed = 1, working = Some 2, savepoints = [5], outcomes = []\<rparr> :: nat connection) of (r, c') \<Rightarrow>
     r = (Inl (OtherError ''conflict'') :: unit result) \<and> committed c' = 1 \<and> working c' = Some 2 \<and> savepoints c' = [5]"
proof -
  let ?c = "\<lparr>committed = 1, working = Some 2, savepoints = [5], outcomes = []\<rparr> :: nat connection"
  let ?op = "\<lambda>n. (Inl (OtherError ''conflict'') :: unit result, n + 7)"
  have "fst (withBatchSavepoint ?op ?c) = Inl (OtherError ''conflict'')" by code_simp
  then show ?thesis
    using withBatchSavepoint_isolates [of ?c 2 ?op] by (auto split: prod.splits)
qed

end
