(* ===== verification/Ledger_Types.thy ===== *)
theory Ledger_Types
  imports Js_Prelude
begin

text \<open>
  The vocabulary of the execution ledger, \<open>src/src/ledger/types.ts\<close>, and the checkpoint rule of
  \<open>src/src/ledger/checkpoint-eligibility.ts\<close>. String enumerations that the code branches on are
  datatypes with their literals; event types stay strings, as the code compares them.
\<close>

definition MAX_BATCH_EVENTS :: int where "MAX_BATCH_EVENTS = 200"
definition MAX_EVENT_PAYLOAD_BYTES :: int where "MAX_EVENT_PAYLOAD_BYTES = 64 * 1024"
definition MAX_PREVIEW_BYTES :: int where "MAX_PREVIEW_BYTES = 4 * 1024"
definition MAX_ID_LENGTH :: int where "MAX_ID_LENGTH = 256"
definition MAX_TEXT_LENGTH :: int where "MAX_TEXT_LENGTH = 16 * 1024"

definition LEDGER_EVENT_TYPES :: "string list" where
  "LEDGER_EVENT_TYPES =
    [''intake.started'', ''intake.answered'', ''intake.ready'', ''intake.exhausted'',
     ''run.started'', ''run.closed'', ''request.received'', ''constraint.recorded'',
     ''decision.recorded'', ''step.started'', ''step.completed'', ''step.failed'',
     ''approval.requested'', ''approval.decided'', ''tool.requested'', ''tool.started'',
     ''tool.completed'', ''tool.failed'', ''tool.outcome_unknown'', ''command.started'',
     ''command.completed'', ''file.observed'', ''file.changed'', ''test.started'',
     ''test.completed'', ''verification.recorded'', ''error.recorded'', ''retry.recorded'',
     ''cancellation.recorded'', ''context.used'', ''context.feedback'', ''memory.proposed'',
     ''memory.promoted'', ''task_profile.revised'', ''correction.recorded'', ''source.event'',
     ''enno.started'', ''enno.client_bound'', ''enno.client_rebound'', ''enno.advice_submitted'',
     ''enno.advice_disposition'', ''oduno.ideal_derived'', ''zenki.plan_created'', ''enno.plan_confirmed'',
     ''goki.work_started'', ''goki.work_completed'', ''goki.work_failed'',
     ''enno.review_started'', ''enno.review_accepted'', ''enno.replan_requested'',
     ''enno.verification_started'', ''enno.verification_passed'', ''enno.verification_failed'',
     ''oduno.meditation_completed'', ''enno.completed'', ''enno.blocked'', ''enno.cancelled'',
     ''enno.quality_degraded'']"

datatype capture_profile = CpMinimal | CpStandard | CpDiagnostic

datatype coverage_level = CovComplete | CovBestEffort | CovDeclared | CovUnavailable

datatype run_status = RunIntake | RunActive | RunCompleted | RunFailed | RunCancelled | RunInterrupted

datatype task_type = TBuild | TDebug | TResearch | TReview | TDevops | TWriting | TAnalysis

text \<open>The literals, in the order of the source's constant arrays.\<close>

definition CAPTURE_PROFILES :: "(string \<times> capture_profile) list" where
  "CAPTURE_PROFILES = [(''minimal'', CpMinimal), (''standard'', CpStandard), (''diagnostic'', CpDiagnostic)]"

definition COVERAGE_LEVELS :: "(string \<times> coverage_level) list" where
  "COVERAGE_LEVELS = [(''complete'', CovComplete), (''best_effort'', CovBestEffort),
     (''declared'', CovDeclared), (''unavailable'', CovUnavailable)]"

definition RUN_STATUSES :: "(string \<times> run_status) list" where
  "RUN_STATUSES = [(''intake'', RunIntake), (''active'', RunActive), (''completed'', RunCompleted),
     (''failed'', RunFailed), (''cancelled'', RunCancelled), (''interrupted'', RunInterrupted)]"

definition TERMINAL_RUN_STATUSES :: "run_status list" where
  "TERMINAL_RUN_STATUSES = [RunCompleted, RunFailed, RunCancelled, RunInterrupted]"

definition TASK_TYPES :: "(string \<times> task_type) list" where
  "TASK_TYPES = [(''build'', TBuild), (''debug'', TDebug), (''research'', TResearch), (''review'', TReview),
     (''devops'', TDevops), (''writing'', TWriting), (''analysis'', TAnalysis)]"

text \<open>An enum check: a string among the literals, as the value it denotes.\<close>

definition as_enum :: "js_error \<Rightarrow> (string \<times> 'e) list \<Rightarrow> jsvalue \<Rightarrow> 'e result" where
  "as_enum e table v =
     (case v of
        VStr s \<Rightarrow> (case map_of table s of Some x \<Rightarrow> Inr x | None \<Rightarrow> Inl e)
      | _ \<Rightarrow> Inl e)"

definition enum_text :: "(string \<times> 'e) list \<Rightarrow> 'e \<Rightarrow> string" where
  "enum_text table x = (case find (\<lambda>p. snd p = x) table of Some p \<Rightarrow> fst p | None \<Rightarrow> [])"

record coverage =
  cov_run :: coverage_level
  cov_tool :: coverage_level
  cov_command :: coverage_level
  cov_file :: coverage_level
  cov_approval :: coverage_level

text \<open>\<open>TaskProfile\<close> of \<open>src/src/akinator/types.ts\<close>: every field may be null.\<close>

record task_profile =
  taskType :: "task_type option"
  target :: "string option"
  expected :: "string option"
  constraints :: "string option"

datatype checkpoint_eligibility =
    CheckpointAllowed
  | CheckpointAwaitingIntakeAnswer
  | CheckpointRunTerminal

definition checkpointEligibility :: "run_status \<Rightarrow> checkpoint_eligibility" where
  "checkpointEligibility status =
     (if status = RunActive then CheckpointAllowed
      else if status = RunIntake then CheckpointAwaitingIntakeAnswer
      else CheckpointRunTerminal)"

fun retryableAfterStateChange :: "checkpoint_eligibility \<Rightarrow> bool option" where
  "retryableAfterStateChange CheckpointAllowed = None"
| "retryableAfterStateChange CheckpointAwaitingIntakeAnswer = Some True"
| "retryableAfterStateChange CheckpointRunTerminal = Some False"

lemma checkpointEligibility_terminal:
  "checkpointEligibility s = CheckpointRunTerminal \<longleftrightarrow> s \<in> set TERMINAL_RUN_STATUSES"
  by (cases s) (simp_all add: checkpointEligibility_def TERMINAL_RUN_STATUSES_def)

lemma as_enum_Inr: "as_enum e table v = Inr x \<Longrightarrow> \<exists>s. v = VStr s \<and> map_of table s = Some x"
  by (auto simp: as_enum_def split: jsvalue.splits option.splits)

end
