(* ===== verification/Ledger_Projection.thy ===== *)
theory Ledger_Projection
  imports Ledger_Types Json_Reader
begin

text \<open>
  The ledger projection, \<open>src/src/ledger/projection.ts\<close>: the deterministic fold of a run's events
  into its current task profile, its evidence state, its unresolved failures and its unknown
  outcomes, behind a strict parser of the untyped input.
\<close>

section \<open>Input and output\<close>

datatype intake_status = IntakeReady | IntakeExhausted
datatype projection_coverage = ProjComplete | ProjPartial
datatype evidence_state = EvNone | EvFailed | EvFresh | EvStale
datatype missing_field = MissTaskType | MissTarget | MissExpected

text \<open>An absent payload is \<open>VUndefined\<close>; an absent outcome and a null outcome are both \<open>None\<close>.\<close>

record ledger_event =
  eventId :: string
  sequence :: int
  eventType :: string
  outcome :: "string option"
  payload :: jsvalue

record projection_input =
  initialProfile :: task_profile
  intakeStatus :: intake_status
  inputCoverage :: coverage
  inputThroughSequence :: int
  inputEvents :: "ledger_event list"

record ledger_projection =
  throughSequence :: int
  taskProfile :: task_profile
  profileHash :: string
  evidenceState :: evidence_state
  unresolvedFailureEventIds :: "string list"
  unknownOutcomeEventIds :: "string list"
  latestMutationSequence :: "int option"
  latestMutationEventIds :: "string list"
  latestPassingVerificationSequence :: "int option"
  latestPassingVerificationEventIds :: "string list"
  coverageState :: projection_coverage
  declaredCoverage :: coverage
  intakeIncomplete :: bool
  missingProfileFields :: "missing_field list"

definition PROFILE_FIELDS :: "string list" where
  "PROFILE_FIELDS = [''taskType'', ''target'', ''expected'', ''constraints'']"

definition COVERAGE_FIELDS :: "string list" where
  "COVERAGE_FIELDS = [''run'', ''tool'', ''command'', ''file'', ''approval'']"

definition EVENT_FIELDS :: "string list" where
  "EVENT_FIELDS = [''eventId'', ''sequence'', ''eventType'', ''outcome'', ''payload'']"

definition TOP_LEVEL_FIELDS :: "string list" where
  "TOP_LEVEL_FIELDS = [''initialProfile'', ''intakeStatus'', ''coverage'', ''throughSequence'', ''events'']"

definition PASSING_OUTCOMES :: "string list" where
  "PASSING_OUTCOMES = [''pass'', ''passed'', ''success'', ''succeeded'']"

definition FAILURE_EVENT_TYPES :: "string list" where
  "FAILURE_EVENT_TYPES = [''step.failed'', ''tool.failed'', ''error.recorded'']"

definition VERIFICATION_EVENT_TYPES :: "string list" where
  "VERIFICATION_EVENT_TYPES = [''verification.recorded'', ''test.completed'']"

definition projectionValidation :: js_error where
  "projectionValidation = KiokukoError VALIDATION_ERROR ''Invalid ledger projection input''"

definition projectionIntegrity :: js_error where
  "projectionIntegrity = KiokukoError INTEGRITY_ERROR ''Invalid persisted ledger projection state''"

section \<open>Parsing\<close>

definition as_nullable_string :: "js_error \<Rightarrow> jsvalue \<Rightarrow> string option result" where
  "as_nullable_string e v = (if v = VNull then Inr None else rbind (as_string e v) (\<lambda>s. Inr (Some s)))"

definition as_task_type :: "js_error \<Rightarrow> jsvalue \<Rightarrow> task_type option result" where
  "as_task_type e v =
     (if v = VNull then Inr None else rbind (as_enum e TASK_TYPES v) (\<lambda>t. Inr (Some t)))"

definition as_non_empty_string :: "js_error \<Rightarrow> jsvalue \<Rightarrow> string result" where
  "as_non_empty_string e v = rbind (as_string e v) (\<lambda>s. if s = [] then Inl e else Inr s)"

fun assertJsonValue :: "jsvalue \<Rightarrow> bool" where
  "assertJsonValue VNull = True"
| "assertJsonValue (VBool b) = True"
| "assertJsonValue (VStr s) = True"
| "assertJsonValue (VNum n) = True"
| "assertJsonValue (VFrac t) = True"
| "assertJsonValue (VArr xs) = list_all assertJsonValue xs"
| "assertJsonValue (VObj fs) = list_all (\<lambda>f. assertJsonValue (snd f)) fs"
| "assertJsonValue v = False"

definition parseProfile :: "jsvalue \<Rightarrow> task_profile result" where
  "parseProfile v =
     (let e = projectionValidation in
      rbind (as_fields e v) (\<lambda>fs.
      rbind (check (keys_within fs PROFILE_FIELDS) e) (\<lambda>_.
      rbind (check (has_all fs PROFILE_FIELDS) e) (\<lambda>_.
      rbind (as_task_type e (getp fs ''taskType'')) (\<lambda>tt.
      rbind (as_nullable_string e (getp fs ''target'')) (\<lambda>tg.
      rbind (as_nullable_string e (getp fs ''expected'')) (\<lambda>ex.
      rbind (as_nullable_string e (getp fs ''constraints'')) (\<lambda>co.
      Inr \<lparr>taskType = tt, target = tg, expected = ex, constraints = co\<rparr>))))))))"

text \<open>A revision overwrites the fields it has and keeps the others.\<close>

definition revise_field ::
    "fields \<Rightarrow> string \<Rightarrow> (jsvalue \<Rightarrow> 'v result) \<Rightarrow> 'v \<Rightarrow> 'v result" where
  "revise_field fs k parse old = (if hasOwn fs k then parse (getp fs k) else Inr old)"

definition applyRevision :: "task_profile \<Rightarrow> jsvalue \<Rightarrow> task_profile result" where
  "applyRevision profile p =
     (let e = projectionValidation in
      rbind (as_fields e p) (\<lambda>ps.
      rbind (check (keys_within ps [''profile'']) e) (\<lambda>_.
      rbind (check (hasOwn ps ''profile'') e) (\<lambda>_.
      rbind (as_fields e (getp ps ''profile'')) (\<lambda>fs.
      rbind (check (keys_within fs PROFILE_FIELDS) e) (\<lambda>_.
      rbind (check (list_all (\<lambda>f. snd f \<noteq> VUndefined) fs) e) (\<lambda>_.
      rbind (revise_field fs ''taskType'' (as_task_type e) (taskType profile)) (\<lambda>tt.
      rbind (revise_field fs ''target'' (as_nullable_string e) (target profile)) (\<lambda>tg.
      rbind (revise_field fs ''expected'' (as_nullable_string e) (expected profile)) (\<lambda>ex.
      rbind (revise_field fs ''constraints'' (as_nullable_string e) (constraints profile)) (\<lambda>co.
      Inr \<lparr>taskType = tt, target = tg, expected = ex, constraints = co\<rparr>)))))))))))"

definition parseCoverage :: "jsvalue \<Rightarrow> coverage result" where
  "parseCoverage v =
     (let e = projectionValidation in
      rbind (as_fields e v) (\<lambda>fs.
      rbind (check (keys_within fs COVERAGE_FIELDS) e) (\<lambda>_.
      rbind (check (has_all fs COVERAGE_FIELDS) e) (\<lambda>_.
      rbind (as_enum e COVERAGE_LEVELS (getp fs ''run'')) (\<lambda>r.
      rbind (as_enum e COVERAGE_LEVELS (getp fs ''tool'')) (\<lambda>t.
      rbind (as_enum e COVERAGE_LEVELS (getp fs ''command'')) (\<lambda>c.
      rbind (as_enum e COVERAGE_LEVELS (getp fs ''file'')) (\<lambda>f.
      rbind (as_enum e COVERAGE_LEVELS (getp fs ''approval'')) (\<lambda>a.
      Inr \<lparr>cov_run = r, cov_tool = t, cov_command = c, cov_file = f, cov_approval = a\<rparr>)))))))))"

definition as_safe_int :: "js_error \<Rightarrow> int \<Rightarrow> jsvalue \<Rightarrow> int result" where
  "as_safe_int e least v =
     (case v of VNum n \<Rightarrow> if is_safe_integer v \<and> least \<le> n then Inr n else Inl e | _ \<Rightarrow> Inl e)"

definition parseEvent :: "jsvalue \<Rightarrow> ledger_event result" where
  "parseEvent v =
     (let e = projectionValidation in
      rbind (as_fields e v) (\<lambda>fs.
      rbind (check (keys_within fs EVENT_FIELDS) e) (\<lambda>_.
      rbind (check (has_all fs [''eventId'', ''sequence'', ''eventType'']) e) (\<lambda>_.
      rbind (as_non_empty_string e (getp fs ''eventId'')) (\<lambda>i.
      rbind (as_safe_int e 1 (getp fs ''sequence'')) (\<lambda>s.
      rbind (as_string e (getp fs ''eventType'')) (\<lambda>t.
      rbind (check (t \<in> set LEDGER_EVENT_TYPES) e) (\<lambda>_.
      rbind (if hasOwn fs ''outcome'' \<and> getp fs ''outcome'' \<noteq> VNull
             then rbind (as_non_empty_string e (getp fs ''outcome'')) (\<lambda>x. Inr (Some x)) else Inr None) (\<lambda>oc.
      rbind (check (hasOwn fs ''payload'' \<longrightarrow> assertJsonValue (getp fs ''payload'')) e) (\<lambda>_.
      Inr \<lparr>eventId = i, sequence = s, eventType = t, outcome = oc, payload = getp fs ''payload''\<rparr>))))))))))"

text \<open>The loop over the events: ids already seen and the previous sequence.\<close>

fun parseEvents :: "int \<Rightarrow> string list \<Rightarrow> int \<Rightarrow> jsvalue list \<Rightarrow> ledger_event list result" where
  "parseEvents through seen previous [] = Inr []"
| "parseEvents through seen previous (raw # raws) =
     rbind (parseEvent raw) (\<lambda>ev.
       if eventId ev \<in> set seen \<or> sequence ev \<le> previous \<or> sequence ev > through
       then Inl projectionValidation
       else rbind (parseEvents through (eventId ev # seen) (sequence ev) raws) (\<lambda>evs. Inr (ev # evs)))"

definition parseInput :: "jsvalue \<Rightarrow> projection_input result" where
  "parseInput v =
     (let e = projectionValidation in
      rbind (as_fields e v) (\<lambda>fs.
      rbind (check (keys_within fs TOP_LEVEL_FIELDS) e) (\<lambda>_.
      rbind (check (has_all fs TOP_LEVEL_FIELDS) e) (\<lambda>_.
      rbind (parseProfile (getp fs ''initialProfile'')) (\<lambda>profile.
      rbind (as_enum e [(''ready'', IntakeReady), (''exhausted'', IntakeExhausted)] (getp fs ''intakeStatus'')) (\<lambda>st.
      rbind (parseCoverage (getp fs ''coverage'')) (\<lambda>cov.
      rbind (as_safe_int e 0 (getp fs ''throughSequence'')) (\<lambda>through.
      rbind (as_array e (getp fs ''events'')) (\<lambda>raws.
      rbind (parseEvents through [] (- 1) raws) (\<lambda>evs.
      Inr \<lparr>initialProfile = profile, intakeStatus = st, inputCoverage = cov,
           inputThroughSequence = through, inputEvents = evs\<rparr>))))))))))"

section \<open>The fold\<close>

definition resolutionIds :: "jsvalue \<Rightarrow> string list result" where
  "resolutionIds p =
     (case p of
        VObj controls \<Rightarrow>
          if \<not> hasOwn controls ''resolvesEventIds'' then Inr []
          else rbind (as_array projectionValidation (getp controls ''resolvesEventIds'')) (\<lambda>ids.
                 rtraverse (as_non_empty_string projectionValidation) ids)
      | _ \<Rightarrow> Inr [])"

definition mutated :: "jsvalue \<Rightarrow> bool result" where
  "mutated p =
     (case p of
        VObj controls \<Rightarrow>
          if \<not> hasOwn controls ''mutated'' then Inr False
          else as_bool projectionValidation (getp controls ''mutated'')
      | _ \<Rightarrow> Inr False)"

datatype evidence_outcome = OutcomeFailed | OutcomePassed

definition evidenceOutcome :: "string option \<Rightarrow> evidence_outcome option" where
  "evidenceOutcome oc =
     (if oc = Some ''failed'' then Some OutcomeFailed
      else case oc of
             Some x \<Rightarrow> if x \<in> set PASSING_OUTCOMES then Some OutcomePassed else None
           | None \<Rightarrow> None)"

definition removeIds :: "string list \<Rightarrow> string list \<Rightarrow> string list" where
  "removeIds ids toRemove = (if toRemove = [] then ids else filter (\<lambda>i. i \<notin> set toRemove) ids)"

record projection_state =
  stProfile :: task_profile
  stMutationSequence :: "int option"
  stMutationEventIds :: "string list"
  stPassingSequence :: "int option"
  stPassingEventIds :: "string list"
  stLatestEvidence :: "(evidence_outcome \<times> int) option"
  stUnresolved :: "string list"
  stUnknown :: "string list"

definition initial_state :: "task_profile \<Rightarrow> projection_state" where
  "initial_state profile =
     \<lparr>stProfile = profile, stMutationSequence = None, stMutationEventIds = [],
      stPassingSequence = None, stPassingEventIds = [], stLatestEvidence = None,
      stUnresolved = [], stUnknown = []\<rparr>"

definition is_failure :: "ledger_event \<Rightarrow> bool" where
  "is_failure ev =
     (eventType ev \<in> set FAILURE_EVENT_TYPES
      \<or> ((eventType ev = ''test.completed'' \<or> eventType ev = ''verification.recorded'')
          \<and> outcome ev = Some ''failed''))"

text \<open>The first \<open>if\<close> of the loop body: profile revisions and mutations.\<close>

definition apply_mutation :: "ledger_event \<Rightarrow> projection_state \<Rightarrow> projection_state result" where
  "apply_mutation ev st =
     (let mark = (\<lambda>st. st\<lparr>stMutationSequence := Some (sequence ev), stMutationEventIds := [eventId ev]\<rparr>) in
      if eventType ev = ''task_profile.revised''
      then rbind (applyRevision (stProfile st) (payload ev)) (\<lambda>p. Inr (mark (st\<lparr>stProfile := p\<rparr>)))
      else if eventType ev = ''file.changed'' then Inr (mark st)
      else if eventType ev = ''command.completed'' \<or> eventType ev = ''tool.completed''
      then rbind (mutated (payload ev)) (\<lambda>m. Inr (if m then mark st else st))
      else Inr st)"

definition apply_failure :: "ledger_event \<Rightarrow> projection_state \<Rightarrow> projection_state" where
  "apply_failure ev st =
     (let st = (if is_failure ev then st\<lparr>stUnresolved := stUnresolved st @ [eventId ev]\<rparr> else st)
      in if eventType ev = ''tool.outcome_unknown'' then st\<lparr>stUnknown := stUnknown st @ [eventId ev]\<rparr> else st)"

definition apply_evidence :: "ledger_event \<Rightarrow> projection_state \<Rightarrow> projection_state" where
  "apply_evidence ev st =
     (if eventType ev \<in> set VERIFICATION_EVENT_TYPES
      then (case evidenceOutcome (outcome ev) of
              None \<Rightarrow> st
            | Some oc \<Rightarrow>
                (let st = st\<lparr>stLatestEvidence := Some (oc, sequence ev)\<rparr>
                 in if oc = OutcomePassed
                    then st\<lparr>stPassingSequence := Some (sequence ev), stPassingEventIds := [eventId ev]\<rparr>
                    else st))
      else st)"

definition project_event :: "ledger_event \<Rightarrow> projection_state \<Rightarrow> projection_state result" where
  "project_event ev st =
     rbind (resolutionIds (payload ev)) (\<lambda>resolves.
       let st = st\<lparr>stUnresolved := removeIds (stUnresolved st) resolves,
                   stUnknown := removeIds (stUnknown st) resolves\<rparr>
       in rbind (apply_mutation ev st) (\<lambda>st. Inr (apply_evidence ev (apply_failure ev st))))"

fun project_events :: "ledger_event list \<Rightarrow> projection_state \<Rightarrow> projection_state result" where
  "project_events [] st = Inr st"
| "project_events (ev # evs) st = rbind (project_event ev st) (project_events evs)"

definition missing_fields :: "task_profile \<Rightarrow> missing_field list" where
  "missing_fields p =
     (if taskType p = None then [MissTaskType] else [])
     @ (if target p = None then [MissTarget] else [])
     @ (if expected p = None then [MissExpected] else [])"

definition evidence_of :: "projection_state \<Rightarrow> evidence_state" where
  "evidence_of st =
     (case stLatestEvidence st of
        None \<Rightarrow> EvNone
      | Some (OutcomeFailed, s) \<Rightarrow> EvFailed
      | Some (OutcomePassed, s) \<Rightarrow>
          (case stMutationSequence st of
             Some m \<Rightarrow> if m > s then EvStale else EvFresh
           | None \<Rightarrow> EvFresh))"

definition nullable_text :: "string option \<Rightarrow> jsvalue" where
  "nullable_text x = (case x of None \<Rightarrow> VNull | Some s \<Rightarrow> VStr s)"

definition profile_json :: "task_profile \<Rightarrow> jsvalue" where
  "profile_json p =
     VObj [(''taskType'', case taskType p of None \<Rightarrow> VNull | Some t \<Rightarrow> VStr (enum_text TASK_TYPES t)),
           (''target'', nullable_text (target p)),
           (''expected'', nullable_text (expected p)),
           (''constraints'', nullable_text (constraints p))]"

definition profile_hash :: "(string \<Rightarrow> string) \<Rightarrow> task_profile \<Rightarrow> string result" where
  "profile_hash sha256 p = canonicalContentHash sha256 (profile_json p)"

definition coverage_state :: "coverage \<Rightarrow> projection_coverage" where
  "coverage_state c =
     (if cov_run c = CovComplete \<and> cov_tool c = CovComplete \<and> cov_command c = CovComplete
         \<and> cov_file c = CovComplete \<and> cov_approval c = CovComplete
      then ProjComplete else ProjPartial)"

definition projectLedger :: "(string \<Rightarrow> string) \<Rightarrow> jsvalue \<Rightarrow> ledger_projection result" where
  "projectLedger sha256 input =
     rbind (parseInput input) (\<lambda>parsed.
       let missing = missing_fields (initialProfile parsed) in
       rbind (project_events (inputEvents parsed) (initial_state (initialProfile parsed))) (\<lambda>st.
       rbind (check (\<not> (intakeStatus parsed = IntakeReady \<and> missing \<noteq> [])) projectionIntegrity) (\<lambda>_.
       rbind (profile_hash sha256 (stProfile st)) (\<lambda>hash.
       Inr \<lparr>throughSequence = inputThroughSequence parsed,
            taskProfile = stProfile st,
            profileHash = hash,
            evidenceState = evidence_of st,
            unresolvedFailureEventIds = stUnresolved st,
            unknownOutcomeEventIds = stUnknown st,
            latestMutationSequence = stMutationSequence st,
            latestMutationEventIds = stMutationEventIds st,
            latestPassingVerificationSequence = stPassingSequence st,
            latestPassingVerificationEventIds = stPassingEventIds st,
            coverageState = coverage_state (inputCoverage parsed),
            declaredCoverage = inputCoverage parsed,
            intakeIncomplete = (intakeStatus parsed = IntakeExhausted \<and> missing \<noteq> []),
            missingProfileFields = missing\<rparr>))))"

section \<open>What the fold computes\<close>

text \<open>The events the projection is about, read off one event at a time.\<close>

definition decisive :: "ledger_event \<Rightarrow> bool" where
  "decisive ev = (eventType ev \<in> set VERIFICATION_EVENT_TYPES \<and> evidenceOutcome (outcome ev) \<noteq> None)"

definition passing :: "ledger_event \<Rightarrow> bool" where
  "passing ev = (eventType ev \<in> set VERIFICATION_EVENT_TYPES \<and> evidenceOutcome (outcome ev) = Some OutcomePassed)"

definition mutates :: "ledger_event \<Rightarrow> bool" where
  "mutates ev =
     (eventType ev = ''task_profile.revised'' \<or> eventType ev = ''file.changed''
      \<or> ((eventType ev = ''command.completed'' \<or> eventType ev = ''tool.completed'')
          \<and> mutated (payload ev) = Inr True))"

definition resolves :: "ledger_event \<Rightarrow> string \<Rightarrow> bool" where
  "resolves ev i = (case resolutionIds (payload ev) of Inr ids \<Rightarrow> i \<in> set ids | Inl e \<Rightarrow> False)"

text \<open>\<open>open_after P evs i\<close>: an event of kind \<open>P\<close> with id \<open>i\<close> that no later event resolves.\<close>

definition open_after :: "(ledger_event \<Rightarrow> bool) \<Rightarrow> ledger_event list \<Rightarrow> string \<Rightarrow> bool" where
  "open_after P evs i =
     (\<exists>xs ev ys. evs = xs @ ev # ys \<and> eventId ev = i \<and> P ev \<and> (\<forall>later \<in> set ys. \<not> resolves later i))"

lemma project_events_snoc:
  "project_events (evs @ [ev]) st = rbind (project_events evs st) (project_event ev)"
proof (induction evs arbitrary: st)
  case Nil
  then show ?case by (cases "project_event ev st") simp_all
next
  case (Cons e evs)
  then show ?case by (cases "project_event e st") simp_all
qed

lemma open_after_snoc:
  "open_after P (evs @ [ev]) i \<longleftrightarrow> (eventId ev = i \<and> P ev) \<or> (open_after P evs i \<and> \<not> resolves ev i)"
proof
  assume "open_after P (evs @ [ev]) i"
  then obtain xs e ys where e: "evs @ [ev] = xs @ e # ys" "eventId e = i" "P e"
      "\<forall>later \<in> set ys. \<not> resolves later i"
    unfolding open_after_def by blast
  then show "(eventId ev = i \<and> P ev) \<or> (open_after P evs i \<and> \<not> resolves ev i)"
    by (cases ys rule: rev_cases) (auto simp: open_after_def)
next
  assume "(eventId ev = i \<and> P ev) \<or> (open_after P evs i \<and> \<not> resolves ev i)"
  then show "open_after P (evs @ [ev]) i"
  proof
    assume "eventId ev = i \<and> P ev"
    then show ?thesis unfolding open_after_def by fastforce
  next
    assume "open_after P evs i \<and> \<not> resolves ev i"
    then obtain xs e ys where "evs = xs @ e # ys" "eventId e = i" "P e"
        "\<forall>later \<in> set (ys @ [ev]). \<not> resolves later i"
      unfolding open_after_def by auto
    then show ?thesis unfolding open_after_def
      by (metis append.assoc append_Cons)
  qed
qed

text \<open>What each stage of the loop body writes, and what it leaves alone.\<close>

lemma apply_mutation_frame:
  assumes "apply_mutation ev st = Inr st'"
  shows "stUnresolved st' = stUnresolved st" and "stUnknown st' = stUnknown st"
    and "stLatestEvidence st' = stLatestEvidence st"
    and "stPassingSequence st' = stPassingSequence st" and "stPassingEventIds st' = stPassingEventIds st"
    and "stMutationSequence st' = (if mutates ev then Some (sequence ev) else stMutationSequence st)"
    and "stMutationEventIds st' = (if mutates ev then [eventId ev] else stMutationEventIds st)"
  using assms unfolding apply_mutation_def mutates_def Let_def
  by (auto simp: result_inv split: if_splits
      dest: arg_cong [of _ _ stMutationSequence] arg_cong [of _ _ stMutationEventIds])

lemma apply_failure_frame [simp]:
  "stUnresolved (apply_failure ev st) = stUnresolved st @ (if is_failure ev then [eventId ev] else [])"
  "stUnknown (apply_failure ev st) = stUnknown st @ (if eventType ev = ''tool.outcome_unknown'' then [eventId ev] else [])"
  "stLatestEvidence (apply_failure ev st) = stLatestEvidence st"
  "stPassingSequence (apply_failure ev st) = stPassingSequence st"
  "stPassingEventIds (apply_failure ev st) = stPassingEventIds st"
  "stMutationSequence (apply_failure ev st) = stMutationSequence st"
  "stMutationEventIds (apply_failure ev st) = stMutationEventIds st"
  "stProfile (apply_failure ev st) = stProfile st"
  by (simp_all add: apply_failure_def Let_def)

lemma apply_evidence_frame [simp]:
  "stUnresolved (apply_evidence ev st) = stUnresolved st"
  "stUnknown (apply_evidence ev st) = stUnknown st"
  "stLatestEvidence (apply_evidence ev st) =
     (if decisive ev then Some (the (evidenceOutcome (outcome ev)), sequence ev) else stLatestEvidence st)"
  "stPassingSequence (apply_evidence ev st) = (if passing ev then Some (sequence ev) else stPassingSequence st)"
  "stPassingEventIds (apply_evidence ev st) = (if passing ev then [eventId ev] else stPassingEventIds st)"
  "stMutationSequence (apply_evidence ev st) = stMutationSequence st"
  "stMutationEventIds (apply_evidence ev st) = stMutationEventIds st"
  "stProfile (apply_evidence ev st) = stProfile st"
  by (simp_all add: apply_evidence_def decisive_def passing_def Let_def split: option.split)

lemma project_event_stages:
  assumes "project_event ev st = Inr st'"
  obtains ids st1 where "resolutionIds (payload ev) = Inr ids"
    and "apply_mutation ev (st\<lparr>stUnresolved := removeIds (stUnresolved st) ids, stUnknown := removeIds (stUnknown st) ids\<rparr>) = Inr st1"
    and "st' = apply_evidence ev (apply_failure ev st1)"
  using assms by (auto simp: project_event_def result_inv Let_def)

lemma set_removeIds [simp]: "set (removeIds ids rs) = set ids - set rs"
  by (auto simp: removeIds_def)

lemma project_event_lists:
  assumes "project_event ev st = Inr st'"
  shows "i \<in> set (stUnresolved st') \<longleftrightarrow> (eventId ev = i \<and> is_failure ev) \<or> (i \<in> set (stUnresolved st) \<and> \<not> resolves ev i)"
    and "i \<in> set (stUnknown st') \<longleftrightarrow> (eventId ev = i \<and> eventType ev = ''tool.outcome_unknown'') \<or> (i \<in> set (stUnknown st) \<and> \<not> resolves ev i)"
  using assms by (auto elim!: project_event_stages simp: apply_mutation_frame resolves_def)

lemma project_events_lists:
  assumes "project_events evs (initial_state profile) = Inr st"
  shows "i \<in> set (stUnresolved st) \<longleftrightarrow> open_after is_failure evs i"
    and "i \<in> set (stUnknown st) \<longleftrightarrow> open_after (\<lambda>ev. eventType ev = ''tool.outcome_unknown'') evs i"
  using assms
proof (induction evs arbitrary: st rule: rev_induct)
  case Nil
  { case 1 then show ?case by (auto simp: initial_state_def open_after_def) }
  { case 2 then show ?case by (auto simp: initial_state_def open_after_def) }
next
  case (snoc ev evs)
  { case 1
    then obtain st0 where "project_events evs (initial_state profile) = Inr st0" "project_event ev st0 = Inr st"
      by (auto simp: project_events_snoc result_inv)
    with snoc.IH(1) [of st0] project_event_lists(1) [of ev st0 st] show ?case
      by (simp add: open_after_snoc) }
  { case 2
    then obtain st0 where "project_events evs (initial_state profile) = Inr st0" "project_event ev st0 = Inr st"
      by (auto simp: project_events_snoc result_inv)
    with snoc.IH(2) [of st0] project_event_lists(2) [of ev st0 st] show ?case
      by (simp add: open_after_snoc) }
qed

text \<open>The latest mutation and the latest decisive verification.\<close>

definition latest :: "(ledger_event \<Rightarrow> bool) \<Rightarrow> ledger_event list \<Rightarrow> ledger_event option" where
  "latest P evs = (case filter P evs of [] \<Rightarrow> None | es \<Rightarrow> Some (last es))"

lemma latest_snoc [simp]: "latest P (evs @ [ev]) = (if P ev then Some ev else latest P evs)"
  by (auto simp: latest_def split: list.splits) (metis last_snoc last.simps)

lemma latest_Nil [simp]: "latest P [] = None"
  by (simp add: latest_def)

lemma project_event_latest:
  assumes "project_event ev st = Inr st'"
  shows "stMutationSequence st' = (if mutates ev then Some (sequence ev) else stMutationSequence st)"
    and "stMutationEventIds st' = (if mutates ev then [eventId ev] else stMutationEventIds st)"
    and "stLatestEvidence st' = (if decisive ev then Some (the (evidenceOutcome (outcome ev)), sequence ev) else stLatestEvidence st)"
    and "stPassingSequence st' = (if passing ev then Some (sequence ev) else stPassingSequence st)"
    and "stPassingEventIds st' = (if passing ev then [eventId ev] else stPassingEventIds st)"
  using assms by (auto elim!: project_event_stages simp: apply_mutation_frame)

lemma project_events_latest:
  assumes "project_events evs (initial_state profile) = Inr st"
  shows "stMutationSequence st = map_option sequence (latest mutates evs)
    \<and> stLatestEvidence st = map_option (\<lambda>ev. (the (evidenceOutcome (outcome ev)), sequence ev)) (latest decisive evs)
    \<and> stPassingSequence st = map_option sequence (latest passing evs)"
  using assms
proof (induction evs arbitrary: st rule: rev_induct)
  case Nil
  then show ?case by (auto simp: initial_state_def)
next
  case (snoc ev evs)
  then obtain st0 where "project_events evs (initial_state profile) = Inr st0" "project_event ev st0 = Inr st"
    by (auto simp: project_events_snoc result_inv)
  with snoc.IH [of st0] project_event_latest [of ev st0 st] show ?case by simp
qed

text \<open>Parsed events have strictly increasing sequences and distinct ids, within the cursor.\<close>

lemma parseEvents_ordered:
  assumes "parseEvents through seen previous raws = Inr evs"
  shows "sorted_wrt (\<lambda>a b. sequence a < sequence b) evs \<and> distinct (map eventId evs)
    \<and> (\<forall>ev \<in> set evs. previous < sequence ev \<and> sequence ev \<le> through \<and> eventId ev \<notin> set seen)"
  using assms
proof (induction raws arbitrary: seen previous evs)
  case Nil
  then show ?case by simp
next
  case (Cons raw raws)
  then show ?case
    by (fastforce simp: result_inv split: if_splits)
qed

lemma latest_max:
  assumes "sorted_wrt (\<lambda>a b. sequence a < sequence b) evs" and "latest P evs = Some ev"
  shows "ev \<in> set evs \<and> P ev \<and> (\<forall>e \<in> set evs. P e \<longrightarrow> sequence e \<le> sequence ev)"
  using assms by (induction evs rule: rev_induct) (auto simp: sorted_wrt_append split: if_splits)

lemma latest_None: "latest P evs = None \<longleftrightarrow> (\<forall>e \<in> set evs. \<not> P e)"
  by (induction evs rule: rev_induct) auto

lemma parseInput_ordered:
  "parseInput v = Inr inp \<Longrightarrow> sorted_wrt (\<lambda>a b. sequence a < sequence b) (inputEvents inp)
     \<and> distinct (map eventId (inputEvents inp))
     \<and> (\<forall>ev \<in> set (inputEvents inp). sequence ev \<le> inputThroughSequence inp)"
  by (auto simp: parseInput_def result_inv Let_def dest: parseEvents_ordered)

lemma projectLedger_cases:
  assumes "projectLedger sha256 input = Inr p" and "parseInput input = Inr inp"
  obtains st where "project_events (inputEvents inp) (initial_state (initialProfile inp)) = Inr st"
    and "evidenceState p = evidence_of st" and "unresolvedFailureEventIds p = stUnresolved st"
    and "unknownOutcomeEventIds p = stUnknown st" and "taskProfile p = stProfile st"
    and "latestMutationSequence p = stMutationSequence st"
    and "latestPassingVerificationSequence p = stPassingSequence st"
    and "throughSequence p = inputThroughSequence inp"
    and "missingProfileFields p = missing_fields (initialProfile inp)"
    and "\<not> (intakeStatus inp = IntakeReady \<and> missing_fields (initialProfile inp) \<noteq> [])"
  using assms by (auto simp: projectLedger_def result_inv Let_def)

lemma decisive_not_passing:
  "decisive ev \<Longrightarrow> evidenceOutcome (outcome ev) = Some OutcomeFailed \<or> passing ev"
  by (cases "evidenceOutcome (outcome ev)"; cases "the (evidenceOutcome (outcome ev))")
    (auto simp: decisive_def passing_def)

text \<open>A sample run: a passing verification after a file change, in an exhausted intake.\<close>

definition sample_event :: "string \<Rightarrow> int \<Rightarrow> string \<Rightarrow> fields \<Rightarrow> jsvalue" where
  "sample_event i s t extra =
     VObj ([(''eventId'', VStr i), (''sequence'', VNum s), (''eventType'', VStr t)] @ extra)"

definition sample_input :: "jsvalue list \<Rightarrow> jsvalue" where
  "sample_input evs =
     VObj [(''initialProfile'', VObj [(''taskType'', VNull), (''target'', VNull), (''expected'', VNull), (''constraints'', VNull)]),
           (''intakeStatus'', VStr ''exhausted''),
           (''coverage'', VObj [(''run'', VStr ''complete''), (''tool'', VStr ''complete''), (''command'', VStr ''complete''),
              (''file'', VStr ''complete''), (''approval'', VStr ''declared'')]),
           (''throughSequence'', VNum 9),
           (''events'', VArr evs)]"

definition sample_events :: "jsvalue list" where
  "sample_events =
     [sample_event ''a'' 1 ''tool.failed'' [],
      sample_event ''b'' 2 ''file.changed'' [(''payload'', VObj [(''resolvesEventIds'', VArr [VStr ''a''])])],
      sample_event ''c'' 3 ''tool.outcome_unknown'' [],
      sample_event ''d'' 4 ''verification.recorded'' [(''outcome'', VStr ''passed'')]]"

lemma sample_parses: "\<exists>inp. parseInput (sample_input sample_events) = Inr inp"
proof -
  have "\<not> isl (parseInput (sample_input sample_events))" by code_simp
  then show ?thesis by (cases "parseInput (sample_input sample_events)") auto
qed

lemma sample_projects:
  "\<exists>p. projectLedger (\<lambda>s. s) (sample_input sample_events) = Inr p \<and> evidenceState p = EvFresh
     \<and> unresolvedFailureEventIds p = [] \<and> unknownOutcomeEventIds p = [''c'']"
proof -
  have "map_sum id (\<lambda>p. (evidenceState p, unresolvedFailureEventIds p, unknownOutcomeEventIds p))
      (projectLedger (\<lambda>s. s) (sample_input sample_events)) = Inr (EvFresh, [], [''c''])"
    by code_simp
  then show ?thesis by (cases "projectLedger (\<lambda>s. s) (sample_input sample_events)") auto
qed

lemma evidence_of_latest:
  assumes "project_events evs (initial_state profile) = Inr st"
  shows "evidence_of st =
    (case latest decisive evs of
       None \<Rightarrow> EvNone
     | Some v \<Rightarrow>
         if \<not> passing v then EvFailed
         else (case latest mutates evs of
                 None \<Rightarrow> EvFresh
               | Some m \<Rightarrow> if sequence m > sequence v then EvStale else EvFresh))"
proof (cases "latest decisive evs")
  case None
  then show ?thesis using project_events_latest [OF assms] by (simp add: evidence_of_def)
next
  case (Some v)
  then have "decisive v" by (induction evs rule: rev_induct) (auto split: if_splits)
  from decisive_not_passing [OF this] Some project_events_latest [OF assms] show ?thesis
    by (auto simp: evidence_of_def passing_def decisive_def split: option.splits)
qed

section \<open>Properties\<close>

text \<open>
  C32: the evidence state is what the documentation promises: \<open>none\<close> without a decisive verification,
  \<open>failed\<close> when the latest decisive verification failed, and after a passing one \<open>fresh\<close> exactly when no
  mutation has a later sequence, \<open>stale\<close> exactly when one has.
\<close>

theorem projection_evidence_state:
  assumes "projectLedger sha256 input = Inr p" and "parseInput input = Inr inp"
  defines "evs \<equiv> set (inputEvents inp)"
  defines "newest v \<equiv> v \<in> evs \<and> decisive v \<and> (\<forall>d \<in> evs. decisive d \<longrightarrow> sequence d \<le> sequence v)"
  shows "case evidenceState p of
      EvNone \<Rightarrow> \<forall>ev \<in> evs. \<not> decisive ev
    | EvFailed \<Rightarrow> \<exists>v. newest v \<and> \<not> passing v
    | EvFresh \<Rightarrow> \<exists>v. newest v \<and> passing v \<and> (\<forall>m \<in> evs. mutates m \<longrightarrow> sequence m \<le> sequence v)
    | EvStale \<Rightarrow> \<exists>v. newest v \<and> passing v \<and> (\<exists>m \<in> evs. mutates m \<and> sequence v < sequence m)"
proof -
  obtain st where fold: "project_events (inputEvents inp) (initial_state (initialProfile inp)) = Inr st"
    and ev: "evidenceState p = evidence_of st"
    using projectLedger_cases [OF assms(1,2)] by blast
  note st = evidence_of_latest [OF fold]
  have sorted: "sorted_wrt (\<lambda>a b. sequence a < sequence b) (inputEvents inp)"
    using parseInput_ordered [OF assms(2)] by simp
  show ?thesis
  proof (cases "latest decisive (inputEvents inp)")
    case None
    then show ?thesis using st ev latest_None [THEN iffD1, OF None] by (simp add: evs_def)
  next
    case (Some v)
    have v: "newest v" using latest_max [OF sorted Some] by (simp add: newest_def evs_def)
    show ?thesis
    proof (cases "latest mutates (inputEvents inp)")
      case None
      then show ?thesis
        using st ev Some v latest_None [THEN iffD1, OF None] by (auto simp: evs_def)
    next
      case m: (Some m)
      show ?thesis
        using latest_max [OF sorted m] st ev Some m v by (fastforce simp: evs_def)
    qed
  qed
qed

theorem projection_evidence_state_witness:
  "\<exists>p inp. projectLedger (\<lambda>s. s) (sample_input sample_events) = Inr p
     \<and> parseInput (sample_input sample_events) = Inr inp
     \<and> (\<exists>v. v \<in> set (inputEvents inp) \<and> passing v
          \<and> (\<forall>m \<in> set (inputEvents inp). mutates m \<longrightarrow> sequence m \<le> sequence v))"
proof -
  obtain p inp where p: "projectLedger (\<lambda>s. s) (sample_input sample_events) = Inr p"
    and inp: "parseInput (sample_input sample_events) = Inr inp" and f: "evidenceState p = EvFresh"
    using sample_parses sample_projects by blast
  show ?thesis using projection_evidence_state [OF p inp] p inp f by auto
qed

text \<open>
  C33: an event id is listed as an unresolved failure exactly when a failure event with that id is
  in the run and no later event resolves it, and as an unknown outcome exactly when an event of
  type \<open>tool.outcome_unknown\<close> with that id is and no later event resolves it.
\<close>

theorem projection_open_items:
  assumes "projectLedger sha256 input = Inr p" and "parseInput input = Inr inp"
  shows "(i \<in> set (unresolvedFailureEventIds p) \<longleftrightarrow> open_after is_failure (inputEvents inp) i)
    \<and> (i \<in> set (unknownOutcomeEventIds p) \<longleftrightarrow>
         open_after (\<lambda>ev. eventType ev = ''tool.outcome_unknown'') (inputEvents inp) i)"
proof -
  obtain st where fold: "project_events (inputEvents inp) (initial_state (initialProfile inp)) = Inr st"
    and "unresolvedFailureEventIds p = stUnresolved st" and "unknownOutcomeEventIds p = stUnknown st"
    using projectLedger_cases [OF assms] by blast
  then show ?thesis by (simp add: project_events_lists [OF fold])
qed

theorem projection_open_items_witness:
  "\<exists>inp. parseInput (sample_input sample_events) = Inr inp
     \<and> \<not> open_after is_failure (inputEvents inp) ''a''
     \<and> open_after (\<lambda>ev. eventType ev = ''tool.outcome_unknown'') (inputEvents inp) ''c''"
proof -
  obtain p inp where p: "projectLedger (\<lambda>s. s) (sample_input sample_events) = Inr p"
    and inp: "parseInput (sample_input sample_events) = Inr inp"
    and lists: "unresolvedFailureEventIds p = []" "unknownOutcomeEventIds p = [''c'']"
    using sample_parses sample_projects by blast
  show ?thesis
    using inp projection_open_items [OF p inp, of "''a''"] projection_open_items [OF p inp, of "''c''"] lists
    by auto
qed

end
