(* ===== verification/Js_Regex.thy ===== *)
theory Js_Regex
  imports Js_Prelude
begin

text \<open>
  The regular expressions of the sources: character classes, sequences, alternatives, options,
  bounded-below repetition of a class, anchors and word boundaries. They have neither
  back-references nor look-around, so whether \<open>RegExp.test\<close> succeeds is whether some substring
  matches; the matcher computes all ends of matches from a position. A position is the character
  before it and the text after it.
\<close>

datatype rx =
    RClass "char \<Rightarrow> bool"
  | RSeq rx rx
  | RAlt rx rx
  | ROpt rx
  | RMany nat "char \<Rightarrow> bool"
  | REmpty
  | RStart
  | REnd
  | RWord

type_synonym position = "char option \<times> string"

definition is_word_char :: "char \<Rightarrow> bool" where
  "is_word_char c =
     ((CHR ''a'' \<le> c \<and> c \<le> CHR ''z'') \<or> (CHR ''A'' \<le> c \<and> c \<le> CHR ''Z'') \<or> is_digit c \<or> c = CHR ''_'')"

definition is_alnum :: "char \<Rightarrow> bool" where
  "is_alnum c = ((CHR ''a'' \<le> c \<and> c \<le> CHR ''z'') \<or> (CHR ''A'' \<le> c \<and> c \<le> CHR ''Z'') \<or> is_digit c)"

definition is_upper_or_digit :: "char \<Rightarrow> bool" where
  "is_upper_or_digit c = ((CHR ''A'' \<le> c \<and> c \<le> CHR ''Z'') \<or> is_digit c)"

text \<open>\<open>[A-Za-z0-9...]\<close> with extra characters.\<close>

definition alnum_or :: "string \<Rightarrow> char \<Rightarrow> bool" where
  "alnum_or extra c = (is_alnum c \<or> c \<in> set extra)"

fun word_at :: "char option \<Rightarrow> bool" where
  "word_at None = False"
| "word_at (Some c) = is_word_char c"

fun many :: "nat \<Rightarrow> (char \<Rightarrow> bool) \<Rightarrow> position \<Rightarrow> position list" where
  "many n p (prev, []) = (if n = 0 then [(prev, [])] else [])"
| "many n p (prev, c # s) =
     (if n = 0 then [(prev, c # s)] else []) @ (if p c then many (n - 1) p (Some c, s) else [])"

fun ends :: "rx \<Rightarrow> position \<Rightarrow> position list" where
  "ends (RClass p) (prev, s) = (case s of [] \<Rightarrow> [] | c # r \<Rightarrow> if p c then [(Some c, r)] else [])"
| "ends (RSeq a b) pos = concat (map (ends b) (ends a pos))"
| "ends (RAlt a b) pos = ends a pos @ ends b pos"
| "ends (ROpt a) pos = ends a pos @ [pos]"
| "ends (RMany n p) pos = many n p pos"
| "ends REmpty pos = [pos]"
| "ends RStart (prev, s) = (if prev = None then [(prev, s)] else [])"
| "ends REnd (prev, s) = (if s = [] then [(prev, s)] else [])"
| "ends RWord (prev, s) =
     (if word_at prev \<noteq> word_at (case s of [] \<Rightarrow> None | c # _ \<Rightarrow> Some c) then [(prev, s)] else [])"

fun test_from :: "rx \<Rightarrow> position \<Rightarrow> bool" where
  "test_from r (prev, []) = (ends r (prev, []) \<noteq> [])"
| "test_from r (prev, c # s) = (if ends r (prev, c # s) \<noteq> [] then True else test_from r (Some c, s))"

definition test :: "rx \<Rightarrow> string \<Rightarrow> bool" where
  "test r s = test_from r (None, s)"

fun rseq :: "rx list \<Rightarrow> rx" where
  "rseq [] = REmpty"
| "rseq [r] = r"
| "rseq (r # rs) = RSeq r (rseq rs)"

fun ralt :: "rx list \<Rightarrow> rx" where
  "ralt [] = RClass (\<lambda>_. False)"
| "ralt [r] = r"
| "ralt (r # rs) = RAlt r (ralt rs)"

text \<open>A literal, and a literal under the \<open>i\<close> flag.\<close>

definition rlit :: "string \<Rightarrow> rx" where
  "rlit s = rseq (map (\<lambda>c. RClass (\<lambda>x. x = c)) s)"

definition rlit_i :: "string \<Rightarrow> rx" where
  "rlit_i s = rseq (map (\<lambda>c. RClass (\<lambda>x. ascii_lower x = ascii_lower c)) s)"

text \<open>An exact number of repetitions of a class.\<close>

definition rtimes :: "nat \<Rightarrow> (char \<Rightarrow> bool) \<Rightarrow> rx" where
  "rtimes n p = rseq (replicate n (RClass p))"

text \<open>A match ends at a suffix of the text it started in.\<close>

lemma many_suffix: "(q, r) \<in> set (many n p pos) \<Longrightarrow> \<exists>u. snd pos = u @ r"
proof (induction n p pos rule: many.induct)
  case (1 n p prev)
  then show ?case by (auto split: if_splits)
next
  case (2 n p prev c s)
  show ?case
  proof (cases "n = 0 \<and> r = c # s")
    case True
    then show ?thesis by simp
  next
    case False
    with "2.prems" have "p c" "(q, r) \<in> set (many (n - 1) p (Some c, s))" by (auto split: if_splits)
    from "2.IH" [OF this] obtain u where "s = u @ r" by auto
    then show ?thesis by (intro exI [of _ "c # u"]) simp
  qed
qed

lemma ends_suffix: "(q, r) \<in> set (ends x pos) \<Longrightarrow> \<exists>u. snd pos = u @ r"
proof (induction x pos arbitrary: q r rule: ends.induct)
  case (2 a b pos)
  then obtain q' r' where "(q', r') \<in> set (ends a pos)" "(q, r) \<in> set (ends b (q', r'))" by auto
  with "2.IH" show ?case by (metis append.assoc snd_conv)
qed (auto split: list.splits if_splits dest: many_suffix)

end
