(* ===== verification/Secrets.thy ===== *)
theory Secrets
  imports Js_Regex Boundary_Json
begin

text \<open>
  Secret detection, \<open>src/src/memory/secrets.ts\<close>: the five patterns, the scan of a string and the
  scan of structured input.
\<close>

datatype secret_kind = private_key | authorization_header | credential_assignment | known_token_prefix

fun secret_kind_text :: "secret_kind \<Rightarrow> string" where
  "secret_kind_text private_key = ''private_key''"
| "secret_kind_text authorization_header = ''authorization_header''"
| "secret_kind_text credential_assignment = ''credential_assignment''"
| "secret_kind_text known_token_prefix = ''known_token_prefix''"

definition one_of :: "string \<Rightarrow> rx" where
  "one_of cs = RClass (\<lambda>c. c \<in> set cs)"

text \<open>\<open>api[-_]?key|access[-_]?token|refresh[-_]?token|client[-_]?secret|password|passwd|secret\<close>\<close>

definition credential_words :: rx where
  "credential_words =
     (let joined = (\<lambda>a b. rseq [rlit_i a, ROpt (one_of ''-_''), rlit_i b]) in
      ralt [joined ''api'' ''key'', joined ''access'' ''token'', joined ''refresh'' ''token'',
            joined ''client'' ''secret'', rlit_i ''password'', rlit_i ''passwd'', rlit_i ''secret''])"

definition quote_opt :: rx where
  "quote_opt = ROpt (one_of [CHR 0x22, CHR 0x27])"

definition PATTERNS :: "(secret_kind \<times> rx) list" where
  "PATTERNS =
    [(credential_assignment,
      rseq [RAlt RStart (RClass is_js_space), rlit ''-'', ROpt (rlit ''-''), credential_words,
            RAlt (rlit ''='') (RMany 1 is_js_space), quote_opt, RMany 12 (alnum_or ''_./+=:-'')]),
     (private_key,
      rseq [rlit_i ''-----BEGIN '', RMany 0 (\<lambda>c. alnum_or '' '' c), rlit_i ''PRIVATE KEY-----'']),
     (authorization_header,
      rseq [RWord, rlit_i ''authorization'', RMany 0 is_js_space, rlit '':'', RMany 0 is_js_space,
            rlit_i ''bearer'', RMany 1 is_js_space, RMany 12 (alnum_or ''._~+/=-'')]),
     (known_token_prefix,
      rseq [RWord,
            ralt [RSeq (rlit ''sk-'') (RMany 16 is_alnum),
                  RSeq (rlit ''ghp_'') (RMany 20 is_alnum),
                  RSeq (rlit ''github_pat_'') (RMany 20 (alnum_or ''_'')),
                  rseq [rlit ''xox'', one_of ''baprs'', rlit ''-'', RMany 16 (alnum_or ''-'')],
                  RSeq (rlit ''AKIA'') (rtimes 16 is_upper_or_digit),
                  RSeq (rlit ''AIza'') (RMany 20 (alnum_or ''_-'')),
                  RSeq (rlit ''npm_'') (RMany 20 is_alnum),
                  RSeq (rlit ''hf_'') (RMany 20 is_alnum)],
            RWord]),
     (credential_assignment,
      rseq [RWord, credential_words, RMany 0 is_js_space, one_of '':='', RMany 0 is_js_space, quote_opt,
            RMany 12 (alnum_or ''_./+=:-'')])]"

definition findSecret :: "string \<Rightarrow> secret_kind option" where
  "findSecret value = map_option fst (find (\<lambda>(kind, pattern). test pattern value) PATTERNS)"

definition containsSecret :: "string \<Rightarrow> bool" where
  "containsSecret value = (findSecret value \<noteq> None)"

text \<open>The structured scan; the first finding in iteration order wins.\<close>

definition first_finding :: "secret_kind option \<Rightarrow> secret_kind option \<Rightarrow> secret_kind option" where
  "first_finding a b = (case a of None \<Rightarrow> b | Some k \<Rightarrow> Some k)"

function (sequential) findSecretInValue :: "jsvalue \<Rightarrow> secret_kind option" where
  "findSecretInValue (VStr s) = findSecret s"
| "findSecretInValue (VArr xs) = fold (\<lambda>x acc. first_finding acc (findSecretInValue x)) xs None"
| "findSecretInValue (VObj fs) =
     fold (\<lambda>f acc. first_finding acc
       (first_finding (findSecret (fst f))
          (first_finding (case snd f of VStr s \<Rightarrow> findSecret (fst f @ '': '' @ s) | _ \<Rightarrow> None)
             (findSecretInValue (snd f))))) (own_order fs) None"
| "findSecretInValue v = None"
  by pat_completeness auto
termination
  by (relation "measure size") (auto simp: size_field_less size_elem_less)

section \<open>What the structured scan covers\<close>

lemma first_finding_None [simp]: "first_finding a b = None \<longleftrightarrow> a = None \<and> b = None"
  by (simp add: first_finding_def split: option.splits)

lemma fold_first_finding:
  "fold (\<lambda>x acc. first_finding acc (g x)) xs a = None \<longleftrightarrow> a = None \<and> (\<forall>x \<in> set xs. g x = None)"
  by (induction xs arbitrary: a) auto

text \<open>Every text the structured scan must look at: strings, keys and \<open>key: string\<close> assignments, at any depth.\<close>

fun scanned_texts :: "jsvalue \<Rightarrow> string list" where
  "scanned_texts (VStr s) = [s]"
| "scanned_texts (VArr xs) = concat (map scanned_texts xs)"
| "scanned_texts (VObj fs) =
     concat (map (\<lambda>f. fst f # (case snd f of VStr s \<Rightarrow> [fst f @ '': '' @ s] | _ \<Rightarrow> []) @ scanned_texts (snd f)) fs)"
| "scanned_texts v = []"

lemma findSecretInValue_None_iff:
  "findSecretInValue v = None \<longleftrightarrow> (\<forall>s \<in> set (scanned_texts v). findSecret s = None)"
proof (induction v rule: findSecretInValue.induct)
  case (2 xs)
  then show ?case by (auto simp: fold_first_finding)
next
  case (3 fs)
  let ?g = "\<lambda>f. first_finding (findSecret (fst f))
      (first_finding (case snd f of VStr s \<Rightarrow> findSecret (fst f @ '': '' @ s) | _ \<Rightarrow> None)
         (findSecretInValue (snd f)))"
  let ?t = "\<lambda>f. fst f # (case snd f of VStr s \<Rightarrow> [fst f @ '': '' @ s] | _ \<Rightarrow> []) @ scanned_texts (snd f)"
  have "?g f = None \<longleftrightarrow> (\<forall>s \<in> set (?t f). findSecret s = None)" if "f \<in> set fs" for f
    using 3 [of f] that by (cases "snd f") simp_all
  then have "(\<forall>f \<in> set fs. ?g f = None) \<longleftrightarrow> (\<forall>f \<in> set fs. \<forall>s \<in> set (?t f). findSecret s = None)"
    by blast
  moreover have "findSecretInValue (VObj fs) = None \<longleftrightarrow> (\<forall>f \<in> set fs. ?g f = None)"
    using fold_first_finding [of ?g "own_order fs" None] by simp
  moreover have "(\<forall>s \<in> set (scanned_texts (VObj fs)). findSecret s = None)
      \<longleftrightarrow> (\<forall>f \<in> set fs. \<forall>s \<in> set (?t f). findSecret s = None)" by auto
  ultimately show ?case by blast
qed simp_all

section \<open>Properties\<close>

text \<open>
  The structured secret scan is complete and exact: a value passes if and only if no string in
  it, no object key and no \<open>key: string\<close> assignment, at any depth, matches a secret pattern.
\<close>

theorem findSecretInValue_complete:
  "findSecretInValue v = None \<longleftrightarrow> list_all (\<lambda>s. findSecret s = None) (scanned_texts v)"
  by (simp add: findSecretInValue_None_iff list_all_iff)

end
