(* ===== verification/Sanitize.thy ===== *)
theory Sanitize
  imports Secrets Ledger_Types Json_Reader
begin

text \<open>
  Sanitization of JSON values before they are persisted, \<open>src/src/security/sanitize.ts\<close>. The Node
  platform is a parameter: the URL parser, the path functions, the home directory of the process.
  The ellipsis U+2026, which lies outside the modelled alphabet, is a parameter as well.
\<close>

record platform =
  url_normal :: "string \<Rightarrow> string option"
  path_isAbsolute :: "string \<Rightarrow> bool"
  path_normalize :: "string \<Rightarrow> string"
  path_resolve :: "string \<Rightarrow> string"
  path_relative :: "string \<Rightarrow> string \<Rightarrow> string"
  path_sep :: char
  env_home :: "string option"
  ellipsis :: string

record san_options =
  opt_workspace :: "string option"
  opt_home :: "string option"

record redaction =
  red_path :: string
  red_kind :: string

record 'a sanitized =
  san_value :: 'a
  san_redactions :: "redaction list"
  san_truncated :: "string list"

section \<open>Key classes\<close>

definition HARMLESS_ENV_KEYS :: "string list" where
  "HARMLESS_ENV_KEYS = [''CI'', ''NODE_ENV'', ''TERM'', ''LANG'', ''LC_ALL'', ''LC_CTYPE'']"

definition joined_words :: "string list \<Rightarrow> rx" where
  "joined_words ws = rseq (concat (map (\<lambda>(i, w). (if i = 0 then [] else [ROpt (one_of ''-_'')]) @ [rlit_i w])
     (zip [0..<length ws] ws)))"

definition whole :: "string list \<Rightarrow> rx" where
  "whole ws = rseq [RStart, ralt (map rlit_i ws), REnd]"

definition SENSITIVE_KEY :: rx where
  "SENSITIVE_KEY =
     ralt (map joined_words
       [[''password''], [''passwd''], [''secret''], [''token''], [''apikey''], [''api'', ''key''],
        [''authorization''], [''cookie''], [''credential''], [''private'', ''key''],
        [''client'', ''secret''], [''refresh'', ''token''], [''access'', ''token'']])"

definition SENSITIVE_CONTAINER_KEY :: rx where
  "SENSITIVE_CONTAINER_KEY = whole [''credentials'', ''headers'']"

definition HIDDEN_REASONING_KEY :: rx where
  "HIDDEN_REASONING_KEY =
     ralt (map joined_words
       [[''chain'', ''of'', ''thought''], [''hidden'', ''reasoning''], [''private'', ''reasoning''],
        [''internal'', ''monologue'']])"

definition PREVIEW_KEY :: rx where
  "PREVIEW_KEY = whole [''stdout'', ''stderr'', ''output'', ''preview'', ''excerpt'', ''diff'']"

definition PATH_KEY :: rx where
  "PATH_KEY = rseq [RAlt RStart (one_of ''-_''),
     ralt (map rlit_i [''path'', ''file'', ''filename'', ''locator'', ''cwd'', ''directory'', ''workspace'', ''target'']),
     REnd]"

definition ENVIRONMENT_KEY :: rx where
  "ENVIRONMENT_KEY = whole [''env'', ''environment'']"

section \<open>Strings\<close>

definition security :: "string \<Rightarrow> js_error" where
  "security message = KiokukoError VALIDATION_ERROR message"

definition secretKey :: js_error where
  "secretKey = KiokukoError SECURITY_REJECTION ''JSON object key contains secret material''"

fun sanitize_jsonValue :: "jsvalue \<Rightarrow> bool" where
  "sanitize_jsonValue VNull = True"
| "sanitize_jsonValue (VBool b) = True"
| "sanitize_jsonValue (VStr s) = True"
| "sanitize_jsonValue (VNum n) = True"
| "sanitize_jsonValue (VFrac t) = True"
| "sanitize_jsonValue (VArr xs) = list_all sanitize_jsonValue xs"
| "sanitize_jsonValue (VObj fs) = list_all (\<lambda>f. sanitize_jsonValue (snd f)) fs"
| "sanitize_jsonValue v = False"

definition pathLabel :: "string list \<Rightarrow> string" where
  "pathLabel segments = CHR ''$'' # concat (map (\<lambda>s. CHR ''['' # json_quote s @ '']'') segments)"

definition starts_with :: "string \<Rightarrow> string \<Rightarrow> bool" where
  "starts_with p s = (take (length p) s = p)"

definition boundaryPrefix :: "platform \<Rightarrow> string \<Rightarrow> string \<Rightarrow> bool" where
  "boundaryPrefix pl root candidate =
     (let relative = path_relative pl root candidate
      in relative = [] \<or> (\<not> starts_with ''..'' relative \<and> \<not> path_isAbsolute pl relative))"

definition slashes :: "platform \<Rightarrow> string \<Rightarrow> string" where
  "slashes pl s = map (\<lambda>c. if c = path_sep pl then CHR ''/'' else c) s"

text \<open>An option that is missing or empty is skipped.\<close>

definition present :: "string option \<Rightarrow> string option" where
  "present x = (if x = Some [] then None else x)"

definition normalizeAbsolutePath :: "platform \<Rightarrow> san_options \<Rightarrow> string \<Rightarrow> string option" where
  "normalizeAbsolutePath pl opt value =
     (if \<not> path_isAbsolute pl value then None
      else
        let absolute = path_normalize pl value;
            within = (\<lambda>root. case present root of
                 None \<Rightarrow> None
               | Some r \<Rightarrow>
                   if boundaryPrefix pl (path_resolve pl r) absolute
                   then Some (slashes pl (path_relative pl (path_resolve pl r) absolute)) else None)
        in case within (opt_workspace opt) of
             Some relative \<Rightarrow> Some (if relative = [] then ''.'' else relative)
           | None \<Rightarrow>
               (case within (opt_home opt) of
                  Some relative \<Rightarrow> Some (if relative = [] then ''<HOME>'' else ''<HOME>/'' @ relative)
                | None \<Rightarrow> None))"

definition URL_PREFIX :: rx where
  "URL_PREFIX = rseq [RStart, RClass (\<lambda>c. is_alnum c \<and> \<not> is_digit c), RMany 0 (alnum_or ''+.-''), rlit ''://'']"

definition normalizeUrl :: "platform \<Rightarrow> string \<Rightarrow> string option" where
  "normalizeUrl pl value = (if test URL_PREFIX value then url_normal pl value else None)"

text \<open>The loop of \<open>truncateUtf8\<close>: the longest prefix that leaves room for the ellipsis.\<close>

fun truncate_prefix :: "string \<Rightarrow> int \<Rightarrow> string \<Rightarrow> string \<Rightarrow> string" where
  "truncate_prefix dots maxBytes result [] = result"
| "truncate_prefix dots maxBytes result (character # rest) =
     (let next = result @ [character] in
      if byteLength (next @ dots) > maxBytes then result else truncate_prefix dots maxBytes next rest)"

definition truncateUtf8 :: "string \<Rightarrow> string \<Rightarrow> int \<Rightarrow> string" where
  "truncateUtf8 dots value maxBytes =
     (if byteLength value \<le> maxBytes then value else truncate_prefix dots maxBytes [] value @ dots)"

definition secret_marker :: "secret_kind \<Rightarrow> string" where
  "secret_marker kind = ''[REDACTED:'' @ secret_kind_text kind @ '']''"

text \<open>The text after URL or path normalization, and the kind of the rewriting.\<close>

definition rewrite_text :: "platform \<Rightarrow> san_options \<Rightarrow> string option \<Rightarrow> string \<Rightarrow> string \<times> string" where
  "rewrite_text pl opt keyHint value =
     (case normalizeUrl pl value of
        Some url \<Rightarrow> (url, ''url'')
      | None \<Rightarrow>
          if test PATH_KEY (case keyHint of None \<Rightarrow> [] | Some k \<Rightarrow> k) \<or> path_isAbsolute pl value
          then (case normalizeAbsolutePath pl opt value of
                  Some text \<Rightarrow> (text, ''home_path'')
                | None \<Rightarrow> (value, ''''))
          else (value, ''''))"

type_synonym 'a logged = "'a \<times> redaction list \<times> string list"

definition sanitize_string ::
    "platform \<Rightarrow> san_options \<Rightarrow> string list \<Rightarrow> string option \<Rightarrow> string \<Rightarrow> string logged" where
  "sanitize_string pl opt segments keyHint value =
     (let label = pathLabel segments in
      case findSecret value of
        Some kind \<Rightarrow> (secret_marker kind, [\<lparr>red_path = label, red_kind = ''secret_pattern''\<rparr>], [])
      | None \<Rightarrow>
          (let (text, kind) = rewrite_text pl opt keyHint value;
               moved = (if text \<noteq> value then [\<lparr>red_path = label, red_kind = kind\<rparr>] else [])
           in if (case present keyHint of None \<Rightarrow> False | Some k \<Rightarrow> test PREVIEW_KEY k)
                 \<and> byteLength text > MAX_PREVIEW_BYTES
              then (truncateUtf8 (ellipsis pl) text MAX_PREVIEW_BYTES,
                    moved @ [\<lparr>red_path = label, red_kind = ''preview_truncated''\<rparr>], [label])
              else (text, moved, [])))"

section \<open>Values\<close>

definition log_of :: "string \<Rightarrow> string \<Rightarrow> redaction list" where
  "log_of label kind = [\<lparr>red_path = label, red_kind = kind\<rparr>]"

lemma size_fields_own_order [simp]: "size_list f (own_order fs) = size_list f fs"
proof -
  have "size_list f xs = sum_mset (image_mset f (mset xs)) + size (mset xs)" for xs :: "(string \<times> 'a) list"
    by (induction xs) auto
  then show ?thesis by simp
qed

text \<open>
  \<open>sanitizeNode\<close> with the bodies of its loops over array items, object fields and environment
  variables; each returns its value with the redactions and truncations it pushes, in order. The fields
  of the result are assigned one by one to an empty literal (\<open>assigned_object\<close>).
\<close>

function (sequential) sanitizeNode ::
    "platform \<Rightarrow> san_options \<Rightarrow> string list \<Rightarrow> string option \<Rightarrow> jsvalue \<Rightarrow> jsvalue logged result"
  and sanitizeItems ::
    "platform \<Rightarrow> san_options \<Rightarrow> string list \<Rightarrow> string option \<Rightarrow> nat \<Rightarrow> jsvalue list \<Rightarrow> jsvalue list logged result"
  and sanitizeFields ::
    "platform \<Rightarrow> san_options \<Rightarrow> string list \<Rightarrow> fields \<Rightarrow> fields logged result"
  and sanitizeEnvironment ::
    "platform \<Rightarrow> san_options \<Rightarrow> string list \<Rightarrow> fields \<Rightarrow> fields logged result"
where
  "sanitizeNode pl opt segments keyHint VNull = Inr (VNull, [], [])"
| "sanitizeNode pl opt segments keyHint (VBool b) = Inr (VBool b, [], [])"
| "sanitizeNode pl opt segments keyHint (VNum n) = Inr (VNum n, [], [])"
| "sanitizeNode pl opt segments keyHint (VFrac t) = Inr (VFrac t, [], [])"
| "sanitizeNode pl opt segments keyHint VNonFinite =
     Inl (security ''Value must contain only finite JSON numbers'')"
| "sanitizeNode pl opt segments keyHint (VStr s) =
     (let (text, rs, ts) = sanitize_string pl opt segments keyHint s in Inr (VStr text, rs, ts))"
| "sanitizeNode pl opt segments keyHint (VArr xs) =
     rbind (sanitizeItems pl opt segments keyHint 0 xs) (\<lambda>(ys, rs, ts). Inr (VArr ys, rs, ts))"
| "sanitizeNode pl opt segments keyHint (VObj fs) =
     rbind (sanitizeFields pl opt segments (own_order fs)) (\<lambda>(gs, rs, ts). Inr (assigned_object gs, rs, ts))"
| "sanitizeNode pl opt segments keyHint v = Inl (security ''Value must be JSON-compatible'')"
| "sanitizeItems pl opt segments keyHint index [] = Inr ([], [], [])"
| "sanitizeItems pl opt segments keyHint index (x # xs) =
     rbind (sanitizeNode pl opt (segments @ [nat_text index]) keyHint x) (\<lambda>(y, rs, ts).
       rbind (sanitizeItems pl opt segments keyHint (index + 1) xs) (\<lambda>(ys, rs', ts').
         Inr (y # ys, rs @ rs', ts @ ts')))"
| "sanitizeFields pl opt segments [] = Inr ([], [], [])"
| "sanitizeFields pl opt segments ((key, child) # fs) =
     (let childPath = segments @ [key]; label = pathLabel childPath;
          continue = (\<lambda>keep rs ts. rbind (sanitizeFields pl opt segments fs)
             (\<lambda>(gs, rs', ts'). Inr (keep @ gs, rs @ rs', ts @ ts')))
      in if findSecret key \<noteq> None then Inl secretKey
         else if test HIDDEN_REASONING_KEY key then continue [] (log_of label ''hidden_reasoning'') []
         else if test ENVIRONMENT_KEY key
         then (case child of
                 VObj vars \<Rightarrow>
                   rbind (sanitizeEnvironment pl opt childPath (own_order vars)) (\<lambda>(es, rs, ts).
                     continue [(key, VObj es)] rs ts)
               | _ \<Rightarrow> continue [] (log_of label ''environment_value'') [])
         else if test SENSITIVE_KEY key \<and> \<not> test SENSITIVE_CONTAINER_KEY key
         then continue [(key, VStr ''[REDACTED]'')] (log_of label ''sensitive_key'') []
         else rbind (sanitizeNode pl opt childPath (Some key) child) (\<lambda>(w, rs, ts). continue [(key, w)] rs ts))"
| "sanitizeEnvironment pl opt segments [] = Inr ([], [], [])"
| "sanitizeEnvironment pl opt segments ((key, child) # vars) =
     (let continue = (\<lambda>keep rs ts. rbind (sanitizeEnvironment pl opt segments vars)
             (\<lambda>(gs, rs', ts'). Inr (keep @ gs, rs @ rs', ts @ ts')))
      in if key \<notin> set HARMLESS_ENV_KEYS
         then continue [] (log_of (pathLabel (segments @ [key])) ''environment_value'') []
         else rbind (sanitizeNode pl opt (segments @ [key]) (Some key) child) (\<lambda>(w, rs, ts).
                continue [(key, w)] rs ts))"
  by pat_completeness auto
termination
  by (relation "measure (\<lambda>x. case x of
        Inl (Inl (pl, opt, sg, k, v)) \<Rightarrow> size v
      | Inl (Inr (pl, opt, sg, k, i, xs)) \<Rightarrow> size_list size xs
      | Inr (Inl (pl, opt, sg, fs)) \<Rightarrow> size_list (size_prod (\<lambda>_. 0) size) fs
      | Inr (Inr (pl, opt, sg, fs)) \<Rightarrow> size_list (size_prod (\<lambda>_. 0) size) fs)")
    auto

definition compareRedactions :: "redaction \<Rightarrow> redaction \<Rightarrow> int" where
  "compareRedactions left right =
     (if red_path left < red_path right then - 1
      else if red_path left > red_path right then 1
      else if red_kind left < red_kind right then - 1
      else if red_kind left > red_kind right then 1 else 0)"

definition effective_options :: "platform \<Rightarrow> san_options \<Rightarrow> san_options" where
  "effective_options pl opt =
     \<lparr>opt_workspace = opt_workspace opt,
      opt_home = (case opt_home opt of None \<Rightarrow> env_home pl | Some h \<Rightarrow> Some h)\<rparr>"

definition sanitizeJson :: "platform \<Rightarrow> san_options \<Rightarrow> jsvalue \<Rightarrow> jsvalue sanitized result" where
  "sanitizeJson pl opt value =
     rbind (check (sanitize_jsonValue value) (security ''Value must be JSON-compatible'')) (\<lambda>_.
     rbind (sanitizeNode pl (effective_options pl opt) [] None value) (\<lambda>(w, rs, ts).
     Inr \<lparr>san_value = w, san_redactions = js_sort compareRedactions rs,
          san_truncated = js_sort compareCanonicalStrings ts\<rparr>))"

section \<open>What sanitized values contain\<close>

text \<open>
  A text that may be stored: free of secret patterns, a redaction marker, the URL or path
  rewriting of a text free of secrets, or the truncation of such a text.
\<close>

inductive safe_text :: "platform \<Rightarrow> san_options \<Rightarrow> string \<Rightarrow> bool" for pl opt where
  plain: "findSecret s = None \<Longrightarrow> safe_text pl opt s"
| marker: "safe_text pl opt (secret_marker kind)"
| placeholder: "safe_text pl opt ''[REDACTED]''"
| url: "findSecret s = None \<Longrightarrow> normalizeUrl pl s = Some u \<Longrightarrow> safe_text pl opt u"
| path: "findSecret s = None \<Longrightarrow> normalizeAbsolutePath pl opt s = Some p \<Longrightarrow> safe_text pl opt p"
| preview: "safe_text pl opt s \<Longrightarrow> safe_text pl opt (truncateUtf8 (ellipsis pl) s MAX_PREVIEW_BYTES)"

definition clean_key :: "string \<Rightarrow> jsvalue \<Rightarrow> bool" where
  "clean_key k w =
     (findSecret k = None \<and> \<not> test HIDDEN_REASONING_KEY k \<and>
      (if test ENVIRONMENT_KEY k
       then (case w of VObj vars \<Rightarrow> list_all (\<lambda>f. fst f \<in> set HARMLESS_ENV_KEYS) vars | _ \<Rightarrow> False)
       else test SENSITIVE_KEY k \<and> \<not> test SENSITIVE_CONTAINER_KEY k \<longrightarrow> w = VStr ''[REDACTED]''))"

fun clean :: "platform \<Rightarrow> san_options \<Rightarrow> jsvalue \<Rightarrow> bool" where
  "clean pl opt (VStr s) = safe_text pl opt s"
| "clean pl opt (VArr xs) = list_all (clean pl opt) xs"
| "clean pl opt (VObj fs) = list_all (\<lambda>f. clean_key (fst f) (snd f) \<and> clean pl opt (snd f)) fs"
| "clean pl opt v = True"

text \<open>What one object field becomes: nothing, or one field, with the log entries it causes.\<close>

definition field_outcome ::
    "platform \<Rightarrow> san_options \<Rightarrow> string list \<Rightarrow> string \<Rightarrow> jsvalue \<Rightarrow> fields \<Rightarrow> redaction list \<Rightarrow> string list \<Rightarrow> bool" where
  "field_outcome pl opt childPath key child keep rs ts =
     (findSecret key = None \<and>
      (keep = [] \<and> rs \<noteq> []
       \<or> (\<exists>vars es. \<not> test HIDDEN_REASONING_KEY key \<and> test ENVIRONMENT_KEY key \<and> child = VObj vars
            \<and> keep = [(key, VObj es)] \<and> sanitizeEnvironment pl opt childPath (own_order vars) = Inr (es, rs, ts))
       \<or> \<not> test HIDDEN_REASONING_KEY key \<and> \<not> test ENVIRONMENT_KEY key
            \<and> keep = [(key, VStr ''[REDACTED]'')] \<and> rs \<noteq> []
       \<or> (\<exists>w. \<not> test HIDDEN_REASONING_KEY key \<and> \<not> test ENVIRONMENT_KEY key
            \<and> \<not> (test SENSITIVE_KEY key \<and> \<not> test SENSITIVE_CONTAINER_KEY key)
            \<and> keep = [(key, w)] \<and> sanitizeNode pl opt childPath (Some key) child = Inr (w, rs, ts))))"

lemma sanitizeFields_step:
  assumes "sanitizeFields pl opt segments ((key, child) # fs) = Inr (gs, rs, ts)"
  obtains keep rs1 ts1 gs' rs' ts' where
    "field_outcome pl opt (segments @ [key]) key child keep rs1 ts1"
    "sanitizeFields pl opt segments fs = Inr (gs', rs', ts')"
    "gs = keep @ gs'" "rs = rs1 @ rs'" "ts = ts1 @ ts'"
proof -
  have "\<exists>keep rs1 ts1 gs' rs' ts'. field_outcome pl opt (segments @ [key]) key child keep rs1 ts1
      \<and> sanitizeFields pl opt segments fs = Inr (gs', rs', ts')
      \<and> gs = keep @ gs' \<and> rs = rs1 @ rs' \<and> ts = ts1 @ ts'"
  proof (cases "test HIDDEN_REASONING_KEY key")
    case True
    then show ?thesis using assms
      by (auto simp: field_outcome_def log_of_def result_inv Let_def split: if_splits)
  next
    case False
    note hidden = this
    show ?thesis
    proof (cases "test ENVIRONMENT_KEY key")
      case True
      with hidden show ?thesis using assms
        by (cases child) (force simp: field_outcome_def log_of_def result_inv Let_def split: if_splits)+
    next
      case False
      with hidden show ?thesis using assms
        by (auto simp: field_outcome_def log_of_def result_inv Let_def split: if_splits)
    qed
  qed
  then show ?thesis using that by blast
qed

lemma sanitizeEnvironment_step:
  assumes "sanitizeEnvironment pl opt segments ((key, child) # fs) = Inr (gs, rs, ts)"
  obtains keep rs1 ts1 gs' rs' ts' where
    "keep = [] \<and> rs1 \<noteq> [] \<or> (\<exists>w. key \<in> set HARMLESS_ENV_KEYS \<and> keep = [(key, w)]
       \<and> sanitizeNode pl opt (segments @ [key]) (Some key) child = Inr (w, rs1, ts1))"
    "sanitizeEnvironment pl opt segments fs = Inr (gs', rs', ts')"
    "gs = keep @ gs'" "rs = rs1 @ rs'" "ts = ts1 @ ts'"
  using assms by (cases "key \<in> set HARMLESS_ENV_KEYS") (force simp: log_of_def result_inv Let_def)+

lemma sanitize_string_safe: "safe_text pl opt (fst (sanitize_string pl opt segments keyHint s))"
proof (cases "findSecret s")
  case (Some k)
  then show ?thesis by (simp add: sanitize_string_def safe_text.marker)
next
  case None
  then have "safe_text pl opt (fst (rewrite_text pl opt keyHint s))"
    by (auto simp: rewrite_text_def intro: safe_text.intros split: option.splits)
  with None show ?thesis
    by (auto simp: sanitize_string_def Let_def intro: safe_text.preview split: prod.splits)
qed

lemma harmless_keys_clean: "k \<in> set HARMLESS_ENV_KEYS \<Longrightarrow> clean_key k w"
proof -
  have "list_all (\<lambda>k. findSecret k = None \<and> \<not> test HIDDEN_REASONING_KEY k \<and> \<not> test ENVIRONMENT_KEY k
      \<and> \<not> test SENSITIVE_KEY k) HARMLESS_ENV_KEYS"
    by code_simp
  then show "k \<in> set HARMLESS_ENV_KEYS \<Longrightarrow> clean_key k w" by (auto simp: list_all_iff clean_key_def)
qed

text \<open>The value itself, with the fields of every object in own-property order.\<close>

function (sequential) in_own_order :: "jsvalue \<Rightarrow> jsvalue" where
  "in_own_order (VArr xs) = VArr (map in_own_order xs)"
| "in_own_order (VObj fs) = VObj (map (\<lambda>f. (fst f, in_own_order (snd f))) (own_order fs))"
| "in_own_order v = v"
  by pat_completeness auto
termination
  by (relation "measure size") (auto simp: size_field_less size_elem_less)

text \<open>
  What sanitization makes of a value that it need not touch: the fields assigned in that order, which
  loses a field named \<open>__proto__\<close>. Without such a field it is the value itself.
\<close>

function (sequential) assigned_value :: "jsvalue \<Rightarrow> jsvalue" where
  "assigned_value (VArr xs) = VArr (map assigned_value xs)"
| "assigned_value (VObj fs) = assigned_object (map (\<lambda>f. (fst f, assigned_value (snd f))) (own_order fs))"
| "assigned_value v = v"
  by pat_completeness auto
termination
  by (relation "measure size") (auto simp: size_field_less size_elem_less)

fun no_proto_field :: "jsvalue \<Rightarrow> bool" where
  "no_proto_field (VArr xs) = list_all no_proto_field xs"
| "no_proto_field (VObj fs) = list_all (\<lambda>f. fst f \<noteq> ''__proto__'' \<and> no_proto_field (snd f)) fs"
| "no_proto_field v = True"

lemma assigned_object_plain: "list_all (\<lambda>f. fst f \<noteq> ''__proto__'') fs \<Longrightarrow> assigned_object fs = VObj fs"
proof -
  assume n: "list_all (\<lambda>f. fst f \<noteq> ''__proto__'') fs"
  then have "map_of fs ''__proto__'' = None" by (induction fs) auto
  moreover have "filter (\<lambda>f. fst f \<noteq> ''__proto__'') fs = fs" using n by (simp add: filter_id_conv list_all_iff)
  ultimately show ?thesis by (simp add: assigned_object_def)
qed

lemma assigned_value_plain: "no_proto_field v \<Longrightarrow> assigned_value v = in_own_order v"
proof (induction v rule: in_own_order.induct)
  case (2 fs)
  have n: "fst f \<noteq> ''__proto__'' \<and> no_proto_field (snd f)" if f: "f \<in> set (own_order fs)" for f
  proof -
    have "f \<in> set fs" using f by simp
    with "2.prems" show ?thesis by (simp add: list_all_iff)
  qed
  with 2 have m: "map (\<lambda>f. (fst f, assigned_value (snd f))) (own_order fs) = map (\<lambda>f. (fst f, in_own_order (snd f))) (own_order fs)"
    by (intro map_cong refl) auto
  have "list_all (\<lambda>f. fst f \<noteq> ''__proto__'') (map (\<lambda>f. (fst f, in_own_order (snd f))) (own_order fs))"
    using n by (simp add: list.pred_map list.pred_set)
  then show ?case by (simp only: assigned_value.simps in_own_order.simps m assigned_object_plain)
qed (simp_all add: list_all_iff)

lemma assigned_object_cases:
  "assigned_object fs = VOpaque \<or> assigned_object fs = VObj (filter (\<lambda>f. fst f \<noteq> ''__proto__'') fs)"
proof (cases "map_of fs ''__proto__''")
  case (Some v)
  then show ?thesis by (cases v) (simp_all add: assigned_object_def)
qed (simp add: assigned_object_def)

lemma clean_assigned:
  "list_all (\<lambda>f. clean_key (fst f) (snd f) \<and> clean pl opt (snd f)) gs \<Longrightarrow> clean pl opt (assigned_object gs)"
  using assigned_object_cases [of gs] by (elim disjE) (auto simp: list_all_iff)

lemma assigned_repr: "json_repr (VObj gs) \<Longrightarrow> json_repr (assigned_object gs)"
  using assigned_object_cases [of gs] by (elim disjE) (auto simp: list_all_iff distinct_map_filter)

lemma harmless_no_proto: "list_all (\<lambda>k. k \<noteq> ''__proto__'') HARMLESS_ENV_KEYS"
  by code_simp

lemma environment_plain:
  assumes "list_all (\<lambda>f. fst f \<in> set HARMLESS_ENV_KEYS \<and> P f) es"
  shows "assigned_object es = VObj es"
proof (rule assigned_object_plain)
  from assms show "list_all (\<lambda>f. fst f \<noteq> ''__proto__'') es"
  proof (rule list.pred_mono_strong)
    fix f assume "fst f \<in> set HARMLESS_ENV_KEYS \<and> P f"
    then show "fst f \<noteq> ''__proto__''" using harmless_no_proto unfolding list.pred_set by blast
  qed
qed

definition good :: "platform \<Rightarrow> san_options \<Rightarrow> jsvalue \<Rightarrow> jsvalue \<Rightarrow> redaction list \<Rightarrow> bool" where
  "good pl opt v w rs =
     (clean pl opt w \<and> (rs = [] \<longrightarrow> w = assigned_value v) \<and> (json_repr v \<longrightarrow> json_repr w))"

text \<open>The fields that are kept come from the given ones, one per key.\<close>

definition kept_fields :: "fields \<Rightarrow> fields \<Rightarrow> bool" where
  "kept_fields fs gs =
     (fst ` set gs \<subseteq> fst ` set fs \<and> (distinct (map fst fs) \<longrightarrow> distinct (map fst gs))
      \<and> (list_all (\<lambda>f. json_repr (snd f)) fs \<longrightarrow> list_all (\<lambda>f. json_repr (snd f)) gs))"

lemma kept_fields_step:
  assumes "kept_fields fs gs" and "keep = [] \<or> (\<exists>w. keep = [(key, w)] \<and> (json_repr child \<longrightarrow> json_repr w))"
  shows "kept_fields ((key, child) # fs) (keep @ gs)"
proof -
  have "key \<notin> fst ` set gs" if "key \<notin> fst ` set fs" using assms(1) that by (auto simp: kept_fields_def)
  with assms show ?thesis by (auto simp: kept_fields_def) force+
qed

lemma kept_fields_Nil [simp]: "kept_fields [] []"
  by (simp add: kept_fields_def)

lemma kept_fields_object:
  assumes "kept_fields (own_order fs) gs" and "json_repr (VObj fs)"
  shows "json_repr (VObj gs)"
proof -
  have "mset (map fst (own_order fs)) = mset (map fst fs)" by simp
  then have "distinct (map fst (own_order fs))"
    using assms(2) mset_eq_imp_distinct_iff by fastforce
  with assms show ?thesis by (simp add: kept_fields_def list_all_iff)
qed
definition sanitizes_well :: "platform \<Rightarrow> san_options \<Rightarrow> jsvalue \<Rightarrow> bool" where
  "sanitizes_well pl opt v =
     (\<forall>segments keyHint w rs ts. sanitizeNode pl opt segments keyHint v = Inr (w, rs, ts) \<longrightarrow> good pl opt v w rs)"

lemma sanitizes_wellD:
  "sanitizes_well pl opt v \<Longrightarrow> sanitizeNode pl opt segments keyHint v = Inr (w, rs, ts) \<Longrightarrow> good pl opt v w rs"
  unfolding sanitizes_well_def by blast

lemma sanitizeItems_good:
  assumes "\<And>x. x \<in> set xs \<Longrightarrow> sanitizes_well pl opt x"
    and "sanitizeItems pl opt segments keyHint i xs = Inr (ys, rs, ts)"
  shows "list_all (clean pl opt) ys \<and> (rs = [] \<longrightarrow> ys = map assigned_value xs)
    \<and> (list_all json_repr xs \<longrightarrow> list_all json_repr ys)"
  using assms
proof (induction xs arbitrary: i ys rs ts)
  case Nil
  then show ?case by simp
next
  case (Cons x xs)
  then obtain y r1 t1 zs r2 t2 where
    x: "sanitizeNode pl opt (segments @ [nat_text i]) keyHint x = Inr (y, r1, t1)"
      and xs: "sanitizeItems pl opt segments keyHint (i + 1) xs = Inr (zs, r2, t2)"
      and eq: "ys = y # zs" "rs = r1 @ r2"
    by (auto simp: result_inv)
  have "good pl opt x y r1" using sanitizes_wellD [OF Cons.prems(1) x] by simp
  moreover have "list_all (clean pl opt) zs \<and> (r2 = [] \<longrightarrow> zs = map assigned_value xs)
      \<and> (list_all json_repr xs \<longrightarrow> list_all json_repr zs)"
    using Cons.IH [OF _ xs] Cons.prems(1) by simp
  ultimately show ?case using eq by (simp add: good_def)
qed

abbreviation order_field :: "string \<times> jsvalue \<Rightarrow> string \<times> jsvalue" where
  "order_field f \<equiv> (fst f, assigned_value (snd f))"

lemma sanitizeEnvironment_good:
  assumes "\<And>f. f \<in> set vars \<Longrightarrow> sanitizes_well pl opt (snd f)"
    and "sanitizeEnvironment pl opt segments vars = Inr (gs, rs, ts)"
  shows "list_all (\<lambda>f. fst f \<in> set HARMLESS_ENV_KEYS \<and> clean pl opt (snd f)) gs
    \<and> (rs = [] \<longrightarrow> gs = map order_field vars) \<and> kept_fields vars gs"
  using assms
proof (induction vars arbitrary: gs rs ts)
  case Nil
  then show ?case by simp
next
  case (Cons f vars)
  obtain key child where f: "f = (key, child)" by force
  from Cons.prems(2) [unfolded f] obtain keep r1 t1 hs r2 t2 where
    keep: "keep = [] \<and> r1 \<noteq> [] \<or> (\<exists>w. key \<in> set HARMLESS_ENV_KEYS \<and> keep = [(key, w)]
       \<and> sanitizeNode pl opt (segments @ [key]) (Some key) child = Inr (w, r1, t1))"
      and rest: "sanitizeEnvironment pl opt segments vars = Inr (hs, r2, t2)"
      and eq: "gs = keep @ hs" "rs = r1 @ r2"
    by (rule sanitizeEnvironment_step) blast
  have IH: "list_all (\<lambda>f. fst f \<in> set HARMLESS_ENV_KEYS \<and> clean pl opt (snd f)) hs
      \<and> (r2 = [] \<longrightarrow> hs = map order_field vars) \<and> kept_fields vars hs"
    using Cons.IH [OF _ rest] Cons.prems(1) by simp
  have "sanitizes_well pl opt child" using Cons.prems(1) [of f] f by simp
  note well = sanitizes_wellD [OF this, of "segments @ [key]" "Some key" _ r1 t1]
  then have "keep = [] \<or> (\<exists>w. keep = [(key, w)] \<and> (json_repr child \<longrightarrow> json_repr w))"
    using keep by (auto simp: good_def)
  from kept_fields_step [OF _ this] well keep IH eq f show ?case by (auto simp: good_def)
qed

lemma field_outcome_good:
  assumes "field_outcome pl opt childPath key child keep rs ts" and "sanitizes_well pl opt child"
    and "\<And>vars f. child = VObj vars \<Longrightarrow> f \<in> set vars \<Longrightarrow> sanitizes_well pl opt (snd f)"
  shows "list_all (\<lambda>f. clean_key (fst f) (snd f) \<and> clean pl opt (snd f)) keep
    \<and> (rs = [] \<longrightarrow> keep = [order_field (key, child)])
    \<and> (keep = [] \<or> (\<exists>w. keep = [(key, w)] \<and> (json_repr child \<longrightarrow> json_repr w)))"
proof -
  have redacted: "safe_text pl opt ''[REDACTED]''" by (rule safe_text.placeholder)
  consider (dropped) "keep = []" "rs \<noteq> []"
    | (env) vars es where "\<not> test HIDDEN_REASONING_KEY key" "test ENVIRONMENT_KEY key" "child = VObj vars"
        "keep = [(key, VObj es)]" "sanitizeEnvironment pl opt childPath (own_order vars) = Inr (es, rs, ts)"
    | (sensitive) "\<not> test HIDDEN_REASONING_KEY key" "\<not> test ENVIRONMENT_KEY key"
        "keep = [(key, VStr ''[REDACTED]'')]" "rs \<noteq> []"
    | (kept) w where "\<not> test HIDDEN_REASONING_KEY key" "\<not> test ENVIRONMENT_KEY key"
        "\<not> (test SENSITIVE_KEY key \<and> \<not> test SENSITIVE_CONTAINER_KEY key)"
        "keep = [(key, w)]" "sanitizeNode pl opt childPath (Some key) child = Inr (w, rs, ts)"
    using assms(1) unfolding field_outcome_def by blast
  then show ?thesis
  proof cases
    case env
    with sanitizeEnvironment_good [OF _ env(5)] assms(3)
    have es: "list_all (\<lambda>f. fst f \<in> set HARMLESS_ENV_KEYS \<and> clean pl opt (snd f)) es"
      and order: "rs = [] \<longrightarrow> es = map order_field (own_order vars)" and kept: "kept_fields (own_order vars) es" by simp_all
    have "rs = [] \<longrightarrow> assigned_value (VObj vars) = VObj es" using order environment_plain [OF es] by auto
    with es env assms(1) kept_fields_object [OF kept] show ?thesis
      by (auto simp: clean_key_def field_outcome_def list_all_iff harmless_keys_clean [unfolded clean_key_def]
          simp del: assigned_value.simps)
  next
    case kept
    with sanitizes_wellD [OF assms(2) kept(5)] assms(1) show ?thesis
      by (auto simp: clean_key_def field_outcome_def good_def)
  qed (use assms(1) redacted in \<open>auto simp: clean_key_def field_outcome_def\<close>)
qed

lemma sanitizeFields_good:
  assumes "\<And>u. size u < Suc (size_list (size_prod (\<lambda>_. 0) size) fs) \<Longrightarrow> sanitizes_well pl opt u"
    and "sanitizeFields pl opt segments fs = Inr (gs, rs, ts)"
  shows "list_all (\<lambda>f. clean_key (fst f) (snd f) \<and> clean pl opt (snd f)) gs
    \<and> (rs = [] \<longrightarrow> gs = map order_field fs) \<and> kept_fields fs gs"
  using assms
proof (induction fs arbitrary: gs rs ts)
  case Nil
  then show ?case by simp
next
  case (Cons f fs)
  obtain key child where f: "f = (key, child)" by force
  from Cons.prems(2) [unfolded f] obtain keep r1 t1 hs r2 t2 where
    keep: "field_outcome pl opt (segments @ [key]) key child keep r1 t1"
      and rest: "sanitizeFields pl opt segments fs = Inr (hs, r2, t2)"
      and eq: "gs = keep @ hs" "rs = r1 @ r2"
    by (rule sanitizeFields_step) blast
  have IH: "list_all (\<lambda>f. clean_key (fst f) (snd f) \<and> clean pl opt (snd f)) hs
      \<and> (r2 = [] \<longrightarrow> hs = map order_field fs) \<and> kept_fields fs hs"
    using Cons.IH [OF _ rest] Cons.prems(1) by simp
  have "sanitizes_well pl opt child" using Cons.prems(1) f by simp
  moreover have "sanitizes_well pl opt (snd g)" if "child = VObj vars" "g \<in> set vars" for vars g
    using Cons.prems(1) [of "snd g"] f that size_field_less [OF that(2)] by simp
  ultimately have out: "list_all (\<lambda>f. clean_key (fst f) (snd f) \<and> clean pl opt (snd f)) keep
      \<and> (r1 = [] \<longrightarrow> keep = [order_field (key, child)])
      \<and> (keep = [] \<or> (\<exists>w. keep = [(key, w)] \<and> (json_repr child \<longrightarrow> json_repr w)))"
    by (rule field_outcome_good [OF keep])
  then have "kept_fields (f # fs) gs"
    using kept_fields_step [of fs hs keep key child] IH eq f by blast
  with out IH eq f show ?case by auto
qed

lemma sanitize_string_unlogged:
  "sanitize_string pl opt segments keyHint s = (t, [], ts) \<Longrightarrow> t = s"
  by (auto simp: sanitize_string_def Let_def split: option.splits prod.splits if_splits)

lemma sanitizeNode_well: "sanitizes_well pl opt v"
proof (induction v rule: measure_induct_rule [of size])
  case (less v)
  show ?case
  proof (cases v)
    case (VStr s)
    show ?thesis unfolding VStr sanitizes_well_def good_def
      using sanitize_string_safe [of pl opt _ _ s]
      by (auto split: prod.splits dest: sanitize_string_unlogged) (metis fst_conv)+
  next
    case (VArr xs)
    with less have well: "\<And>x. x \<in> set xs \<Longrightarrow> sanitizes_well pl opt x" by (simp add: size_elem_less)
    have items: "list_all (clean pl opt) ys \<and> (rs = [] \<longrightarrow> ys = map assigned_value xs)
        \<and> (list_all json_repr xs \<longrightarrow> list_all json_repr ys)"
      if "sanitizeItems pl opt segments keyHint i xs = Inr (ys, rs, ts)" for segments keyHint i ys rs ts
      using sanitizeItems_good [OF _ that] well by blast
    show ?thesis unfolding VArr sanitizes_well_def good_def
      by (auto simp: result_inv dest: items)
  next
    case (VObj fs)
    with less have well: "\<And>u. size u < Suc (size_list (size_prod (\<lambda>_. 0) size) (own_order fs)) \<Longrightarrow> sanitizes_well pl opt u"
      by simp
    have fields: "list_all (\<lambda>f. clean_key (fst f) (snd f) \<and> clean pl opt (snd f)) gs
        \<and> (rs = [] \<longrightarrow> gs = map order_field (own_order fs)) \<and> kept_fields (own_order fs) gs"
      if "sanitizeFields pl opt segments (own_order fs) = Inr (gs, rs, ts)" for segments gs rs ts
      using sanitizeFields_good [OF _ that] well by blast
    show ?thesis unfolding VObj sanitizes_well_def good_def
      by (auto simp: result_inv simp del: json_repr.simps dest!: fields dest: kept_fields_object intro: clean_assigned assigned_repr)
  qed (auto simp: sanitizes_well_def good_def)
qed
lemma sanitizeNode_good:
  "sanitizeNode pl opt segments keyHint v = Inr (w, rs, ts) \<Longrightarrow>
    clean pl opt w \<and> (rs = [] \<longrightarrow> w = assigned_value v) \<and> (json_repr v \<longrightarrow> json_repr w)"
  using sanitizes_wellD [OF sanitizeNode_well] unfolding good_def by blast

lemma truncate_prefix_bound:
  "byteLength (result @ dots) \<le> maxBytes \<Longrightarrow> byteLength (truncate_prefix dots maxBytes result s @ dots) \<le> maxBytes"
  by (induction s arbitrary: result) (auto simp: Let_def)

lemma truncate_prefix_prefix: "\<exists>u v. truncate_prefix dots maxBytes result s = result @ u \<and> s = u @ v"
proof (induction s arbitrary: result)
  case Nil
  then show ?case by simp
next
  case (Cons c s)
  from Cons [of "result @ [c]"] show ?case by (auto simp: Let_def intro: exI [of _ "c # _"])
qed

lemma compareRedactions_key:
  "compareRedactions x y < 0 \<longleftrightarrow> (red_path x, red_kind x) < (red_path y, red_kind y)"
  "0 < compareRedactions x y \<longleftrightarrow> (red_path y, red_kind y) < (red_path x, red_kind x)"
  by (auto simp: compareRedactions_def)

interpretation redaction_order: keyed_comparator compareRedactions "\<lambda>r. (red_path r, red_kind r)"
  by unfold_locales (simp_all add: compareRedactions_key)

section \<open>Properties\<close>

text \<open>
  C12: What sanitization returns is safe to store, at every depth: object keys carry no secret and
  no hidden reasoning; an environment field is an object of harmless variables only; every other
  key with a sensitive name holds the placeholder; every string is free of secret patterns, a
  redaction marker, or the URL, path or preview rewriting of a text free of secret patterns.
\<close>

theorem sanitizeJson_clean:
  assumes "sanitizeJson pl opt v = Inr s"
  shows "clean pl (effective_options pl opt) (san_value s)"
  using assms by (auto simp: sanitizeJson_def result_inv dest: sanitizeNode_good)

definition sample_platform :: platform where
  "sample_platform =
     \<lparr>url_normal = (\<lambda>s. Some (takeWhile (\<lambda>c. c \<noteq> CHR ''?'') s)), path_isAbsolute = starts_with ''/'',
      path_normalize = (\<lambda>s. s), path_resolve = (\<lambda>s. s),
      path_relative = (\<lambda>root s. if starts_with (root @ ''/'') s then drop (length root + 1) s
         else if s = root then [] else ''..''),
      path_sep = CHR ''/'', env_home = Some ''/h'', ellipsis = ''...''\<rparr>"

definition sample_value :: jsvalue where
  "sample_value = VObj [(''hidden_reasoning'', VStr ''x''), (''token'', VNum 1),
     (''env'', VObj [(''CI'', VStr ''1''), (''PW'', VStr ''2'')]), (''cwd'', VStr ''/h/a'')]"

theorem sanitizeJson_clean_witness:
  "clean sample_platform \<lparr>opt_workspace = None, opt_home = Some ''/h''\<rparr>
     (VObj [(''token'', VStr ''[REDACTED]''), (''env'', VObj [(''CI'', VStr ''1'')]), (''cwd'', VStr ''<HOME>/a'')])"
proof -
  let ?opt = "\<lparr>opt_workspace = None, opt_home = None\<rparr>"
  have "map_sum id san_value (sanitizeJson sample_platform ?opt sample_value) =
    Inr (VObj [(''token'', VStr ''[REDACTED]''), (''env'', VObj [(''CI'', VStr ''1'')]), (''cwd'', VStr ''<HOME>/a'')])"
    by code_simp
  then obtain s where "sanitizeJson sample_platform ?opt sample_value = Inr s" and "san_value s =
      VObj [(''token'', VStr ''[REDACTED]''), (''env'', VObj [(''CI'', VStr ''1'')]), (''cwd'', VStr ''<HOME>/a'')]"
    by (cases "sanitizeJson sample_platform ?opt sample_value") auto
  moreover have "effective_options sample_platform ?opt = \<lparr>opt_workspace = None, opt_home = Some ''/h''\<rparr>"
    by code_simp
  ultimately show ?thesis using sanitizeJson_clean [of sample_platform ?opt sample_value s] by simp
qed

text \<open>
  C14: Apart from a field named \<open>__proto__\<close>, sanitization never changes a value silently: when a value without
  such a field is sanitized and no redaction is logged, the result is the input itself (objects listed
  in own-property order), nothing dropped, rewritten or truncated.
\<close>

theorem sanitizeJson_unlogged_identity:
  assumes "sanitizeJson pl opt v = Inr s" and "san_redactions s = []" and "no_proto_field v"
  shows "san_value s = in_own_order v"
  using assms assigned_value_plain [OF assms(3)] by (auto simp: sanitizeJson_def result_inv dest: sanitizeNode_good)

theorem sanitizeJson_unlogged_identity_witness:
  "\<exists>s. sanitizeJson sample_platform \<lparr>opt_workspace = None, opt_home = None\<rparr>
        (VObj [(''b'', VArr [VStr ''x'']), (''1'', VNull)]) = Inr s
     \<and> san_value s = VObj [(''1'', VNull), (''b'', VArr [VStr ''x''])]"
proof -
  let ?opt = "\<lparr>opt_workspace = None, opt_home = None\<rparr>"
  let ?v = "VObj [(''b'', VArr [VStr ''x'']), (''1'', VNull)]"
  have "map_sum id san_redactions (sanitizeJson sample_platform ?opt ?v) = Inr []" by code_simp
  then obtain s where s: "sanitizeJson sample_platform ?opt ?v = Inr s" "san_redactions s = []"
    by (cases "sanitizeJson sample_platform ?opt ?v") auto
  moreover have "in_own_order ?v = VObj [(''1'', VNull), (''b'', VArr [VStr ''x''])]" by code_simp
  ultimately show ?thesis using sanitizeJson_unlogged_identity [OF s] by (auto simp: list_all_iff)
qed

text \<open>
  The exception is real: a field named \<open>__proto__\<close> disappears and nothing is logged, and one that holds an
  object leaves an object that is not plain any more.
\<close>

lemma proto_field_lost:
  "map_sum id (\<lambda>s. (san_value s, san_redactions s)) (sanitizeJson sample_platform \<lparr>opt_workspace = None, opt_home = None\<rparr>
     (VObj [(''__proto__'', VStr ''x''), (''a'', VNull)])) = Inr (VObj [(''a'', VNull)], [])"
  "map_sum id (\<lambda>s. (san_value s, san_redactions s)) (sanitizeJson sample_platform \<lparr>opt_workspace = None, opt_home = None\<rparr>
     (VObj [(''__proto__'', VObj [])])) = Inr (VOpaque, [])"
  by code_simp+

text \<open>
  A truncated preview fits its byte budget, and it is the original text or a prefix of it
  followed by the ellipsis.
\<close>

theorem truncateUtf8_bounded:
  assumes "byteLength dots \<le> maxBytes"
  shows "byteLength (truncateUtf8 dots s maxBytes) \<le> maxBytes \<and>
    (truncateUtf8 dots s maxBytes = s \<or> (\<exists>u v. s = u @ v \<and> truncateUtf8 dots s maxBytes = u @ dots))"
  using truncate_prefix_bound [of "[]" dots maxBytes s] truncate_prefix_prefix [of dots maxBytes "[]" s] assms
  by (auto simp: truncateUtf8_def)

theorem truncateUtf8_bounded_witness:
  "byteLength (truncateUtf8 ''...'' ''abcdefgh'' 6) \<le> 6 \<and> truncateUtf8 ''...'' ''abcdefgh'' 6 = ''abc...''"
proof -
  have "byteLength ''...'' \<le> 6" "truncateUtf8 ''...'' ''abcdefgh'' 6 = ''abc...''" by code_simp+
  then show ?thesis using truncateUtf8_bounded [of "''...''" 6 "''abcdefgh''"] by simp
qed

text \<open>
  The rewritten text is not scanned again. A URL parser that removes tabs, as the URL standard
  requires, turns a text without a secret pattern into one with a secret pattern.
\<close>

lemma url_rewriting_restores_secret:
  fixes pl opt
  defines "pl \<equiv> sample_platform\<lparr>url_normal := \<lambda>s. Some (filter (\<lambda>c. c \<noteq> CHR 0x09) s)\<rparr>"
    and "opt \<equiv> \<lparr>opt_workspace = None, opt_home = None\<rparr>"
  shows "map_sum id san_value (sanitizeJson pl opt (VStr (''https://h/sk-AAAAAAAA'' @ CHR 0x09 # ''AAAAAAAA'')))
      = Inr (VStr ''https://h/sk-AAAAAAAAAAAAAAAA'')"
    and "findSecret ''https://h/sk-AAAAAAAAAAAAAAAA'' = Some known_token_prefix"
  unfolding pl_def opt_def by code_simp+

end
