(* ===== verification/Ledger_Validate.thy ===== *)
theory Ledger_Validate
  imports Sanitize Js_Date
begin

text \<open>
  The trust boundary of the ledger: validation of runs, events and batches,
  \<open>src/src/ledger/validate.ts\<close>, and the sanitized snapshots of \<open>src/src/ledger/redaction.ts\<close>.
\<close>

section \<open>Data\<close>

record client_input =
  cl_kind :: string
  cl_version :: "string option"
  cl_sessionId :: "string option"

record profile_hints =
  ph_taskType :: "task_type option"
  ph_target :: "string option"
  ph_expected :: "string option"
  ph_constraints :: jsvalue

record task_input =
  ti_title :: string
  ti_query :: string
  ti_profileHints :: profile_hints

record answer_input =
  an_questionId :: string
  an_value :: jsvalue

record create_run_input =
  cr_runId :: string
  cr_workspace :: string
  cr_protocolVersion :: string
  cr_client :: client_input
  cr_captureProfile :: capture_profile
  cr_coverage :: coverage
  cr_task :: task_input
  cr_metadata :: jsvalue
  cr_parentRunId :: "string option"
  cr_startedAt :: "string option"

text \<open>An event; a missing outcome (\<open>None\<close>) differs from a null one (\<open>Some None\<close>).\<close>

record event_input =
  ei_eventId :: "string option"
  ei_sourceEventId :: "string option"
  ei_sourceSequence :: "int option"
  ei_eventType :: string
  ei_sourceType :: "string option"
  ei_actor :: string
  ei_outcome :: "string option option"
  ei_occurredAt :: "string option"
  ei_payload :: jsvalue

section \<open>Validation\<close>

definition validation :: "string \<Rightarrow> js_error" where
  "validation message = KiokukoError VALIDATION_ERROR message"

definition objectAt :: "string \<Rightarrow> jsvalue \<Rightarrow> fields result" where
  "objectAt label v = as_fields (validation (label @ '' must be a JSON object'')) v"

definition knownFields :: "fields \<Rightarrow> string list \<Rightarrow> string \<Rightarrow> unit result" where
  "knownFields fs allowed label = check (keys_within fs allowed) (validation (''Unknown '' @ label @ '' field''))"

definition nonEmptyString :: "string \<Rightarrow> int \<Rightarrow> jsvalue \<Rightarrow> string result" where
  "nonEmptyString label limit v =
     (let e = validation (label @ '' must be a non-empty bounded string'') in
      rbind (as_string e v) (\<lambda>s.
        if trim s = [] \<or> int (length s) > limit \<or> CHR 0x00 \<in> set s then Inl e else Inr s))"

definition nullableString :: "string \<Rightarrow> jsvalue \<Rightarrow> string option result" where
  "nullableString label v =
     (if v = VNull then Inr None else rbind (nonEmptyString label MAX_TEXT_LENGTH v) (\<lambda>s. Inr (Some s)))"

definition enumValue :: "(string \<times> 'e) list \<Rightarrow> string \<Rightarrow> jsvalue \<Rightarrow> 'e result" where
  "enumValue table label v = as_enum (validation (label @ '' has an invalid enum value'')) table v"

text \<open>An optional field: absent means \<open>undefined\<close>.\<close>

definition optional :: "fields \<Rightarrow> string \<Rightarrow> (jsvalue \<Rightarrow> 'a result) \<Rightarrow> 'a option result" where
  "optional fs k parse =
     (if getp fs k = VUndefined then Inr None else rbind (parse (getp fs k)) (\<lambda>x. Inr (Some x)))"

function (sequential) jsonValue :: "string \<Rightarrow> jsvalue \<Rightarrow> jsvalue result"
  and jsonItems :: "string \<Rightarrow> nat \<Rightarrow> jsvalue list \<Rightarrow> jsvalue list result"
  and jsonFields :: "string \<Rightarrow> fields \<Rightarrow> fields result"
where
  "jsonValue label VNull = Inr VNull"
| "jsonValue label (VBool b) = Inr (VBool b)"
| "jsonValue label (VStr s) = Inr (VStr s)"
| "jsonValue label (VNum n) = Inr (VNum n)"
| "jsonValue label (VFrac t) = Inr (VFrac t)"
| "jsonValue label VNonFinite = Inl (validation (label @ '' must contain finite JSON numbers''))"
| "jsonValue label (VArr xs) = rbind (jsonItems label 0 xs) (\<lambda>ys. Inr (VArr ys))"
| "jsonValue label (VObj fs) = rbind (jsonFields label (own_order fs)) (\<lambda>gs. Inr (assigned_object gs))"
| "jsonValue label v = Inl (validation (label @ '' must be JSON-compatible''))"
| "jsonItems label index [] = Inr []"
| "jsonItems label index (x # xs) =
     rbind (jsonValue (label @ ''['' @ nat_text index @ '']'') x) (\<lambda>y.
       rbind (jsonItems label (index + 1) xs) (\<lambda>ys. Inr (y # ys)))"
| "jsonFields label [] = Inr []"
| "jsonFields label ((key, child) # fs) =
     rbind (check (findSecret key = None) secretKey) (\<lambda>_.
       rbind (jsonValue (label @ '' field'') child) (\<lambda>w.
         rbind (jsonFields label fs) (\<lambda>gs. Inr ((key, w) # gs))))"
  by pat_completeness auto
termination
  by (relation "measure (\<lambda>x. case x of
        Inl (l, v) \<Rightarrow> size v
      | Inr (Inl (l, i, xs)) \<Rightarrow> size_list size xs
      | Inr (Inr (l, fs)) \<Rightarrow> size_list (size_prod (\<lambda>_. 0) size) fs)")
    auto

definition validateTimestamp :: "string \<Rightarrow> jsvalue \<Rightarrow> string result" where
  "validateTimestamp label v =
     (let e = validation (label @ '' must be an ISO-8601 UTC timestamp'') in
      rbind (as_string e v) (\<lambda>s.
        if \<not> (length s = 24 \<and> match_here timestamp_pattern s) then Inl e
        else if \<not> isCanonicalTimestamp s
        then Inl (validation (label @ '' must be a valid ISO-8601 UTC timestamp''))
        else Inr s))"

definition validateProfileHints :: "jsvalue \<Rightarrow> profile_hints result" where
  "validateProfileHints v =
     rbind (objectAt ''profile hints'' v) (\<lambda>input.
     rbind (knownFields input [''taskType'', ''target'', ''expected'', ''constraints''] ''profile hints'') (\<lambda>_.
     rbind (if getp input ''taskType'' = VNull then Inr None
            else rbind (enumValue TASK_TYPES ''profileHints.taskType'' (getp input ''taskType'')) (\<lambda>t. Inr (Some t))) (\<lambda>tt.
     rbind (nullableString ''profileHints.target'' (getp input ''target'')) (\<lambda>tg.
     rbind (nullableString ''profileHints.expected'' (getp input ''expected'')) (\<lambda>ex.
     rbind (if getp input ''constraints'' = VNull then Inr VNull
            else jsonValue ''profileHints.constraints'' (getp input ''constraints'')) (\<lambda>co.
     Inr \<lparr>ph_taskType = tt, ph_target = tg, ph_expected = ex, ph_constraints = co\<rparr>))))))"

definition validateTaskInput :: "jsvalue \<Rightarrow> task_input result" where
  "validateTaskInput v =
     rbind (objectAt ''task'' v) (\<lambda>input.
     rbind (knownFields input [''title'', ''query'', ''profileHints''] ''task'') (\<lambda>_.
     rbind (nonEmptyString ''task.title'' MAX_TEXT_LENGTH (getp input ''title'')) (\<lambda>title.
     rbind (nonEmptyString ''task.query'' MAX_TEXT_LENGTH (getp input ''query'')) (\<lambda>query.
     rbind (validateProfileHints (getp input ''profileHints'')) (\<lambda>hints.
     Inr \<lparr>ti_title = title, ti_query = query, ti_profileHints = hints\<rparr>)))))"

definition validateAnswerInput :: "jsvalue \<Rightarrow> answer_input result" where
  "validateAnswerInput v =
     rbind (objectAt ''answer'' v) (\<lambda>input.
     rbind (knownFields input [''questionId'', ''value''] ''answer'') (\<lambda>_.
     rbind (nonEmptyString ''answer.questionId'' MAX_ID_LENGTH (getp input ''questionId'')) (\<lambda>q.
     rbind (jsonValue ''answer.value'' (getp input ''value'')) (\<lambda>w.
     Inr \<lparr>an_questionId = q, an_value = w\<rparr>))))"

definition validateClient :: "jsvalue \<Rightarrow> client_input result" where
  "validateClient v =
     rbind (objectAt ''client'' v) (\<lambda>input.
     rbind (knownFields input [''kind'', ''version'', ''sessionId''] ''client'') (\<lambda>_.
     rbind (nonEmptyString ''client.kind'' MAX_ID_LENGTH (getp input ''kind'')) (\<lambda>kind.
     rbind (check (kind = ''opencode'')
        (KiokukoError UNSUPPORTED_CLIENT ''Only OpenCode task runs are supported'')) (\<lambda>_.
     rbind (optional input ''version'' (nonEmptyString ''client.version'' MAX_ID_LENGTH)) (\<lambda>ver.
     rbind (optional input ''sessionId'' (nonEmptyString ''client.sessionId'' MAX_ID_LENGTH)) (\<lambda>ses.
     Inr \<lparr>cl_kind = kind, cl_version = ver, cl_sessionId = ses\<rparr>))))))"

definition validateCoverage :: "jsvalue \<Rightarrow> coverage result" where
  "validateCoverage v =
     rbind (objectAt ''coverage'' v) (\<lambda>input.
     rbind (knownFields input [''run'', ''tool'', ''command'', ''file'', ''approval''] ''coverage'') (\<lambda>_.
     rbind (enumValue COVERAGE_LEVELS ''coverage.run'' (getp input ''run'')) (\<lambda>r.
     rbind (enumValue COVERAGE_LEVELS ''coverage.tool'' (getp input ''tool'')) (\<lambda>t.
     rbind (enumValue COVERAGE_LEVELS ''coverage.command'' (getp input ''command'')) (\<lambda>c.
     rbind (enumValue COVERAGE_LEVELS ''coverage.file'' (getp input ''file'')) (\<lambda>f.
     rbind (enumValue COVERAGE_LEVELS ''coverage.approval'' (getp input ''approval'')) (\<lambda>a.
     Inr \<lparr>cov_run = r, cov_tool = t, cov_command = c, cov_file = f, cov_approval = a\<rparr>)))))))"

definition EVENT_INPUT_FIELDS :: "string list" where
  "EVENT_INPUT_FIELDS = [''eventId'', ''sourceEventId'', ''sourceSequence'', ''eventType'', ''sourceType'',
     ''actor'', ''outcome'', ''occurredAt'', ''payload'']"

definition event_outcome :: "fields \<Rightarrow> string option option result" where
  "event_outcome input =
     (if getp input ''outcome'' = VUndefined then Inr None
      else if getp input ''outcome'' = VNull then Inr (Some None)
      else rbind (nonEmptyString ''outcome'' MAX_ID_LENGTH (getp input ''outcome'')) (\<lambda>s. Inr (Some (Some s))))"

definition event_source_sequence :: "fields \<Rightarrow> int option result" where
  "event_source_sequence input =
     (case getp input ''sourceSequence'' of
        VUndefined \<Rightarrow> Inr None
      | VNum n \<Rightarrow>
          if is_safe_integer (VNum n) \<and> 0 \<le> n then Inr (Some n)
          else Inl (validation ''sourceSequence must be a non-negative safe integer'')
      | _ \<Rightarrow> Inl (validation ''sourceSequence must be a non-negative safe integer''))"

definition validateEventInput :: "jsvalue \<Rightarrow> event_input result" where
  "validateEventInput v =
     rbind (objectAt ''event'' v) (\<lambda>input.
     rbind (knownFields input EVENT_INPUT_FIELDS ''event'') (\<lambda>_.
     rbind (event_source_sequence input) (\<lambda>sourceSequence.
     rbind (optional input ''occurredAt'' (validateTimestamp ''occurredAt'')) (\<lambda>occurredAt.
     rbind (event_outcome input) (\<lambda>outcome.
     rbind (optional input ''eventId'' (nonEmptyString ''eventId'' MAX_ID_LENGTH)) (\<lambda>eventId.
     rbind (optional input ''sourceEventId'' (nonEmptyString ''sourceEventId'' MAX_ID_LENGTH)) (\<lambda>sourceEventId.
     rbind (enumValue (map (\<lambda>t. (t, t)) LEDGER_EVENT_TYPES) ''eventType'' (getp input ''eventType'')) (\<lambda>eventType.
     rbind (optional input ''sourceType'' (nonEmptyString ''sourceType'' MAX_ID_LENGTH)) (\<lambda>sourceType.
     rbind (nonEmptyString ''actor'' MAX_ID_LENGTH (getp input ''actor'')) (\<lambda>actor.
     rbind (jsonValue ''payload'' (getp input ''payload'')) (\<lambda>payload.
     Inr \<lparr>ei_eventId = eventId, ei_sourceEventId = sourceEventId, ei_sourceSequence = sourceSequence,
          ei_eventType = eventType, ei_sourceType = sourceType, ei_actor = actor, ei_outcome = outcome,
          ei_occurredAt = occurredAt, ei_payload = payload\<rparr>)))))))))))"

definition batch_error :: "nat \<Rightarrow> js_error \<Rightarrow> js_error" where
  "batch_error index e =
     (case e of
        KiokukoError VALIDATION_ERROR m \<Rightarrow>
          KiokukoError VALIDATION_ERROR (''Invalid event at batch index '' @ nat_text index)
      | _ \<Rightarrow> e)"

fun validate_events :: "nat \<Rightarrow> jsvalue list \<Rightarrow> event_input list result" where
  "validate_events index [] = Inr []"
| "validate_events index (event # events) =
     rbind (case validateEventInput event of Inl e \<Rightarrow> Inl (batch_error index e) | Inr x \<Rightarrow> Inr x) (\<lambda>x.
       rbind (validate_events (index + 1) events) (\<lambda>xs. Inr (x # xs)))"

definition validateEventBatch :: "jsvalue \<Rightarrow> event_input list result" where
  "validateEventBatch v =
     rbind (objectAt ''event batch'' v) (\<lambda>input.
     rbind (knownFields input [''events''] ''event batch'') (\<lambda>_.
     rbind (as_array (validation ''event batch must contain at least one event'') (getp input ''events'')) (\<lambda>events.
     rbind (check (events \<noteq> []) (validation ''event batch must contain at least one event'')) (\<lambda>_.
     rbind (check (int (length events) \<le> MAX_BATCH_EVENTS)
        (validation (''event batch must contain at most '' @ int_text MAX_BATCH_EVENTS @ '' events''))) (\<lambda>_.
     validate_events 0 events)))))"

definition validateRunInput :: "jsvalue \<Rightarrow> create_run_input result" where
  "validateRunInput v =
     rbind (objectAt ''run'' v) (\<lambda>input.
     rbind (knownFields input [''runId'', ''workspace'', ''protocolVersion'', ''client'', ''captureProfile'',
        ''coverage'', ''task'', ''metadata'', ''parentRunId'', ''startedAt''] ''run'') (\<lambda>_.
     rbind (if getp input ''metadata'' = VUndefined then Inr []
            else objectAt ''metadata'' (getp input ''metadata'')) (\<lambda>metadata.
     rbind (jsonValue ''metadata'' (VObj metadata)) (\<lambda>metadataJson.
     rbind (as_fields (validation ''metadata must be a JSON object'') metadataJson) (\<lambda>_.
     rbind (optional input ''startedAt'' (validateTimestamp ''startedAt'')) (\<lambda>startedAt.
     rbind (nonEmptyString ''workspace'' MAX_TEXT_LENGTH (getp input ''workspace'')) (\<lambda>workspace.
     rbind (check (findSecret workspace = None)
        (KiokukoError SECURITY_REJECTION ''Workspace contains secret material'')) (\<lambda>_.
     rbind (nonEmptyString ''runId'' MAX_ID_LENGTH (getp input ''runId'')) (\<lambda>runId.
     rbind (enumValue [(''1'', ''1'')] ''protocolVersion'' (getp input ''protocolVersion'')) (\<lambda>protocolVersion.
     rbind (validateClient (getp input ''client'')) (\<lambda>client.
     rbind (enumValue CAPTURE_PROFILES ''captureProfile'' (getp input ''captureProfile'')) (\<lambda>captureProfile.
     rbind (validateCoverage (getp input ''coverage'')) (\<lambda>cov.
     rbind (validateTaskInput (getp input ''task'')) (\<lambda>task.
     rbind (optional input ''parentRunId'' (nonEmptyString ''parentRunId'' MAX_ID_LENGTH)) (\<lambda>parentRunId.
     Inr \<lparr>cr_runId = runId, cr_workspace = workspace, cr_protocolVersion = protocolVersion,
          cr_client = client, cr_captureProfile = captureProfile, cr_coverage = cov, cr_task = task,
          cr_metadata = metadataJson, cr_parentRunId = parentRunId, cr_startedAt = startedAt\<rparr>)))))))))))))))"

definition validateRunStatus :: "jsvalue \<Rightarrow> run_status result" where
  "validateRunStatus v = enumValue RUN_STATUSES ''run status'' v"

section \<open>Objects\<close>

text \<open>The object a record denotes: optional fields are present only when they have a value.\<close>

definition opt_field :: "string \<Rightarrow> ('a \<Rightarrow> jsvalue) \<Rightarrow> 'a option \<Rightarrow> fields" where
  "opt_field k f x = (case x of None \<Rightarrow> [] | Some y \<Rightarrow> [(k, f y)])"

definition text_or_null :: "string option \<Rightarrow> jsvalue" where
  "text_or_null x = (case x of None \<Rightarrow> VNull | Some s \<Rightarrow> VStr s)"

definition int_or_null :: "int option \<Rightarrow> jsvalue" where
  "int_or_null x = (case x of None \<Rightarrow> VNull | Some n \<Rightarrow> VNum n)"

definition event_json :: "event_input \<Rightarrow> jsvalue" where
  "event_json e =
     VObj (opt_field ''eventId'' VStr (ei_eventId e) @ opt_field ''sourceEventId'' VStr (ei_sourceEventId e)
       @ opt_field ''sourceSequence'' VNum (ei_sourceSequence e) @ [(''eventType'', VStr (ei_eventType e))]
       @ opt_field ''sourceType'' VStr (ei_sourceType e) @ [(''actor'', VStr (ei_actor e))]
       @ opt_field ''outcome'' text_or_null (ei_outcome e) @ opt_field ''occurredAt'' VStr (ei_occurredAt e)
       @ [(''payload'', ei_payload e)])"

definition hints_json :: "profile_hints \<Rightarrow> jsvalue" where
  "hints_json h =
     VObj [(''taskType'', case ph_taskType h of None \<Rightarrow> VNull | Some t \<Rightarrow> VStr (enum_text TASK_TYPES t)),
           (''target'', text_or_null (ph_target h)), (''expected'', text_or_null (ph_expected h)),
           (''constraints'', ph_constraints h)]"

definition task_json :: "task_input \<Rightarrow> jsvalue" where
  "task_json t =
     VObj [(''title'', VStr (ti_title t)), (''query'', VStr (ti_query t)),
           (''profileHints'', hints_json (ti_profileHints t))]"

definition answer_json :: "answer_input \<Rightarrow> jsvalue" where
  "answer_json a = VObj [(''questionId'', VStr (an_questionId a)), (''value'', an_value a)]"

definition client_json :: "client_input \<Rightarrow> jsvalue" where
  "client_json c =
     VObj ([(''kind'', VStr (cl_kind c))] @ opt_field ''version'' VStr (cl_version c)
       @ opt_field ''sessionId'' VStr (cl_sessionId c))"

text \<open>The unchecked casts of sanitized JSON back to the record types.\<close>

definition text_at :: "fields \<Rightarrow> string \<Rightarrow> string option" where
  "text_at fs k = (case getp fs k of VStr s \<Rightarrow> Some s | _ \<Rightarrow> None)"

definition event_of_json :: "jsvalue \<Rightarrow> event_input" where
  "event_of_json v =
     (let fs = (case v of VObj fs \<Rightarrow> fs | _ \<Rightarrow> []); text = (\<lambda>k. case text_at fs k of None \<Rightarrow> [] | Some s \<Rightarrow> s) in
      \<lparr>ei_eventId = text_at fs ''eventId'', ei_sourceEventId = text_at fs ''sourceEventId'',
       ei_sourceSequence = (case getp fs ''sourceSequence'' of VNum n \<Rightarrow> Some n | _ \<Rightarrow> None),
       ei_eventType = text ''eventType'', ei_sourceType = text_at fs ''sourceType'', ei_actor = text ''actor'',
       ei_outcome = (if hasOwn fs ''outcome'' then Some (text_at fs ''outcome'') else None),
       ei_occurredAt = text_at fs ''occurredAt'', ei_payload = getp fs ''payload''\<rparr>)"

definition client_of_json :: "jsvalue \<Rightarrow> client_input" where
  "client_of_json v =
     (let fs = (case v of VObj fs \<Rightarrow> fs | _ \<Rightarrow> []) in
      \<lparr>cl_kind = (case text_at fs ''kind'' of None \<Rightarrow> [] | Some s \<Rightarrow> s),
       cl_version = text_at fs ''version'', cl_sessionId = text_at fs ''sessionId''\<rparr>)"

section \<open>Sanitized snapshots\<close>

definition snapshotTooLarge :: "string \<Rightarrow> js_error" where
  "snapshotTooLarge label =
     KiokukoError VALIDATION_ERROR (''sanitized '' @ label @ '' exceeds '' @ int_text MAX_EVENT_PAYLOAD_BYTES @ '' bytes'')"

definition assertBounded :: "jsvalue \<Rightarrow> string \<Rightarrow> unit result" where
  "assertBounded v label =
     rbind (canonicalJson v) (\<lambda>t. check (byteLength t \<le> MAX_EVENT_PAYLOAD_BYTES) (snapshotTooLarge label))"

definition withTypedValue ::
    "platform \<Rightarrow> san_options \<Rightarrow> (jsvalue \<Rightarrow> 'a result) \<Rightarrow> ('a \<Rightarrow> jsvalue) \<Rightarrow> string \<Rightarrow> jsvalue \<Rightarrow> jsvalue sanitized result" where
  "withTypedValue pl opt validator toJson label v =
     rbind (validator v) (\<lambda>validated.
     rbind (sanitizeJson pl opt (toJson validated)) (\<lambda>s.
     rbind (assertBounded (san_value s) label) (\<lambda>_. Inr s)))"

definition sanitizeEvent :: "platform \<Rightarrow> san_options \<Rightarrow> jsvalue \<Rightarrow> event_input sanitized result" where
  "sanitizeEvent pl opt v =
     rbind (validateEventInput v) (\<lambda>validated.
     rbind (sanitizeJson pl opt (event_json validated)) (\<lambda>s.
     let event = event_of_json (san_value s) in
     rbind (assertBounded (ei_payload event) ''event payload'') (\<lambda>_.
     Inr \<lparr>san_value = event, san_redactions = san_redactions s, san_truncated = san_truncated s\<rparr>)))"

definition sanitizeTask :: "platform \<Rightarrow> san_options \<Rightarrow> jsvalue \<Rightarrow> jsvalue sanitized result" where
  "sanitizeTask pl opt v = withTypedValue pl opt validateTaskInput task_json ''task snapshot'' v"

definition sanitizeProfileHints :: "platform \<Rightarrow> san_options \<Rightarrow> jsvalue \<Rightarrow> jsvalue sanitized result" where
  "sanitizeProfileHints pl opt v = withTypedValue pl opt validateProfileHints hints_json ''profile hints snapshot'' v"

definition sanitizeAnswer :: "platform \<Rightarrow> san_options \<Rightarrow> jsvalue \<Rightarrow> jsvalue sanitized result" where
  "sanitizeAnswer pl opt v = withTypedValue pl opt validateAnswerInput answer_json ''answer snapshot'' v"

definition sanitizeRunMetadata :: "platform \<Rightarrow> san_options \<Rightarrow> jsvalue \<Rightarrow> jsvalue sanitized result" where
  "sanitizeRunMetadata pl opt v =
     rbind (sanitizeJson pl opt v) (\<lambda>s. rbind (assertBounded (san_value s) ''run metadata'') (\<lambda>_. Inr s))"

section \<open>Validated values are well-formed JSON\<close>

lemma sanitizeJson_repr:
  "sanitizeJson pl opt v = Inr s \<Longrightarrow> json_repr v \<Longrightarrow> json_repr (san_value s)"
  by (auto simp: sanitizeJson_def result_inv dest: sanitizeNode_good)

lemma json_repr_own_order: "json_repr (VObj fs) \<Longrightarrow> list_all (\<lambda>f. json_repr (snd f)) (own_order fs) \<and> distinct (map fst (own_order fs))"
proof -
  assume v: "json_repr (VObj fs)"
  have "mset (map fst (own_order fs)) = mset (map fst fs)" by simp
  then have "distinct (map fst (own_order fs))" using v mset_eq_imp_distinct_iff by fastforce
  with v show ?thesis by (simp add: list_all_iff)
qed

lemma jsonValue_repr:
  "jsonValue label v = Inr w \<Longrightarrow> json_repr v \<Longrightarrow> json_repr w"
  "jsonItems label i xs = Inr ys \<Longrightarrow> list_all json_repr xs \<Longrightarrow> list_all json_repr ys"
  "jsonFields label fs = Inr gs \<Longrightarrow> list_all (\<lambda>f. json_repr (snd f)) fs \<Longrightarrow>
     list_all (\<lambda>f. json_repr (snd f)) gs \<and> map fst gs = map fst fs"
proof (induction label v and label i xs and label fs arbitrary: w and ys and gs
    rule: jsonValue_jsonItems_jsonFields.induct)
  case (8 label fs)
  then obtain gs where gs: "jsonFields label (own_order fs) = Inr gs" "w = assigned_object gs" by (auto simp: result_inv)
  with "8.IH" [OF gs(1)] json_repr_own_order [OF "8.prems"(2)] have "json_repr (VObj gs)" by simp
  with gs(2) show ?case by (simp only: assigned_repr)
qed (auto simp: result_inv)

lemma getp_repr: "list_all (\<lambda>f. json_repr (snd f)) fs \<Longrightarrow> json_repr (getp fs k)"
  by (auto simp: getp_def list_all_iff split: option.splits) (metis map_of_SomeD snd_conv)

lemma validateEventInput_repr:
  assumes "validateEventInput v = Inr e" and "json_repr v"
  shows "json_repr (ei_payload e)" "json_repr (event_json e)"
proof -
  obtain fs where v: "v = VObj fs" using assms(1) by (auto simp: validateEventInput_def objectAt_def result_inv)
  have "list_all (\<lambda>f. json_repr (snd f)) fs" using assms(2) v by simp
  note payload = getp_repr [OF this, of "''payload''"]
  show p: "json_repr (ei_payload e)"
    using assms(1) payload by (auto simp: v validateEventInput_def objectAt_def result_inv dest!: jsonValue_repr(1))
  have "\<bar>n\<bar> < 10 ^ 21" if "ei_sourceSequence e = Some n" for n
    using assms(1) that
    by (auto simp: v validateEventInput_def objectAt_def result_inv event_source_sequence_def MAX_SAFE_INTEGER_def
        split: jsvalue.splits if_splits)
  with p show "json_repr (event_json e)"
    by (auto simp: event_json_def opt_field_def text_or_null_def split: option.splits)
qed

lemma event_of_json_payload: "json_repr v \<Longrightarrow> json_repr (ei_payload (event_of_json v))"
  by (auto simp: event_of_json_def Let_def split: jsvalue.splits intro!: getp_repr)

lemma sanitizeEvent_repr:
  assumes "sanitizeEvent pl opt v = Inr s" and "json_repr v"
  shows "json_repr (ei_payload (san_value s))"
  using assms by (auto simp: sanitizeEvent_def result_inv Let_def
      intro!: event_of_json_payload dest!: validateEventInput_repr(2) sanitizeJson_repr)

text \<open>A batch that passes validation has between one and two hundred events.\<close>

lemma validate_events_repr:
  "validate_events i vs = Inr es \<Longrightarrow> list_all json_repr vs \<Longrightarrow>
     length es = length vs \<and> list_all (\<lambda>e. json_repr (event_json e)) es"
  by (induction i vs arbitrary: es rule: validate_events.induct)
    (auto simp: result_inv split: sum.splits dest: validateEventInput_repr(2))

lemma validateEventBatch_repr:
  assumes "validateEventBatch v = Inr es" and "json_repr v"
  shows "list_all (\<lambda>e. json_repr (event_json e)) es \<and> es \<noteq> [] \<and> int (length es) \<le> MAX_BATCH_EVENTS"
proof -
  obtain fs xs where v: "v = VObj fs" "getp fs ''events'' = VArr xs" "xs \<noteq> []"
    "int (length xs) \<le> MAX_BATCH_EVENTS" "validate_events 0 xs = Inr es"
    using assms(1) by (auto simp: validateEventBatch_def objectAt_def knownFields_def result_inv)
  have "json_repr (VArr xs)" using getp_repr [of fs "''events''"] assms(2) v(1,2) by simp
  with validate_events_repr [OF v(5)] v show ?thesis by auto
qed
section \<open>Properties\<close>

text \<open>What an identifier may be: not blank, bounded, without NUL.\<close>

definition bounded_text :: "int \<Rightarrow> string \<Rightarrow> bool" where
  "bounded_text limit s = (trim s \<noteq> [] \<and> int (length s) \<le> limit \<and> CHR 0x00 \<notin> set s)"

definition valid_event :: "event_input \<Rightarrow> bool" where
  "valid_event e =
     (ei_eventType e \<in> set LEDGER_EVENT_TYPES \<and> bounded_text MAX_ID_LENGTH (ei_actor e)
      \<and> opt_all (bounded_text MAX_ID_LENGTH) (ei_eventId e)
      \<and> opt_all (bounded_text MAX_ID_LENGTH) (ei_sourceEventId e)
      \<and> opt_all (bounded_text MAX_ID_LENGTH) (ei_sourceType e)
      \<and> opt_all (opt_all (bounded_text MAX_ID_LENGTH)) (ei_outcome e)
      \<and> opt_all (\<lambda>n. 0 \<le> n \<and> n \<le> MAX_SAFE_INTEGER) (ei_sourceSequence e)
      \<and> opt_all isCanonicalTimestamp (ei_occurredAt e))"

lemma nonEmptyString_Inr [result_inv]:
  "nonEmptyString label limit v = Inr s \<longleftrightarrow> v = VStr s \<and> bounded_text limit s"
  by (auto simp: nonEmptyString_def Let_def bounded_text_def result_inv split: if_splits)

lemma optional_Inr:
  "optional fs k parse = Inr x \<Longrightarrow> x = None \<or> (\<exists>y. x = Some y \<and> parse (getp fs k) = Inr y)"
  by (auto simp: optional_def result_inv split: if_splits)

lemma optional_text:
  "optional fs k (nonEmptyString label limit) = Inr x \<Longrightarrow> opt_all (bounded_text limit) x"
  by (auto dest!: optional_Inr simp: nonEmptyString_Inr)

lemma optional_timestamp:
  "optional fs k (validateTimestamp label) = Inr x \<Longrightarrow> opt_all isCanonicalTimestamp x"
  by (auto dest!: optional_Inr simp: validateTimestamp_def Let_def result_inv split: if_splits)

lemma event_outcome_Inr: "event_outcome fs = Inr x \<Longrightarrow> opt_all (opt_all (bounded_text MAX_ID_LENGTH)) x"
  by (auto simp: event_outcome_def result_inv split: if_splits)

lemma event_source_sequence_Inr:
  "event_source_sequence fs = Inr x \<Longrightarrow> opt_all (\<lambda>n. 0 \<le> n \<and> n \<le> MAX_SAFE_INTEGER) x"
  by (auto simp: event_source_sequence_def split: jsvalue.splits if_splits)

lemma event_type_Inr:
  assumes "enumValue (map (\<lambda>t. (t, t)) LEDGER_EVENT_TYPES) label v = Inr t"
  shows "t \<in> set LEDGER_EVENT_TYPES"
  using as_enum_Inr [OF assms [unfolded enumValue_def]] by (auto dest!: map_of_SomeD)

lemma validateEventInput_valid: "validateEventInput v = Inr e \<Longrightarrow> valid_event e"
  by (auto simp: validateEventInput_def rbind_eq_Inr valid_event_def nonEmptyString_Inr
      dest: optional_text optional_timestamp event_outcome_Inr event_source_sequence_Inr event_type_Inr)

lemma validate_events_valid: "validate_events i vs = Inr es \<Longrightarrow> list_all valid_event es"
  by (induction i vs arbitrary: es rule: validate_events.induct)
    (auto simp: rbind_eq_Inr split: sum.splits dest: validateEventInput_valid)

lemma validate_events_length: "validate_events i vs = Inr es \<Longrightarrow> length es = length vs"
  by (induction i vs arbitrary: es rule: validate_events.induct) (auto simp: rbind_eq_Inr)

text \<open>
  A batch that passes validation has between one and two hundred events, and every event has a
  known type, a non-blank bounded actor, identifiers and outcome that are non-blank and bounded
  when present, a source sequence that is a non-negative safe integer and a canonical timestamp.
\<close>

theorem validateEventBatch_sound:
  assumes "validateEventBatch v = Inr es"
  shows "1 \<le> length es \<and> int (length es) \<le> 200 \<and> list_all valid_event es"
proof -
  obtain xs where xs: "xs \<noteq> []" "int (length xs) \<le> 200" "validate_events 0 xs = Inr es"
    using assms by (auto simp: validateEventBatch_def rbind_eq_Inr MAX_BATCH_EVENTS_def)
  with validate_events_valid [OF xs(3)] validate_events_length [OF xs(3)] show ?thesis
    by (cases es) auto
qed

theorem validateEventBatch_sound_witness:
  "\<exists>es. validateEventBatch (VObj [(''events'', VArr [VObj [(''eventType'', VStr ''file.changed''),
      (''actor'', VStr ''agent''), (''sourceSequence'', VNum 4), (''payload'', VObj [])]])]) = Inr es
    \<and> 1 \<le> length es \<and> list_all valid_event es"
proof -
  let ?v = "VObj [(''events'', VArr [VObj [(''eventType'', VStr ''file.changed''),
      (''actor'', VStr ''agent''), (''sourceSequence'', VNum 4), (''payload'', VObj [])]])]"
  have "\<not> isl (validateEventBatch ?v)" by code_simp
  then obtain es where "validateEventBatch ?v = Inr es" by (cases "validateEventBatch ?v") auto
  with validateEventBatch_sound [OF this] show ?thesis by blast
qed

end
