(* ===== verification/Ledger_Store.thy ===== *)
theory Ledger_Store
  imports Ledger_Validate Sqlite_Tx Json_Reader
begin

text \<open>
  The append-only execution ledger, \<open>src/src/ledger/store.ts\<close> and \<open>src/src/ledger/hash.ts\<close>: runs
  and hash-chained events over the two tables of \<open>src/migrations/001_initial.sql\<close>, with the
  constraints the tables declare. Operations are state-passing functions on the database, run by
  the transactions of \<open>Sqlite_Tx\<close>. Parameters: \<open>sha256\<close> is the hexadecimal digest of
  \<open>node:crypto\<close>, \<open>uuid i\<close> the random identifier drawn for the i-th event of a batch, \<open>now\<close> the clock.
\<close>

section \<open>Rows\<close>

record run_row =
  rr_run_id :: string
  rr_workspace :: string
  rr_client_kind :: string
  rr_client_version :: "string option"
  rr_source_session_id :: "string option"
  rr_parent_run_id :: "string option"
  rr_protocol_version :: string
  rr_capture_profile :: capture_profile
  rr_coverage_json :: string
  rr_status :: run_status
  rr_title :: "string option"
  rr_task_hash :: "string option"
  rr_metadata_json :: string
  rr_last_sequence :: int
  rr_last_source_sequence :: "int option"
  rr_started_at :: string
  rr_ended_at :: "string option"
  rr_created_at :: string
  rr_updated_at :: string

record event_row =
  er_event_id :: string
  er_run_id :: string
  er_sequence :: int
  er_source_event_id :: "string option"
  er_source_sequence :: "int option"
  er_event_type :: string
  er_source_type :: "string option"
  er_actor :: string
  er_outcome :: "string option"
  er_occurred_at :: "string option"
  er_ingested_at :: string
  er_payload_json :: string
  er_redaction_json :: string
  er_previous_hash :: string
  er_event_hash :: string

record ledger_db =
  db_runs :: "run_row list"
  db_events :: "event_row list"

record prepared_event =
  pe_input :: event_input
  pe_redactions :: "redaction list"
  pe_eventId :: string
  pe_fingerprint :: string

record append_ack =
  ack_runId :: string
  ack_acceptedThrough :: int
  ack_localSequences :: "int list"
  ack_sourceSequences :: "int option list"
  ack_eventIds :: "string list"

record run_record =
  rec_runId :: string
  rec_workspace :: string
  rec_client :: client_input
  rec_protocolVersion :: string
  rec_captureProfile :: capture_profile
  rec_coverage :: jsvalue
  rec_status :: run_status
  rec_title :: "string option"
  rec_taskHash :: "string option"
  rec_metadata :: jsvalue
  rec_lastSequence :: int
  rec_lastSourceSequence :: "int option"
  rec_startedAt :: string
  rec_endedAt :: "string option"
  rec_createdAt :: string
  rec_updatedAt :: string

section \<open>Hashes\<close>

definition GENESIS_HASH :: string where
  "GENESIS_HASH = replicate 64 (CHR ''0'')"

definition outcome_or_null :: "string option option \<Rightarrow> jsvalue" where
  "outcome_or_null x = text_or_null (case x of None \<Rightarrow> None | Some y \<Rightarrow> y)"

text \<open>The pre-image of an event's hash; the event carries its optional source fields.\<close>

definition hash_preimage ::
    "string \<Rightarrow> int \<Rightarrow> string \<Rightarrow> string \<Rightarrow> event_input \<Rightarrow> string \<Rightarrow> jsvalue \<Rightarrow> jsvalue" where
  "hash_preimage runId seqno eventId previousHash event ingestedAt redaction =
     VObj [(''protocol'', VStr ''kiokuko-ledger-event-v1''),
           (''runId'', VStr runId),
           (''sequence'', VNum seqno),
           (''eventId'', VStr eventId),
           (''previousHash'', VStr previousHash),
           (''eventType'', VStr (ei_eventType event)),
           (''sourceEventId'', text_or_null (ei_sourceEventId event)),
           (''sourceSequence'', int_or_null (ei_sourceSequence event)),
           (''sourceType'', text_or_null (ei_sourceType event)),
           (''actor'', VStr (ei_actor event)),
           (''outcome'', outcome_or_null (ei_outcome event)),
           (''occurredAt'', text_or_null (ei_occurredAt event)),
           (''ingestedAt'', VStr ingestedAt),
           (''payload'', ei_payload event),
           (''redaction'', redaction)]"

definition hashLedgerEvent ::
    "(string \<Rightarrow> string) \<Rightarrow> string \<Rightarrow> int \<Rightarrow> string \<Rightarrow> string \<Rightarrow> event_input \<Rightarrow> string \<Rightarrow> jsvalue \<Rightarrow> string result" where
  "hashLedgerEvent sha256 runId seqno eventId previousHash event ingestedAt redaction =
     rbind (canonicalJson (hash_preimage runId seqno eventId previousHash event ingestedAt redaction))
       (\<lambda>t. Inr (sha256 t))"

definition redactions_json :: "redaction list \<Rightarrow> jsvalue" where
  "redactions_json rs = VArr (map (\<lambda>r. VObj [(''path'', VStr (red_path r)), (''kind'', VStr (red_kind r))]) rs)"

definition eventFingerprint :: "event_input \<Rightarrow> jsvalue \<Rightarrow> string result" where
  "eventFingerprint event redaction =
     canonicalJson (VObj
       [(''sourceEventId'', text_or_null (ei_sourceEventId event)),
        (''sourceSequence'', int_or_null (ei_sourceSequence event)),
        (''eventType'', VStr (ei_eventType event)),
        (''sourceType'', text_or_null (ei_sourceType event)),
        (''actor'', VStr (ei_actor event)),
        (''outcome'', outcome_or_null (ei_outcome event)),
        (''occurredAt'', text_or_null (ei_occurredAt event)),
        (''payload'', ei_payload event),
        (''redaction'', redaction)])"

definition parseJson :: "string \<Rightarrow> jsvalue result" where
  "parseJson t = (case json_parse t of Some v \<Rightarrow> Inr v | None \<Rightarrow> Inl (OtherError ''SyntaxError''))"

definition event_of_row :: "event_row \<Rightarrow> jsvalue \<Rightarrow> event_input" where
  "event_of_row row payload =
     \<lparr>ei_eventId = None, ei_sourceEventId = er_source_event_id row,
      ei_sourceSequence = er_source_sequence row, ei_eventType = er_event_type row,
      ei_sourceType = er_source_type row, ei_actor = er_actor row, ei_outcome = Some (er_outcome row),
      ei_occurredAt = er_occurred_at row, ei_payload = payload\<rparr>"

definition rowFingerprint :: "event_row \<Rightarrow> string result" where
  "rowFingerprint row =
     rbind (parseJson (er_payload_json row)) (\<lambda>payload.
     rbind (parseJson (er_redaction_json row)) (\<lambda>redaction.
     eventFingerprint (event_of_row row payload) redaction))"

section \<open>Preparation\<close>

definition conflict :: "string \<Rightarrow> js_error" where
  "conflict message = KiokukoError CONFLICT message"

definition notFound :: "string \<Rightarrow> js_error" where
  "notFound message = KiokukoError NOT_FOUND message"

definition prepare_event ::
    "platform \<Rightarrow> san_options \<Rightarrow> (nat \<Rightarrow> string) \<Rightarrow> nat \<Rightarrow> event_input \<Rightarrow> prepared_event result" where
  "prepare_event pl opt uuid index input =
     rbind (sanitizeEvent pl opt (event_json input)) (\<lambda>s.
     rbind (eventFingerprint (san_value s) (redactions_json (san_redactions s))) (\<lambda>fingerprint.
     Inr \<lparr>pe_input = san_value s, pe_redactions = san_redactions s,
          pe_eventId = (case ei_eventId (san_value s) of Some i \<Rightarrow> i | None \<Rightarrow> uuid index),
          pe_fingerprint = fingerprint\<rparr>))"

fun prepare_events ::
    "platform \<Rightarrow> san_options \<Rightarrow> (nat \<Rightarrow> string) \<Rightarrow> nat \<Rightarrow> event_input list \<Rightarrow> prepared_event list result" where
  "prepare_events pl opt uuid index [] = Inr []"
| "prepare_events pl opt uuid index (input # inputs) =
     rbind (prepare_event pl opt uuid index input) (\<lambda>p.
       rbind (prepare_events pl opt uuid (index + 1) inputs) (\<lambda>ps. Inr (p # ps)))"

text \<open>A source identifier that is missing or empty does not count.\<close>

definition source_id :: "prepared_event \<Rightarrow> string option" where
  "source_id p = present (ei_sourceEventId (pe_input p))"

fun check_batch :: "string list \<Rightarrow> string list \<Rightarrow> prepared_event list \<Rightarrow> unit result" where
  "check_batch sourceIds eventIds [] = Inr ()"
| "check_batch sourceIds eventIds (event # events) =
     (case source_id event of
        Some s \<Rightarrow>
          if s \<in> set sourceIds then Inl (conflict ''duplicate source event ID in batch'')
          else if pe_eventId event \<in> set eventIds then Inl (conflict ''duplicate event ID in batch'')
          else check_batch (s # sourceIds) (pe_eventId event # eventIds) events
      | None \<Rightarrow>
          if pe_eventId event \<in> set eventIds then Inl (conflict ''duplicate event ID in batch'')
          else check_batch sourceIds (pe_eventId event # eventIds) events)"

definition preparedEvents ::
    "platform \<Rightarrow> san_options \<Rightarrow> (nat \<Rightarrow> string) \<Rightarrow> event_input list \<Rightarrow> prepared_event list result" where
  "preparedEvents pl opt uuid events =
     rbind (prepare_events pl opt uuid 0 events) (\<lambda>prepared.
       rbind (check_batch [] [] prepared) (\<lambda>_. Inr prepared))"

section \<open>Statements\<close>

definition find_run :: "string \<Rightarrow> ledger_db \<Rightarrow> run_row option" where
  "find_run runId d = find (\<lambda>r. rr_run_id r = runId) (db_runs d)"

definition find_event :: "string \<Rightarrow> ledger_db \<Rightarrow> event_row option" where
  "find_event eventId d = find (\<lambda>r. er_event_id r = eventId) (db_events d)"

definition find_source :: "string \<Rightarrow> string \<Rightarrow> ledger_db \<Rightarrow> event_row option" where
  "find_source runId s d = find (\<lambda>r. er_run_id r = runId \<and> er_source_event_id r = Some s) (db_events d)"

definition readEvents :: "string \<Rightarrow> ledger_db \<Rightarrow> event_row list" where
  "readEvents runId d = sort_key er_sequence (filter (\<lambda>r. er_run_id r = runId) (db_events d))"

text \<open>Inserting an event: the primary key, the two unique indexes and the check on the sequence.\<close>

definition insert_event :: "event_row \<Rightarrow> event_row list \<Rightarrow> event_row list result" where
  "insert_event row rows =
     (if list_ex (\<lambda>r. er_event_id r = er_event_id row) rows
      then Inl (SqliteError 1555 ''UNIQUE constraint failed: ledger_events.event_id'')
      else if list_ex (\<lambda>r. er_run_id r = er_run_id row \<and> er_sequence r = er_sequence row) rows
      then Inl (SqliteError 2067 ''UNIQUE constraint failed: ledger_events.run_id, ledger_events.sequence'')
      else if er_source_event_id row \<noteq> None
        \<and> list_ex (\<lambda>r. er_run_id r = er_run_id row \<and> er_source_event_id r = er_source_event_id row) rows
      then Inl (SqliteError 2067 ''UNIQUE constraint failed: ledger_events.run_id, ledger_events.source_event_id'')
      else if er_sequence row \<le> 0 then Inl (SqliteError 275 ''CHECK constraint failed: sequence > 0'')
      else Inr (rows @ [row]))"

definition update_run :: "string \<Rightarrow> (run_row \<Rightarrow> run_row) \<Rightarrow> ledger_db \<Rightarrow> ledger_db" where
  "update_run runId f d = d\<lparr>db_runs := map (\<lambda>r. if rr_run_id r = runId then f r else r) (db_runs d)\<rparr>"

definition rowToRun :: "run_row \<Rightarrow> run_record result" where
  "rowToRun row =
     rbind (parseJson (rr_coverage_json row)) (\<lambda>cov.
     rbind (parseJson (rr_metadata_json row)) (\<lambda>metadata.
     Inr \<lparr>rec_runId = rr_run_id row, rec_workspace = rr_workspace row,
          rec_client = \<lparr>cl_kind = rr_client_kind row, cl_version = rr_client_version row,
                        cl_sessionId = rr_source_session_id row\<rparr>,
          rec_protocolVersion = rr_protocol_version row, rec_captureProfile = rr_capture_profile row,
          rec_coverage = cov, rec_status = rr_status row, rec_title = rr_title row,
          rec_taskHash = rr_task_hash row, rec_metadata = metadata, rec_lastSequence = rr_last_sequence row,
          rec_lastSourceSequence = rr_last_source_sequence row, rec_startedAt = rr_started_at row,
          rec_endedAt = rr_ended_at row, rec_createdAt = rr_created_at row, rec_updatedAt = rr_updated_at row\<rparr>))"

definition readRun :: "string \<Rightarrow> string option \<Rightarrow> ledger_db \<Rightarrow> run_record option result" where
  "readRun runId workspace d =
     (case find (\<lambda>r. rr_run_id r = runId \<and> (case workspace of None \<Rightarrow> True | Some w \<Rightarrow> rr_workspace r = w)) (db_runs d) of
        None \<Rightarrow> Inr None
      | Some row \<Rightarrow> rbind (rowToRun row) (\<lambda>r. Inr (Some r)))"

definition getRunStatus :: "string \<Rightarrow> string option \<Rightarrow> ledger_db \<Rightarrow> run_status option result" where
  "getRunStatus runId workspace d = rbind (readRun runId workspace d) (\<lambda>r. Inr (map_option rec_status r))"

section \<open>Runs\<close>

record prepared_run =
  pr_input :: create_run_input
  pr_task :: jsvalue
  pr_metadata :: jsvalue
  pr_now :: string

definition prepareRun :: "platform \<Rightarrow> san_options \<Rightarrow> string \<Rightarrow> jsvalue \<Rightarrow> prepared_run result" where
  "prepareRun pl opt now input =
     rbind (validateRunInput input) (\<lambda>validated.
     rbind (sanitizeJson pl opt (client_json (cr_client validated))) (\<lambda>client.
     rbind (sanitizeTask pl opt (task_json (cr_task validated))) (\<lambda>task.
     rbind (sanitizeRunMetadata pl opt (cr_metadata validated)) (\<lambda>metadata.
     Inr \<lparr>pr_input = validated\<lparr>cr_client := client_of_json (san_value client)\<rparr>, pr_task = san_value task,
          pr_metadata = (case san_value metadata of VObj fs \<Rightarrow> VObj fs | _ \<Rightarrow> VObj []), pr_now = now\<rparr>))))"

definition coverage_json :: "coverage \<Rightarrow> jsvalue" where
  "coverage_json c =
     VObj [(''run'', VStr (enum_text COVERAGE_LEVELS (cov_run c))), (''tool'', VStr (enum_text COVERAGE_LEVELS (cov_tool c))),
           (''command'', VStr (enum_text COVERAGE_LEVELS (cov_command c))), (''file'', VStr (enum_text COVERAGE_LEVELS (cov_file c))),
           (''approval'', VStr (enum_text COVERAGE_LEVELS (cov_approval c)))]"

definition hashText :: "(string \<Rightarrow> string) \<Rightarrow> string \<Rightarrow> string" where
  "hashText sha256 value = sha256 value"

definition insert_run :: "run_row \<Rightarrow> ledger_db \<Rightarrow> unit result \<times> ledger_db" where
  "insert_run row d =
     (if find_run (rr_run_id row) d \<noteq> None
      then (Inl (SqliteError 1555 ''UNIQUE constraint failed: ledger_runs.run_id''), d)
      else if rr_client_kind row \<noteq> ''opencode'' then (Inl (SqliteError 275 ''CHECK constraint failed: client_kind''), d)
      else if (case rr_parent_run_id row of None \<Rightarrow> False
               | Some p \<Rightarrow> p \<noteq> rr_run_id row \<and> find_run p d = None)
      then (Inl (SqliteError 787 ''FOREIGN KEY constraint failed''), d)
      else (Inr (), d\<lparr>db_runs := db_runs d @ [row]\<rparr>))"

definition run_row_of :: "prepared_run \<Rightarrow> string \<Rightarrow> string \<Rightarrow> string \<Rightarrow> run_row" where
  "run_row_of p taskHash coverageJson metadataJson =
     \<lparr>rr_run_id = cr_runId (pr_input p), rr_workspace = cr_workspace (pr_input p),
      rr_client_kind = cl_kind (cr_client (pr_input p)), rr_client_version = cl_version (cr_client (pr_input p)),
      rr_source_session_id = cl_sessionId (cr_client (pr_input p)), rr_parent_run_id = cr_parentRunId (pr_input p),
      rr_protocol_version = cr_protocolVersion (pr_input p), rr_capture_profile = cr_captureProfile (pr_input p),
      rr_coverage_json = coverageJson, rr_status = RunIntake,
      rr_title = (case pr_task p of VObj fs \<Rightarrow> text_at fs ''title'' | _ \<Rightarrow> None), rr_task_hash = Some taskHash,
      rr_metadata_json = metadataJson, rr_last_sequence = 0, rr_last_source_sequence = None,
      rr_started_at = (case cr_startedAt (pr_input p) of Some t \<Rightarrow> t | None \<Rightarrow> pr_now p),
      rr_ended_at = None, rr_created_at = pr_now p, rr_updated_at = pr_now p\<rparr>"

text \<open>The row just written, read back.\<close>

definition read_back :: "string \<Rightarrow> string \<Rightarrow> ledger_db \<Rightarrow> run_record result" where
  "read_back message runId d =
     (case find_run runId d of None \<Rightarrow> Inl (notFound message) | Some row \<Rightarrow> rowToRun row)"

definition insertPreparedRun :: "(string \<Rightarrow> string) \<Rightarrow> prepared_run \<Rightarrow> (ledger_db, run_record) operation" where
  "insertPreparedRun sha256 p d =
     (if find_run (cr_runId (pr_input p)) d \<noteq> None then (Inl (conflict ''Ledger run already exists''), d)
      else case rbind (canonicalJson (pr_task p)) (\<lambda>t.
                rbind (canonicalJson (coverage_json (cr_coverage (pr_input p)))) (\<lambda>cov.
                rbind (canonicalJson (pr_metadata p)) (\<lambda>meta.
                Inr (run_row_of p (hashText sha256 t) cov meta)))) of
        Inl e \<Rightarrow> (Inl e, d)
      | Inr row \<Rightarrow>
          (case insert_run row d of
             (Inl e, d) \<Rightarrow> (Inl e, d)
           | (Inr _, d) \<Rightarrow> (read_back ''Ledger run not found after creation'' (cr_runId (pr_input p)) d, d)))"

definition createRun ::
    "(string \<Rightarrow> string) \<Rightarrow> platform \<Rightarrow> san_options \<Rightarrow> string \<Rightarrow> jsvalue \<Rightarrow> (ledger_db, run_record) session" where
  "createRun sha256 pl opt now input c =
     (case prepareRun pl opt now input of
        Inl e \<Rightarrow> (Inl e, c)
      | Inr p \<Rightarrow> withImmediateTransaction (insertPreparedRun sha256 p) c)"

definition createRunInTransaction ::
    "(string \<Rightarrow> string) \<Rightarrow> platform \<Rightarrow> san_options \<Rightarrow> string \<Rightarrow> jsvalue \<Rightarrow> (ledger_db, run_record) operation" where
  "createRunInTransaction sha256 pl opt now input d =
     (case prepareRun pl opt now input of Inl e \<Rightarrow> (Inl e, d) | Inr p \<Rightarrow> insertPreparedRun sha256 p d)"

definition updateRunStatusInTransaction :: "string \<Rightarrow> jsvalue \<Rightarrow> jsvalue \<Rightarrow> (ledger_db, run_record) operation" where
  "updateRunStatusInTransaction runId status endedAt d =
     (case rbind (validateRunStatus status) (\<lambda>s. rbind (validateTimestamp ''endedAt'' endedAt) (\<lambda>t. Inr (s, t))) of
        Inl e \<Rightarrow> (Inl e, d)
      | Inr (validatedStatus, timestamp) \<Rightarrow>
          (case find_run runId d of
             None \<Rightarrow> (Inl (notFound ''Ledger run not found''), d)
           | Some current \<Rightarrow>
               if rr_status current \<in> set TERMINAL_RUN_STATUSES \<and> rr_status current \<noteq> validatedStatus
               then (Inl (conflict ''Terminal ledger run cannot change status''), d)
               else
                 let d = update_run runId (\<lambda>r. r\<lparr>rr_status := validatedStatus,
                       rr_ended_at := (if validatedStatus \<in> set TERMINAL_RUN_STATUSES then Some timestamp else None),
                       rr_updated_at := timestamp\<rparr>) d
                 in (read_back ''Ledger run not found'' runId d, d)))"

definition updateRunStatus :: "string \<Rightarrow> jsvalue \<Rightarrow> jsvalue \<Rightarrow> (ledger_db, run_record) session" where
  "updateRunStatus runId status endedAt c =
     (case rbind (validateRunStatus status) (\<lambda>s. rbind (validateTimestamp ''endedAt'' endedAt) (\<lambda>t. Inr (s, t))) of
        Inl e \<Rightarrow> (Inl e, c)
      | Inr _ \<Rightarrow> withImmediateTransaction (updateRunStatusInTransaction runId status endedAt) c)"

section \<open>Appending\<close>

text \<open>The first loop: which events of the batch are already stored.\<close>

definition existing_row :: "ledger_db \<Rightarrow> string \<Rightarrow> prepared_event \<Rightarrow> event_row option result" where
  "existing_row d runId event =
     (let sourceRow = (case source_id event of None \<Rightarrow> None | Some s \<Rightarrow> find_source runId s d);
          eventIdRow = find_event (pe_eventId event) d
      in case (sourceRow, eventIdRow) of
           (Some s, Some i) \<Rightarrow>
             if er_event_id s \<noteq> er_event_id i
             then Inl (conflict ''Event identities refer to different ledger events'') else Inr (Some s)
         | (Some s, None) \<Rightarrow> Inr (Some s)
         | (None, i) \<Rightarrow> Inr i)"

definition check_existing :: "string \<Rightarrow> prepared_event \<Rightarrow> event_row \<Rightarrow> unit result" where
  "check_existing runId event existing =
     (if er_run_id existing \<noteq> runId then Inl (conflict ''Event ID is already owned by another ledger run'')
      else if (case ei_eventId (pe_input event) of None \<Rightarrow> False | Some i \<Rightarrow> er_event_id existing \<noteq> i)
      then Inl (conflict ''Event ID conflicts with the stored source event'')
      else rbind (rowFingerprint existing) (\<lambda>f.
        check (pe_fingerprint event = f) (conflict ''Source event conflicts with an existing ledger event'')))"

fun existing_rows :: "ledger_db \<Rightarrow> string \<Rightarrow> prepared_event list \<Rightarrow> event_row list result" where
  "existing_rows d runId [] = Inr []"
| "existing_rows d runId (event # events) =
     rbind (existing_row d runId event) (\<lambda>e.
       case e of
         None \<Rightarrow> existing_rows d runId events
       | Some row \<Rightarrow>
           rbind (check_existing runId event row) (\<lambda>_.
             rbind (existing_rows d runId events) (\<lambda>rows. Inr (row # rows))))"

definition ackFromRows :: "string \<Rightarrow> event_row list \<Rightarrow> append_ack" where
  "ackFromRows runId rows =
     (let ordered = js_sort (\<lambda>l r. er_sequence l - er_sequence r) rows in
      \<lparr>ack_runId = runId, ack_acceptedThrough = (if ordered = [] then 0 else er_sequence (last ordered)),
       ack_localSequences = map er_sequence ordered, ack_sourceSequences = map er_source_sequence ordered,
       ack_eventIds = map er_event_id ordered\<rparr>)"

text \<open>The second loop: its local variables and the event table.\<close>

record append_cursor =
  cur_sequence :: int
  cur_previousHash :: string
  cur_lastSourceSequence :: "int option"
  cur_localSequences :: "int list"
  cur_sourceSequences :: "int option list"
  cur_eventIds :: "string list"
  cur_events :: "event_row list"

definition event_row_of ::
    "string \<Rightarrow> string \<Rightarrow> prepared_event \<Rightarrow> int \<Rightarrow> string \<Rightarrow> string \<Rightarrow> string \<Rightarrow> string \<Rightarrow> event_row" where
  "event_row_of runId ingestedAt event seqno previousHash payloadJson redactionJson eventHash =
     \<lparr>er_event_id = pe_eventId event, er_run_id = runId, er_sequence = seqno,
      er_source_event_id = ei_sourceEventId (pe_input event),
      er_source_sequence = ei_sourceSequence (pe_input event), er_event_type = ei_eventType (pe_input event),
      er_source_type = ei_sourceType (pe_input event), er_actor = ei_actor (pe_input event),
      er_outcome = (case ei_outcome (pe_input event) of None \<Rightarrow> None | Some oc \<Rightarrow> oc),
      er_occurred_at = ei_occurredAt (pe_input event), er_ingested_at = ingestedAt,
      er_payload_json = payloadJson, er_redaction_json = redactionJson,
      er_previous_hash = previousHash, er_event_hash = eventHash\<rparr>"

definition new_row ::
    "(string \<Rightarrow> string) \<Rightarrow> string \<Rightarrow> string \<Rightarrow> prepared_event \<Rightarrow> int \<Rightarrow> string \<Rightarrow> event_row result" where
  "new_row sha256 runId ingestedAt event seqno previousHash =
     rbind (canonicalJson (ei_payload (pe_input event))) (\<lambda>payloadJson.
     rbind (canonicalJson (redactions_json (pe_redactions event))) (\<lambda>redactionJson.
     rbind (hashLedgerEvent sha256 runId seqno (pe_eventId event) previousHash (pe_input event) ingestedAt
        (redactions_json (pe_redactions event))) (\<lambda>eventHash.
     Inr (event_row_of runId ingestedAt event seqno previousHash payloadJson redactionJson eventHash))))"

definition max_source :: "int option \<Rightarrow> int option \<Rightarrow> int option" where
  "max_source lastSource sourceSequence =
     (case sourceSequence of
        None \<Rightarrow> lastSource
      | Some s \<Rightarrow> (case lastSource of None \<Rightarrow> Some s | Some l \<Rightarrow> Some (max l s)))"

fun append_events ::
    "(string \<Rightarrow> string) \<Rightarrow> string \<Rightarrow> string \<Rightarrow> prepared_event list \<Rightarrow> append_cursor \<Rightarrow> unit result \<times> append_cursor" where
  "append_events sha256 runId ingestedAt [] cur = (Inr (), cur)"
| "append_events sha256 runId ingestedAt (event # events) cur =
     (let seqno = cur_sequence cur + 1 in
      case rbind (new_row sha256 runId ingestedAt event seqno (cur_previousHash cur)) (\<lambda>row.
             rbind (insert_event row (cur_events cur)) (\<lambda>rows. Inr (row, rows))) of
        Inl e \<Rightarrow> (Inl e, cur)
      | Inr (row, rows) \<Rightarrow>
          append_events sha256 runId ingestedAt events
            \<lparr>cur_sequence = seqno, cur_previousHash = er_event_hash row,
             cur_lastSourceSequence = max_source (cur_lastSourceSequence cur) (ei_sourceSequence (pe_input event)),
             cur_localSequences = cur_localSequences cur @ [seqno],
             cur_sourceSequences = cur_sourceSequences cur @ [ei_sourceSequence (pe_input event)],
             cur_eventIds = cur_eventIds cur @ [pe_eventId event], cur_events = rows\<rparr>)"

definition initial_cursor :: "run_row \<Rightarrow> ledger_db \<Rightarrow> append_cursor result" where
  "initial_cursor run d =
     (let seqno = rr_last_sequence run;
          previousHash = (if seqno = 0 then GENESIS_HASH
            else case find (\<lambda>r. er_run_id r = rr_run_id run \<and> er_sequence r = seqno) (db_events d) of
                   None \<Rightarrow> [] | Some r \<Rightarrow> er_event_hash r)
      in if seqno > 0 \<and> previousHash = []
         then Inl (KiokukoError INTEGRITY_ERROR ''Ledger sequence has no previous hash'')
         else Inr \<lparr>cur_sequence = seqno, cur_previousHash = previousHash,
                   cur_lastSourceSequence = rr_last_source_sequence run, cur_localSequences = [],
                   cur_sourceSequences = [], cur_eventIds = [], cur_events = db_events d\<rparr>)"

text \<open>The part of the operation that writes, for a batch none of whose events is stored yet.\<close>

definition append_new ::
    "(string \<Rightarrow> string) \<Rightarrow> string \<Rightarrow> run_row \<Rightarrow> prepared_event list \<Rightarrow> (ledger_db, append_ack) operation" where
  "append_new sha256 now run events d =
     (if rr_status run \<in> set TERMINAL_RUN_STATUSES
      then (Inl (conflict ''Cannot append events to a terminal ledger run''), d)
      else case initial_cursor run d of
        Inl e \<Rightarrow> (Inl e, d)
      | Inr cur \<Rightarrow>
          (case append_events sha256 (rr_run_id run) now events cur of
             (Inl e, cur) \<Rightarrow> (Inl e, d\<lparr>db_events := cur_events cur\<rparr>)
           | (Inr _, cur) \<Rightarrow>
               (Inr \<lparr>ack_runId = rr_run_id run, ack_acceptedThrough = cur_sequence cur,
                     ack_localSequences = cur_localSequences cur,
                     ack_sourceSequences = cur_sourceSequences cur, ack_eventIds = cur_eventIds cur\<rparr>,
                update_run (rr_run_id run) (\<lambda>r. r\<lparr>rr_last_sequence := cur_sequence cur,
                    rr_last_source_sequence := cur_lastSourceSequence cur, rr_updated_at := now\<rparr>)
                  (d\<lparr>db_events := cur_events cur\<rparr>))))"

definition appendPreparedBatchInTransaction ::
    "(string \<Rightarrow> string) \<Rightarrow> string \<Rightarrow> string \<Rightarrow> prepared_event list \<Rightarrow> (ledger_db, append_ack) operation" where
  "appendPreparedBatchInTransaction sha256 now runId events d =
     (case find_run runId d of
        None \<Rightarrow> (Inl (notFound ''Ledger run not found''), d)
      | Some run \<Rightarrow>
          (case existing_rows d runId events of
             Inl e \<Rightarrow> (Inl e, d)
           | Inr [] \<Rightarrow> append_new sha256 now run events d
           | Inr rows \<Rightarrow>
               if length rows \<noteq> length events \<or> length (js_set (map er_event_id rows)) \<noteq> length rows
               then (Inl (conflict ''Source event conflicts with an existing ledger event''), d)
               else (Inr (ackFromRows runId rows), d)))"

definition prepare_batch ::
    "platform \<Rightarrow> san_options \<Rightarrow> (nat \<Rightarrow> string) \<Rightarrow> jsvalue \<Rightarrow> prepared_event list result" where
  "prepare_batch pl opt uuid input = rbind (validateEventBatch input) (preparedEvents pl opt uuid)"

definition appendBatch ::
    "(string \<Rightarrow> string) \<Rightarrow> platform \<Rightarrow> san_options \<Rightarrow> (nat \<Rightarrow> string) \<Rightarrow> string \<Rightarrow> string \<Rightarrow> jsvalue
      \<Rightarrow> (ledger_db, append_ack) session" where
  "appendBatch sha256 pl opt uuid now runId input c =
     (case prepare_batch pl opt uuid input of
        Inl e \<Rightarrow> (Inl e, c)
      | Inr events \<Rightarrow> withImmediateTransaction (appendPreparedBatchInTransaction sha256 now runId events) c)"

definition appendBatchInTransaction ::
    "(string \<Rightarrow> string) \<Rightarrow> platform \<Rightarrow> san_options \<Rightarrow> (nat \<Rightarrow> string) \<Rightarrow> string \<Rightarrow> string \<Rightarrow> jsvalue
      \<Rightarrow> (ledger_db, append_ack) session" where
  "appendBatchInTransaction sha256 pl opt uuid now runId input c =
     (case prepare_batch pl opt uuid input of
        Inl e \<Rightarrow> (Inl e, c)
      | Inr events \<Rightarrow> withBatchSavepoint (appendPreparedBatchInTransaction sha256 now runId events) c)"

section \<open>Verification\<close>

definition row_hash :: "(string \<Rightarrow> string) \<Rightarrow> string \<Rightarrow> event_row \<Rightarrow> string result" where
  "row_hash sha256 runId row =
     rbind (parseJson (er_payload_json row)) (\<lambda>payload.
     rbind (parseJson (er_redaction_json row)) (\<lambda>redaction.
     hashLedgerEvent sha256 runId (er_sequence row) (er_event_id row) (er_previous_hash row)
       (event_of_row row payload) (er_ingested_at row) redaction))"

fun verify_rows :: "(string \<Rightarrow> string) \<Rightarrow> string \<Rightarrow> int \<Rightarrow> string \<Rightarrow> event_row list \<Rightarrow> bool result" where
  "verify_rows sha256 runId index previous [] = Inr True"
| "verify_rows sha256 runId index previous (row # rows) =
     (if er_sequence row \<noteq> index + 1 \<or> er_previous_hash row \<noteq> previous then Inr False
      else rbind (row_hash sha256 runId row) (\<lambda>calculated.
        if calculated \<noteq> er_event_hash row then Inr False
        else verify_rows sha256 runId (index + 1) (er_event_hash row) rows))"

definition verifyChain :: "(string \<Rightarrow> string) \<Rightarrow> string \<Rightarrow> ledger_db \<Rightarrow> bool result" where
  "verifyChain sha256 runId d = verify_rows sha256 runId 0 GENESIS_HASH (readEvents runId d)"

end
