(* ===== verification/Ledger_Chain.thy ===== *)
theory Ledger_Chain
  imports Ledger_Store
begin

text \<open>
  The hash chain of the ledger: what the append operation writes is what \<open>verifyChain\<close> accepts, the
  ledger invariant, idempotent replay, terminal runs and tamper evidence.
\<close>

section \<open>Stored columns\<close>

text \<open>Two events that agree up to their own identifier, a null outcome and the field order of the payload.\<close>

definition same_event :: "event_input \<Rightarrow> event_input \<Rightarrow> bool" where
  "same_event a b =
     (ei_sourceEventId a = ei_sourceEventId b \<and> ei_sourceSequence a = ei_sourceSequence b
      \<and> ei_eventType a = ei_eventType b \<and> ei_sourceType a = ei_sourceType b \<and> ei_actor a = ei_actor b
      \<and> outcome_or_null (ei_outcome a) = outcome_or_null (ei_outcome b) \<and> ei_occurredAt a = ei_occurredAt b
      \<and> same_json (ei_payload a) (ei_payload b))"

lemmas object_cong = canonicalJson_same_json [OF same_json_objectI]

lemma hashLedgerEvent_cong:
  assumes "same_event a b" and "same_json r s"
  shows "hashLedgerEvent sha256 run n eid prev a t r = hashLedgerEvent sha256 run n eid prev b t s"
  using assms unfolding hashLedgerEvent_def hash_preimage_def same_event_def
  by (intro arg_cong [where f = "\<lambda>c. rbind c _"] object_cong) (simp_all add: same_json.same_refl)

lemma eventFingerprint_cong:
  assumes "same_event a b" and "same_json r s"
  shows "eventFingerprint a r = eventFingerprint b s"
  using assms unfolding eventFingerprint_def same_event_def
  by (intro object_cong) (simp_all add: same_json.same_refl)

lemma json_repr_redactions [simp]: "json_repr (redactions_json rs)"
  by (simp add: redactions_json_def list_all_iff)

lemma parseJson_canonical:
  assumes "json_repr v" and "canonicalJson v = Inr t"
  obtains w where "parseJson t = Inr w" and "same_json v w"
  using canonicalJson_read [OF assms] by (auto simp: parseJson_def)

text \<open>A row written for an event has its columns, recomputes to its own hash and to the event's fingerprint.\<close>

definition row_for :: "(string \<Rightarrow> string) \<Rightarrow> string \<Rightarrow> prepared_event \<Rightarrow> event_row \<Rightarrow> bool" where
  "row_for sha256 runId event row =
     (er_event_id row = pe_eventId event \<and> er_run_id row = runId
      \<and> er_source_event_id row = ei_sourceEventId (pe_input event)
      \<and> er_source_sequence row = ei_sourceSequence (pe_input event)
      \<and> er_event_type row = ei_eventType (pe_input event) \<and> er_source_type row = ei_sourceType (pe_input event)
      \<and> er_actor row = ei_actor (pe_input event) \<and> er_occurred_at row = ei_occurredAt (pe_input event)
      \<and> canonicalJson (ei_payload (pe_input event)) = Inr (er_payload_json row)
      \<and> canonicalJson (redactions_json (pe_redactions event)) = Inr (er_redaction_json row)
      \<and> row_hash sha256 runId row = Inr (er_event_hash row)
      \<and> rowFingerprint row = eventFingerprint (pe_input event) (redactions_json (pe_redactions event)))"

lemma new_row_for:
  assumes "new_row sha256 runId now event n prev = Inr row" and "json_repr (ei_payload (pe_input event))"
  shows "row_for sha256 runId event row \<and> er_sequence row = n \<and> er_previous_hash row = prev"
proof -
  obtain payloadJson redactionJson hash where
    p: "canonicalJson (ei_payload (pe_input event)) = Inr payloadJson"
    and r: "canonicalJson (redactions_json (pe_redactions event)) = Inr redactionJson"
    and h: "hashLedgerEvent sha256 runId n (pe_eventId event) prev (pe_input event) now
        (redactions_json (pe_redactions event)) = Inr hash"
    and row: "row = event_row_of runId now event n prev payloadJson redactionJson hash"
    using assms(1) by (auto simp: new_row_def result_inv)
  obtain w where w: "parseJson payloadJson = Inr w" "same_json (ei_payload (pe_input event)) w"
    using parseJson_canonical [OF assms(2) p] .
  obtain s where s: "parseJson redactionJson = Inr s" "same_json (redactions_json (pe_redactions event)) s"
    using parseJson_canonical [OF json_repr_redactions r] .
  have same: "same_event (pe_input event) (event_of_row row w)"
    using w(2) by (auto simp: same_event_def event_of_row_def row event_row_of_def outcome_or_null_def split: option.splits)
  show ?thesis
    using hashLedgerEvent_cong [OF same s(2), of sha256 runId n "pe_eventId event" prev now] h w(1) s(1)
      eventFingerprint_cong [OF same s(2)] p r
    by (auto simp: row_for_def row_hash_def rowFingerprint_def row event_row_of_def)
qed

section \<open>Chains\<close>

definition chain_end :: "string \<Rightarrow> event_row list \<Rightarrow> string" where
  "chain_end previous rows = (if rows = [] then previous else er_event_hash (last rows))"

lemma chain_end_simps [simp]:
  "chain_end p [] = p" "chain_end p (r # rs) = chain_end (er_event_hash r) rs"
  "chain_end p (rs @ ss) = chain_end (chain_end p rs) ss"
  by (auto simp: chain_end_def)

lemma verify_rows_Cons_True:
  "verify_rows sha256 run i p (r # rs) = Inr True \<longleftrightarrow>
     er_sequence r = i + 1 \<and> er_previous_hash r = p \<and> row_hash sha256 run r = Inr (er_event_hash r)
     \<and> verify_rows sha256 run (i + 1) (er_event_hash r) rs = Inr True"
  by (auto simp: rbind_eq_Inr)

lemma verify_rows_append:
  "verify_rows sha256 run i p (xs @ ys) = Inr True \<longleftrightarrow>
     verify_rows sha256 run i p xs = Inr True
     \<and> verify_rows sha256 run (i + int (length xs)) (chain_end p xs) ys = Inr True"
proof (induction xs arbitrary: i p)
  case Nil
  then show ?case by simp
next
  case (Cons x xs)
  have "i + 1 + int (length xs) = i + int (length (x # xs))" by simp
  with Cons [of "i + 1" "er_event_hash x"] show ?case
    by (simp only: append_Cons verify_rows_Cons_True chain_end_simps) blast
qed

lemma verify_rows_sequences:
  "verify_rows sha256 run i p rs = Inr True \<Longrightarrow> map er_sequence rs = [i + 1..i + int (length rs)]"
proof (induction rs arbitrary: i p)
  case Nil
  then show ?case by simp
next
  case (Cons r rs)
  then have "er_sequence r = i + 1" "map er_sequence rs = [i + 1 + 1..i + 1 + int (length rs)]"
    by (auto simp: verify_rows_Cons_True simp del: verify_rows.simps)
  moreover have "[i + 1..i + int (length (r # rs))] = (i + 1) # [i + 1 + 1..i + int (length (r # rs))]"
    by (rule upto_rec1) simp
  ultimately show ?case by (simp add: algebra_simps)
qed

text \<open>What the insertion loop appends.\<close>

lemma insert_event_Inr:
  "insert_event row rows = Inr rows' \<longleftrightarrow>
     rows' = rows @ [row] \<and> (\<forall>r \<in> set rows. er_event_id r \<noteq> er_event_id row)
     \<and> (\<forall>r \<in> set rows. er_run_id r = er_run_id row \<longrightarrow> er_sequence r \<noteq> er_sequence row)
     \<and> (\<forall>r \<in> set rows. er_source_event_id row \<noteq> None \<longrightarrow> er_run_id r = er_run_id row \<longrightarrow>
          er_source_event_id r \<noteq> er_source_event_id row)
     \<and> 0 < er_sequence row"
  by (auto simp: insert_event_def list_ex_iff)

lemma append_events_rows:
  assumes "append_events sha256 run now events cur = (Inr (), cur')"
    and "\<And>e. e \<in> set events \<Longrightarrow> json_repr (ei_payload (pe_input e))"
    and "distinct (map er_event_id (cur_events cur))"
  shows "\<exists>rows. cur_events cur' = cur_events cur @ rows \<and> list_all2 (row_for sha256 run) events rows
    \<and> verify_rows sha256 run (cur_sequence cur) (cur_previousHash cur) rows = Inr True
    \<and> distinct (map er_event_id (cur_events cur'))
    \<and> cur_sequence cur' = cur_sequence cur + int (length events)
    \<and> cur_localSequences cur' = cur_localSequences cur @ map er_sequence rows
    \<and> cur_sourceSequences cur' = cur_sourceSequences cur @ map er_source_sequence rows
    \<and> cur_eventIds cur' = cur_eventIds cur @ map er_event_id rows"
  using assms
proof (induction events arbitrary: cur)
  case Nil
  then show ?case by simp
next
  case (Cons event events)
  let ?n = "cur_sequence cur + 1"
  obtain row rows1 where
    new: "new_row sha256 run now event ?n (cur_previousHash cur) = Inr row"
    and ins: "insert_event row (cur_events cur) = Inr rows1"
    and rec: "append_events sha256 run now events
      \<lparr>cur_sequence = ?n, cur_previousHash = er_event_hash row,
       cur_lastSourceSequence = max_source (cur_lastSourceSequence cur) (ei_sourceSequence (pe_input event)),
       cur_localSequences = cur_localSequences cur @ [?n],
       cur_sourceSequences = cur_sourceSequences cur @ [ei_sourceSequence (pe_input event)],
       cur_eventIds = cur_eventIds cur @ [pe_eventId event], cur_events = rows1\<rparr> = (Inr (), cur')"
    using Cons.prems(1) by (auto simp: Let_def rbind_eq_Inr split: sum.splits)
  have rf: "row_for sha256 run event row" "er_sequence row = ?n" "er_previous_hash row = cur_previousHash cur"
    using new_row_for [OF new] Cons.prems(2) by simp_all
  have rows1: "rows1 = cur_events cur @ [row]" "distinct (map er_event_id rows1)"
    using ins Cons.prems(3) by (auto simp: insert_event_Inr)
  from Cons.IH [OF rec] Cons.prems(2) rows1 obtain rows where IH:
    "cur_events cur' = rows1 @ rows" "list_all2 (row_for sha256 run) events rows"
    "verify_rows sha256 run ?n (er_event_hash row) rows = Inr True"
    "distinct (map er_event_id (cur_events cur'))"
    "cur_sequence cur' = ?n + int (length events)"
    "cur_localSequences cur' = (cur_localSequences cur @ [?n]) @ map er_sequence rows"
    "cur_sourceSequences cur' = (cur_sourceSequences cur @ [ei_sourceSequence (pe_input event)]) @ map er_source_sequence rows"
    "cur_eventIds cur' = (cur_eventIds cur @ [pe_eventId event]) @ map er_event_id rows"
    by auto
  have "verify_rows sha256 run (cur_sequence cur) (cur_previousHash cur) (row # rows) = Inr True"
    using IH(3) rf by (simp add: verify_rows_Cons_True row_for_def del: verify_rows.simps)
  moreover have "er_event_id row = pe_eventId event" "er_source_sequence row = ei_sourceSequence (pe_input event)"
    using rf(1) by (simp_all add: row_for_def)
  ultimately show ?case
    using IH rf rows1 by (intro exI [of _ "row # rows"]) (simp del: verify_rows.simps)
qed

section \<open>The ledger invariant\<close>

definition run_ok :: "(string \<Rightarrow> string) \<Rightarrow> ledger_db \<Rightarrow> run_row \<Rightarrow> bool" where
  "run_ok sha256 d run =
     (verifyChain sha256 (rr_run_id run) d = Inr True
      \<and> int (length (readEvents (rr_run_id run) d)) = rr_last_sequence run)"

definition ledger_ok :: "(string \<Rightarrow> string) \<Rightarrow> ledger_db \<Rightarrow> bool" where
  "ledger_ok sha256 d =
     (distinct (map rr_run_id (db_runs d)) \<and> distinct (map er_event_id (db_events d))
      \<and> list_all (\<lambda>r. run_ok sha256 d r) (db_runs d)
      \<and> list_all (\<lambda>e. er_run_id e \<in> rr_run_id ` set (db_runs d)) (db_events d))"

lemma insort_key_append:
  "\<forall>y \<in> set ys. f x \<le> f y \<Longrightarrow> insort_key f x (zs @ ys) = insort_key f x zs @ ys"
proof (induction zs)
  case Nil
  then show ?case by (cases ys) simp_all
next
  case (Cons z zs)
  then show ?case by simp
qed

lemma sort_key_append:
  assumes "sorted (map f ys)" and "\<forall>x \<in> set xs. \<forall>y \<in> set ys. f x \<le> f y"
  shows "sort_key f (xs @ ys) = sort_key f xs @ ys"
  using assms(2)
proof (induction xs)
  case Nil
  then show ?case using assms(1) by (simp add: sort_key_id_if_sorted)
next
  case (Cons x xs)
  then show ?case by (simp add: insort_key_append)
qed

lemma readEvents_other:
  "(\<And>r. r \<in> set rows \<Longrightarrow> er_run_id r \<noteq> run) \<Longrightarrow> readEvents run (d\<lparr>db_events := db_events d @ rows\<rparr>) = readEvents run d"
  by (simp add: readEvents_def)

lemma readEvents_runs [simp]: "readEvents run (update_run i f d) = readEvents run d"
  by (simp add: readEvents_def update_run_def)

lemma set_readEvents: "set (readEvents run d) = {r \<in> set (db_events d). er_run_id r = run}"
  by (auto simp: readEvents_def)

text \<open>The rows of a run with a verified chain carry the sequences from one to their number.\<close>

lemma verified_sequences:
  "verifyChain sha256 run d = Inr True \<Longrightarrow> map er_sequence (readEvents run d) = [1..int (length (readEvents run d))]"
  unfolding verifyChain_def using verify_rows_sequences [of sha256 run 0 GENESIS_HASH "readEvents run d"] by simp

lemma readEvents_append:
  assumes "verifyChain sha256 run d = Inr True" and "verify_rows sha256 run (int (length (readEvents run d))) p rows = Inr True"
    and "\<And>r. r \<in> set rows \<Longrightarrow> er_run_id r = run"
  shows "readEvents run (d\<lparr>db_events := db_events d @ rows\<rparr>) = readEvents run d @ rows"
proof -
  let ?n = "int (length (readEvents run d))"
  have new: "map er_sequence rows = [?n + 1..?n + int (length rows)]"
    using verify_rows_sequences [OF assms(2)] .
  have le: "er_sequence x \<le> er_sequence y" if "x \<in> set (filter (\<lambda>r. er_run_id r = run) (db_events d))" "y \<in> set rows" for x y
  proof -
    have "er_sequence x \<in> set (map er_sequence (readEvents run d))" using that(1) by (simp add: set_readEvents)
    then have "er_sequence x \<le> ?n" using verified_sequences [OF assms(1)] by simp
    moreover have "er_sequence y \<in> set (map er_sequence rows)" using that(2) by simp
    then have "?n + 1 \<le> er_sequence y" using new by simp
    ultimately show ?thesis by simp
  qed
  have "filter (\<lambda>r. er_run_id r = run) rows = rows" using assms(3) by simp
  moreover have "sorted (map er_sequence rows)" unfolding new by simp
  ultimately show ?thesis
    using sort_key_append [of er_sequence rows "filter (\<lambda>r. er_run_id r = run) (db_events d)"] le
    by (simp add: readEvents_def)
qed

lemma initial_cursor_chain:
  assumes "run_ok sha256 d run" and "initial_cursor run d = Inr cur"
  shows "cur_sequence cur = int (length (readEvents (rr_run_id run) d))
    \<and> cur_previousHash cur = chain_end GENESIS_HASH (readEvents (rr_run_id run) d)
    \<and> cur_events cur = db_events d \<and> cur_localSequences cur = [] \<and> cur_sourceSequences cur = [] \<and> cur_eventIds cur = []"
proof -
  let ?rows = "readEvents (rr_run_id run) d"
  have n: "rr_last_sequence run = int (length ?rows)"
    and seqs: "map er_sequence ?rows = [1..int (length ?rows)]"
    using assms(1) verified_sequences by (auto simp: run_ok_def)
  have "(case find (\<lambda>r. er_run_id r = rr_run_id run \<and> er_sequence r = int (length ?rows)) (db_events d) of
      None \<Rightarrow> [] | Some r \<Rightarrow> er_event_hash r) = er_event_hash (last ?rows)" if "?rows \<noteq> []"
  proof -
    have "er_sequence (last ?rows) = last (map er_sequence ?rows)" using that by (simp add: last_map)
    also have "\<dots> = int (length ?rows)"
      unfolding seqs using upto_rec2 [of 1 "int (length ?rows)"] that by (simp add: Suc_leI)
    finally have l: "er_sequence (last ?rows) = int (length ?rows)" .
    have "distinct (map er_sequence ?rows)" unfolding seqs by simp
    then have inj: "inj_on er_sequence (set ?rows)" by (simp add: distinct_map)
    have "last ?rows \<in> set ?rows" using that by simp
    then have mem: "last ?rows \<in> set (db_events d)" "er_run_id (last ?rows) = rr_run_id run"
      by (simp_all add: set_readEvents)
    obtain r where r: "find (\<lambda>r. er_run_id r = rr_run_id run \<and> er_sequence r = int (length ?rows)) (db_events d) = Some r"
      using mem l by (cases "find (\<lambda>r. er_run_id r = rr_run_id run \<and> er_sequence r = int (length ?rows)) (db_events d)")
        (auto simp: find_None_iff)
    then have "r \<in> set ?rows" "er_sequence r = int (length ?rows)"
      by (auto simp: find_Some_iff set_readEvents)
    with inj l \<open>last ?rows \<in> set ?rows\<close> have "r = last ?rows" by (metis inj_onD)
    with r show ?thesis by simp
  qed
  then show ?thesis
    using assms(2) n by (auto simp: initial_cursor_def Let_def chain_end_def split: if_splits)
qed

lemma find_run_Some: "find_run i d = Some run \<Longrightarrow> run \<in> set (db_runs d) \<and> rr_run_id run = i"
  by (auto simp: find_run_def find_Some_iff)

lemma ledger_okD:
  assumes "ledger_ok sha256 d" and "find_run i d = Some run"
  shows "run_ok sha256 d run" "rr_run_id run = i" "distinct (map er_event_id (db_events d))"
  using assms find_run_Some by (auto simp: ledger_ok_def list_all_iff)

text \<open>What a batch of new events does to the database.\<close>

lemma append_new_rows:
  assumes "append_new sha256 now run events d = (Inr ack, d')" and "run_ok sha256 d run"
    and "distinct (map er_event_id (db_events d))"
    and "\<And>e. e \<in> set events \<Longrightarrow> json_repr (ei_payload (pe_input e))"
  obtains rows lastSource where
    "d' = update_run (rr_run_id run) (\<lambda>r. r\<lparr>rr_last_sequence := rr_last_sequence run + int (length events),
        rr_last_source_sequence := lastSource, rr_updated_at := now\<rparr>) (d\<lparr>db_events := db_events d @ rows\<rparr>)"
    "list_all2 (row_for sha256 (rr_run_id run)) events rows"
    "verify_rows sha256 (rr_run_id run) (rr_last_sequence run) (chain_end GENESIS_HASH (readEvents (rr_run_id run) d)) rows = Inr True"
    "distinct (map er_event_id (db_events d @ rows))"
    "ack = \<lparr>ack_runId = rr_run_id run, ack_acceptedThrough = rr_last_sequence run + int (length events),
       ack_localSequences = map er_sequence rows, ack_sourceSequences = map er_source_sequence rows,
       ack_eventIds = map er_event_id rows\<rparr>"
    "rr_status run \<notin> set TERMINAL_RUN_STATUSES"
proof -
  obtain cur cur' where ic: "initial_cursor run d = Inr cur"
    and ae: "append_events sha256 (rr_run_id run) now events cur = (Inr (), cur')"
    and ack: "ack = \<lparr>ack_runId = rr_run_id run, ack_acceptedThrough = cur_sequence cur',
       ack_localSequences = cur_localSequences cur', ack_sourceSequences = cur_sourceSequences cur',
       ack_eventIds = cur_eventIds cur'\<rparr>"
    and d': "d' = update_run (rr_run_id run) (\<lambda>r. r\<lparr>rr_last_sequence := cur_sequence cur',
        rr_last_source_sequence := cur_lastSourceSequence cur', rr_updated_at := now\<rparr>)
          (d\<lparr>db_events := cur_events cur'\<rparr>)"
    and st: "rr_status run \<notin> set TERMINAL_RUN_STATUSES"
    using assms(1) by (auto simp: append_new_def split: if_splits sum.splits prod.splits)
  note cur = initial_cursor_chain [OF assms(2) ic]
  have len: "rr_last_sequence run = int (length (readEvents (rr_run_id run) d))"
    using assms(2) by (simp add: run_ok_def)
  have "distinct (map er_event_id (cur_events cur))" using cur assms(3) by simp
  from append_events_rows [OF ae assms(4) this]
  show ?thesis using cur len ack d' st by (auto intro!: that)
qed

lemma append_new_ok:
  assumes "append_new sha256 now run events d = (Inr ack, d')" and "ledger_ok sha256 d"
    and "find_run i d = Some run"
    and "\<And>e. e \<in> set events \<Longrightarrow> json_repr (ei_payload (pe_input e))"
  shows "ledger_ok sha256 d'"
proof -
  note ok = ledger_okD [OF assms(2,3)]
  have run: "run \<in> set (db_runs d)" using find_run_Some [OF assms(3)] by simp
  from append_new_rows [OF assms(1) ok(1) ok(3) assms(4)] obtain rows lastSource where
    d': "d' = update_run (rr_run_id run) (\<lambda>r. r\<lparr>rr_last_sequence := rr_last_sequence run + int (length events),
        rr_last_source_sequence := lastSource, rr_updated_at := now\<rparr>) (d\<lparr>db_events := db_events d @ rows\<rparr>)"
    and rows: "list_all2 (row_for sha256 (rr_run_id run)) events rows"
    and ver: "verify_rows sha256 (rr_run_id run) (rr_last_sequence run)
        (chain_end GENESIS_HASH (readEvents (rr_run_id run) d)) rows = Inr True"
    and dist: "distinct (map er_event_id (db_events d @ rows))" .
  let ?e = "d\<lparr>db_events := db_events d @ rows\<rparr>"
  have ids: "er_run_id r = rr_run_id run" if "r \<in> set rows" for r
    using rows that by (auto simp: row_for_def list_all2_conv_all_nth in_set_conv_nth)
  have vc: "verifyChain sha256 (rr_run_id run) d = Inr True"
    and len: "rr_last_sequence run = int (length (readEvents (rr_run_id run) d))"
    using ok(1) by (auto simp: run_ok_def)
  have here: "readEvents (rr_run_id run) ?e = readEvents (rr_run_id run) d @ rows"
    using readEvents_append [OF vc ver [unfolded len] ids] .
  have there: "readEvents j ?e = readEvents j d" if "j \<noteq> rr_run_id run" for j
    using readEvents_other [of rows j d] ids that by auto
  have chain: "verifyChain sha256 (rr_run_id run) ?e = Inr True"
    using vc ver len by (simp add: verifyChain_def here verify_rows_append)
  have n: "length rows = length events" using rows by (simp add: list_all2_lengthD)
  have reads: "readEvents j d' = readEvents j ?e" for j by (simp add: d')
  have "run_ok sha256 d' r" if "r \<in> set (db_runs d')" for r
  proof (cases "rr_run_id r = rr_run_id run")
    case True
    with that have "rr_last_sequence r = rr_last_sequence run + int (length events)"
      by (auto simp: d' update_run_def split: if_splits)
    with True show ?thesis
      using chain len n by (simp add: run_ok_def verifyChain_def reads here)
  next
    case False
    with that have "r \<in> set (db_runs d)" by (auto simp: d' update_run_def split: if_splits)
    with False show ?thesis
      using assms(2) there by (simp add: ledger_ok_def list_all_iff run_ok_def verifyChain_def reads)
  qed
  moreover have "map rr_run_id (db_runs d') = map rr_run_id (db_runs d)"
    by (simp add: d' update_run_def)
  moreover have "db_events d' = db_events d @ rows" by (simp add: d' update_run_def)
  ultimately show ?thesis
    using assms(2) dist ids run unfolding ledger_ok_def list_all_iff
    by (metis (no_types, lifting) Un_iff imageI set_append set_map)
qed

lemma append_ok:
  assumes "appendPreparedBatchInTransaction sha256 now runId events d = (Inr ack, d')" and "ledger_ok sha256 d"
    and "\<And>e. e \<in> set events \<Longrightarrow> json_repr (ei_payload (pe_input e))"
  shows "ledger_ok sha256 d'"
  using assms append_new_ok [of sha256 now _ events d ack d' runId]
  by (auto simp: appendPreparedBatchInTransaction_def split: option.splits sum.splits list.splits if_splits)

section \<open>Prepared batches\<close>

definition event_ok :: "prepared_event \<Rightarrow> bool" where
  "event_ok e =
     (json_repr (ei_payload (pe_input e))
      \<and> eventFingerprint (pe_input e) (redactions_json (pe_redactions e)) = Inr (pe_fingerprint e)
      \<and> opt_all (\<lambda>i. pe_eventId e = i) (ei_eventId (pe_input e)))"

definition source_ids :: "prepared_event list \<Rightarrow> string list" where
  "source_ids events = concat (map (\<lambda>e. case source_id e of None \<Rightarrow> [] | Some s \<Rightarrow> [s]) events)"

definition batch_ok :: "prepared_event list \<Rightarrow> bool" where
  "batch_ok events =
     (events \<noteq> [] \<and> list_all event_ok events \<and> distinct (map pe_eventId events) \<and> distinct (source_ids events))"

lemma check_batch_distinct:
  "check_batch ss is events = Inr () \<Longrightarrow>
     distinct (map pe_eventId events) \<and> set (map pe_eventId events) \<inter> set is = {}
     \<and> distinct (source_ids events) \<and> set (source_ids events) \<inter> set ss = {}"
  by (induction ss "is" events rule: check_batch.induct)
    (auto simp: source_ids_def split: option.splits if_splits)

lemma prepare_event_ok:
  "prepare_event pl opt uuid i e = Inr p \<Longrightarrow> json_repr (event_json e) \<Longrightarrow> event_ok p"
  by (auto simp: prepare_event_def event_ok_def rbind_eq_Inr sanitizeEvent_repr opt_all_iff
      split: option.splits)

lemma prepare_events_ok:
  "prepare_events pl opt uuid i es = Inr ps \<Longrightarrow> list_all (\<lambda>e. json_repr (event_json e)) es \<Longrightarrow>
     list_all event_ok ps \<and> length ps = length es"
  by (induction pl opt uuid i es arbitrary: ps rule: prepare_events.induct)
    (auto simp: rbind_eq_Inr dest: prepare_event_ok)

lemma prepare_batch_ok:
  assumes "prepare_batch pl opt uuid input = Inr events" and "json_repr input"
  shows "batch_ok events"
proof -
  obtain es where es: "validateEventBatch input = Inr es" and ps: "prepare_events pl opt uuid 0 es = Inr events"
    and chk: "check_batch [] [] events = Inr ()"
    using assms(1) by (auto simp: prepare_batch_def preparedEvents_def rbind_eq_Inr)
  from validateEventBatch_repr [OF es assms(2)] prepare_events_ok [OF ps] check_batch_distinct [OF chk]
  show ?thesis by (auto simp: batch_ok_def)
qed

lemma batch_ok_payload: "batch_ok events \<Longrightarrow> e \<in> set events \<Longrightarrow> json_repr (ei_payload (pe_input e))"
  by (simp add: batch_ok_def event_ok_def list_all_iff)

section \<open>Operations that keep the ledger intact\<close>

text \<open>
  The contract between the store and the transactions that run it: an operation that takes an
  intact ledger to an intact ledger whenever it returns.
\<close>

locale ledger_operation =
  fixes sha256 :: "string \<Rightarrow> string" and pre :: "'i \<Rightarrow> bool" and op :: "'i \<Rightarrow> (ledger_db, 'a) operation"
  assumes op_ok: "pre i \<Longrightarrow> ledger_ok sha256 d \<Longrightarrow> op i d = (Inr x, d') \<Longrightarrow> ledger_ok sha256 d'"
begin

text \<open>Under an immediate transaction the committed ledger stays intact whatever the driver does.\<close>

lemma immediate_ok:
  assumes "pre i" and "working c = None" and "ledger_ok sha256 (committed c)"
  shows "ledger_ok sha256 (committed (snd (withImmediateTransaction (op i) c)))"
  using immediate.run_invariant [of "ledger_ok sha256" "op i" c] op_ok assms by blast

text \<open>Under a savepoint the enclosing transaction's copy stays intact, unless the clean-up failed.\<close>

lemma savepoint_ok:
  assumes "pre i" and "working c = Some d" and "ledger_ok sha256 d"
    and "withBatchSavepoint (op i) c = (r, c')" and "\<And>es m. r \<noteq> Inl (AggregateError es m)"
  shows "\<exists>d'. working c' = Some d' \<and> ledger_ok sha256 d'"
proof (cases "\<exists>es m. r = Inl (AggregateError es m)")
  case True
  with assms(5) show ?thesis by blast
next
  case False
  then show ?thesis
    using withBatchSavepoint_outcome [OF assms(2,4)] op_ok [OF assms(1,3)] assms(3)
    by (auto split: sum.splits js_error.splits)
qed

end

interpretation append: ledger_operation sha256 "\<lambda>(now, runId, events). batch_ok events"
    "\<lambda>(now, runId, events). appendPreparedBatchInTransaction sha256 now runId events"
  for sha256
  by unfold_locales (auto dest: append_ok batch_ok_payload)

lemma insertPreparedRun_ok:
  assumes "insertPreparedRun sha256 p d = (Inr x, d')" and "ledger_ok sha256 d"
  shows "ledger_ok sha256 d'"
proof -
  let ?i = "cr_runId (pr_input p)"
  obtain row where d': "d' = d\<lparr>db_runs := db_runs d @ [row]\<rparr>" and row: "rr_run_id row = ?i" "rr_last_sequence row = 0"
    and new: "find_run ?i d = None"
    using assms(1)
    by (auto simp: insertPreparedRun_def insert_run_def run_row_of_def rbind_eq_Inr split: if_splits sum.splits prod.splits)
  have fresh: "?i \<notin> rr_run_id ` set (db_runs d)" using new by (auto simp: find_run_def find_None_iff)
  have reads: "readEvents j d' = readEvents j d" for j by (simp add: readEvents_def d')
  have "set (readEvents ?i d) = {}"
    using assms(2) fresh by (simp add: ledger_ok_def list_all_iff set_readEvents) force
  then have "readEvents ?i d = []" by simp
  then have "run_ok sha256 d' row" by (simp add: run_ok_def verifyChain_def reads row)
  moreover have "run_ok sha256 d' r" if "r \<in> set (db_runs d)" for r
    using assms(2) that by (simp add: ledger_ok_def list_all_iff run_ok_def verifyChain_def reads)
  ultimately show ?thesis
    using assms(2) fresh row by (auto simp: ledger_ok_def list_all_iff d')
qed

interpretation create: ledger_operation sha256 "\<lambda>p. True" "insertPreparedRun sha256" for sha256
  by unfold_locales (rule insertPreparedRun_ok)

lemma update_run_ok:
  assumes "\<And>r. rr_run_id (f r) = rr_run_id r" and "\<And>r. rr_last_sequence (f r) = rr_last_sequence r"
    and "ledger_ok sha256 d"
  shows "ledger_ok sha256 (update_run i f d)"
proof -
  have "map rr_run_id (db_runs (update_run i f d)) = map rr_run_id (db_runs d)"
    using assms(1) by (simp add: update_run_def)
  moreover from this have "rr_run_id ` set (db_runs (update_run i f d)) = rr_run_id ` set (db_runs d)"
    by (metis set_map)
  moreover have "run_ok sha256 (update_run i f d) r" if "r \<in> set (db_runs (update_run i f d))" for r
    using that assms by (auto simp: update_run_def ledger_ok_def list_all_iff run_ok_def verifyChain_def readEvents_def)
  moreover have "db_events (update_run i f d) = db_events d" by (simp add: update_run_def)
  ultimately show ?thesis using assms(3) by (simp add: ledger_ok_def list_all_iff)
qed

interpretation status: ledger_operation sha256 "\<lambda>(runId, st, t). True"
    "\<lambda>(runId, st, t). updateRunStatusInTransaction runId st t"
  for sha256
  by unfold_locales
    (auto simp: updateRunStatusInTransaction_def Let_def split: sum.splits option.splits if_splits intro!: update_run_ok)

section \<open>Replay\<close>

lemma source_ids_inj:
  "distinct (source_ids es) \<Longrightarrow> i < length es \<Longrightarrow> j < length es \<Longrightarrow>
   source_id (es ! i) = Some s \<Longrightarrow> source_id (es ! j) = Some s \<Longrightarrow> i = j"
proof (induction es arbitrary: i j)
  case Nil
  then show ?case by simp
next
  case (Cons e es)
  have mem: "s \<in> set (source_ids es)" if "k < length es" "source_id (es ! k) = Some s" for k
    using nth_mem [OF that(1)] that(2) by (auto simp: source_ids_def intro!: bexI [of _ "es ! k"])
  show ?case
    using Cons.prems Cons.IH mem by (cases i; cases j) (auto simp: source_ids_def split: option.splits)
qed

lemma existing_rows_all:
  "list_all2 (\<lambda>e r. existing_row d run e = Inr (Some r) \<and> check_existing run e r = Inr ()) events rows \<Longrightarrow>
   existing_rows d run events = Inr rows"
  by (induction rule: list_all2_induct) auto

lemma existing_rows_none:
  "existing_rows d run events = Inr [] \<Longrightarrow> e \<in> set events \<Longrightarrow> existing_row d run e = Inr None"
  by (induction events) (auto simp: rbind_eq_Inr split: option.splits)

lemma existing_row_None_source:
  "existing_row d run e = Inr None \<Longrightarrow> source_id e = Some s \<Longrightarrow> find_source run s d = None"
  by (auto simp: existing_row_def Let_def split: option.splits if_splits)

interpretation row_order: keyed_comparator "\<lambda>l r. er_sequence l - er_sequence r" er_sequence
  by unfold_locales auto

lemma source_id_row:
  "source_id e = Some s \<Longrightarrow> ei_sourceEventId (pe_input e) = Some s"
  by (auto simp: source_id_def present_def split: if_splits)

lemma source_id_of: "ei_sourceEventId (pe_input e) = Some s \<Longrightarrow> source_id e' = Some s \<Longrightarrow> source_id e = Some s"
  by (auto simp: source_id_def present_def split: if_splits)

text \<open>In the database after the batch, every event of the batch is found by each of its identities.\<close>

lemma found_after:
  assumes "batch_ok events" and rows: "list_all2 (row_for sha256 run) events rows"
    and "distinct (map er_event_id (db_events d @ rows))" and "existing_rows d run events = Inr []"
    and "db_events d' = db_events d @ rows" and i: "i < length events"
  shows "find_event (pe_eventId (events ! i)) d' = Some (rows ! i)"
    and "source_id (events ! i) = Some s \<Longrightarrow> find_source run s d' = Some (rows ! i)"
proof -
  let ?e = "events ! i" and ?r = "rows ! i"
  have len: "length rows = length events" using rows by (simp add: list_all2_lengthD)
  have rf: "row_for sha256 run (events ! j) (rows ! j)" if "j < length events" for j
    using rows that by (simp add: list_all2_conv_all_nth)
  have r: "?r \<in> set (db_events d')" using assms(5) i len by simp
  have inj: "inj_on er_event_id (set (db_events d'))" using assms(3,5) by (metis distinct_map)
  show "find_event (pe_eventId ?e) d' = Some ?r"
    unfolding find_event_def using r rf [OF i] inj by (intro find_unique) (auto simp: row_for_def inj_on_def)
  show "find_source run s d' = Some ?r" if s: "source_id ?e = Some s"
    unfolding find_source_def
  proof (rule find_unique [OF r])
    show "er_run_id ?r = run \<and> er_source_event_id ?r = Some s"
      using rf [OF i] source_id_row [OF s] by (simp add: row_for_def)
    fix y assume y: "y \<in> set (db_events d')" "er_run_id y = run \<and> er_source_event_id y = Some s"
    have "find_source run s d = None"
      using existing_row_None_source [OF existing_rows_none [OF assms(4)] s] i by simp
    with y assms(5) have "y \<in> set rows" by (auto simp: find_source_def find_None_iff)
    then obtain j where j: "j < length events" "y = rows ! j" using len by (metis in_set_conv_nth)
    then have "source_id (events ! j) = Some s"
      using y(2) rf [of j] source_id_of [OF _ s] by (auto simp: row_for_def)
    with source_ids_inj [of events j i s] j(1) i s assms(1) j(2) show "y = ?r" by (simp add: batch_ok_def)
  qed
qed

text \<open>
  A batch that is sent again is prepared again: the same events, with new drawn identifiers for those
  that do not bring their own. An event is identified by its own identifier or by its source's.
\<close>

definition identified :: "prepared_event \<Rightarrow> bool" where
  "identified e = (ei_eventId (pe_input e) \<noteq> None \<or> source_id e \<noteq> None)"

definition resent :: "string set \<Rightarrow> prepared_event \<Rightarrow> prepared_event \<Rightarrow> bool" where
  "resent drawn e e' =
     (pe_input e' = pe_input e \<and> pe_fingerprint e' = pe_fingerprint e
      \<and> (case ei_eventId (pe_input e) of None \<Rightarrow> pe_eventId e' \<in> drawn | Some i \<Rightarrow> pe_eventId e' = i))"

lemma prepare_again:
  "prepare_events pl opt uuid i es = Inr ps \<Longrightarrow> prepare_events pl opt uuid' i es = Inr ps' \<Longrightarrow>
   list_all2 (resent (range uuid')) ps ps'"
  by (induction pl opt uuid i es arbitrary: ps ps' rule: prepare_events.induct)
    (auto simp: rbind_eq_Inr prepare_event_def resent_def split: option.splits)

lemma prepare_batch_again:
  "prepare_batch pl opt uuid input = Inr ps \<Longrightarrow> prepare_batch pl opt uuid' input = Inr ps' \<Longrightarrow>
   list_all2 (resent (range uuid')) ps ps'"
  by (auto simp: prepare_batch_def preparedEvents_def rbind_eq_Inr dest: prepare_again)

lemma find_append_Some: "find P xs = Some x \<Longrightarrow> find P (xs @ ys) = Some x"
  by (induction xs) (auto split: if_splits)

lemma existing_again:
  assumes batch: "batch_ok events" and rows: "list_all2 (row_for sha256 run) events rows"
    and dist: "distinct (map er_event_id (db_events d @ rows))" and none: "existing_rows d run events = Inr []"
    and db: "db_events D = (db_events d @ rows) @ added" and i: "i < length events"
    and again: "resent drawn (events ! i) e'" and known: "identified (events ! i)"
    and fresh: "drawn \<inter> er_event_id ` set (db_events D) = {}"
  shows "existing_row D run e' = Inr (Some (rows ! i)) \<and> check_existing run e' (rows ! i) = Inr ()"
proof -
  let ?e = "events ! i" and ?r = "rows ! i"
  let ?d = "d\<lparr>db_events := db_events d @ rows\<rparr>"
  have db': "db_events ?d = db_events d @ rows" by simp
  note found = found_after [OF batch rows dist none db' i]
  have ev: "find_event (pe_eventId ?e) D = Some ?r"
    using find_append_Some [OF found(1) [unfolded find_event_def db']] by (simp add: find_event_def db)
  have src: "find_source run s D = Some ?r" if "source_id ?e = Some s" for s
    using find_append_Some [OF found(2) [OF that, unfolded find_source_def db']] by (simp add: find_source_def db)
  have same: "pe_input e' = pe_input ?e" "pe_fingerprint e' = pe_fingerprint ?e" using again by (simp_all add: resent_def)
  then have sid: "source_id e' = source_id ?e" by (simp add: source_id_def)
  have ok: "event_ok ?e" using batch i by (simp add: batch_ok_def list_all_iff)
  have rf: "row_for sha256 run ?e ?r" using rows i by (simp add: list_all2_conv_all_nth)
  have "check_existing run e' ?r = Inr ()"
    using rf ok same by (auto simp: check_existing_def row_for_def event_ok_def opt_all_iff split: option.splits)
  moreover have "existing_row D run e' = Inr (Some ?r)"
  proof (cases "ei_eventId (pe_input ?e)")
    case None
    then have "pe_eventId e' \<in> drawn" using again by (simp add: resent_def)
    then have "find_event (pe_eventId e') D = None" using fresh by (force simp: find_event_def find_None_iff)
    moreover obtain s where "source_id ?e = Some s" using known None by (auto simp: identified_def)
    ultimately show ?thesis using src sid by (simp add: existing_row_def)
  next
    case (Some k)
    then have "pe_eventId e' = pe_eventId ?e" using again ok by (simp add: resent_def event_ok_def)
    then show ?thesis using ev src sid by (auto simp: existing_row_def Let_def split: option.splits)
  qed
  ultimately show ?thesis by blast
qed

lemma ackFromRows_new:
  assumes "verify_rows sha256 run n p rows = Inr True" and "rows \<noteq> []"
  shows "ackFromRows run rows = \<lparr>ack_runId = run, ack_acceptedThrough = n + int (length rows),
    ack_localSequences = map er_sequence rows, ack_sourceSequences = map er_source_sequence rows,
    ack_eventIds = map er_event_id rows\<rparr>"
proof -
  have seqs: "map er_sequence rows = [n + 1..n + int (length rows)]" using verify_rows_sequences [OF assms(1)] .
  then have "sorted (map er_sequence rows)" by simp
  then have id: "js_sort (\<lambda>l r. er_sequence l - er_sequence r) rows = rows"
    by (simp add: row_order.js_sort_sort_key sort_key_id_if_sorted)
  have "er_sequence (last rows) = last (map er_sequence rows)" using assms(2) by (simp add: last_map)
  also have "\<dots> = n + int (length rows)"
    unfolding seqs using upto_rec2 [of "n + 1" "n + int (length rows)"] assms(2) by (cases rows) simp_all
  finally show ?thesis using assms(2) by (simp add: ackFromRows_def id)
qed

lemma js_set_length_distinct:
  "length (js_set (f x # map f xs)) = n \<Longrightarrow> Suc (length xs) = n \<Longrightarrow> distinct (f x # map f xs)"
  using length_remdups_eq [of "rev (f x # map f xs)"] remdups_id_iff_distinct [of "rev (f x # map f xs)"]
  by (auto simp: js_set_def)

lemma append_cases:
  assumes "appendPreparedBatchInTransaction sha256 now runId events d = (Inr ack, d')"
  obtains (new) run where "find_run runId d = Some run" "existing_rows d runId events = Inr []"
      "append_new sha256 now run events d = (Inr ack, d')"
    | (replayed) run rows where "find_run runId d = Some run" "existing_rows d runId events = Inr rows" "rows \<noteq> []"
      "length rows = length events" "distinct (map er_event_id rows)" "d' = d" "ack = ackFromRows runId rows"
  using assms unfolding appendPreparedBatchInTransaction_def
  by (auto split: option.splits sum.splits list.splits if_splits dest: js_set_length_distinct)

lemma append_again:
  assumes ok: "ledger_ok sha256 d" and batch: "batch_ok events"
    and app: "appendPreparedBatchInTransaction sha256 now runId events d = (Inr ack, d')" and changed: "d' \<noteq> d"
    and again: "list_all2 (resent drawn) events events'" and known: "list_all identified events"
    and db: "db_events D = db_events d' @ added" and run: "find_run runId D \<noteq> None"
    and fresh: "drawn \<inter> er_event_id ` set (db_events D) = {}"
  shows "appendPreparedBatchInTransaction sha256 later runId events' D = (Inr ack, D)"
  using app
proof (cases rule: append_cases)
  case (replayed run rows)
  with changed show ?thesis by simp
next
  case (new run)
  note k = ledger_okD [OF ok new(1)]
  from append_new_rows [OF new(3) k(1) k(3) batch_ok_payload [OF batch]] obtain rows lastSource where
    d': "d' = update_run (rr_run_id run) (\<lambda>r. r\<lparr>rr_last_sequence := rr_last_sequence run + int (length events),
        rr_last_source_sequence := lastSource, rr_updated_at := now\<rparr>) (d\<lparr>db_events := db_events d @ rows\<rparr>)"
    and rows: "list_all2 (row_for sha256 (rr_run_id run)) events rows"
    and ver: "verify_rows sha256 (rr_run_id run) (rr_last_sequence run)
        (chain_end GENESIS_HASH (readEvents (rr_run_id run) d)) rows = Inr True"
    and dist: "distinct (map er_event_id (db_events d @ rows))"
    and ack: "ack = \<lparr>ack_runId = rr_run_id run, ack_acceptedThrough = rr_last_sequence run + int (length events),
       ack_localSequences = map er_sequence rows, ack_sourceSequences = map er_source_sequence rows,
       ack_eventIds = map er_event_id rows\<rparr>" .
  have len: "length rows = length events" "length events' = length events"
    using list_all2_lengthD [OF rows] list_all2_lengthD [OF again] by simp_all
  have ne: "rows \<noteq> []" using batch len by (auto simp: batch_ok_def)
  have "db_events D = (db_events d @ rows) @ added" by (simp add: db d' update_run_def)
  from existing_again [OF batch rows [unfolded k(2)] dist new(2) this _ _ _ fresh] again known
  have "existing_rows D runId events' = Inr rows"
    using len by (intro existing_rows_all) (auto simp: list_all2_conv_all_nth list_all_length)
  moreover have "length (js_set (map er_event_id rows)) = length rows"
    using dist by (simp add: js_set_distinct)
  ultimately show ?thesis
    using ackFromRows_new [OF ver ne] ack len ne k(2) run
    by (auto simp: appendPreparedBatchInTransaction_def split: option.splits list.splits)
qed

text \<open>A batch that is acknowledged without being appended is stored already, event by event.\<close>

definition stored_as :: "string \<Rightarrow> prepared_event \<Rightarrow> event_row \<Rightarrow> bool" where
  "stored_as runId e r =
     (er_run_id r = runId \<and> rowFingerprint r = Inr (pe_fingerprint e)
      \<and> (er_event_id r = pe_eventId e \<or> (source_id e \<noteq> None \<and> er_source_event_id r = source_id e)))"

lemma existing_row_stored:
  assumes "existing_row d run e = Inr (Some r)" and "check_existing run e r = Inr ()"
  shows "r \<in> set (db_events d) \<and> stored_as run e r"
proof -
  have "r \<in> set (db_events d) \<and> (er_event_id r = pe_eventId e \<or> (source_id e \<noteq> None \<and> er_source_event_id r = source_id e))"
    using assms(1) by (auto simp: existing_row_def Let_def find_event_def find_source_def find_Some_iff
        split: option.splits if_splits)
  moreover have "er_run_id r = run" "rowFingerprint r = Inr (pe_fingerprint e)"
    using assms(2) by (auto simp: check_existing_def result_inv split: if_splits option.splits)
  ultimately show ?thesis by (simp add: stored_as_def)
qed

lemma existing_rows_stored:
  "existing_rows d run events = Inr rows \<Longrightarrow> length rows \<le> length events \<and>
   (length rows = length events \<longrightarrow> list_all2 (\<lambda>e r. r \<in> set (db_events d) \<and> stored_as run e r) events rows)"
proof (induction events arbitrary: rows)
  case (Cons e events)
  from Cons.prems obtain x where x: "existing_row d run e = Inr x" by (auto simp: rbind_eq_Inr)
  show ?case
  proof (cases x)
    case None
    with Cons.prems x have "existing_rows d run events = Inr rows" by simp
    from Cons.IH [OF this] show ?thesis by auto
  next
    case (Some r)
    with Cons.prems x obtain rs where c: "check_existing run e r = Inr ()" and rs: "existing_rows d run events = Inr rs"
      and eq: "rows = r # rs" by (auto simp: rbind_eq_Inr)
    have "r \<in> set (db_events d) \<and> stored_as run e r" using existing_row_stored [OF _ c] x Some by simp
    with Cons.IH [OF rs] eq show ?thesis by simp
  qed
qed simp

section \<open>Tamper evidence\<close>

text \<open>The text a row's hash is taken of.\<close>

definition row_preimage :: "string \<Rightarrow> event_row \<Rightarrow> string result" where
  "row_preimage runId row =
     rbind (parseJson (er_payload_json row)) (\<lambda>payload.
     rbind (parseJson (er_redaction_json row)) (\<lambda>redaction.
     canonicalJson (hash_preimage runId (er_sequence row) (er_event_id row) (er_previous_hash row)
       (event_of_row row payload) (er_ingested_at row) redaction)))"

lemma row_hash_preimage: "row_hash sha256 run row = rbind (row_preimage run row) (\<lambda>t. Inr (sha256 t))"
  by (auto simp: row_hash_def row_preimage_def hashLedgerEvent_def rbind_def split: sum.splits)

text \<open>SQLite integers have sixty-four bits.\<close>

definition sql_int :: "int \<Rightarrow> bool" where
  "sql_int n = (- (2 ^ 63) \<le> n \<and> n < 2 ^ 63)"

definition row_typed :: "event_row \<Rightarrow> bool" where
  "row_typed row = (sql_int (er_sequence row) \<and> opt_all sql_int (er_source_sequence row))"

definition same_column :: "string \<Rightarrow> string \<Rightarrow> bool" where
  "same_column s t = (\<exists>v w u. json_parse s = Some v \<and> json_parse t = Some w \<and> same_json v u \<and> same_json w u)"

text \<open>Two rows with the same content: equal columns, and JSON columns that denote the same value.\<close>

definition same_content :: "event_row \<Rightarrow> event_row \<Rightarrow> bool" where
  "same_content a b =
     (er_event_id a = er_event_id b \<and> er_sequence a = er_sequence b
      \<and> er_source_event_id a = er_source_event_id b \<and> er_source_sequence a = er_source_sequence b
      \<and> er_event_type a = er_event_type b \<and> er_source_type a = er_source_type b
      \<and> er_actor a = er_actor b \<and> er_outcome a = er_outcome b \<and> er_occurred_at a = er_occurred_at b
      \<and> er_ingested_at a = er_ingested_at b \<and> er_previous_hash a = er_previous_hash b
      \<and> same_column (er_payload_json a) (er_payload_json b)
      \<and> same_column (er_redaction_json a) (er_redaction_json b))"

lemma text_or_null_same: "same_json (text_or_null x) u \<Longrightarrow> u = text_or_null x"
  by (auto simp: text_or_null_def split: option.splits)

lemma int_or_null_same: "same_json (int_or_null x) u \<Longrightarrow> u = int_or_null x"
  by (auto simp: int_or_null_def split: option.splits)

lemma or_null_inj [simp]:
  "text_or_null x = text_or_null y \<longleftrightarrow> x = y" "int_or_null m = int_or_null n \<longleftrightarrow> m = n"
  by (auto simp: text_or_null_def int_or_null_def split: option.splits)

lemma preimage_repr:
  assumes "row_typed row" and "json_repr p" and "json_repr r"
  shows "json_repr (hash_preimage run (er_sequence row) (er_event_id row) (er_previous_hash row)
    (event_of_row row p) (er_ingested_at row) r)"
proof -
  have "\<bar>n\<bar> < 10 ^ 21" if "sql_int n" for n using that by (auto simp: sql_int_def)
  with assms show ?thesis
    by (auto simp: hash_preimage_def event_of_row_def row_typed_def text_or_null_def int_or_null_def
        outcome_or_null_def split: option.splits)
qed

lemma preimage_getp:
  assumes "same_json (hash_preimage run n e prev ev t r) u"
  obtains gs where "u = VObj gs" and "getp gs ''eventId'' = VStr e" and "getp gs ''sequence'' = VNum n"
    and "getp gs ''previousHash'' = VStr prev" and "getp gs ''eventType'' = VStr (ei_eventType ev)"
    and "getp gs ''sourceEventId'' = text_or_null (ei_sourceEventId ev)"
    and "getp gs ''sourceSequence'' = int_or_null (ei_sourceSequence ev)"
    and "getp gs ''sourceType'' = text_or_null (ei_sourceType ev)" and "getp gs ''actor'' = VStr (ei_actor ev)"
    and "getp gs ''outcome'' = outcome_or_null (ei_outcome ev)"
    and "getp gs ''occurredAt'' = text_or_null (ei_occurredAt ev)" and "getp gs ''ingestedAt'' = VStr t"
    and "same_json (ei_payload ev) (getp gs ''payload'')" and "same_json r (getp gs ''redaction'')"
proof -
  obtain fs where fs: "hash_preimage run n e prev ev t r = VObj fs" "distinct (map fst fs)"
    by (simp add: hash_preimage_def)
  obtain gs where gs: "u = VObj gs" "\<And>k. same_json (getp fs k) (getp gs k)"
    by (rule same_json_getp [OF assms [unfolded fs(1)] fs(2)]) blast
  have "fs = (case hash_preimage run n e prev ev t r of VObj fs \<Rightarrow> fs | _ \<Rightarrow> [])" using fs(1) by simp
  note same = gs(2) [unfolded this hash_preimage_def jsvalue.case]
  show ?thesis
    by (rule that [OF gs(1)])
      (use same [of "''eventId''"] same [of "''sequence''"] same [of "''previousHash''"] same [of "''eventType''"]
        same [of "''sourceEventId''"] same [of "''sourceSequence''"] same [of "''sourceType''"] same [of "''actor''"]
        same [of "''outcome''"] same [of "''occurredAt''"] same [of "''ingestedAt''"] same [of "''payload''"]
        same [of "''redaction''"]
       in \<open>auto simp: getp_def outcome_or_null_def dest: text_or_null_same int_or_null_same\<close>)
qed

lemma row_preimage_inj:
  assumes "row_preimage run a = Inr t" and "row_preimage run b = Inr t" and "row_typed a" and "row_typed b"
  shows "same_content a b"
proof -
  obtain p r where a: "json_parse (er_payload_json a) = Some p" "json_parse (er_redaction_json a) = Some r"
    "canonicalJson (hash_preimage run (er_sequence a) (er_event_id a) (er_previous_hash a)
       (event_of_row a p) (er_ingested_at a) r) = Inr t"
    using assms(1) by (auto simp: row_preimage_def parseJson_def rbind_eq_Inr split: option.splits)
  obtain q s where b: "json_parse (er_payload_json b) = Some q" "json_parse (er_redaction_json b) = Some s"
    "canonicalJson (hash_preimage run (er_sequence b) (er_event_id b) (er_previous_hash b)
       (event_of_row b q) (er_ingested_at b) s) = Inr t"
    using assms(2) by (auto simp: row_preimage_def parseJson_def rbind_eq_Inr split: option.splits)
  obtain u where ua: "same_json (hash_preimage run (er_sequence a) (er_event_id a) (er_previous_hash a)
       (event_of_row a p) (er_ingested_at a) r) u" and t: "json_parse t = Some u"
    using canonicalJson_read [OF preimage_repr [OF assms(3)] a(3)] json_parse_repr a by blast
  have ub: "same_json (hash_preimage run (er_sequence b) (er_event_id b) (er_previous_hash b)
       (event_of_row b q) (er_ingested_at b) s) u"
    using canonicalJson_read [OF preimage_repr [OF assms(4)] b(3)] json_parse_repr b t by force
  obtain gs where gs: "u = VObj gs" "same_json p (getp gs ''payload'')" "same_json r (getp gs ''redaction'')"
    and fa: "getp gs ''eventId'' = VStr (er_event_id a)" "getp gs ''sequence'' = VNum (er_sequence a)"
      "getp gs ''previousHash'' = VStr (er_previous_hash a)" "getp gs ''eventType'' = VStr (er_event_type a)"
      "getp gs ''sourceEventId'' = text_or_null (er_source_event_id a)"
      "getp gs ''sourceSequence'' = int_or_null (er_source_sequence a)"
      "getp gs ''sourceType'' = text_or_null (er_source_type a)" "getp gs ''actor'' = VStr (er_actor a)"
      "getp gs ''outcome'' = text_or_null (er_outcome a)" "getp gs ''occurredAt'' = text_or_null (er_occurred_at a)"
      "getp gs ''ingestedAt'' = VStr (er_ingested_at a)"
    using ua by (rule preimage_getp) (auto simp: event_of_row_def outcome_or_null_def)
  show ?thesis
    using ub by (rule preimage_getp)
      (use gs fa a b in \<open>auto simp: same_content_def same_column_def event_of_row_def outcome_or_null_def\<close>)
qed

text \<open>A position where the two texts differ and their hashes agree.\<close>

definition collision_at :: "(string \<Rightarrow> string) \<Rightarrow> string \<Rightarrow> event_row \<Rightarrow> event_row \<Rightarrow> bool" where
  "collision_at sha256 run a b =
     (case (row_preimage run a, row_preimage run b) of
        (Inr s, Inr t) \<Rightarrow> s \<noteq> t \<and> sha256 s = sha256 t
      | _ \<Rightarrow> False)"

lemma chain_binding:
  assumes "verify_rows sha256 run i p xs = Inr True" and "verify_rows sha256 run i p ys = Inr True"
    and "length xs = length ys" and "chain_end p xs = chain_end p ys"
    and "list_all row_typed xs" and "list_all row_typed ys"
  shows "list_all2 same_content xs ys \<or> list_ex (\<lambda>(a, b). collision_at sha256 run a b) (zip xs ys)"
  using assms(3,1,2,4,5,6)
proof (induction xs ys rule: rev_induct2)
  case (4 x xs y ys)
  then have len: "length xs = length ys" by simp
  let ?i = "i + int (length xs)"
  have vx: "verify_rows sha256 run i p xs = Inr True" "verify_rows sha256 run ?i (chain_end p xs) [x] = Inr True"
    and vy: "verify_rows sha256 run i p ys = Inr True" "verify_rows sha256 run ?i (chain_end p ys) [y] = Inr True"
    using 4 len by (simp_all add: verify_rows_append del: verify_rows.simps)
  from vx(2) vy(2) have x: "row_hash sha256 run x = Inr (er_event_hash x)" "er_previous_hash x = chain_end p xs"
    and y: "row_hash sha256 run y = Inr (er_event_hash y)" "er_previous_hash y = chain_end p ys"
    by (simp_all only: verify_rows_Cons_True)
  have "er_event_hash x = er_event_hash y" using 4 by simp
  then obtain s t where st: "row_preimage run x = Inr s" "row_preimage run y = Inr t" "sha256 s = sha256 t"
    using x(1) y(1) by (auto simp: row_hash_preimage rbind_eq_Inr)
  show ?case
  proof (cases "s = t")
    case False
    with st have "collision_at sha256 run x y" by (simp add: collision_at_def)
    then show ?thesis using len by simp
  next
    case True
    then have same: "same_content x y" using row_preimage_inj st 4 by auto
    then have "chain_end p xs = chain_end p ys" using x(2) y(2) by (simp add: same_content_def)
    with 4 vx(1) vy(1) len have "list_all2 same_content xs ys
        \<or> list_ex (\<lambda>(a, b). collision_at sha256 run a b) (zip xs ys)" by simp
    with same len show ?thesis by (auto simp: list_all2_append)
  qed
qed simp_all

lemma last_row_hash:
  assumes "verify_rows sha256 run i p xs = Inr True" and "xs \<noteq> []"
  shows "row_hash sha256 run (last xs) = Inr (chain_end p xs)" and "er_sequence (last xs) = i + int (length xs)"
proof -
  obtain ys x where xs: "xs = ys @ [x]" using assms(2) by (metis append_butlast_last_id)
  have "verify_rows sha256 run (i + int (length ys)) (chain_end p ys) [x] = Inr True"
    using assms(1) by (simp add: xs verify_rows_append del: verify_rows.simps)
  then show "row_hash sha256 run (last xs) = Inr (chain_end p xs)" and "er_sequence (last xs) = i + int (length xs)"
    by (simp_all add: xs verify_rows_Cons_True del: verify_rows.simps)
qed

text \<open>Chains of different length cannot end in the same hash either.\<close>

lemma chain_binding_any:
  assumes xs: "verify_rows sha256 run i p xs = Inr True" and ys: "verify_rows sha256 run i p ys = Inr True"
    and e: "chain_end p xs = chain_end p ys" and t: "list_all row_typed xs" "list_all row_typed ys"
  shows "list_all2 same_content xs ys \<or> list_ex (\<lambda>a. list_ex (collision_at sha256 run a) ys) xs
    \<or> list_ex (\<lambda>a. row_hash sha256 run a = Inr p) (xs @ ys)"
proof (cases "length xs = length ys")
  case True
  from chain_binding [OF xs ys True e t] show ?thesis
    by (auto simp: list_ex_iff dest: set_zip_leftD set_zip_rightD)
next
  case False
  show ?thesis
  proof (cases "xs = [] \<or> ys = []")
    case True
    with False last_row_hash(1) [OF xs] last_row_hash(1) [OF ys] e
    have "(xs \<noteq> [] \<and> row_hash sha256 run (last xs) = Inr p) \<or> (ys \<noteq> [] \<and> row_hash sha256 run (last ys) = Inr p)"
      by (auto simp: chain_end_def split: if_splits)
    then show ?thesis by (auto simp: list_ex_iff intro: last_in_set)
  next
    case ne: False
    let ?x = "last xs" and ?y = "last ys"
    have m: "?x \<in> set xs" "?y \<in> set ys" using ne by simp_all
    have "row_hash sha256 run ?x = Inr (chain_end p xs)" "row_hash sha256 run ?y = Inr (chain_end p xs)"
      using last_row_hash(1) [OF xs] last_row_hash(1) [OF ys] ne e by simp_all
    then obtain s u where su: "row_preimage run ?x = Inr s" "row_preimage run ?y = Inr u" "sha256 s = sha256 u"
      unfolding row_hash_preimage rbind_eq_Inr by auto
    have "s \<noteq> u"
    proof
      assume "s = u"
      then have "same_content ?x ?y" using row_preimage_inj su m t by (auto simp: list_all_iff)
      then show False
        using last_row_hash(2) [OF xs] last_row_hash(2) [OF ys] ne False by (simp add: same_content_def)
    qed
    with su have "collision_at sha256 run ?x ?y" by (simp add: collision_at_def)
    with m show ?thesis by (auto simp: list_ex_iff)
  qed
qed

section \<open>Reading a run after an update\<close>

lemma find_run_update:
  assumes "\<And>r. rr_run_id (f r) = rr_run_id r" and "i = runId"
  shows "find_run runId (update_run i f (d\<lparr>db_events := es\<rparr>)) = map_option f (find_run runId d)"
    and "find_run runId (update_run i f d) = map_option f (find_run runId d)"
proof -
  have "find (\<lambda>r. rr_run_id r = runId) (map (\<lambda>r. if rr_run_id r = i then f r else r) xs)
      = map_option f (find (\<lambda>r. rr_run_id r = runId) xs)" for xs
    using assms by (induction xs) auto
  then show "find_run runId (update_run i f (d\<lparr>db_events := es\<rparr>)) = map_option f (find_run runId d)"
    and "find_run runId (update_run i f d) = map_option f (find_run runId d)"
    by (simp_all add: find_run_def update_run_def)
qed

lemma other_runs_update:
  assumes "\<And>r. rr_run_id (f r) = rr_run_id r" and "i = runId"
  shows "filter (\<lambda>r. rr_run_id r \<noteq> runId) (db_runs (update_run i f (d\<lparr>db_events := es\<rparr>)))
    = filter (\<lambda>r. rr_run_id r \<noteq> runId) (db_runs d)"
proof -
  have "filter (\<lambda>r. rr_run_id r \<noteq> runId) (map (\<lambda>r. if rr_run_id r = i then f r else r) xs)
      = filter (\<lambda>r. rr_run_id r \<noteq> runId) xs" for xs
    using assms by (induction xs) auto
  then show ?thesis by (simp add: update_run_def)
qed

section \<open>A sample ledger\<close>

definition sample_hash :: "string \<Rightarrow> string" where
  "sample_hash t = CHR ''h'' # int_text (int (length t)) @ take 3 (rev t)"

definition sample_run :: "string \<Rightarrow> run_status \<Rightarrow> run_row" where
  "sample_run i st =
     \<lparr>rr_run_id = i, rr_workspace = ''w'', rr_client_kind = ''opencode'', rr_client_version = None,
      rr_source_session_id = None, rr_parent_run_id = None, rr_protocol_version = ''1'',
      rr_capture_profile = CpStandard, rr_coverage_json = ''{}'', rr_status = st, rr_title = None,
      rr_task_hash = None, rr_metadata_json = ''{}'', rr_last_sequence = 0, rr_last_source_sequence = None,
      rr_started_at = ''t'', rr_ended_at = None, rr_created_at = ''t'', rr_updated_at = ''t''\<rparr>"

definition sample_db :: "run_status \<Rightarrow> ledger_db" where
  "sample_db st = \<lparr>db_runs = [sample_run ''r'' st, sample_run ''q'' RunActive], db_events = []\<rparr>"

definition sample_payload :: jsvalue where
  "sample_payload = VObj [(''b'', VNum 2)]"

definition sample_prepared :: "string \<Rightarrow> string option \<Rightarrow> prepared_event" where
  "sample_prepared i src =
     (let e = \<lparr>ei_eventId = Some i, ei_sourceEventId = src, ei_sourceSequence = Some 7, ei_eventType = ''file.changed'',
               ei_sourceType = None, ei_actor = ''agent'', ei_outcome = None, ei_occurredAt = None,
               ei_payload = sample_payload\<rparr>
      in \<lparr>pe_input = e, pe_redactions = [], pe_eventId = i,
          pe_fingerprint = (case eventFingerprint e (redactions_json []) of Inr t \<Rightarrow> t | Inl _ \<Rightarrow> [])\<rparr>)"

definition sample_batch :: "prepared_event list" where
  "sample_batch = [sample_prepared ''e1'' (Some ''s1'')]"

definition sample_ledger_connection :: "(js_error \<times> bool) option list \<Rightarrow> ledger_db connection" where
  "sample_ledger_connection os = \<lparr>committed = sample_db RunActive, working = None, savepoints = [], outcomes = os\<rparr>"

lemma sample_batch_ok: "batch_ok sample_batch"
  by code_simp

lemma sample_db_ok: "ledger_ok sample_hash (sample_db st)"
  by (simp add: ledger_ok_def sample_db_def sample_run_def run_ok_def verifyChain_def readEvents_def)

text \<open>One evaluation of the append, and of what the witnesses need of its result.\<close>

definition sample_ack :: append_ack where
  "sample_ack = \<lparr>ack_runId = ''r'', ack_acceptedThrough = 1, ack_localSequences = [1],
     ack_sourceSequences = [Some 7], ack_eventIds = [''e1'']\<rparr>"

definition sample_facts :: "ledger_db \<Rightarrow> bool" where
  "sample_facts d =
     (d \<noteq> sample_db RunActive \<and> verifyChain sample_hash ''r'' d = Inr True \<and> list_all row_typed (db_events d)
      \<and> readEvents ''r'' d \<noteq> []
      \<and> \<not> list_ex (\<lambda>(a, b). collision_at sample_hash ''r'' a b) (zip (readEvents ''r'' d) (readEvents ''r'' d)))"

lemma sample_append:
  "case appendPreparedBatchInTransaction sample_hash ''t'' ''r'' sample_batch (sample_db RunActive) of
     (r, d) \<Rightarrow> r = Inr sample_ack \<and> sample_facts d"
  by code_simp

lemma sample_appended:
  obtains d where "appendPreparedBatchInTransaction sample_hash ''t'' ''r'' sample_batch (sample_db RunActive) =
     (Inr sample_ack, d)" and "sample_facts d"
  using sample_append by (auto split: prod.splits)

text \<open>The same ledger with the payload text written with other spaces.\<close>

definition sample_respaced :: "ledger_db \<Rightarrow> ledger_db" where
  "sample_respaced d = d\<lparr>db_events := map (\<lambda>r. r\<lparr>er_payload_json := CHR ''{'' # CHR 0x20 # json_quote ''b'' @ '': 2}''\<rparr>) (db_events d)\<rparr>"

definition respaced_facts :: "ledger_db \<Rightarrow> ledger_db \<Rightarrow> bool" where
  "respaced_facts d e =
     (readEvents ''r'' d \<noteq> readEvents ''r'' e \<and> verifyChain sample_hash ''r'' e = Inr True
      \<and> list_all row_typed (db_events e)
      \<and> chain_end GENESIS_HASH (readEvents ''r'' d) = chain_end GENESIS_HASH (readEvents ''r'' e)
      \<and> \<not> list_ex (\<lambda>a. list_ex (collision_at sample_hash ''r'' a) (readEvents ''r'' e)) (readEvents ''r'' d)
      \<and> \<not> list_ex (\<lambda>a. row_hash sample_hash ''r'' a = Inr GENESIS_HASH) (readEvents ''r'' d @ readEvents ''r'' e))"

lemma sample_respaced:
  "case appendPreparedBatchInTransaction sample_hash ''t'' ''r'' sample_batch (sample_db RunActive) of
     (r, d) \<Rightarrow> respaced_facts d (sample_respaced d)"
  by code_simp

text \<open>A batch identified by its source only, prepared twice with different drawn identifiers.\<close>

definition sample_batch_input :: jsvalue where
  "sample_batch_input = VObj [(''events'', VArr [VObj [(''sourceEventId'', VStr ''s1''), (''eventType'', VStr ''file.changed''),
     (''actor'', VStr ''agent''), (''payload'', VNum 2)]])]"

definition sample_prepare :: "string \<Rightarrow> prepared_event list result" where
  "sample_prepare u = prepare_batch sample_platform \<lparr>opt_workspace = None, opt_home = None\<rparr> (\<lambda>i. u @ nat_text i) sample_batch_input"

lemma sample_prepared_batch:
  "case sample_prepare ''u'' of Inl e \<Rightarrow> False | Inr events \<Rightarrow> list_all identified events
     \<and> (case appendPreparedBatchInTransaction sample_hash ''t'' ''r'' events (sample_db RunActive) of
          (r, d) \<Rightarrow> \<not> isl r \<and> d \<noteq> sample_db RunActive \<and> map er_event_id (db_events d) = [''u0''] \<and> find_run ''r'' d \<noteq> None)"
  "\<not> isl (sample_prepare ''v'')" "json_repr sample_batch_input"
  by code_simp+

section \<open>Properties\<close>

text \<open>
  C1: Appending a batch keeps the committed ledger intact, whatever the batch contains and whatever
  the driver does: every run's chain still verifies and ends at the run's last sequence, event
  and run identifiers stay unique, and every event belongs to a run. In particular what is
  appended always passes \<open>verifyChain\<close>, although that reads the JSON columns back from text.
\<close>

theorem appendBatch_keeps_ledger_intact:
  assumes "json_repr input" and "working c = None" and "ledger_ok sha256 (committed c)"
  shows "ledger_ok sha256 (committed (snd (appendBatch sha256 pl opt uuid now runId input c)))"
proof (cases "prepare_batch pl opt uuid input")
  case (Inl e)
  then show ?thesis using assms(3) by (simp add: appendBatch_def)
next
  case (Inr events)
  then show ?thesis
    using append.immediate_ok [of "(now, runId, events)" c sha256] prepare_batch_ok [OF Inr assms(1)] assms(2,3)
    by (simp add: appendBatch_def)
qed

theorem appendBatch_keeps_ledger_intact_witness:
  "ledger_ok sample_hash (committed (snd (appendBatch sample_hash sample_platform
      \<lparr>opt_workspace = None, opt_home = None\<rparr> (\<lambda>i. nat_text i) ''t'' ''r''
      (VObj [(''events'', VArr [VObj [(''eventType'', VStr ''file.changed''), (''actor'', VStr ''a''), (''payload'', VNull)]])])
      (sample_ledger_connection [Some (SqliteError 5 ''busy'', False)]))))"
  by (rule appendBatch_keeps_ledger_intact) (simp_all add: sample_ledger_connection_def sample_db_ok)

text \<open>
  C5: The ledger is append-only and acknowledges only what is stored. A successful append either is a
  replay, which changes nothing and is acknowledged by one distinct stored row for each event of
  the batch with the event's identity and content, or it adds exactly one row per event of the batch
  after all existing rows, with the events' identifiers in order and the run's next consecutive
  sequence numbers; then it acknowledges those, moves the run's last sequence by the number of events, and
  leaves every other run as it was.
\<close>

theorem append_extends:
  assumes "ledger_ok sha256 d" and "batch_ok events"
    and "appendPreparedBatchInTransaction sha256 now runId events d = (Inr ack, d')"
  shows "(d' = d \<and> (\<exists>rows. list_all2 (\<lambda>e r. r \<in> set (db_events d) \<and> stored_as runId e r) events rows
       \<and> distinct (map er_event_id rows) \<and> ack = ackFromRows runId rows)) \<or>
    (\<exists>run rows. find_run runId d = Some run \<and> db_events d' = db_events d @ rows
       \<and> map er_event_id rows = map pe_eventId events \<and> ack_eventIds ack = map pe_eventId events
       \<and> map er_sequence rows = [rr_last_sequence run + 1..rr_last_sequence run + int (length events)]
       \<and> ack_localSequences ack = map er_sequence rows
       \<and> ack_acceptedThrough ack = rr_last_sequence run + int (length events)
       \<and> map_option rr_last_sequence (find_run runId d') = Some (ack_acceptedThrough ack)
       \<and> filter (\<lambda>r. rr_run_id r \<noteq> runId) (db_runs d') = filter (\<lambda>r. rr_run_id r \<noteq> runId) (db_runs d))"
  using assms(3)
proof (cases rule: append_cases)
  case (replayed run rows)
  then show ?thesis using existing_rows_stored [OF replayed(2)] by blast
next
  case (new run)
  note k = ledger_okD [OF assms(1) new(1)]
  from append_new_rows [OF new(3) k(1) k(3) batch_ok_payload [OF assms(2)]] obtain rows lastSource where
    d': "d' = update_run (rr_run_id run) (\<lambda>r. r\<lparr>rr_last_sequence := rr_last_sequence run + int (length events),
        rr_last_source_sequence := lastSource, rr_updated_at := now\<rparr>) (d\<lparr>db_events := db_events d @ rows\<rparr>)"
    and rows: "list_all2 (row_for sha256 (rr_run_id run)) events rows"
    and ver: "verify_rows sha256 (rr_run_id run) (rr_last_sequence run)
        (chain_end GENESIS_HASH (readEvents (rr_run_id run) d)) rows = Inr True"
    and ack: "ack = \<lparr>ack_runId = rr_run_id run, ack_acceptedThrough = rr_last_sequence run + int (length events),
       ack_localSequences = map er_sequence rows, ack_sourceSequences = map er_source_sequence rows,
       ack_eventIds = map er_event_id rows\<rparr>" .
  have ids: "map er_event_id rows = map pe_eventId events"
    using rows by (auto simp: list_all2_conv_all_nth row_for_def intro!: nth_equalityI)
  have len: "length rows = length events" using rows by (simp add: list_all2_lengthD)
  have "find_run runId d' = map_option (\<lambda>r. r\<lparr>rr_last_sequence := rr_last_sequence run + int (length events),
        rr_last_source_sequence := lastSource, rr_updated_at := now\<rparr>) (find_run runId d)"
    unfolding d' by (rule find_run_update(1)) (simp_all add: k(2))
  moreover have "filter (\<lambda>r. rr_run_id r \<noteq> runId) (db_runs d') = filter (\<lambda>r. rr_run_id r \<noteq> runId) (db_runs d)"
    unfolding d' by (rule other_runs_update) (simp_all add: k(2))
  ultimately show ?thesis
    using verify_rows_sequences [OF ver] ids len ack new(1)
    by (intro disjI2 exI [of _ run] exI [of _ rows]) (simp add: d' update_run_def)
qed

theorem append_extends_witness:
  "\<exists>d'. appendPreparedBatchInTransaction sample_hash ''t'' ''r'' sample_batch (sample_db RunActive) = (Inr sample_ack, d')
     \<and> map er_event_id (db_events d') = [''e1''] \<and> map er_sequence (db_events d') = [1]"
proof -
  obtain d' where app: "appendPreparedBatchInTransaction sample_hash ''t'' ''r'' sample_batch (sample_db RunActive) =
     (Inr sample_ack, d')" and "sample_facts d'" by (rule sample_appended)
  then have "d' \<noteq> sample_db RunActive" unfolding sample_facts_def by blast
  with append_extends [OF sample_db_ok sample_batch_ok app] obtain run rows where
    run: "find_run ''r'' (sample_db RunActive) = Some run" and rows: "db_events d' = db_events (sample_db RunActive) @ rows"
    "map er_event_id rows = map pe_eventId sample_batch"
    "map er_sequence rows = [rr_last_sequence run + 1..rr_last_sequence run + int (length sample_batch)]"
    by blast
  have "rr_last_sequence run = 0" using run by (auto simp: find_run_def sample_db_def sample_run_def)
  moreover have "length sample_batch = 1" "db_events (sample_db RunActive) = []"
    by (simp_all add: sample_batch_def sample_db_def)
  moreover have "map pe_eventId sample_batch = [''e1'']" by code_simp
  ultimately have "map er_event_id (db_events d') = [''e1'']" "map er_sequence (db_events d') = [1]"
    using rows by simp_all
  with app show ?thesis by (intro exI [of _ d'] conjI)
qed

text \<open>
  C4: Replay of identified events is idempotent. When a batch in which every event brings an identifier
  of its own or of its source has been appended, sending the same input again, with newly drawn
  identifiers that are not in use, at any later time and whatever events have been added in the
  meantime, returns the same acknowledgement and leaves the database as it is. Events without an identity
  are not covered: each sending draws a new identifier and appends them again.
\<close>

theorem append_replay_idempotent:
  assumes "ledger_ok sha256 d" and "json_repr input"
    and "prepare_batch pl opt uuid input = Inr events" and "list_all identified events"
    and "appendPreparedBatchInTransaction sha256 now runId events d = (Inr ack, d')" and "d' \<noteq> d"
    and "prepare_batch pl opt uuid' input = Inr events'"
    and "db_events D = db_events d' @ added" and "find_run runId D \<noteq> None"
    and "range uuid' \<inter> er_event_id ` set (db_events D) = {}"
  shows "appendPreparedBatchInTransaction sha256 later runId events' D = (Inr ack, D)"
  using append_again [OF assms(1) prepare_batch_ok [OF assms(3,2)] assms(5,6) prepare_batch_again [OF assms(3,7)] assms(4,8,9,10)] .

theorem append_replay_idempotent_witness:
  "\<exists>events events' ack d. sample_prepare ''u'' = Inr events \<and> sample_prepare ''v'' = Inr events'
     \<and> appendPreparedBatchInTransaction sample_hash ''t'' ''r'' events (sample_db RunActive) = (Inr ack, d)
     \<and> appendPreparedBatchInTransaction sample_hash ''u'' ''r'' events' d = (Inr ack, d)"
proof -
  obtain events where e: "sample_prepare ''u'' = Inr events" using sample_prepared_batch(1) by (auto split: sum.splits)
  obtain events' where e': "sample_prepare ''v'' = Inr events'" using sample_prepared_batch(2) by (cases "sample_prepare ''v''") auto
  obtain r d where app: "appendPreparedBatchInTransaction sample_hash ''t'' ''r'' events (sample_db RunActive) = (r, d)" by force
  from sample_prepared_batch(1) e app have known: "list_all identified events" and r: "\<not> isl r" and ch: "d \<noteq> sample_db RunActive"
    and ids: "map er_event_id (db_events d) = [''u0'']" and run: "find_run ''r'' d \<noteq> None" by simp_all
  obtain ack where "r = Inr ack" using r by (cases r) auto
  note app = app [unfolded this]
  have "range (\<lambda>i. ''v'' @ nat_text i) \<inter> er_event_id ` set (db_events d) = {}"
    using ids by (auto simp flip: set_map)
  from append_replay_idempotent [OF sample_db_ok sample_prepared_batch(3) e [unfolded sample_prepare_def] known app ch
      e' [unfolded sample_prepare_def] _ run this, of "[]" "''u''"] e e' app
  show ?thesis by auto
qed

text \<open>
  C7: A terminal run takes no events and keeps its status. No append changes the database; a status
  update either fails and changes nothing, or it names the status the run has, and then it
  rewrites the end time and the update time of that run, nothing else of it, no other run and no event.
\<close>

theorem terminal_run_frozen:
  assumes "find_run runId d = Some run" and "rr_status run \<in> set TERMINAL_RUN_STATUSES"
  shows "snd (appendPreparedBatchInTransaction sha256 now runId events d) = d
    \<and> (case updateRunStatusInTransaction runId status endedAt d of
         (result, d') \<Rightarrow> (isl result \<and> d' = d)
           \<or> (\<exists>t. validateRunStatus status = Inr (rr_status run) \<and> validateTimestamp ''endedAt'' endedAt = Inr t
                \<and> find_run runId d' = Some (run\<lparr>rr_ended_at := Some t, rr_updated_at := t\<rparr>)
                \<and> filter (\<lambda>r. rr_run_id r \<noteq> runId) (db_runs d') = filter (\<lambda>r. rr_run_id r \<noteq> runId) (db_runs d)
                \<and> db_events d' = db_events d))"
proof (rule conjI)
  show "snd (appendPreparedBatchInTransaction sha256 now runId events d) = d"
    using assms by (auto simp: appendPreparedBatchInTransaction_def append_new_def split: sum.splits list.splits)
  have run: "find_run runId (update_run runId (\<lambda>r. r\<lparr>rr_status := s, rr_ended_at := e, rr_updated_at := t\<rparr>) d)
      = Some (run\<lparr>rr_status := s, rr_ended_at := e, rr_updated_at := t\<rparr>)" for s e t
    using assms(1) find_run_update(2) [of "\<lambda>r. r\<lparr>rr_status := s, rr_ended_at := e, rr_updated_at := t\<rparr>" runId runId d]
    by simp
  have others: "filter (\<lambda>r. rr_run_id r \<noteq> runId) (db_runs (update_run runId f d)) = filter (\<lambda>r. rr_run_id r \<noteq> runId) (db_runs d)"
    if "\<And>r. rr_run_id (f r) = rr_run_id r" for f
    using other_runs_update [where f = f and i = runId and runId = runId and d = d and es = "db_events d"] that by simp
  have events: "db_events (update_run runId f d) = db_events d" for f by (simp add: update_run_def)
  have same: "run\<lparr>rr_status := rr_status run, rr_ended_at := e, rr_updated_at := t\<rparr> = run\<lparr>rr_ended_at := e, rr_updated_at := t\<rparr>"
    for e t by simp
  show "case updateRunStatusInTransaction runId status endedAt d of
         (result, d') \<Rightarrow> (isl result \<and> d' = d)
           \<or> (\<exists>t. validateRunStatus status = Inr (rr_status run) \<and> validateTimestamp ''endedAt'' endedAt = Inr t
                \<and> find_run runId d' = Some (run\<lparr>rr_ended_at := Some t, rr_updated_at := t\<rparr>)
                \<and> filter (\<lambda>r. rr_run_id r \<noteq> runId) (db_runs d') = filter (\<lambda>r. rr_run_id r \<noteq> runId) (db_runs d)
                \<and> db_events d' = db_events d)"
    using assms by (auto simp: updateRunStatusInTransaction_def Let_def rbind_eq_Inr run others events same split: sum.splits)
qed

theorem terminal_run_frozen_witness:
  "find_run ''r'' (sample_db RunFailed) = Some (sample_run ''r'' RunFailed) \<and>
   snd (appendPreparedBatchInTransaction sample_hash ''t'' ''r'' sample_batch (sample_db RunFailed)) = sample_db RunFailed"
proof -
  have "find_run ''r'' (sample_db RunFailed) = Some (sample_run ''r'' RunFailed)"
    by (simp add: find_run_def sample_db_def sample_run_def)
  moreover have "rr_status (sample_run ''r'' RunFailed) \<in> set TERMINAL_RUN_STATUSES"
    by (simp add: sample_run_def TERMINAL_RUN_STATUSES_def)
  ultimately show ?thesis using terminal_run_frozen by blast
qed

text \<open>
  C2: The chain is tamper-evident. If two states of a run both verify and end in the same hash, of
  whatever lengths they are, then they have equally many events, each with the same content in both,
  column by column, or two different texts were found that have the same SHA-256, or a text whose
  SHA-256 is the genesis hash of 64 zeros.
\<close>

theorem chain_tamper_evident:
  assumes "verifyChain sha256 runId d = Inr True" and "verifyChain sha256 runId e = Inr True"
    and "chain_end GENESIS_HASH (readEvents runId d) = chain_end GENESIS_HASH (readEvents runId e)"
    and "list_all row_typed (db_events d)" and "list_all row_typed (db_events e)"
  shows "list_all2 same_content (readEvents runId d) (readEvents runId e)
    \<or> list_ex (\<lambda>a. list_ex (collision_at sha256 runId a) (readEvents runId e)) (readEvents runId d)
    \<or> list_ex (\<lambda>a. row_hash sha256 runId a = Inr GENESIS_HASH) (readEvents runId d @ readEvents runId e)"
proof (rule chain_binding_any [OF assms(1,2) [unfolded verifyChain_def] assms(3)])
  show "list_all row_typed (readEvents runId d)" "list_all row_typed (readEvents runId e)"
    using assms(4,5) by (auto simp: list_all_iff set_readEvents)
qed

theorem chain_tamper_evident_witness:
  "\<exists>d e. readEvents ''r'' d \<noteq> readEvents ''r'' e \<and> list_all2 same_content (readEvents ''r'' d) (readEvents ''r'' e)"
proof -
  obtain d where app: "appendPreparedBatchInTransaction sample_hash ''t'' ''r'' sample_batch (sample_db RunActive) = (Inr sample_ack, d)"
    and f: "sample_facts d" by (rule sample_appended)
  have v: "verifyChain sample_hash ''r'' d = Inr True" and t: "list_all row_typed (db_events d)"
    using f unfolding sample_facts_def by blast+
  have "respaced_facts d (sample_respaced d)" using sample_respaced app by simp
  then show ?thesis
    using chain_tamper_evident [OF v _ _ t, of "sample_respaced d"] unfolding respaced_facts_def by blast
qed

end
