(* ===== verification/Recommendations.thy ===== *)
theory Recommendations
  imports Js_Regex Js_Order Ledger_Types
begin

text \<open>
  The recommendation policy, \<open>src/src/context/recommendations.ts\<close>: strict parsing of a projection and
  of the broker's findings, then at most one recommendation per code, with bounded evidence.
\<close>

section \<open>Codes and limits\<close>

datatype recommendation_code =
    INTAKE_INCOMPLETE | VERIFY_AFTER_MUTATION | SIDE_EFFECT_OUTCOME_UNKNOWN | UNRESOLVED_FAILURE
  | COVERAGE_INCOMPLETE | CONTEXT_STALE | CONTRADICTORY_MEMORY | PROMOTION_CANDIDATE

definition RECOMMENDATION_CODES :: "recommendation_code list" where
  "RECOMMENDATION_CODES =
     [INTAKE_INCOMPLETE, VERIFY_AFTER_MUTATION, SIDE_EFFECT_OUTCOME_UNKNOWN, UNRESOLVED_FAILURE,
      COVERAGE_INCOMPLETE, CONTEXT_STALE, CONTRADICTORY_MEMORY, PROMOTION_CANDIDATE]"

fun code_text :: "recommendation_code \<Rightarrow> string" where
  "code_text INTAKE_INCOMPLETE = ''INTAKE_INCOMPLETE''"
| "code_text VERIFY_AFTER_MUTATION = ''VERIFY_AFTER_MUTATION''"
| "code_text SIDE_EFFECT_OUTCOME_UNKNOWN = ''SIDE_EFFECT_OUTCOME_UNKNOWN''"
| "code_text UNRESOLVED_FAILURE = ''UNRESOLVED_FAILURE''"
| "code_text COVERAGE_INCOMPLETE = ''COVERAGE_INCOMPLETE''"
| "code_text CONTEXT_STALE = ''CONTEXT_STALE''"
| "code_text CONTRADICTORY_MEMORY = ''CONTRADICTORY_MEMORY''"
| "code_text PROMOTION_CANDIDATE = ''PROMOTION_CANDIDATE''"

fun RECOMMENDATION_PRIORITY :: "recommendation_code \<Rightarrow> int" where
  "RECOMMENDATION_PRIORITY INTAKE_INCOMPLETE = 1"
| "RECOMMENDATION_PRIORITY VERIFY_AFTER_MUTATION = 2"
| "RECOMMENDATION_PRIORITY SIDE_EFFECT_OUTCOME_UNKNOWN = 3"
| "RECOMMENDATION_PRIORITY UNRESOLVED_FAILURE = 4"
| "RECOMMENDATION_PRIORITY COVERAGE_INCOMPLETE = 5"
| "RECOMMENDATION_PRIORITY CONTEXT_STALE = 6"
| "RECOMMENDATION_PRIORITY CONTRADICTORY_MEMORY = 7"
| "RECOMMENDATION_PRIORITY PROMOTION_CANDIDATE = 8"

definition MAX_RECOMMENDATIONS :: nat where
  "MAX_RECOMMENDATIONS = length RECOMMENDATION_CODES"

definition MAX_EVIDENCE_EVENT_IDS :: nat where "MAX_EVIDENCE_EVENT_IDS = 16"
definition MAX_REFERENCE_IDS :: nat where "MAX_REFERENCE_IDS = 16"
definition MAX_INPUT_ITEMS :: int where "MAX_INPUT_ITEMS = 4096"

fun RECOMMENDATION_MESSAGES :: "recommendation_code \<Rightarrow> string" where
  "RECOMMENDATION_MESSAGES INTAKE_INCOMPLETE = ''Intake is incomplete; required task details remain unanswered''"
| "RECOMMENDATION_MESSAGES VERIFY_AFTER_MUTATION = ''Passing evidence predates the latest mutation''"
| "RECOMMENDATION_MESSAGES SIDE_EFFECT_OUTCOME_UNKNOWN = ''A side effect has no known outcome''"
| "RECOMMENDATION_MESSAGES UNRESOLVED_FAILURE = ''Unresolved failures remain''"
| "RECOMMENDATION_MESSAGES COVERAGE_INCOMPLETE = ''Observed coverage is incomplete''"
| "RECOMMENDATION_MESSAGES CONTEXT_STALE = ''Previously delivered context may be stale''"
| "RECOMMENDATION_MESSAGES CONTRADICTORY_MEMORY = ''Verified memory entries contain a contradiction''"
| "RECOMMENDATION_MESSAGES PROMOTION_CANDIDATE = ''A durable proposal is eligible for candidate promotion only''"

definition COVERAGE_CATEGORIES :: "string list" where
  "COVERAGE_CATEGORIES = [''approval'', ''command'', ''file'', ''run'', ''tool'']"

definition MISSING_PROFILE_FIELDS :: "string list" where
  "MISSING_PROFILE_FIELDS = [''taskType'', ''target'', ''expected'']"

definition EVIDENCE_STATES :: "string list" where
  "EVIDENCE_STATES = [''none'', ''failed'', ''fresh'', ''stale'']"

record recommendation =
  rm_code :: recommendation_code
  rm_message :: string
  rm_evidenceEventIds :: "string list"
  rm_priority :: int
  rm_untrusted :: bool
  rm_actionable :: bool
  rm_truncated :: bool
  rm_referenceIds :: "string list"
  rm_incompleteCoverageCategories :: "string list option"

record normalized_projection =
  np_intakeIncomplete :: bool
  np_missingProfileFields :: "string list"
  np_evidenceState :: string
  np_unresolvedFailureEventIds :: "string list"
  np_unknownOutcomeEventIds :: "string list"
  np_coverage :: string
  np_declaredCoverage :: "(string \<times> coverage_level) list option"
  np_incompleteCoverageCategories :: "string list"
  np_latestMutationEventIds :: "string list"
  np_latestPassingVerificationEventIds :: "string list"

record stale_entry =
  se_entryId :: string
  se_stale :: bool
  se_evidenceEventIds :: "string list"

record contradiction_pair =
  cp_leftEntryId :: string
  cp_rightEntryId :: string
  cp_verified :: bool
  cp_evidenceEventIds :: "string list"

record promotion_candidate =
  pc_eventId :: string
  pc_eligible :: bool
  pc_evidenceEventIds :: "string list"

record normalized_broker =
  nb_staleDeliveredEntries :: "stale_entry list"
  nb_contradictoryMemoryPairs :: "contradiction_pair list"
  nb_promotionCandidates :: "promotion_candidate list"

record normalized_input =
  ni_projection :: normalized_projection
  ni_broker :: normalized_broker

section \<open>Parsing\<close>

definition recommendation_error :: js_error where
  "recommendation_error = KiokukoError VALIDATION_ERROR ''Invalid recommendation input''"

abbreviation required :: "bool \<Rightarrow> unit result" where
  "required b \<equiv> check b recommendation_error"

definition UNSAFE_CHARACTERS :: rx where
  "UNSAFE_CHARACTERS = ralt [RClass is_js_space, rlit ''://'', RClass (\<lambda>c. c \<in> set '';&|<>`$'')]"

definition CREDENTIAL_PREFIXES :: rx where
  "CREDENTIAL_PREFIXES =
     ralt [RSeq (RAlt (rlit_i ''bearer'') (rlit_i ''basic'')) (RClass is_js_space),
           rlit_i ''ghp_'', rlit_i ''github_pat_'',
           rseq [rlit_i ''xox'', RClass (\<lambda>c. ascii_lower c \<in> set ''baprs''), rlit ''-''],
           RSeq (rlit_i ''sk-'') (RClass is_alnum),
           RSeq (rlit_i ''AKIA'') (rtimes 16 is_alnum)]"

definition safeIdentifier :: "jsvalue \<Rightarrow> string result" where
  "safeIdentifier v =
     rbind (as_string recommendation_error v) (\<lambda>s.
     rbind (required (s \<noteq> [] \<and> int (length s) \<le> 256)) (\<lambda>_.
     rbind (required (\<not> test UNSAFE_CHARACTERS s)) (\<lambda>_.
     rbind (required (\<not> test CREDENTIAL_PREFIXES s)) (\<lambda>_. Inr s))))"

definition idList :: "jsvalue \<Rightarrow> bool \<Rightarrow> string list result" where
  "idList v mandatory =
     (if v = VUndefined \<and> \<not> mandatory then Inr []
      else rbind (as_array recommendation_error v) (\<lambda>xs.
           rbind (required (int (length xs) \<le> MAX_INPUT_ITEMS)) (\<lambda>_.
           rbind (rtraverse safeIdentifier xs) (\<lambda>ids. Inr (canonicalTagOrder ids)))))"

definition bounded :: "string list \<Rightarrow> nat \<Rightarrow> string list \<times> bool" where
  "bounded vs maximum = (let unique = canonicalTagOrder vs in (take maximum unique, length unique > maximum))"

definition one_of_texts :: "string list \<Rightarrow> jsvalue \<Rightarrow> string result" where
  "one_of_texts allowed v = as_enum recommendation_error (map (\<lambda>t. (t, t)) allowed) v"

definition sequenceValue :: "jsvalue \<Rightarrow> bool \<Rightarrow> int option result" where
  "sequenceValue v opt =
     (if (v = VUndefined \<or> v = VNull) \<and> opt then Inr None
      else case v of
             VNum n \<Rightarrow> if is_safe_integer v \<and> 0 \<le> n then Inr (Some n) else Inl recommendation_error
           | _ \<Rightarrow> Inl recommendation_error)"

definition parseTaskProfile :: "jsvalue \<Rightarrow> task_profile result" where
  "parseTaskProfile v =
     (let text = (\<lambda>w. if w = VNull then Inr None else rbind (as_string recommendation_error w) (\<lambda>s. Inr (Some s))) in
      rbind (as_fields recommendation_error v) (\<lambda>fs.
      rbind (required (keys_within fs [''taskType'', ''target'', ''expected'', ''constraints''])) (\<lambda>_.
      rbind (required (has_all fs [''taskType'', ''target'', ''expected'', ''constraints''])) (\<lambda>_.
      rbind (if getp fs ''taskType'' = VNull then Inr None
             else rbind (as_enum recommendation_error TASK_TYPES (getp fs ''taskType'')) (\<lambda>t. Inr (Some t))) (\<lambda>tt.
      rbind (text (getp fs ''target'')) (\<lambda>tg.
      rbind (text (getp fs ''expected'')) (\<lambda>ex.
      rbind (text (getp fs ''constraints'')) (\<lambda>co.
      Inr \<lparr>taskType = tt, target = tg, expected = ex, constraints = co\<rparr>))))))))"

fun declared_levels :: "fields \<Rightarrow> string list \<Rightarrow> (string \<times> coverage_level) list result" where
  "declared_levels fs [] = Inr []"
| "declared_levels fs (c # cs) =
     (if hasOwn fs c
      then rbind (as_enum recommendation_error COVERAGE_LEVELS (getp fs c)) (\<lambda>l.
             rbind (declared_levels fs cs) (\<lambda>ls. Inr ((c, l) # ls)))
      else declared_levels fs cs)"

definition parseDeclaredCoverage :: "jsvalue \<Rightarrow> (string \<times> coverage_level) list option result" where
  "parseDeclaredCoverage v =
     (if v = VUndefined then Inr None
      else rbind (as_fields recommendation_error v) (\<lambda>fs.
           rbind (required (keys_within fs COVERAGE_CATEGORIES)) (\<lambda>_.
           rbind (declared_levels fs COVERAGE_CATEGORIES) (\<lambda>ls. Inr (Some ls)))))"

definition PROJECTION_FIELDS :: "string list" where
  "PROJECTION_FIELDS =
     [''intakeIncomplete'', ''missingProfileFields'', ''evidenceState'', ''unresolvedFailureEventIds'',
      ''unknownOutcomeEventIds'', ''coverage'', ''declaredCoverage'', ''incompleteCoverageCategories'',
      ''latestMutationEventIds'', ''latestPassingVerificationEventIds'', ''throughSequence'',
      ''latestMutationSequence'', ''latestPassingVerificationSequence'', ''profileHash'', ''taskProfile'']"

text \<open>A field that is only checked when present.\<close>

definition checked_if_present :: "fields \<Rightarrow> string \<Rightarrow> (jsvalue \<Rightarrow> 'a result) \<Rightarrow> unit result" where
  "checked_if_present fs k parse = (if hasOwn fs k then rbind (parse (getp fs k)) (\<lambda>_. Inr ()) else Inr ())"

definition recommendation_parseProjection :: "jsvalue \<Rightarrow> normalized_projection result" where
  "recommendation_parseProjection v =
     rbind (as_fields recommendation_error v) (\<lambda>fs.
     rbind (required (keys_within fs PROJECTION_FIELDS)) (\<lambda>_.
     rbind (required (has_all fs [''intakeIncomplete'', ''missingProfileFields'', ''evidenceState'',
        ''unresolvedFailureEventIds'', ''unknownOutcomeEventIds'', ''coverage''])) (\<lambda>_.
     rbind (as_bool recommendation_error (getp fs ''intakeIncomplete'')) (\<lambda>incomplete.
     rbind (idList (getp fs ''missingProfileFields'') True) (\<lambda>missing.
     rbind (required (list_all (\<lambda>m. m \<in> set MISSING_PROFILE_FIELDS) missing)) (\<lambda>_.
     rbind (one_of_texts EVIDENCE_STATES (getp fs ''evidenceState'')) (\<lambda>evidence.
     rbind (one_of_texts [''complete'', ''partial''] (getp fs ''coverage'')) (\<lambda>cov.
     rbind (parseDeclaredCoverage (getp fs ''declaredCoverage'')) (\<lambda>declared.
     rbind (idList (getp fs ''incompleteCoverageCategories'') False) (\<lambda>categories.
     rbind (required (list_all (\<lambda>c. c \<in> set COVERAGE_CATEGORIES) categories)) (\<lambda>_.
     rbind (required (\<not> (incomplete \<and> missing = []))) (\<lambda>_.
     rbind (checked_if_present fs ''throughSequence'' (\<lambda>w. sequenceValue w False)) (\<lambda>_.
     rbind (checked_if_present fs ''latestMutationSequence'' (\<lambda>w. sequenceValue w True)) (\<lambda>_.
     rbind (checked_if_present fs ''latestPassingVerificationSequence'' (\<lambda>w. sequenceValue w True)) (\<lambda>_.
     rbind (checked_if_present fs ''profileHash'' safeIdentifier) (\<lambda>_.
     rbind (checked_if_present fs ''taskProfile'' parseTaskProfile) (\<lambda>_.
     rbind (idList (getp fs ''unresolvedFailureEventIds'') True) (\<lambda>failures.
     rbind (idList (getp fs ''unknownOutcomeEventIds'') True) (\<lambda>unknowns.
     rbind (idList (getp fs ''latestMutationEventIds'') False) (\<lambda>mutations.
     rbind (idList (getp fs ''latestPassingVerificationEventIds'') False) (\<lambda>passing.
     Inr \<lparr>np_intakeIncomplete = incomplete, np_missingProfileFields = missing, np_evidenceState = evidence,
          np_unresolvedFailureEventIds = failures, np_unknownOutcomeEventIds = unknowns, np_coverage = cov,
          np_declaredCoverage = declared, np_incompleteCoverageCategories = categories,
          np_latestMutationEventIds = mutations, np_latestPassingVerificationEventIds = passing\<rparr>)))))))))))))))))))))"

definition items_of :: "jsvalue \<Rightarrow> (jsvalue \<Rightarrow> 'a result) \<Rightarrow> 'a list result" where
  "items_of v parse =
     (if v = VUndefined then Inr []
      else rbind (as_array recommendation_error v) (\<lambda>xs.
           rbind (required (int (length xs) \<le> MAX_INPUT_ITEMS)) (\<lambda>_. rtraverse parse xs)))"

definition parse_stale_entry :: "jsvalue \<Rightarrow> stale_entry result" where
  "parse_stale_entry item =
     rbind (as_fields recommendation_error item) (\<lambda>fs.
     rbind (required (keys_within fs [''entryId'', ''deliveredRevision'', ''currentRevision'', ''stale'', ''evidenceEventIds''])) (\<lambda>_.
     rbind (required (has_all fs [''entryId'', ''deliveredRevision'', ''currentRevision''])) (\<lambda>_.
     rbind (sequenceValue (getp fs ''deliveredRevision'') False) (\<lambda>_.
     rbind (sequenceValue (getp fs ''currentRevision'') False) (\<lambda>_.
     rbind (safeIdentifier (getp fs ''entryId'')) (\<lambda>i.
     rbind (if hasOwn fs ''stale'' then as_bool recommendation_error (getp fs ''stale'') else Inr True) (\<lambda>s.
     rbind (idList (getp fs ''evidenceEventIds'') False) (\<lambda>ev.
     Inr \<lparr>se_entryId = i, se_stale = s, se_evidenceEventIds = ev\<rparr>))))))))"

definition parseStaleEntries :: "jsvalue \<Rightarrow> stale_entry list result" where
  "parseStaleEntries v = items_of v parse_stale_entry"

definition parse_contradiction :: "jsvalue \<Rightarrow> contradiction_pair result" where
  "parse_contradiction item =
     rbind (as_fields recommendation_error item) (\<lambda>fs.
     rbind (required (keys_within fs [''leftEntryId'', ''rightEntryId'', ''verified'', ''evidenceEventIds''])) (\<lambda>_.
     rbind (required (has_all fs [''leftEntryId'', ''rightEntryId'', ''verified''])) (\<lambda>_.
     rbind (safeIdentifier (getp fs ''leftEntryId'')) (\<lambda>l.
     rbind (safeIdentifier (getp fs ''rightEntryId'')) (\<lambda>r.
     rbind (as_bool recommendation_error (getp fs ''verified'')) (\<lambda>b.
     rbind (idList (getp fs ''evidenceEventIds'') False) (\<lambda>ev.
     Inr \<lparr>cp_leftEntryId = l, cp_rightEntryId = r, cp_verified = b, cp_evidenceEventIds = ev\<rparr>)))))))"

definition parseContradictions :: "jsvalue \<Rightarrow> contradiction_pair list result" where
  "parseContradictions v = items_of v parse_contradiction"

definition parse_promotion :: "jsvalue \<Rightarrow> promotion_candidate result" where
  "parse_promotion item =
     rbind (as_fields recommendation_error item) (\<lambda>fs.
     rbind (required (keys_within fs [''eventId'', ''eligible'', ''evidenceEventIds''])) (\<lambda>_.
     rbind (required (has_all fs [''eventId'', ''eligible''])) (\<lambda>_.
     rbind (safeIdentifier (getp fs ''eventId'')) (\<lambda>i.
     rbind (as_bool recommendation_error (getp fs ''eligible'')) (\<lambda>b.
     rbind (idList (getp fs ''evidenceEventIds'') False) (\<lambda>ev.
     Inr \<lparr>pc_eventId = i, pc_eligible = b, pc_evidenceEventIds = ev\<rparr>))))))"

definition parsePromotionCandidates :: "jsvalue \<Rightarrow> promotion_candidate list result" where
  "parsePromotionCandidates v = items_of v parse_promotion"

definition parseBroker :: "jsvalue \<Rightarrow> normalized_broker result" where
  "parseBroker v =
     (if v = VUndefined
      then Inr \<lparr>nb_staleDeliveredEntries = [], nb_contradictoryMemoryPairs = [], nb_promotionCandidates = []\<rparr>
      else rbind (as_fields recommendation_error v) (\<lambda>fs.
           rbind (required (keys_within fs [''staleDeliveredEntries'', ''contradictoryMemoryPairs'', ''promotionCandidates''])) (\<lambda>_.
           rbind (parseStaleEntries (getp fs ''staleDeliveredEntries'')) (\<lambda>s.
           rbind (parseContradictions (getp fs ''contradictoryMemoryPairs'')) (\<lambda>c.
           rbind (parsePromotionCandidates (getp fs ''promotionCandidates'')) (\<lambda>p.
           Inr \<lparr>nb_staleDeliveredEntries = s, nb_contradictoryMemoryPairs = c, nb_promotionCandidates = p\<rparr>))))))"

definition recommendation_parseInput :: "jsvalue \<Rightarrow> normalized_input result" where
  "recommendation_parseInput v =
     rbind (as_fields recommendation_error v) (\<lambda>fs.
     rbind (required (keys_within fs [''projection'', ''broker''])) (\<lambda>_.
     rbind (required (hasOwn fs ''projection'')) (\<lambda>_.
     rbind (recommendation_parseProjection (getp fs ''projection'')) (\<lambda>p.
     rbind (parseBroker (getp fs ''broker'')) (\<lambda>b.
     Inr \<lparr>ni_projection = p, ni_broker = b\<rparr>)))))"

section \<open>Recommendations\<close>

definition makeRecommendation ::
    "recommendation_code \<Rightarrow> string list \<Rightarrow> string list \<Rightarrow> string list option \<Rightarrow> recommendation" where
  "makeRecommendation code evidenceEventIds referenceIds categories =
     (let (evidence, evidenceTruncated) = bounded evidenceEventIds MAX_EVIDENCE_EVENT_IDS;
          (references, referencesTruncated) = bounded referenceIds MAX_REFERENCE_IDS;
          bounded_categories = map_option (\<lambda>cs. bounded cs MAX_REFERENCE_IDS) categories
      in \<lparr>rm_code = code, rm_message = RECOMMENDATION_MESSAGES code, rm_evidenceEventIds = evidence,
          rm_priority = RECOMMENDATION_PRIORITY code, rm_untrusted = True, rm_actionable = False,
          rm_truncated = (evidenceTruncated \<or> referencesTruncated
            \<or> (case bounded_categories of None \<Rightarrow> False | Some (_, t) \<Rightarrow> t)),
          rm_referenceIds = references,
          rm_incompleteCoverageCategories =
            (case bounded_categories of None \<Rightarrow> None | Some (cs, _) \<Rightarrow> if cs = [] then None else Some cs)\<rparr>)"

definition sortRecommendations :: "recommendation list \<Rightarrow> recommendation list" where
  "sortRecommendations recommendations =
     (let ordered = js_sort (\<lambda>l r. rm_priority l - rm_priority r) recommendations in
      if length ordered \<le> MAX_RECOMMENDATIONS then ordered
      else map (\<lambda>r. r\<lparr>rm_truncated := True\<rparr>) (take MAX_RECOMMENDATIONS ordered))"

definition declared_incomplete :: "normalized_projection \<Rightarrow> string list" where
  "declared_incomplete p =
     (case np_declaredCoverage p of
        None \<Rightarrow> []
      | Some ls \<Rightarrow> filter (\<lambda>c. case map_of ls c of None \<Rightarrow> False | Some l \<Rightarrow> l \<noteq> CovComplete) COVERAGE_CATEGORIES)"

definition pushed :: "bool \<Rightarrow> recommendation \<Rightarrow> recommendation list" where
  "pushed b r = (if b then [r] else [])"

definition recommendations_of :: "normalized_input \<Rightarrow> recommendation list" where
  "recommendations_of n =
     (let p = ni_projection n; b = ni_broker n;
          stale = filter se_stale (nb_staleDeliveredEntries b);
          pairs = filter cp_verified (nb_contradictoryMemoryPairs b);
          eligible = filter pc_eligible (nb_promotionCandidates b)
      in pushed (np_intakeIncomplete p) (makeRecommendation INTAKE_INCOMPLETE [] [] None)
         @ pushed (np_evidenceState p = ''stale'')
             (makeRecommendation VERIFY_AFTER_MUTATION
               (np_latestMutationEventIds p @ np_latestPassingVerificationEventIds p) [] None)
         @ pushed (np_unknownOutcomeEventIds p \<noteq> [])
             (makeRecommendation SIDE_EFFECT_OUTCOME_UNKNOWN (np_unknownOutcomeEventIds p) [] None)
         @ pushed (np_unresolvedFailureEventIds p \<noteq> [])
             (makeRecommendation UNRESOLVED_FAILURE (np_unresolvedFailureEventIds p) [] None)
         @ pushed (np_coverage p = ''partial'')
             (makeRecommendation COVERAGE_INCOMPLETE [] []
               (Some (declared_incomplete p @ np_incompleteCoverageCategories p)))
         @ pushed (stale \<noteq> [])
             (makeRecommendation CONTEXT_STALE (concat (map se_evidenceEventIds stale)) (map se_entryId stale) None)
         @ pushed (pairs \<noteq> [])
             (makeRecommendation CONTRADICTORY_MEMORY (concat (map cp_evidenceEventIds pairs))
               (concat (map (\<lambda>c. [cp_leftEntryId c, cp_rightEntryId c]) pairs)) None)
         @ pushed (eligible \<noteq> [])
             (makeRecommendation PROMOTION_CANDIDATE
               (concat (map (\<lambda>c. pc_eventId c # pc_evidenceEventIds c) eligible)) [] None))"

definition buildRecommendations :: "jsvalue \<Rightarrow> recommendation list result" where
  "buildRecommendations input =
     rbind (recommendation_parseInput input) (\<lambda>n. Inr (sortRecommendations (recommendations_of n)))"

section \<open>Which recommendations are made\<close>

interpretation recommendation_order: keyed_comparator "\<lambda>l r. rm_priority l - rm_priority r" rm_priority
  by unfold_locales auto

text \<open>The condition of each code, stated on the normalized input.\<close>

fun applicable :: "normalized_input \<Rightarrow> recommendation_code \<Rightarrow> bool" where
  "applicable n INTAKE_INCOMPLETE = np_intakeIncomplete (ni_projection n)"
| "applicable n VERIFY_AFTER_MUTATION = (np_evidenceState (ni_projection n) = ''stale'')"
| "applicable n SIDE_EFFECT_OUTCOME_UNKNOWN = (np_unknownOutcomeEventIds (ni_projection n) \<noteq> [])"
| "applicable n UNRESOLVED_FAILURE = (np_unresolvedFailureEventIds (ni_projection n) \<noteq> [])"
| "applicable n COVERAGE_INCOMPLETE = (np_coverage (ni_projection n) = ''partial'')"
| "applicable n CONTEXT_STALE = list_ex se_stale (nb_staleDeliveredEntries (ni_broker n))"
| "applicable n CONTRADICTORY_MEMORY = list_ex cp_verified (nb_contradictoryMemoryPairs (ni_broker n))"
| "applicable n PROMOTION_CANDIDATE = list_ex pc_eligible (nb_promotionCandidates (ni_broker n))"

lemma make_fields [simp]:
  "rm_code (makeRecommendation c e r k) = c"
  "rm_message (makeRecommendation c e r k) = RECOMMENDATION_MESSAGES c"
  "rm_priority (makeRecommendation c e r k) = RECOMMENDATION_PRIORITY c"
  "rm_untrusted (makeRecommendation c e r k)"
  "\<not> rm_actionable (makeRecommendation c e r k)"
  "rm_evidenceEventIds (makeRecommendation c e r k) = fst (bounded e MAX_EVIDENCE_EVENT_IDS)"
  "rm_referenceIds (makeRecommendation c e r k) = fst (bounded r MAX_REFERENCE_IDS)"
  by (simp_all add: makeRecommendation_def split_def Let_def)

lemma map_pushed: "map f (pushed b r) = (if b then [f r] else [])"
  by (simp add: pushed_def)

lemma list_all_pushed: "P r \<Longrightarrow> list_all P (pushed b r)"
  by (simp add: pushed_def)

lemma filter_ex: "filter P xs \<noteq> [] \<longleftrightarrow> list_ex P xs"
  by (induction xs) auto

lemma filter_step: "filter P (x # xs) = (if P x then [x] else []) @ filter P xs"
  by simp

lemma recommendations_of_codes: "map rm_code (recommendations_of n) = filter (applicable n) RECOMMENDATION_CODES"
  unfolding recommendations_of_def Let_def RECOMMENDATION_CODES_def
  by (simp only: map_append map_pushed filter_step applicable.simps filter_ex make_fields filter.simps(1) append_Nil2
      cong: if_cong)

lemma recommendations_made:
  assumes "x \<in> set (recommendations_of n)"
  obtains c e r k where "x = makeRecommendation c e r k"
proof -
  have "list_all (\<lambda>x. \<exists>c e r k. x = makeRecommendation c e r k) (recommendations_of n)"
    unfolding recommendations_of_def Let_def list_all_append by (intro conjI list_all_pushed exI) (rule refl)+
  with assms that show ?thesis by (auto simp: list_all_iff)
qed

lemma recommendations_of_priorities:
  "map rm_priority (recommendations_of n) = map RECOMMENDATION_PRIORITY (map rm_code (recommendations_of n))"
  unfolding map_map by (rule map_cong [OF refl]) (auto elim: recommendations_made)

lemma priorities_sorted: "sorted (map RECOMMENDATION_PRIORITY (filter P RECOMMENDATION_CODES))"
  by (simp add: RECOMMENDATION_CODES_def)

lemma sortRecommendations_id: "sortRecommendations (recommendations_of n) = recommendations_of n"
proof -
  have "sorted (map rm_priority (recommendations_of n))"
    unfolding recommendations_of_priorities recommendations_of_codes by (rule priorities_sorted)
  moreover have "length (recommendations_of n) \<le> MAX_RECOMMENDATIONS"
    using length_filter_le [of "applicable n" RECOMMENDATION_CODES]
    by (simp add: MAX_RECOMMENDATIONS_def flip: recommendations_of_codes)
  ultimately show ?thesis
    by (simp add: sortRecommendations_def recommendation_order.js_sort_sort_key sort_key_id_if_sorted Let_def)
qed

definition within_bounds :: "recommendation \<Rightarrow> bool" where
  "within_bounds r =
     (length (rm_evidenceEventIds r) \<le> 16 \<and> length (rm_referenceIds r) \<le> 16
      \<and> sorted_wrt (<) (rm_evidenceEventIds r) \<and> sorted_wrt (<) (rm_referenceIds r)
      \<and> rm_message r = RECOMMENDATION_MESSAGES (rm_code r) \<and> rm_untrusted r \<and> \<not> rm_actionable r)"

lemma bounded_sorted: "sorted_wrt (<) (fst (bounded vs m)) \<and> length (fst (bounded vs m)) \<le> m"
proof -
  have "sorted_wrt (<) (canonicalTagOrder vs)"
    by (simp add: strict_sorted_iff)
  then show ?thesis by (simp add: bounded_def Let_def sorted_wrt_take)
qed

lemma make_within_bounds: "within_bounds (makeRecommendation c e r k)"
  using bounded_sorted [of e 16] bounded_sorted [of r 16]
  by (simp add: within_bounds_def MAX_EVIDENCE_EVENT_IDS_def MAX_REFERENCE_IDS_def)

section \<open>Properties\<close>

definition sample_projection :: "string \<Rightarrow> jsvalue" where
  "sample_projection state =
     VObj [(''intakeIncomplete'', VBool False), (''missingProfileFields'', VArr []), (''evidenceState'', VStr state),
           (''unresolvedFailureEventIds'', VArr [VStr ''f'']), (''unknownOutcomeEventIds'', VArr []),
           (''coverage'', VStr ''complete'')]"

definition sample_recommendation_input :: jsvalue where
  "sample_recommendation_input = VObj [(''projection'', sample_projection ''stale'')]"

lemma sample_recommendations:
  "\<exists>rs. buildRecommendations sample_recommendation_input = Inr rs
     \<and> map rm_code rs = [VERIFY_AFTER_MUTATION, UNRESOLVED_FAILURE]"
  by (rule map_sum_InrD) code_simp

text \<open>
  C38: The recommendations are exactly those whose condition holds on the parsed input, one per code,
  listed by ascending priority.
\<close>

theorem buildRecommendations_exact:
  assumes "buildRecommendations v = Inr rs"
  shows "\<exists>n. recommendation_parseInput v = Inr n
    \<and> map rm_code rs = filter (applicable n) RECOMMENDATION_CODES
    \<and> map rm_priority rs = map RECOMMENDATION_PRIORITY (map rm_code rs) \<and> sorted (map rm_priority rs)"
proof -
  obtain n where n: "recommendation_parseInput v = Inr n" and rs: "rs = recommendations_of n"
    using assms by (auto simp: buildRecommendations_def rbind_eq_Inr sortRecommendations_id)
  have "sorted (map rm_priority rs)"
    unfolding rs recommendations_of_priorities recommendations_of_codes by (rule priorities_sorted)
  with n show ?thesis
    using recommendations_of_codes [of n] recommendations_of_priorities [of n] by (auto simp only: rs)
qed

theorem buildRecommendations_exact_witness:
  "\<exists>rs. buildRecommendations sample_recommendation_input = Inr rs
     \<and> sorted (map rm_priority rs) \<and> map rm_code rs = [VERIFY_AFTER_MUTATION, UNRESOLVED_FAILURE]"
proof -
  obtain rs where rs: "buildRecommendations sample_recommendation_input = Inr rs"
      and codes: "map rm_code rs = [VERIFY_AFTER_MUTATION, UNRESOLVED_FAILURE]"
    using sample_recommendations by (elim exE conjE)
  have "sorted (map rm_priority rs)"
    using buildRecommendations_exact [OF rs] by (elim exE conjE)
  with rs codes show ?thesis by (intro exI conjI)
qed

text \<open>
  At most eight recommendations are made, and each lists at most sixteen evidence and sixteen
  reference identifiers, strictly sorted, carries the fixed message of its code, and is marked
  untrusted and not actionable.
\<close>

theorem buildRecommendations_bounded:
  assumes "buildRecommendations v = Inr rs"
  shows "length rs \<le> 8 \<and> list_all within_bounds rs"
proof -
  obtain n where rs: "rs = recommendations_of n"
    using assms by (auto simp: buildRecommendations_def rbind_eq_Inr sortRecommendations_id)
  have "length rs \<le> length RECOMMENDATION_CODES"
    using length_filter_le [of "applicable n" RECOMMENDATION_CODES] by (simp add: rs flip: recommendations_of_codes)
  moreover have "list_all within_bounds rs"
    unfolding rs list_all_iff by (auto elim: recommendations_made simp: make_within_bounds)
  ultimately show ?thesis by (simp add: RECOMMENDATION_CODES_def)
qed

theorem buildRecommendations_bounded_witness:
  "\<exists>rs. buildRecommendations sample_recommendation_input = Inr rs \<and> rs \<noteq> [] \<and> list_all within_bounds rs"
proof -
  obtain rs where rs: "buildRecommendations sample_recommendation_input = Inr rs"
      and codes: "map rm_code rs = [VERIFY_AFTER_MUTATION, UNRESOLVED_FAILURE]"
    using sample_recommendations by (elim exE conjE)
  have "list_all within_bounds rs"
    using buildRecommendations_bounded [OF rs] by (rule conjunct2)
  moreover have "rs \<noteq> []"
    using codes by auto
  ultimately show ?thesis using rs by (intro exI conjI)
qed

end
