(* ===== verification/Nudges.thy ===== *)
theory Nudges
  imports Recommendations Ledger_Projection Ledger_Validate Json_Reader Sqlite_Tx
begin

text \<open>
  Nudges: \<open>src/src/context/nudges.ts\<close> (candidates, selection under a rate limit),
  \<open>src/src/context/nudge-validation.ts\<close> (stored rows, the history check) and
  \<open>src/src/context/nudge-store.ts\<close> (the delivery table). The digest \<open>sha256\<close> of \<open>node:crypto\<close> is a
  parameter of every definition that hashes.
\<close>

section \<open>Candidates and policy\<close>

datatype nudge_code = NudgeUnknownOutcome | NudgeUnresolvedFailure | NudgeVerifyAfterMutation

definition NUDGE_POLICY_VERSION :: string where
  "NUDGE_POLICY_VERSION = ''nudges.v1''"

definition NUDGE_CODES :: "(string \<times> nudge_code) list" where
  "NUDGE_CODES =
     [(''SIDE_EFFECT_OUTCOME_UNKNOWN'', NudgeUnknownOutcome),
      (''UNRESOLVED_FAILURE'', NudgeUnresolvedFailure),
      (''VERIFY_AFTER_MUTATION'', NudgeVerifyAfterMutation)]"

fun nudge_text :: "nudge_code \<Rightarrow> string" where
  "nudge_text NudgeUnknownOutcome = ''SIDE_EFFECT_OUTCOME_UNKNOWN''"
| "nudge_text NudgeUnresolvedFailure = ''UNRESOLVED_FAILURE''"
| "nudge_text NudgeVerifyAfterMutation = ''VERIFY_AFTER_MUTATION''"

fun NUDGE_PRIORITY :: "nudge_code \<Rightarrow> int" where
  "NUDGE_PRIORITY NudgeUnknownOutcome = 2"
| "NUDGE_PRIORITY NudgeUnresolvedFailure = 3"
| "NUDGE_PRIORITY NudgeVerifyAfterMutation = 4"

fun NUDGE_MESSAGES :: "nudge_code \<Rightarrow> string" where
  "NUDGE_MESSAGES NudgeUnknownOutcome = ''A side effect has no known outcome. Consider verifying its result before relying on subsequent work.''"
| "NUDGE_MESSAGES NudgeUnresolvedFailure = ''Unresolved failures remain. Consider resolving or explicitly carrying them forward before finishing.''"
| "NUDGE_MESSAGES NudgeVerifyAfterMutation = ''The latest passing verification predates the most recent mutation. Consider re-running the affected verification before finishing.''"

record nudge_candidate =
  nc_code :: nudge_code
  nc_occurrenceId :: string
  nc_priority :: int
  nc_message :: string
  nc_evidenceEventIds :: "string list"
  nc_referenceIds :: "string list"

record delivered_nudge =
  dn_occurrenceId :: string
  dn_code :: nudge_code
  dn_message :: string
  dn_evidenceEventIds :: "string list"
  dn_referenceIds :: "string list"
  dn_priority :: int
  dn_policyVersion :: string

record rate_limit =
  maxPerResponse :: int
  maxPerRun :: int
  minSequenceDistancePerCode :: int

definition DEFAULT_NUDGE_RATE_LIMIT :: rate_limit where
  "DEFAULT_NUDGE_RATE_LIMIT = \<lparr>maxPerResponse = 1, maxPerRun = 3, minSequenceDistancePerCode = 3\<rparr>"

text \<open>The history a selection consults: a set, a count and a map from codes to sequences.\<close>

record nudge_history =
  deliveredOccurrenceIds :: "string list"
  runDeliveryCount :: int
  lastSequenceByCode :: "(nudge_code \<times> int) list"

definition assertNudgePolicyVersion :: "string \<Rightarrow> unit result" where
  "assertNudgePolicyVersion v =
     check (v = NUDGE_POLICY_VERSION) (KiokukoError VALIDATION_ERROR ''Unsupported nudge policy version'')"

definition isNudgePolicyVersion :: "jsvalue \<Rightarrow> bool" where
  "isNudgePolicyVersion v = (v = VStr NUDGE_POLICY_VERSION)"

definition isNudgeCode :: "string \<Rightarrow> bool" where
  "isNudgeCode s = (map_of NUDGE_CODES s \<noteq> None)"

definition assertNudgeCode :: "string \<Rightarrow> nudge_code result" where
  "assertNudgeCode s =
     (case map_of NUDGE_CODES s of
        Some c \<Rightarrow> Inr c
      | None \<Rightarrow> Inl (KiokukoError VALIDATION_ERROR ''Invalid nudge code''))"

definition sortedBoundedIds :: "string list \<Rightarrow> nat \<Rightarrow> string list" where
  "sortedBoundedIds vs maximum = take maximum (js_sort compareCanonicalStrings (js_set vs))"

definition canonicalIdentityIds :: "(string \<Rightarrow> string) \<Rightarrow> string list \<Rightarrow> jsvalue result" where
  "canonicalIdentityIds sha256 vs =
     (let ids = js_sort compareCanonicalStrings (js_set vs) in
      rbind (canonicalContentHash sha256 (VArr (map VStr ids))) (\<lambda>h.
      Inr (VObj [(''count'', VNum (int (length ids))), (''hash'', VStr h)])))"

definition occurrenceId :: "(string \<Rightarrow> string) \<Rightarrow> nudge_code \<Rightarrow> jsvalue \<Rightarrow> string result" where
  "occurrenceId sha256 code occurrence =
     canonicalContentHash sha256
       (VObj [(''policyVersion'', VStr NUDGE_POLICY_VERSION), (''code'', VStr (nudge_text code)),
              (''occurrence'', occurrence)])"

definition candidate ::
    "(string \<Rightarrow> string) \<Rightarrow> nudge_code \<Rightarrow> jsvalue \<Rightarrow> recommendation \<Rightarrow> nudge_candidate result" where
  "candidate sha256 code occurrence r =
     rbind (occurrenceId sha256 code occurrence) (\<lambda>i.
     Inr \<lparr>nc_code = code, nc_occurrenceId = i, nc_priority = NUDGE_PRIORITY code,
          nc_message = NUDGE_MESSAGES code,
          nc_evidenceEventIds = sortedBoundedIds (rm_evidenceEventIds r) MAX_EVIDENCE_EVENT_IDS,
          nc_referenceIds = sortedBoundedIds (rm_referenceIds r) MAX_REFERENCE_IDS\<rparr>)"

definition compareNudgeCandidates :: "nudge_candidate \<Rightarrow> nudge_candidate \<Rightarrow> int" where
  "compareNudgeCandidates left right =
     cmp_or (nc_priority left - nc_priority right)
       (cmp_or (compareCanonicalStrings (nudge_text (nc_code left)) (nudge_text (nc_code right)))
          (compareCanonicalStrings (nc_occurrenceId left) (nc_occurrenceId right)))"

text \<open>The recommendation as the object that is hashed.\<close>

definition recommendation_json :: "recommendation \<Rightarrow> jsvalue" where
  "recommendation_json r =
     VObj [(''code'', VStr (code_text (rm_code r))), (''message'', VStr (rm_message r)),
           (''evidenceEventIds'', VArr (map VStr (rm_evidenceEventIds r))),
           (''priority'', VNum (rm_priority r)), (''untrusted'', VBool (rm_untrusted r)),
           (''actionable'', VBool (rm_actionable r)),
           (''metadata'', VObj ((''truncated'', VBool (rm_truncated r)) #
              (case rm_incompleteCoverageCategories r of
                 None \<Rightarrow> []
               | Some cs \<Rightarrow> [(''incompleteCoverageCategories'', VArr (map VStr cs))]) @
              [(''referenceIds'', VArr (map VStr (rm_referenceIds r)))]))]"

fun recommendationByCode ::
    "(string \<Rightarrow> string) \<Rightarrow> recommendation list \<Rightarrow> (string \<times> recommendation) list
       \<Rightarrow> (string \<times> recommendation) list result" where
  "recommendationByCode sha256 [] result = Inr result"
| "recommendationByCode sha256 (r # rs) result =
     (let code = code_text (rm_code r) in
      if \<not> isNudgeCode code then recommendationByCode sha256 rs result
      else case map_of result code of
             None \<Rightarrow> recommendationByCode sha256 rs ((code, r) # result)
           | Some current \<Rightarrow>
               rbind (canonicalContentHash sha256 (recommendation_json r)) (\<lambda>h.
               rbind (canonicalContentHash sha256 (recommendation_json current)) (\<lambda>h'.
               recommendationByCode sha256 rs (if h < h' then (code, r) # result else result))))"

definition candidate_if ::
    "bool \<Rightarrow> recommendation option \<Rightarrow> (recommendation \<Rightarrow> nudge_candidate result) \<Rightarrow> nudge_candidate list result" where
  "candidate_if b r build =
     (case r of
        Some x \<Rightarrow> if b then rbind (build x) (\<lambda>c. Inr [c]) else Inr []
      | None \<Rightarrow> Inr [])"

definition deriveNudgeCandidates ::
    "(string \<Rightarrow> string) \<Rightarrow> ledger_projection \<Rightarrow> recommendation list \<Rightarrow> nudge_candidate list result" where
  "deriveNudgeCandidates sha256 projection recommendations =
     rbind (recommendationByCode sha256 recommendations []) (\<lambda>byCode.
     rbind (candidate_if (unknownOutcomeEventIds projection \<noteq> [])
              (map_of byCode ''SIDE_EFFECT_OUTCOME_UNKNOWN'') (\<lambda>r.
              rbind (canonicalIdentityIds sha256 (unknownOutcomeEventIds projection)) (\<lambda>i.
              candidate sha256 NudgeUnknownOutcome (VObj [(''unknownOutcomeEventIds'', i)]) r))) (\<lambda>us.
     rbind (candidate_if (unresolvedFailureEventIds projection \<noteq> [])
              (map_of byCode ''UNRESOLVED_FAILURE'') (\<lambda>r.
              rbind (canonicalIdentityIds sha256 (unresolvedFailureEventIds projection)) (\<lambda>i.
              candidate sha256 NudgeUnresolvedFailure (VObj [(''unresolvedFailureEventIds'', i)]) r))) (\<lambda>fs.
     rbind (candidate_if (evidenceState projection = EvStale \<and> latestMutationSequence projection \<noteq> None)
              (map_of byCode ''VERIFY_AFTER_MUTATION'') (\<lambda>r.
              rbind (canonicalIdentityIds sha256 (latestMutationEventIds projection)) (\<lambda>i.
              candidate sha256 NudgeVerifyAfterMutation
                (VObj [(''latestMutationSequence'', VNum (the (latestMutationSequence projection))),
                       (''latestMutationEventIds'', i)]) r))) (\<lambda>vs.
     Inr (js_sort compareNudgeCandidates (us @ fs @ vs))))))"

definition eligible_nudge :: "nudge_history \<Rightarrow> int \<Rightarrow> rate_limit \<Rightarrow> nudge_candidate \<Rightarrow> bool" where
  "eligible_nudge history through policy c =
     (nc_occurrenceId c \<notin> set (deliveredOccurrenceIds history) \<and>
      (case map_of (lastSequenceByCode history) (nc_code c) of
         None \<Rightarrow> True
       | Some previous \<Rightarrow> through - previous \<ge> minSequenceDistancePerCode policy))"

definition selectNudge ::
    "nudge_candidate list \<Rightarrow> nudge_history \<Rightarrow> int \<Rightarrow> rate_limit \<Rightarrow> nudge_candidate option" where
  "selectNudge candidates history through policy =
     (if maxPerResponse policy < 1 \<or> runDeliveryCount history \<ge> maxPerRun policy then None
      else case js_sort compareNudgeCandidates (filter (eligible_nudge history through policy) candidates) of
             [] \<Rightarrow> None
           | c # _ \<Rightarrow> Some c)"

definition buildDeliveredNudge :: "nudge_candidate \<Rightarrow> delivered_nudge" where
  "buildDeliveredNudge c =
     \<lparr>dn_occurrenceId = nc_occurrenceId c, dn_code = nc_code c, dn_message = nc_message c,
      dn_evidenceEventIds = nc_evidenceEventIds c, dn_referenceIds = nc_referenceIds c,
      dn_priority = nc_priority c, dn_policyVersion = NUDGE_POLICY_VERSION\<rparr>"

section \<open>Stored rows\<close>

record history_item =
  hi_occurrenceId :: string
  hi_checkpointId :: string
  hi_code :: nudge_code
  hi_throughSequence :: int

record stored_delivery = history_item +
  sd_id :: string
  sd_policyVersion :: string
  sd_priority :: int
  sd_evidenceEventIds :: "string list"
  sd_referenceIds :: "string list"
  sd_deliveredAt :: string

definition nudge_integrity :: "string \<Rightarrow> js_error" where
  "nudge_integrity message = KiokukoError INTEGRITY_ERROR message"

definition invalid_stored :: "string \<Rightarrow> js_error" where
  "invalid_stored label = nudge_integrity (''Stored nudge '' @ label @ '' is invalid'')"

definition valid_identifier_text :: "string \<Rightarrow> bool" where
  "valid_identifier_text s = (s \<noteq> [] \<and> int (length s) \<le> 256 \<and> CHR 0x00 \<notin> set s)"

fun validIdentifier :: "jsvalue \<Rightarrow> bool" where
  "validIdentifier (VStr s) = valid_identifier_text s"
| "validIdentifier v = False"

definition identifier_or :: "js_error \<Rightarrow> jsvalue \<Rightarrow> string result" where
  "identifier_or e v = rbind (as_string e v) (\<lambda>s. if validIdentifier v then Inr s else Inl e)"

definition parseInputIdentifier :: "string \<Rightarrow> jsvalue \<Rightarrow> string result" where
  "parseInputIdentifier label =
     identifier_or (KiokukoError VALIDATION_ERROR (label @ '' must be a non-empty bounded string''))"

definition parseStoredIdentifier :: "string \<Rightarrow> jsvalue \<Rightarrow> string result" where
  "parseStoredIdentifier label = identifier_or (invalid_stored label)"

definition parseStoredNudgeCode :: "jsvalue \<Rightarrow> nudge_code result" where
  "parseStoredNudgeCode = as_enum (invalid_stored ''code'') NUDGE_CODES"

definition parseStoredPolicyVersion :: "jsvalue \<Rightarrow> string result" where
  "parseStoredPolicyVersion v =
     rbind (check (isNudgePolicyVersion v) (invalid_stored ''policy version'')) (\<lambda>_. Inr NUDGE_POLICY_VERSION)"

definition parseStoredSequence :: "string \<Rightarrow> jsvalue \<Rightarrow> int result" where
  "parseStoredSequence label v =
     (case v of
        VNum n \<Rightarrow> if is_safe_integer v \<and> 0 \<le> n then Inr n else Inl (invalid_stored label)
      | _ \<Rightarrow> Inl (invalid_stored label))"

definition parseStoredTimestamp :: "jsvalue \<Rightarrow> string result" where
  "parseStoredTimestamp v =
     rbind (as_string (invalid_stored ''timestamp'') v) (\<lambda>s.
     rbind (check (length s = 24 \<and> match_here timestamp_pattern s) (invalid_stored ''timestamp'')) (\<lambda>_.
     rbind (check (isCanonicalTimestamp s) (invalid_stored ''timestamp'')) (\<lambda>_. Inr s)))"

text \<open>The loop over adjacent identifiers: none is followed by a smaller one.\<close>

fun adjacent_ordered :: "string list \<Rightarrow> bool" where
  "adjacent_ordered (a # b # rest) = (\<not> 0 < compareCanonicalStrings a b \<and> adjacent_ordered (b # rest))"
| "adjacent_ordered xs = True"

definition parseStoredIdList :: "string \<Rightarrow> jsvalue \<Rightarrow> string list result" where
  "parseStoredIdList label v =
     (let e = invalid_stored label in
      rbind (as_string e v) (\<lambda>text.
      rbind (case json_parse text of Some w \<Rightarrow> Inr w | None \<Rightarrow> Inl e) (\<lambda>parsed.
      rbind (as_array e parsed) (\<lambda>xs.
      rbind (check (int (length xs) \<le> 16) e) (\<lambda>_.
      rbind (rtraverse (parseStoredIdentifier label) xs) (\<lambda>ids.
      rbind (check (length (js_set ids) = length ids) e) (\<lambda>_.
      rbind (check (adjacent_ordered ids) e) (\<lambda>_.
      rbind (canonicalJson (VArr (map VStr ids))) (\<lambda>t.
      rbind (check (t = text) e) (\<lambda>_. Inr ids))))))))))"

definition parseStoredNudgeDelivery :: "jsvalue \<Rightarrow> stored_delivery result" where
  "parseStoredNudgeDelivery v =
     rbind (as_fields (invalid_stored ''delivery'') v) (\<lambda>row.
     rbind (parseStoredNudgeCode (getp row ''code'')) (\<lambda>code.
     rbind (parseStoredSequence ''priority'' (getp row ''priority'')) (\<lambda>priority.
     rbind (check (priority = NUDGE_PRIORITY code) (invalid_stored ''priority'')) (\<lambda>_.
     rbind (parseStoredIdentifier ''id'' (getp row ''id'')) (\<lambda>i.
     rbind (parseStoredPolicyVersion (getp row ''policy_version'')) (\<lambda>policy.
     rbind (parseStoredIdentifier ''occurrenceId'' (getp row ''occurrence_id'')) (\<lambda>occurrence.
     rbind (parseStoredIdentifier ''checkpointId'' (getp row ''checkpoint_id'')) (\<lambda>checkpoint.
     rbind (parseStoredSequence ''sequence'' (getp row ''through_sequence'')) (\<lambda>sequence.
     rbind (parseStoredIdList ''evidenceEventIds'' (getp row ''evidence_event_ids_json'')) (\<lambda>evidence.
     rbind (parseStoredIdList ''referenceIds'' (getp row ''reference_ids_json'')) (\<lambda>references.
     rbind (parseStoredTimestamp (getp row ''delivered_at'')) (\<lambda>at.
     Inr \<lparr>hi_occurrenceId = occurrence, hi_checkpointId = checkpoint, hi_code = code,
          hi_throughSequence = sequence, sd_id = i, sd_policyVersion = policy, sd_priority = priority,
          sd_evidenceEventIds = evidence, sd_referenceIds = references, sd_deliveredAt = at\<rparr>))))))))))))"

definition compareHistoryItems :: "'a history_item_scheme \<Rightarrow> 'a history_item_scheme \<Rightarrow> int" where
  "compareHistoryItems left right =
     cmp_or (hi_throughSequence left - hi_throughSequence right)
       (cmp_or (compareCanonicalStrings (nudge_text (hi_code left)) (nudge_text (hi_code right)))
          (cmp_or (compareCanonicalStrings (hi_occurrenceId left) (hi_occurrenceId right))
             (compareCanonicalStrings (hi_checkpointId left) (hi_checkpointId right))))"

fun check_history ::
    "int \<Rightarrow> string list \<Rightarrow> string list \<Rightarrow> (nudge_code \<times> int) list \<Rightarrow> 'a history_item_scheme list \<Rightarrow> unit result" where
  "check_history distance occurrenceIds checkpointIds lasts [] = Inr ()"
| "check_history distance occurrenceIds checkpointIds lasts (row # rows) =
     rbind (check (valid_identifier_text (hi_occurrenceId row) \<and> valid_identifier_text (hi_checkpointId row)
              \<and> is_safe_integer (VNum (hi_throughSequence row)) \<and> 0 \<le> hi_throughSequence row)
            (nudge_integrity ''Stored nudge history item is invalid'')) (\<lambda>_.
     rbind (check (hi_occurrenceId row \<notin> set occurrenceIds \<and> hi_checkpointId row \<notin> set checkpointIds)
            (nudge_integrity ''Stored nudge history contains duplicate identity'')) (\<lambda>_.
     rbind (check (case map_of lasts (hi_code row) of
                     None \<Rightarrow> True
                   | Some previous \<Rightarrow> \<not> hi_throughSequence row - previous < distance)
            (nudge_integrity ''Stored nudge history violates its sequence-distance limit'')) (\<lambda>_.
     check_history distance (hi_occurrenceId row # occurrenceIds) (hi_checkpointId row # checkpointIds)
       ((hi_code row, hi_throughSequence row) # lasts) rows)))"

definition validateStoredNudgeHistory :: "'a history_item_scheme list \<Rightarrow> rate_limit \<Rightarrow> unit result" where
  "validateStoredNudgeHistory rows policy =
     rbind (check (is_safe_integer (VNum (maxPerRun policy)) \<and> 0 \<le> maxPerRun policy
              \<and> is_safe_integer (VNum (minSequenceDistancePerCode policy))
              \<and> 0 \<le> minSequenceDistancePerCode policy \<and> maxPerResponse policy = 1)
            (nudge_integrity ''Stored nudge rate-limit policy is invalid'')) (\<lambda>_.
     rbind (check (int (length rows) \<le> maxPerRun policy)
            (nudge_integrity ''Stored nudge history exceeds its per-run limit'')) (\<lambda>_.
     check_history (minSequenceDistancePerCode policy) [] [] [] (js_sort compareHistoryItems rows)))"

section \<open>The delivery table\<close>

record nudge_row =
  nr_id :: string
  nr_run_id :: string
  nr_policy_version :: string
  nr_code :: string
  nr_occurrence_id :: string
  nr_checkpoint_id :: string
  nr_through_sequence :: int
  nr_priority :: int
  nr_evidence_event_ids_json :: string
  nr_reference_ids_json :: string
  nr_delivered_at :: string

record nudge_db =
  nd_runs :: "string list"
  nd_rows :: "nudge_row list"

record new_delivery =
  nw_id :: string
  nw_runId :: string
  nw_policyVersion :: string
  nw_code :: nudge_code
  nw_occurrenceId :: string
  nw_checkpointId :: string
  nw_throughSequence :: int
  nw_priority :: int
  nw_evidenceEventIds :: "string list"
  nw_referenceIds :: "string list"
  nw_deliveredAt :: string

definition NUDGE_DELIVERY_FIELDS :: "string list" where
  "NUDGE_DELIVERY_FIELDS =
     [''runId'', ''policyVersion'', ''code'', ''occurrenceId'', ''checkpointId'', ''throughSequence'',
      ''priority'', ''evidenceEventIds'', ''referenceIds'', ''deliveredAt'']"

definition ownedPlainObject :: "jsvalue \<Rightarrow> fields result" where
  "ownedPlainObject input =
     (let e = KiokukoError VALIDATION_ERROR ''Nudge delivery input is invalid'' in
      rbind (as_fields e input) (\<lambda>fs.
      rbind (check (keys_within fs NUDGE_DELIVERY_FIELDS) e) (\<lambda>_. Inr fs)))"

definition inputIdList :: "string \<Rightarrow> jsvalue \<Rightarrow> string list result" where
  "inputIdList label v =
     (if v = VUndefined then Inr []
      else let e = KiokukoError VALIDATION_ERROR ''Nudge evidence is too large'' in
           rbind (as_array e v) (\<lambda>xs.
           rbind (check (int (length xs) \<le> 16) e) (\<lambda>_.
           rbind (rtraverse (parseInputIdentifier label) xs) (\<lambda>parsed.
           Inr (js_sort compareCanonicalStrings (js_set parsed))))))"

definition safe_integer_from :: "int \<Rightarrow> js_error \<Rightarrow> jsvalue \<Rightarrow> int result" where
  "safe_integer_from least e v =
     (case v of VNum n \<Rightarrow> if is_safe_integer v \<and> least \<le> n then Inr n else Inl e | _ \<Rightarrow> Inl e)"

definition parseNewNudgeDelivery :: "(string \<Rightarrow> string) \<Rightarrow> jsvalue \<Rightarrow> new_delivery result" where
  "parseNewNudgeDelivery sha256 input =
     rbind (ownedPlainObject input) (\<lambda>value.
     rbind (parseInputIdentifier ''runId'' (getp value ''runId'')) (\<lambda>runId.
     rbind (parseInputIdentifier ''policyVersion'' (getp value ''policyVersion'')) (\<lambda>policyVersion.
     rbind (assertNudgePolicyVersion policyVersion) (\<lambda>_.
     rbind (parseInputIdentifier ''occurrenceId'' (getp value ''occurrenceId'')) (\<lambda>occurrence.
     rbind (parseInputIdentifier ''checkpointId'' (getp value ''checkpointId'')) (\<lambda>checkpointId.
     rbind (as_string (KiokukoError VALIDATION_ERROR ''Invalid nudge code'') (getp value ''code'')) (\<lambda>codeText.
     rbind (assertNudgeCode codeText) (\<lambda>code.
     rbind (safe_integer_from 0 (KiokukoError VALIDATION_ERROR ''throughSequence must be a non-negative safe integer'')
              (getp value ''throughSequence'')) (\<lambda>through.
     rbind (safe_integer_from 1 (KiokukoError VALIDATION_ERROR ''priority must be a positive safe integer'')
              (getp value ''priority'')) (\<lambda>priority.
     rbind (check (priority = NUDGE_PRIORITY code)
              (KiokukoError VALIDATION_ERROR ''priority does not match nudge code'')) (\<lambda>_.
     rbind (validateTimestamp ''deliveredAt'' (getp value ''deliveredAt'')) (\<lambda>deliveredAt.
     rbind (inputIdList ''evidenceEventId'' (getp value ''evidenceEventIds'')) (\<lambda>evidence.
     rbind (inputIdList ''referenceId'' (getp value ''referenceIds'')) (\<lambda>references.
     rbind (canonicalContentHash sha256
              (VObj [(''policyVersion'', VStr policyVersion), (''runId'', VStr runId),
                     (''occurrenceId'', VStr occurrence)])) (\<lambda>i.
     Inr \<lparr>nw_id = i, nw_runId = runId, nw_policyVersion = policyVersion, nw_code = code,
          nw_occurrenceId = occurrence, nw_checkpointId = checkpointId, nw_throughSequence = through,
          nw_priority = priority, nw_evidenceEventIds = evidence, nw_referenceIds = references,
          nw_deliveredAt = deliveredAt\<rparr>)))))))))))))))"

definition serializeNudgeDelivery :: "new_delivery \<Rightarrow> nudge_row" where
  "serializeNudgeDelivery d =
     \<lparr>nr_id = nw_id d, nr_run_id = nw_runId d, nr_policy_version = nw_policyVersion d,
      nr_code = nudge_text (nw_code d), nr_occurrence_id = nw_occurrenceId d,
      nr_checkpoint_id = nw_checkpointId d, nr_through_sequence = nw_throughSequence d,
      nr_priority = nw_priority d,
      nr_evidence_event_ids_json = stringifyBoundaryJson (VArr (map VStr (nw_evidenceEventIds d))),
      nr_reference_ids_json = stringifyBoundaryJson (VArr (map VStr (nw_referenceIds d))),
      nr_delivered_at = nw_deliveredAt d\<rparr>"

text \<open>
  The constraints of the table in \<open>src/migrations/001_initial.sql\<close>: the trigger
  \<open>nudge_deliveries_integrity_insert\<close>, which runs before them, the checked columns, the primary
  key, the two unique keys and the reference to the run.
\<close>

definition between :: "int \<Rightarrow> int \<Rightarrow> string \<Rightarrow> bool" where
  "between lo hi s = (lo \<le> int (length s) \<and> int (length s) \<le> hi)"

definition nudge_columns_ok :: "nudge_row \<Rightarrow> bool" where
  "nudge_columns_ok row =
     (between 1 100 (nr_policy_version row) \<and> between 1 100 (nr_code row)
      \<and> between 1 256 (nr_occurrence_id row) \<and> between 1 256 (nr_checkpoint_id row)
      \<and> 0 \<le> nr_through_sequence row \<and> 1 \<le> nr_priority row
      \<and> json_parse (nr_evidence_event_ids_json row) \<noteq> None
      \<and> json_parse (nr_reference_ids_json row) \<noteq> None)"

definition short_json_array :: "string \<Rightarrow> bool" where
  "short_json_array t = (case json_parse t of Some (VArr xs) \<Rightarrow> length xs \<le> 16 | _ \<Rightarrow> False)"

definition nudge_trigger_ok :: "nudge_row \<Rightarrow> bool" where
  "nudge_trigger_ok row =
     (nr_policy_version row = ''nudges.v1''
      \<and> (nr_code row, nr_priority row) \<in> {(''SIDE_EFFECT_OUTCOME_UNKNOWN'', 2), (''UNRESOLVED_FAILURE'', 3), (''VERIFY_AFTER_MUTATION'', 4)}
      \<and> short_json_array (nr_evidence_event_ids_json row) \<and> short_json_array (nr_reference_ids_json row))"

definition insert_nudge_row :: "nudge_row \<Rightarrow> nudge_db \<Rightarrow> unit result \<times> nudge_db" where
  "insert_nudge_row row db =
     (let same = (\<lambda>r. nr_run_id r = nr_run_id row \<and> nr_policy_version r = nr_policy_version row) in
      if \<not> nudge_trigger_ok row then (Inl (SqliteError 1811 ''invalid nudge delivery''), db)
      else if \<not> nudge_columns_ok row then (Inl (SqliteError 275 ''CHECK constraint failed: nudge_deliveries''), db)
      else if list_ex (\<lambda>r. nr_id r = nr_id row) (nd_rows db)
      then (Inl (SqliteError 1555 ''UNIQUE constraint failed: nudge_deliveries.id''), db)
      else if list_ex (\<lambda>r. same r \<and> nr_occurrence_id r = nr_occurrence_id row) (nd_rows db)
      then (Inl (SqliteError 2067 ''UNIQUE constraint failed: nudge_deliveries.run_id, nudge_deliveries.policy_version, nudge_deliveries.occurrence_id''), db)
      else if list_ex (\<lambda>r. same r \<and> nr_checkpoint_id r = nr_checkpoint_id row) (nd_rows db)
      then (Inl (SqliteError 2067 ''UNIQUE constraint failed: nudge_deliveries.run_id, nudge_deliveries.policy_version, nudge_deliveries.checkpoint_id''), db)
      else if nr_run_id row \<notin> set (nd_runs db)
      then (Inl (SqliteError 787 ''FOREIGN KEY constraint failed''), db)
      else (Inr (), db\<lparr>nd_rows := nd_rows db @ [row]\<rparr>))"

definition insertNudgeDelivery :: "nudge_row \<Rightarrow> nudge_db \<Rightarrow> unit result \<times> nudge_db" where
  "insertNudgeDelivery row db =
     (case insert_nudge_row row db of
        (Inl e, db') \<Rightarrow>
          (if isSqliteUniqueConstraintError e
                [''nudge_deliveries.id'',
                 ''nudge_deliveries.run_id, nudge_deliveries.policy_version, nudge_deliveries.occurrence_id'',
                 ''nudge_deliveries.run_id, nudge_deliveries.policy_version, nudge_deliveries.checkpoint_id'']
           then (Inl (KiokukoError CONFLICT ''Nudge delivery already exists''), db')
           else (Inl e, db'))
      | (Inr u, db') \<Rightarrow> (Inr u, db'))"

definition deliveredValue :: "stored_delivery \<Rightarrow> delivered_nudge" where
  "deliveredValue v =
     \<lparr>dn_occurrenceId = hi_occurrenceId v, dn_code = hi_code v, dn_message = NUDGE_MESSAGES (hi_code v),
      dn_evidenceEventIds = sd_evidenceEventIds v, dn_referenceIds = sd_referenceIds v,
      dn_priority = sd_priority v, dn_policyVersion = sd_policyVersion v\<rparr>"

text \<open>A row as the query returns it.\<close>

definition nudge_row_value :: "nudge_row \<Rightarrow> jsvalue" where
  "nudge_row_value r =
     VObj [(''id'', VStr (nr_id r)), (''policy_version'', VStr (nr_policy_version r)),
           (''code'', VStr (nr_code r)), (''occurrence_id'', VStr (nr_occurrence_id r)),
           (''checkpoint_id'', VStr (nr_checkpoint_id r)), (''through_sequence'', VNum (nr_through_sequence r)),
           (''priority'', VNum (nr_priority r)),
           (''evidence_event_ids_json'', VStr (nr_evidence_event_ids_json r)),
           (''reference_ids_json'', VStr (nr_reference_ids_json r)), (''delivered_at'', VStr (nr_delivered_at r))]"

definition readNudgeDeliveryForCheckpoint ::
    "jsvalue \<Rightarrow> jsvalue \<Rightarrow> jsvalue \<Rightarrow> nudge_db \<Rightarrow> delivered_nudge option result" where
  "readNudgeDeliveryForCheckpoint runId policyVersion checkpointId db =
     rbind (parseInputIdentifier ''runId'' runId) (\<lambda>run.
     rbind (parseInputIdentifier ''policyVersion'' policyVersion) (\<lambda>policy.
     rbind (assertNudgePolicyVersion policy) (\<lambda>_.
     rbind (parseInputIdentifier ''checkpointId'' checkpointId) (\<lambda>checkpoint.
     case find (\<lambda>r. nr_run_id r = run \<and> nr_checkpoint_id r = checkpoint) (nd_rows db) of
       None \<Rightarrow> Inr None
     | Some row \<Rightarrow>
         rbind (parseStoredNudgeDelivery (nudge_row_value row)) (\<lambda>stored.
         rbind (check (sd_policyVersion stored = policy)
                  (nudge_integrity ''Stored nudge policy identity is invalid'')) (\<lambda>_.
         rbind (check (hi_checkpointId stored = checkpoint)
                  (nudge_integrity ''Stored nudge checkpoint identity is invalid'')) (\<lambda>_.
         Inr (Some (deliveredValue stored)))))))))"

fun collect_history ::
    "string \<Rightarrow> nudge_row list \<Rightarrow> stored_delivery list \<Rightarrow> string list \<Rightarrow> (nudge_code \<times> int) list
       \<Rightarrow> (stored_delivery list \<times> string list \<times> (nudge_code \<times> int) list) result" where
  "collect_history policy [] historyRows delivered lasts = Inr (historyRows, delivered, lasts)"
| "collect_history policy (row # rows) historyRows delivered lasts =
     rbind (parseStoredNudgeDelivery (nudge_row_value row)) (\<lambda>value.
     rbind (check (sd_policyVersion value = policy)
              (nudge_integrity ''Stored nudge policy identity is invalid'')) (\<lambda>_.
     collect_history policy rows (historyRows @ [value]) (hi_occurrenceId value # delivered)
       (case map_of lasts (hi_code value) of
          None \<Rightarrow> (hi_code value, hi_throughSequence value) # lasts
        | Some previous \<Rightarrow>
            if hi_throughSequence value > previous then (hi_code value, hi_throughSequence value) # lasts else lasts)))"

definition history_rows :: "string \<Rightarrow> nudge_db \<Rightarrow> nudge_row list" where
  "history_rows runId db =
     sort_key (\<lambda>r. (nr_through_sequence r, nr_code r, nr_occurrence_id r, nr_id r))
       (filter (\<lambda>r. nr_run_id r = runId) (nd_rows db))"

definition readNudgeHistory :: "jsvalue \<Rightarrow> jsvalue \<Rightarrow> nudge_db \<Rightarrow> nudge_history result" where
  "readNudgeHistory runId policyVersion db =
     rbind (parseInputIdentifier ''runId'' runId) (\<lambda>run.
     rbind (parseInputIdentifier ''policyVersion'' policyVersion) (\<lambda>policy.
     rbind (assertNudgePolicyVersion policy) (\<lambda>_.
     let rows = history_rows run db in
     rbind (collect_history policy rows [] [] []) (\<lambda>(historyRows, delivered, lasts).
     rbind (validateStoredNudgeHistory historyRows DEFAULT_NUDGE_RATE_LIMIT) (\<lambda>_.
     Inr \<lparr>deliveredOccurrenceIds = delivered, runDeliveryCount = int (length rows),
          lastSequenceByCode = lasts\<rparr>)))))"

definition recordNudgeDeliveryInTransaction ::
    "(string \<Rightarrow> string) \<Rightarrow> jsvalue \<Rightarrow> nudge_db \<Rightarrow> unit result \<times> nudge_db" where
  "recordNudgeDeliveryInTransaction sha256 input db =
     (case parseNewNudgeDelivery sha256 input of
        Inl e \<Rightarrow> (Inl e, db)
      | Inr delivery \<Rightarrow> insertNudgeDelivery (serializeNudgeDelivery delivery) db)"

end
