(* ===== verification/Json_Columns.thy ===== *)
theory Json_Columns
  imports Json_Reader
begin

text \<open>
  Columns that hold an array of short strings: their canonical text is the plain serialization, and
  it reads back as the same array.
\<close>

lemma code_units_range: "u \<in> set (code_units s) \<Longrightarrow> 0 \<le> u \<and> u < 256"
  by (auto simp: code_units_def of_char_def)

lemma well_formed_narrow: "list_all (\<lambda>u. u < 256) us \<Longrightarrow> isWellFormedUnicode us"
  by (induction us) auto

lemma narrow_strings_well_formed [simp]: "isWellFormedUnicode (code_units s)"
  using code_units_range by (auto intro!: well_formed_narrow simp: list_all_iff)

lemma utf8_length_narrow: "list_all (\<lambda>u. u < 256) us \<Longrightarrow> utf8_length us \<le> 2 * int (length us)"
  by (induction us) auto

lemma byteLength_le: "byteLength s \<le> 2 * int (length s)"
proof -
  have "list_all (\<lambda>u. u < 256) (code_units s)"
    using code_units_range by (auto simp: list_all_iff)
  then show ?thesis
    using utf8_length_narrow [of "code_units s"] by (simp add: byteLength_def code_units_def)
qed

lemma cloneItems_strings:
  assumes "nodes b + int (length ss) \<le> maximumNodes opt"
    and "stringBytes b + 2 * (\<Sum>s\<leftarrow>ss. int (length s)) \<le> maximumStringBytes opt"
  shows "\<exists>b'. cloneItems opt depth (map VStr ss) b = Inr (map VStr ss, b')"
  using assms
proof (induction ss arbitrary: b)
  case Nil
  then show ?case by simp
next
  case (Cons s ss)
  have ge: "0 \<le> (\<Sum>s\<leftarrow>ss. int (length s))"
    by (rule sum_list_nonneg) auto
  let ?b = "b\<lparr>nodes := nodes b + 1, stringBytes := stringBytes b + byteLength s\<rparr>"
  have "\<exists>b'. cloneItems opt depth (map VStr ss) ?b = Inr (map VStr ss, b')"
    by (rule Cons.IH) (use Cons.prems byteLength_le [of s] in auto)
  with Cons.prems ge show ?case
    using byteLength_le [of s] by (auto simp: spend_node_def spend_string_def Let_def)
qed

text \<open>The bound on a column of identifiers: few strings, each of at most 256 code units.\<close>

definition short_strings :: "string list \<Rightarrow> bool" where
  "short_strings ss = (length ss \<le> 4096 \<and> list_all (\<lambda>s. length s \<le> 256) ss)"

lemma short_strings_total: "list_all (\<lambda>s. length s \<le> 256) ss \<Longrightarrow> (\<Sum>s\<leftarrow>ss. int (length s)) \<le> 256 * int (length ss)"
  by (induction ss) auto

lemma canonicalJson_strings:
  assumes "short_strings ss"
  shows "canonicalJson (VArr (map VStr ss)) = Inr (stringifyBoundaryJson (VArr (map VStr ss)))"
proof -
  let ?b = "\<lparr>nodes = 1, stringBytes = 0\<rparr>"
  have "(\<Sum>s\<leftarrow>ss. int (length s)) \<le> 256 * 4096" and "int (length ss) \<le> 4096"
    using short_strings_total [of ss] assms by (auto simp: short_strings_def)
  then have "\<exists>b'. cloneItems canonical_options 1 (map VStr ss) ?b = Inr (map VStr ss, b')"
    by (intro cloneItems_strings) (simp_all add: canonical_options_def MAX_SAFE_INTEGER_def)
  then show ?thesis
    by (auto simp: canonicalJson_def spend_node_def Let_def canonical_options_def MAX_SAFE_INTEGER_def)
qed

inductive_cases same_json_StrE: "same_json (VStr s) w"
inductive_cases same_json_ArrE: "same_json (VArr xs) w"

lemma same_json_strings: "same_json (VArr (map VStr ss)) w \<Longrightarrow> w = VArr (map VStr ss)"
proof (erule same_json_ArrE)
  fix ys assume w: "w = VArr ys" and "list_all2 same_json (map VStr ss) ys"
  then have "list_all2 (\<lambda>s y. y = VStr s) ss ys"
    by (auto simp: list_all2_map1 elim!: list_all2_mono same_json_StrE)
  then have "ys = map VStr ss"
    by (induction rule: list_all2_induct) auto
  with w show ?thesis by simp
qed simp

lemma json_parse_strings: "json_parse (stringifyBoundaryJson (VArr (map VStr ss))) = Some (VArr (map VStr ss))"
proof -
  have "json_ok (VArr (map VStr ss))" by (simp add: list_all_iff)
  from json_parse_stringify [OF this] show ?thesis
    using same_json_strings by blast
qed

end
