(* ===== verification/Nudge_Delivery.thy ===== *)
theory Nudge_Delivery
  imports Nudges Json_Columns
begin

text \<open>
  Correctness of the nudge policy: selection takes the least eligible candidate; the loop over the
  stored history is equivalent to a declarative limit; a recorded delivery reads back as it was
  given; and delivering what was selected from the history keeps every history readable and within
  its limits.
\<close>

section \<open>Comparators\<close>

interpretation candidate_order:
  keyed_comparator compareNudgeCandidates "\<lambda>c. (nc_priority c, nudge_text (nc_code c), nc_occurrenceId c)"
  by unfold_locales
    (auto simp: compareNudgeCandidates_def cmp_or_def compareCanonicalStrings_def less_prod_def)

interpretation history_order:
  keyed_comparator compareHistoryItems
    "\<lambda>h. (hi_throughSequence h, nudge_text (hi_code h), hi_occurrenceId h, hi_checkpointId h)"
  by unfold_locales
    (auto simp: compareHistoryItems_def cmp_or_def compareCanonicalStrings_def less_prod_def)

section \<open>Selection\<close>

lemma selectNudge_SomeD:
  assumes "selectNudge cs h t p = Some c"
  shows "c \<in> set cs \<and> eligible_nudge h t p c \<and> runDeliveryCount h < maxPerRun p \<and> 1 \<le> maxPerResponse p
    \<and> (\<forall>d \<in> set cs. eligible_nudge h t p d \<longrightarrow> compareNudgeCandidates c d \<le> 0)"
proof -
  let ?es = "filter (eligible_nudge h t p) cs"
  obtain rest where s: "js_sort compareNudgeCandidates ?es = c # rest"
    and l: "runDeliveryCount h < maxPerRun p" "1 \<le> maxPerResponse p"
    using assms by (auto simp: selectNudge_def split: if_splits list.splits)
  have "c \<in> set ?es"
    using s set_js_sort [of compareNudgeCandidates ?es] by auto
  moreover have "compareNudgeCandidates c d \<le> 0" if "d \<in> set ?es" for d
    using candidate_order.js_sort_hd_least [OF that] s by simp
  ultimately show ?thesis using l by auto
qed

lemma selectNudge_None:
  "selectNudge cs h t p = None \<longleftrightarrow>
     maxPerResponse p < 1 \<or> maxPerRun p \<le> runDeliveryCount h \<or> \<not> list_ex (eligible_nudge h t p) cs"
proof -
  have "js_sort compareNudgeCandidates (filter (eligible_nudge h t p) cs) = []
      \<longleftrightarrow> \<not> list_ex (eligible_nudge h t p) cs"
    by (simp add: filter_empty_conv list_ex_iff)
  then show ?thesis
    unfolding selectNudge_def by (cases "js_sort compareNudgeCandidates (filter (eligible_nudge h t p) cs)") (auto simp: js_sort_def)
qed

section \<open>The history limit\<close>

definition item_ok :: "'a history_item_scheme \<Rightarrow> bool" where
  "item_ok r =
     (valid_identifier_text (hi_occurrenceId r) \<and> valid_identifier_text (hi_checkpointId r)
      \<and> is_safe_integer (VNum (hi_throughSequence r)) \<and> 0 \<le> hi_throughSequence r)"

definition apart :: "int \<Rightarrow> 'a history_item_scheme \<Rightarrow> 'a history_item_scheme \<Rightarrow> bool" where
  "apart d r s = (hi_code r = hi_code s \<longrightarrow> d \<le> \<bar>hi_throughSequence r - hi_throughSequence s\<bar>)"

definition history_ok :: "'a history_item_scheme list \<Rightarrow> rate_limit \<Rightarrow> bool" where
  "history_ok rows policy =
     (int (length rows) \<le> maxPerRun policy \<and> list_all item_ok rows
      \<and> distinct (map hi_occurrenceId rows) \<and> distinct (map hi_checkpointId rows)
      \<and> sorted_wrt (apart (minSequenceDistancePerCode policy)) rows)"

definition policy_ok :: "rate_limit \<Rightarrow> bool" where
  "policy_ok p =
     (is_safe_integer (VNum (maxPerRun p)) \<and> 0 \<le> maxPerRun p
      \<and> is_safe_integer (VNum (minSequenceDistancePerCode p)) \<and> 0 \<le> minSequenceDistancePerCode p
      \<and> maxPerResponse p = 1)"

lemma sorted_wrt_symmetric_middle:
  assumes "\<And>x y. P x y \<Longrightarrow> P y x"
  shows "sorted_wrt P (as @ x # bs) \<longleftrightarrow> sorted_wrt P (as @ bs) \<and> (\<forall>y \<in> set as \<union> set bs. P x y)"
  using assms by (auto simp: sorted_wrt_append)

lemma sorted_wrt_symmetric_mset:
  assumes sym: "\<And>x y. P x y \<Longrightarrow> P y x"
  shows "mset xs = mset ys \<Longrightarrow> sorted_wrt P xs \<longleftrightarrow> sorted_wrt P ys"
proof (induction xs arbitrary: ys)
  case Nil
  then show ?case by simp
next
  case (Cons x xs)
  have "x \<in> set ys"
    using Cons.prems by (metis list.set_intros(1) mset_eq_setD)
  then obtain as bs where ys: "ys = as @ x # bs" by (auto dest: split_list)
  with Cons.prems have m: "mset xs = mset (as @ bs)" by simp
  then have "set xs = set as \<union> set bs" by (metis mset_eq_setD set_append)
  with Cons.IH [OF m] show ?case
    using sorted_wrt_symmetric_middle [of P as x bs] sym unfolding ys by auto
qed

lemma apart_sym: "apart d r s \<Longrightarrow> apart d s r"
  by (auto simp: apart_def abs_minus_commute)

lemma history_ok_mset:
  assumes "mset xs = mset ys"
  shows "history_ok xs p = history_ok ys p"
proof -
  have "length xs = length ys" and "set xs = set ys"
    using assms by (auto dest: mset_eq_length mset_eq_setD)
  moreover have "distinct (map f xs) = distinct (map f ys)" for f :: "'a history_item_scheme \<Rightarrow> string"
    using assms by (intro mset_eq_imp_distinct_iff) simp
  moreover have "sorted_wrt (apart (minSequenceDistancePerCode p)) xs
      = sorted_wrt (apart (minSequenceDistancePerCode p)) ys"
    using apart_sym assms by (rule sorted_wrt_symmetric_mset)
  ultimately show ?thesis by (simp add: history_ok_def list_all_iff)
qed

text \<open>The distances the loop checks, stated for the remaining rows.\<close>

definition far_from :: "int \<Rightarrow> (nudge_code \<times> int) list \<Rightarrow> 'a history_item_scheme \<Rightarrow> bool" where
  "far_from d lasts r = (case map_of lasts (hi_code r) of None \<Rightarrow> True | Some p \<Rightarrow> d \<le> hi_throughSequence r - p)"

lemma far_from_step:
  assumes "0 \<le> d" and "far_from d lasts row" and "\<And>r. r \<in> set rows \<Longrightarrow> hi_throughSequence row \<le> hi_throughSequence r"
  shows "list_all (far_from d ((hi_code row, hi_throughSequence row) # lasts)) rows
    \<longleftrightarrow> list_all (far_from d lasts) rows \<and> list_all (apart d row) rows"
proof -
  have "far_from d ((hi_code row, hi_throughSequence row) # lasts) r \<longleftrightarrow> far_from d lasts r \<and> apart d row r"
    if "r \<in> set rows" for r
    using assms(1,2) assms(3) [OF that] by (auto simp: far_from_def apart_def split: option.splits)
  then show ?thesis by (auto simp: list_all_iff)
qed

lemma check_history_iff:
  assumes "0 \<le> d" and "sorted (map hi_throughSequence rows)"
  shows "check_history d os cs lasts rows = Inr () \<longleftrightarrow>
    list_all item_ok rows \<and> distinct (map hi_occurrenceId rows) \<and> hi_occurrenceId ` set rows \<inter> set os = {}
    \<and> distinct (map hi_checkpointId rows) \<and> hi_checkpointId ` set rows \<inter> set cs = {}
    \<and> list_all (far_from d lasts) rows \<and> sorted_wrt (apart d) rows"
  using assms(2)
proof (induction rows arbitrary: os cs lasts)
  case Nil
  then show ?case by simp
next
  case (Cons row rows)
  have s: "sorted (map hi_throughSequence rows)"
    and le: "\<And>r. r \<in> set rows \<Longrightarrow> hi_throughSequence row \<le> hi_throughSequence r"
    using Cons.prems by auto
  have f: "(case map_of lasts (hi_code row) of None \<Rightarrow> True
      | Some previous \<Rightarrow> \<not> hi_throughSequence row - previous < d) = far_from d lasts row"
    by (auto simp: far_from_def split: option.splits)
  have "check_history d os cs lasts (row # rows) = Inr () \<longleftrightarrow>
      item_ok row \<and> hi_occurrenceId row \<notin> set os \<and> hi_checkpointId row \<notin> set cs \<and> far_from d lasts row
      \<and> check_history d (hi_occurrenceId row # os) (hi_checkpointId row # cs)
          ((hi_code row, hi_throughSequence row) # lasts) rows = Inr ()"
    unfolding check_history.simps f item_ok_def [symmetric] by (auto simp: rbind_eq_Inr)
  also have "\<dots> \<longleftrightarrow> list_all item_ok (row # rows)
      \<and> distinct (map hi_occurrenceId (row # rows)) \<and> hi_occurrenceId ` set (row # rows) \<inter> set os = {}
      \<and> distinct (map hi_checkpointId (row # rows)) \<and> hi_checkpointId ` set (row # rows) \<inter> set cs = {}
      \<and> list_all (far_from d lasts) (row # rows) \<and> sorted_wrt (apart d) (row # rows)"
    unfolding Cons.IH [OF s]
    using far_from_step [OF assms(1) _ le, of lasts] by (auto simp: list_all_iff)
  finally show ?case .
qed

lemma history_sorted: "sorted (map hi_throughSequence (js_sort compareHistoryItems rows))"
proof -
  have "sorted_wrt (\<lambda>a b. compareHistoryItems a b \<le> 0) (js_sort compareHistoryItems rows)"
    by (rule history_order.js_sort_sorted)
  then have "sorted_wrt (\<lambda>a b. hi_throughSequence a \<le> hi_throughSequence b) (js_sort compareHistoryItems rows)"
    by (rule sorted_wrt_mono_rel [rotated]) (auto simp: history_order.cmp_le less_eq_prod_def)
  then show ?thesis by (simp add: sorted_map)
qed

lemma validate_history_iff:
  "validateStoredNudgeHistory rows p = Inr () \<longleftrightarrow> policy_ok p \<and> history_ok rows p"
proof -
  let ?s = "js_sort compareHistoryItems rows"
  have "validateStoredNudgeHistory rows p = Inr () \<longleftrightarrow> policy_ok p \<and> int (length rows) \<le> maxPerRun p
      \<and> check_history (minSequenceDistancePerCode p) [] [] [] ?s = Inr ()"
    unfolding validateStoredNudgeHistory_def policy_ok_def [symmetric] by (auto simp: rbind_eq_Inr)
  also have "\<dots> \<longleftrightarrow> policy_ok p \<and> history_ok ?s p"
  proof (cases "policy_ok p")
    case True
    then have "0 \<le> minSequenceDistancePerCode p" by (simp add: policy_ok_def)
    from check_history_iff [OF this history_sorted] show ?thesis
      by (auto simp: history_ok_def far_from_def list_all_iff)
  qed simp
  also have "history_ok ?s p = history_ok rows p"
    by (rule history_ok_mset) simp
  finally show ?thesis .
qed

section \<open>Stored rows\<close>

declare stringifyBoundaryJson.simps [simp del]

lemma nudge_priority_safe [simp]: "is_safe_integer (VNum (NUDGE_PRIORITY c))" "0 \<le> NUDGE_PRIORITY c"
  by (cases c; simp add: MAX_SAFE_INTEGER_def)+

lemma adjacent_ordered_sorted: "sorted xs \<Longrightarrow> adjacent_ordered xs"
  by (induction xs rule: adjacent_ordered.induct) (auto simp: canonical_strings.cmp_pos)

lemma identifier_or_Inr: "identifier_or e v = Inr s \<longleftrightarrow> v = VStr s \<and> valid_identifier_text s"
  by (auto simp: identifier_or_def rbind_eq_Inr)

lemma inputIdList_ids:
  assumes "inputIdList label v = Inr ids"
  shows "sorted ids \<and> distinct ids \<and> length ids \<le> 16 \<and> list_all valid_identifier_text ids"
proof (cases "v = VUndefined")
  case True
  with assms show ?thesis by (simp add: inputIdList_def)
next
  case False
  then obtain xs parsed where "int (length xs) \<le> 16"
      and r: "rtraverse (parseInputIdentifier label) xs = Inr parsed"
      and ids: "ids = js_sort compareCanonicalStrings (js_set parsed)"
    using assms by (auto simp: inputIdList_def Let_def rbind_eq_Inr)
  moreover have "list_all valid_identifier_text parsed"
    using rtraverse_memD [OF r] by (auto simp: list_all_iff parseInputIdentifier_def identifier_or_Inr)
  moreover have "sorted ids"
    by (simp add: ids canonical_strings.js_sort_sort_key)
  ultimately show ?thesis
    using rtraverse_length [OF r] length_js_set_le [of parsed] by (auto simp: list_all_iff)
qed

lemma parseStoredIdList_written:
  assumes "sorted ids" "distinct ids" "length ids \<le> 16" "list_all valid_identifier_text ids"
  shows "parseStoredIdList label (VStr (stringifyBoundaryJson (VArr (map VStr ids)))) = Inr ids"
proof -
  have "short_strings ids"
    using assms(3,4) by (auto simp: short_strings_def list_all_iff valid_identifier_text_def)
  moreover have "rtraverse (parseStoredIdentifier label) (map VStr ids) = Inr ids"
    using assms(4)
    by (auto simp: rtraverse_Inr_iff list_all2_map1 parseStoredIdentifier_def identifier_or_Inr list_all_iff
        intro!: list_all2_same [THEN iffD2])
  ultimately show ?thesis
    using assms by (simp add: parseStoredIdList_def json_parse_strings canonicalJson_strings adjacent_ordered_sorted
        Let_def)
qed

definition stored_of :: "new_delivery \<Rightarrow> stored_delivery" where
  "stored_of d =
     \<lparr>hi_occurrenceId = nw_occurrenceId d, hi_checkpointId = nw_checkpointId d, hi_code = nw_code d,
      hi_throughSequence = nw_throughSequence d, sd_id = nw_id d, sd_policyVersion = nw_policyVersion d,
      sd_priority = nw_priority d, sd_evidenceEventIds = nw_evidenceEventIds d,
      sd_referenceIds = nw_referenceIds d, sd_deliveredAt = nw_deliveredAt d\<rparr>"

definition delivery_ok :: "new_delivery \<Rightarrow> bool" where
  "delivery_ok d =
     (item_ok (stored_of d) \<and> nw_policyVersion d = NUDGE_POLICY_VERSION
      \<and> nw_priority d = NUDGE_PRIORITY (nw_code d) \<and> isCanonicalTimestamp (nw_deliveredAt d)
      \<and> sorted (nw_evidenceEventIds d) \<and> distinct (nw_evidenceEventIds d) \<and> length (nw_evidenceEventIds d) \<le> 16
      \<and> list_all valid_identifier_text (nw_evidenceEventIds d)
      \<and> sorted (nw_referenceIds d) \<and> distinct (nw_referenceIds d) \<and> length (nw_referenceIds d) \<le> 16
      \<and> list_all valid_identifier_text (nw_referenceIds d))"

lemma safe_integer_from_Inr: "safe_integer_from n e v = Inr k \<longleftrightarrow> v = VNum k \<and> is_safe_integer v \<and> n \<le> k"
  by (auto simp: safe_integer_from_def split: jsvalue.splits)

lemma nudge_code_text [simp]: "map_of NUDGE_CODES (nudge_text c) = Some c"
  by (cases c) (simp_all add: NUDGE_CODES_def)

lemma nudge_code_of: "map_of NUDGE_CODES s = Some c \<Longrightarrow> s = nudge_text c"
  by (auto simp: NUDGE_CODES_def split: if_splits)

lemma parseNew_ok:
  assumes "parseNewNudgeDelivery sha256 input = Inr d"
  shows "delivery_ok d \<and> (\<exists>t. nw_id d = sha256 t) \<and> valid_identifier_text (nw_runId d)"
  using assms inputIdList_ids
  by (auto simp: parseNewNudgeDelivery_def rbind_eq_Inr parseInputIdentifier_def identifier_or_Inr
      safe_integer_from_Inr assertNudgePolicyVersion_def delivery_ok_def item_ok_def stored_of_def
      validateTimestamp_def canonicalContentHash_def Let_def split: if_splits)

lemma timestamp_shape: "isCanonicalTimestamp s \<Longrightarrow> length s = 24 \<and> match_here timestamp_pattern s"
  by (simp add: isCanonicalTimestamp_def)

lemma row_reads_back:
  assumes "delivery_ok d" and "valid_identifier_text (nw_id d)"
  shows "parseStoredNudgeDelivery (nudge_row_value (serializeNudgeDelivery d)) = Inr (stored_of d)"
  using assms timestamp_shape [of "nw_deliveredAt d"]
  by (simp del: is_safe_integer.simps add: parseStoredNudgeDelivery_def nudge_row_value_def serializeNudgeDelivery_def getp_def
      parseStoredNudgeCode_def as_enum_def parseStoredSequence_def parseStoredIdentifier_def identifier_or_def
      parseStoredPolicyVersion_def isNudgePolicyVersion_def parseStoredTimestamp_def delivery_ok_def item_ok_def
      stored_of_def parseStoredIdList_written)

section \<open>Reading a history\<close>

abbreviation read_row :: "nudge_row \<Rightarrow> stored_delivery result" where
  "read_row r \<equiv> parseStoredNudgeDelivery (nudge_row_value r)"

lemma read_row_columns:
  "read_row r = Inr v \<Longrightarrow> hi_checkpointId v = nr_checkpoint_id r \<and> hi_occurrenceId v = nr_occurrence_id r
     \<and> nr_policy_version r = NUDGE_POLICY_VERSION \<and> sd_policyVersion v = NUDGE_POLICY_VERSION"
  by (auto simp: parseStoredNudgeDelivery_def nudge_row_value_def rbind_eq_Inr getp_def parseStoredIdentifier_def
      identifier_or_Inr parseStoredPolicyVersion_def isNudgePolicyVersion_def)

lemma collect_history_Inr:
  assumes "collect_history policy rows hs ds ls = Inr (hs', ds', ls')"
  shows "\<exists>vs. rtraverse read_row rows = Inr vs \<and> hs' = hs @ vs \<and> set ds' = set ds \<union> hi_occurrenceId ` set vs
    \<and> (\<forall>c p. map_of ls c = Some p \<longrightarrow> (\<exists>q \<ge> p. map_of ls' c = Some q))
    \<and> (\<forall>v \<in> set vs. \<exists>q \<ge> hi_throughSequence v. map_of ls' (hi_code v) = Some q)"
  using assms
proof (induction rows arbitrary: hs ds ls)
  case Nil
  then show ?case by auto
next
  case (Cons row rows)
  obtain v where v: "read_row row = Inr v"
    using Cons.prems by (auto simp: rbind_eq_Inr)
  define ls1 where "ls1 = (case map_of ls (hi_code v) of
      None \<Rightarrow> (hi_code v, hi_throughSequence v) # ls
    | Some previous \<Rightarrow>
        if hi_throughSequence v > previous then (hi_code v, hi_throughSequence v) # ls else ls)"
  have "collect_history policy rows (hs @ [v]) (hi_occurrenceId v # ds) ls1 = Inr (hs', ds', ls')"
    using Cons.prems v by (auto simp: rbind_eq_Inr ls1_def)
  from Cons.IH [OF this] obtain vs where vs: "rtraverse read_row rows = Inr vs" "hs' = (hs @ [v]) @ vs"
      "set ds' = set (hi_occurrenceId v # ds) \<union> hi_occurrenceId ` set vs"
    and mono: "\<forall>c p. map_of ls1 c = Some p \<longrightarrow> (\<exists>q \<ge> p. map_of ls' c = Some q)"
    and up: "\<forall>v \<in> set vs. \<exists>q \<ge> hi_throughSequence v. map_of ls' (hi_code v) = Some q"
    by blast
  have step: "\<exists>q \<ge> p. map_of ls1 c = Some q" if "map_of ls c = Some p" for c p
    using that by (auto simp: ls1_def split: option.splits)
  have "\<exists>q \<ge> hi_throughSequence v. map_of ls1 (hi_code v) = Some q"
    by (auto simp: ls1_def split: option.splits)
  with mono have new: "\<exists>q \<ge> hi_throughSequence v. map_of ls' (hi_code v) = Some q"
    by (meson order_trans)
  have old: "\<exists>q \<ge> p. map_of ls' c = Some q" if "map_of ls c = Some p" for c p
    using step [OF that] mono by (meson order_trans)
  show ?case
    by (rule exI [of _ "v # vs"]) (use v vs up new old in auto)
qed

lemma collect_history_total:
  assumes "rtraverse read_row rows = Inr vs"
  shows "\<exists>ds' ls'. collect_history NUDGE_POLICY_VERSION rows hs ds ls = Inr (hs @ vs, ds', ls')"
  using assms
proof (induction rows arbitrary: vs hs ds ls)
  case Nil
  then show ?case by auto
next
  case (Cons row rows)
  then obtain v ws where "read_row row = Inr v" "rtraverse read_row rows = Inr ws" "vs = v # ws"
    by (auto simp: rbind_eq_Inr)
  with Cons.IH [of ws "hs @ [v]"] show ?case
    by (simp add: read_row_columns)
qed

definition history_of :: "string \<Rightarrow> nudge_db \<Rightarrow> stored_delivery list \<Rightarrow> bool" where
  "history_of run db vs = (rtraverse read_row (history_rows run db) = Inr vs)"

lemma default_policy_ok [simp]: "policy_ok DEFAULT_NUDGE_RATE_LIMIT"
  by (simp add: policy_ok_def DEFAULT_NUDGE_RATE_LIMIT_def MAX_SAFE_INTEGER_def)

lemma policy_identifier [simp]: "valid_identifier_text NUDGE_POLICY_VERSION"
  by (simp add: valid_identifier_text_def NUDGE_POLICY_VERSION_def)

lemma readNudgeHistory_Inr:
  assumes "readNudgeHistory (VStr run) (VStr NUDGE_POLICY_VERSION) db = Inr h"
  shows "valid_identifier_text run \<and> (\<exists>vs. history_of run db vs \<and> history_ok vs DEFAULT_NUDGE_RATE_LIMIT
    \<and> runDeliveryCount h = int (length vs) \<and> set (deliveredOccurrenceIds h) = hi_occurrenceId ` set vs
    \<and> (\<forall>v \<in> set vs. \<exists>q \<ge> hi_throughSequence v. map_of (lastSequenceByCode h) (hi_code v) = Some q))"
proof -
  obtain vs ds ls where run: "valid_identifier_text run"
    and c: "collect_history NUDGE_POLICY_VERSION (history_rows run db) [] [] [] = Inr (vs, ds, ls)"
    and ok: "validateStoredNudgeHistory vs DEFAULT_NUDGE_RATE_LIMIT = Inr ()"
    and h: "h = \<lparr>deliveredOccurrenceIds = ds, runDeliveryCount = int (length (history_rows run db)),
        lastSequenceByCode = ls\<rparr>"
    using assms
    by (auto simp: readNudgeHistory_def rbind_eq_Inr parseInputIdentifier_def identifier_or_Inr Let_def)
  from collect_history_Inr [OF c] have t: "rtraverse read_row (history_rows run db) = Inr vs"
    and "set ds = hi_occurrenceId ` set vs"
    and "\<forall>v \<in> set vs. \<exists>q \<ge> hi_throughSequence v. map_of ls (hi_code v) = Some q"
    by auto
  moreover have "history_ok vs DEFAULT_NUDGE_RATE_LIMIT"
    using ok by (simp add: validate_history_iff)
  ultimately show ?thesis
    using run rtraverse_length [OF t] by (auto simp: h history_of_def)
qed

lemma readNudgeHistory_total:
  assumes "valid_identifier_text run" and "history_of run db vs" and "history_ok vs DEFAULT_NUDGE_RATE_LIMIT"
  shows "\<exists>h. readNudgeHistory (VStr run) (VStr NUDGE_POLICY_VERSION) db = Inr h"
proof -
  obtain ds ls where c: "collect_history NUDGE_POLICY_VERSION (history_rows run db) [] [] [] = Inr (vs, ds, ls)"
    using collect_history_total [of "history_rows run db" vs "[]" "[]" "[]"] assms(2) by (auto simp: history_of_def)
  have ok: "validateStoredNudgeHistory vs DEFAULT_NUDGE_RATE_LIMIT = Inr ()"
    using assms(3) by (simp add: validate_history_iff)
  show ?thesis
    by (simp add: readNudgeHistory_def parseInputIdentifier_def identifier_or_def assms(1)
        assertNudgePolicyVersion_def c ok)
qed

lemma history_of_insert:
  assumes "history_of run db vs" and "read_row row = Inr v" and "nr_run_id row = run"
    and "db' = db\<lparr>nd_rows := nd_rows db @ [row]\<rparr>"
  shows "\<exists>vs'. history_of run db' vs' \<and> mset vs' = add_mset v (mset vs)"
proof -
  have m: "mset (history_rows run db') = add_mset row (mset (history_rows run db))"
    using assms(3,4) by (simp add: history_rows_def)
  then have s: "set (history_rows run db') = insert row (set (history_rows run db))"
    by (metis set_mset_add_mset_insert set_mset_mset)
  let ?vs = "map (\<lambda>r. projr (read_row r)) (history_rows run db')"
  have "history_of run db' ?vs"
    using assms(1,2) s by (auto simp: history_of_def rtraverse_Inr_proj)
  moreover have "mset ?vs = image_mset (\<lambda>r. projr (read_row r)) (mset (history_rows run db'))"
    by simp
  then have "mset ?vs = add_mset v (mset vs)"
    using assms(1,2) m by (simp add: history_of_def rtraverse_Inr_proj)
  ultimately show ?thesis by blast
qed

lemma history_of_other:
  assumes "nr_run_id row \<noteq> run" and "db' = db\<lparr>nd_rows := nd_rows db @ [row]\<rparr>"
  shows "history_rows run db' = history_rows run db"
  using assms by (simp add: history_rows_def)

lemma insertNudgeDelivery_Inr:
  assumes "insertNudgeDelivery row db = (Inr u, db')"
  shows "db' = db\<lparr>nd_rows := nd_rows db @ [row]\<rparr> \<and>
    (\<forall>r \<in> set (nd_rows db). nr_run_id r = nr_run_id row \<and> nr_policy_version r = nr_policy_version row \<longrightarrow>
       nr_checkpoint_id r \<noteq> nr_checkpoint_id row)"
  using assms
  by (auto simp: insertNudgeDelivery_def insert_nudge_row_def Let_def list_ex_iff split: if_splits)

section \<open>Delivering a selected nudge\<close>

text \<open>The delivery a caller records for a selected candidate.\<close>

definition delivery_input :: "string \<Rightarrow> string \<Rightarrow> int \<Rightarrow> string \<Rightarrow> nudge_candidate \<Rightarrow> jsvalue" where
  "delivery_input run checkpoint through at c =
     (let d = buildDeliveredNudge c in
      VObj [(''runId'', VStr run), (''policyVersion'', VStr (dn_policyVersion d)),
            (''code'', VStr (nudge_text (dn_code d))), (''occurrenceId'', VStr (dn_occurrenceId d)),
            (''checkpointId'', VStr checkpoint), (''throughSequence'', VNum through),
            (''priority'', VNum (dn_priority d)), (''evidenceEventIds'', VArr (map VStr (dn_evidenceEventIds d))),
            (''referenceIds'', VArr (map VStr (dn_referenceIds d))), (''deliveredAt'', VStr at)])"

lemma parseNew_delivery_input:
  assumes "parseNewNudgeDelivery sha256 (delivery_input run checkpoint through at c) = Inr d"
  shows "nw_runId d = run \<and> nw_occurrenceId d = nc_occurrenceId c \<and> nw_code d = nc_code c
    \<and> nw_throughSequence d = through \<and> nw_checkpointId d = checkpoint"
  using assms
  by (auto simp: parseNewNudgeDelivery_def delivery_input_def buildDeliveredNudge_def Let_def ownedPlainObject_def
      rbind_eq_Inr getp_def parseInputIdentifier_def identifier_or_Inr safe_integer_from_Inr assertNudgeCode_def)

lemma selected_keeps_history:
  assumes ok: "history_ok vs DEFAULT_NUDGE_RATE_LIMIT" and v: "item_ok v"
    and count: "int (length vs) < 3" and occ: "hi_occurrenceId v \<notin> hi_occurrenceId ` set vs"
    and check: "hi_checkpointId v \<notin> hi_checkpointId ` set vs"
    and far: "\<And>w. w \<in> set vs \<Longrightarrow> hi_code w = hi_code v \<Longrightarrow> 3 \<le> hi_throughSequence v - hi_throughSequence w"
  shows "history_ok (v # vs) DEFAULT_NUDGE_RATE_LIMIT"
  using assms by (force simp: history_ok_def DEFAULT_NUDGE_RATE_LIMIT_def apart_def)

lemma inserted_checkpoint_new:
  assumes vs: "history_of run db vs" and ins: "insertNudgeDelivery (serializeNudgeDelivery d) db = (Inr (), db')"
    and d: "delivery_ok d" "nw_runId d = run"
  shows "hi_checkpointId (stored_of d) \<notin> hi_checkpointId ` set vs"
proof
  assume "hi_checkpointId (stored_of d) \<in> hi_checkpointId ` set vs"
  then obtain w where w: "w \<in> set vs" "hi_checkpointId w = nw_checkpointId d"
    by (auto simp: stored_of_def)
  obtain r where r: "r \<in> set (history_rows run db)" "read_row r = Inr w"
    using rtraverse_memD [OF vs [unfolded history_of_def] w(1)] by blast
  then have "r \<in> set (nd_rows db)" "nr_run_id r = run" by (auto simp: history_rows_def)
  with insertNudgeDelivery_Inr [OF ins] read_row_columns [OF r(2)] d w(2) show False
    by (auto simp: serializeNudgeDelivery_def delivery_ok_def)
qed

lemma selected_history_ok:
  assumes vs: "history_of run db vs" and ok: "history_ok vs DEFAULT_NUDGE_RATE_LIMIT"
    and count: "runDeliveryCount h = int (length vs)"
    and occ: "set (deliveredOccurrenceIds h) = hi_occurrenceId ` set vs"
    and lasts: "\<forall>v \<in> set vs. \<exists>q \<ge> hi_throughSequence v. map_of (lastSequenceByCode h) (hi_code v) = Some q"
    and sel: "selectNudge cs h through DEFAULT_NUDGE_RATE_LIMIT = Some c"
    and ins: "insertNudgeDelivery (serializeNudgeDelivery d) db = (Inr (), db')"
    and d: "delivery_ok d" "nw_runId d = run" "nw_occurrenceId d = nc_occurrenceId c" "nw_code d = nc_code c"
      "nw_throughSequence d = through"
  shows "history_ok (stored_of d # vs) DEFAULT_NUDGE_RATE_LIMIT"
proof (rule selected_keeps_history [OF ok])
  have elig: "eligible_nudge h through DEFAULT_NUDGE_RATE_LIMIT c"
    using selectNudge_SomeD [OF sel] by blast
  show "item_ok (stored_of d)" using d(1) by (simp add: delivery_ok_def)
  show "int (length vs) < 3"
    using selectNudge_SomeD [OF sel] count by (auto simp: DEFAULT_NUDGE_RATE_LIMIT_def)
  show "hi_occurrenceId (stored_of d) \<notin> hi_occurrenceId ` set vs"
    using elig d(3) occ by (simp add: eligible_nudge_def stored_of_def)
  show "hi_checkpointId (stored_of d) \<notin> hi_checkpointId ` set vs"
    by (rule inserted_checkpoint_new [OF vs ins d(1,2)])
  show "3 \<le> hi_throughSequence (stored_of d) - hi_throughSequence w"
    if "w \<in> set vs" "hi_code w = hi_code (stored_of d)" for w
    using lasts that elig d(4,5) by (fastforce simp: eligible_nudge_def stored_of_def DEFAULT_NUDGE_RATE_LIMIT_def)
qed

text \<open>Recording the selected candidate adds it to the history, which stays readable.\<close>

lemma record_selected:
  assumes digest: "\<And>t. valid_identifier_text (sha256 t)"
    and h: "readNudgeHistory (VStr run) (VStr NUDGE_POLICY_VERSION) db = Inr h"
    and sel: "selectNudge cs h through DEFAULT_NUDGE_RATE_LIMIT = Some c"
    and rec: "recordNudgeDeliveryInTransaction sha256 (delivery_input run checkpoint through at c) db = (Inr (), db')"
  shows "\<exists>h'. readNudgeHistory (VStr run) (VStr NUDGE_POLICY_VERSION) db' = Inr h'
      \<and> runDeliveryCount h' = runDeliveryCount h + 1
      \<and> set (deliveredOccurrenceIds h') = insert (nc_occurrenceId c) (set (deliveredOccurrenceIds h))"
proof -
  obtain vs where run: "valid_identifier_text run" and vs: "history_of run db vs"
    and ok: "history_ok vs DEFAULT_NUDGE_RATE_LIMIT" and count: "runDeliveryCount h = int (length vs)"
    and occ: "set (deliveredOccurrenceIds h) = hi_occurrenceId ` set vs"
    and lasts: "\<forall>v \<in> set vs. \<exists>q \<ge> hi_throughSequence v. map_of (lastSequenceByCode h) (hi_code v) = Some q"
    using readNudgeHistory_Inr [OF h] by blast
  obtain d where d: "parseNewNudgeDelivery sha256 (delivery_input run checkpoint through at c) = Inr d"
    and ins: "insertNudgeDelivery (serializeNudgeDelivery d) db = (Inr (), db')"
    using rec by (auto simp: recordNudgeDeliveryInTransaction_def split: sum.splits)
  note fields = parseNew_delivery_input [OF d]
  have dok: "delivery_ok d" and "valid_identifier_text (nw_id d)"
    using parseNew_ok [OF d] digest by auto
  then have v: "read_row (serializeNudgeDelivery d) = Inr (stored_of d)"
    by (rule row_reads_back)
  have db': "db' = db\<lparr>nd_rows := nd_rows db @ [serializeNudgeDelivery d]\<rparr>"
    using insertNudgeDelivery_Inr [OF ins] by simp
  obtain vs' where vs': "history_of run db' vs'" and m: "mset vs' = mset (stored_of d # vs)"
    using history_of_insert [OF vs v _ db'] fields by (auto simp: serializeNudgeDelivery_def)
  have "history_ok vs' DEFAULT_NUDGE_RATE_LIMIT"
    using selected_history_ok [OF vs ok count occ lasts sel ins dok] fields history_ok_mset [OF m] by simp
  then obtain h' where h': "readNudgeHistory (VStr run) (VStr NUDGE_POLICY_VERSION) db' = Inr h'"
    using readNudgeHistory_total [OF run vs'] by blast
  then obtain us where us: "history_of run db' us" "runDeliveryCount h' = int (length us)"
      "set (deliveredOccurrenceIds h') = hi_occurrenceId ` set us"
    using readNudgeHistory_Inr by blast
  then have "us = vs'" using vs' by (simp add: history_of_def)
  moreover have "length vs' = Suc (length vs)" and "set vs' = insert (stored_of d) (set vs)"
    using mset_eq_length [OF m] mset_eq_setD [OF m] by auto
  ultimately show ?thesis
    using h' us count occ fields by (auto simp: stored_of_def)
qed

lemma record_other_runs:
  assumes "recordNudgeDeliveryInTransaction sha256 (delivery_input run checkpoint through at c) db = (Inr (), db')"
    and "r \<noteq> run"
  shows "history_rows r db' = history_rows r db"
proof -
  obtain d where d: "parseNewNudgeDelivery sha256 (delivery_input run checkpoint through at c) = Inr d"
    and ins: "insertNudgeDelivery (serializeNudgeDelivery d) db = (Inr (), db')"
    using assms(1) by (auto simp: recordNudgeDeliveryInTransaction_def split: sum.splits)
  show ?thesis
    using parseNew_delivery_input [OF d] insertNudgeDelivery_Inr [OF ins] assms(2)
    by (intro history_of_other) (auto simp: serializeNudgeDelivery_def)
qed

section \<open>Every reachable delivery table\<close>

text \<open>
  The table changes when a run is created and when a caller records the nudge it selected from the
  history it read in the same transaction.
\<close>

inductive nudge_reachable :: "(string \<Rightarrow> string) \<Rightarrow> nudge_db \<Rightarrow> bool" for sha256 where
  empty_table: "nudge_reachable sha256 \<lparr>nd_runs = runs, nd_rows = []\<rparr>"
| run_created: "nudge_reachable sha256 db \<Longrightarrow> nudge_reachable sha256 (db\<lparr>nd_runs := run # nd_runs db\<rparr>)"
| delivered: "nudge_reachable sha256 db \<Longrightarrow>
    readNudgeHistory (VStr run) (VStr NUDGE_POLICY_VERSION) db = Inr h \<Longrightarrow>
    selectNudge cs h through DEFAULT_NUDGE_RATE_LIMIT = Some c \<Longrightarrow>
    recordNudgeDeliveryInTransaction sha256 (delivery_input run checkpoint through at c) db = (Inr (), db') \<Longrightarrow>
    nudge_reachable sha256 db'"

lemma readNudgeHistory_cong:
  "history_rows run db = history_rows run db' \<Longrightarrow> readNudgeHistory (VStr run) p db = readNudgeHistory (VStr run) p db'"
  by (simp add: readNudgeHistory_def parseInputIdentifier_def identifier_or_def)

lemma reachable_readable:
  assumes "nudge_reachable sha256 db" and digest: "\<And>t. valid_identifier_text (sha256 t)"
    and "valid_identifier_text run"
  shows "\<exists>h. readNudgeHistory (VStr run) (VStr NUDGE_POLICY_VERSION) db = Inr h"
  using assms(1)
proof (induction rule: nudge_reachable.induct)
  case (empty_table runs)
  then show ?case
    by (intro readNudgeHistory_total [OF assms(3), of _ "[]"])
      (auto simp: history_of_def history_rows_def history_ok_def DEFAULT_NUDGE_RATE_LIMIT_def)
next
  case (run_created db r)
  have "history_rows run (db\<lparr>nd_runs := r # nd_runs db\<rparr>) = history_rows run db"
    by (simp add: history_rows_def)
  from readNudgeHistory_cong [OF this] run_created.IH show ?case by simp
next
  case (delivered db r h cs through c checkpoint at db')
  show ?case
  proof (cases "r = run")
    case True
    with record_selected [OF digest delivered.hyps(2,3,4)] show ?thesis by blast
  next
    case False
    then have "history_rows run db' = history_rows run db"
      by (intro record_other_runs [OF delivered.hyps(4)]) simp
    from readNudgeHistory_cong [OF this] delivered.IH show ?thesis by simp
  qed
qed

section \<open>Properties\<close>

definition sample_digest :: "string \<Rightarrow> string" where
  "sample_digest t = replicate 64 (CHR ''0'')"

lemma sample_digest_identifier: "valid_identifier_text (sample_digest t)"
  by (simp add: sample_digest_def valid_identifier_text_def)

definition sample_candidate :: nudge_candidate where
  "sample_candidate =
     \<lparr>nc_code = NudgeUnresolvedFailure, nc_occurrenceId = ''o1'', nc_priority = 3,
      nc_message = NUDGE_MESSAGES NudgeUnresolvedFailure, nc_evidenceEventIds = [''e1''], nc_referenceIds = []\<rparr>"

definition sample_nudge_db :: nudge_db where
  "sample_nudge_db = \<lparr>nd_runs = [''r1''], nd_rows = []\<rparr>"

definition sample_delivery :: "unit result \<times> nudge_db" where
  "sample_delivery =
     recordNudgeDeliveryInTransaction sample_digest
       (delivery_input ''r1'' ''c1'' 7 ''2024-05-01T10:00:00.000Z'' sample_candidate) sample_nudge_db"

definition sample_history :: nudge_history where
  "sample_history = \<lparr>deliveredOccurrenceIds = [], runDeliveryCount = 0, lastSequenceByCode = []\<rparr>"

lemma sample_run:
  "readNudgeHistory (VStr ''r1'') (VStr NUDGE_POLICY_VERSION) sample_nudge_db = Inr sample_history"
  "selectNudge [sample_candidate] sample_history 7 DEFAULT_NUDGE_RATE_LIMIT = Some sample_candidate"
  "fst sample_delivery = Inr ()"
  by code_simp+

text \<open>
  C34: The check of a stored history succeeds exactly when the policy is well formed, there are no more
  deliveries than the run may have, every item is well formed, no occurrence and no checkpoint occurs
  twice, and any two deliveries of one code are at least the required distance apart.
\<close>

theorem validateStoredNudgeHistory_exact:
  "validateStoredNudgeHistory rows p = Inr () \<longleftrightarrow> policy_ok p \<and> history_ok rows p"
  by (rule validate_history_iff)

text \<open>
  C36: A selected nudge is an eligible candidate and no eligible candidate precedes it; nothing is
  selected exactly when the limits are exhausted or no candidate is eligible.
\<close>

theorem selectNudge_least_eligible:
  "case selectNudge cs h t p of
     Some c \<Rightarrow> 1 \<le> maxPerResponse p \<and> runDeliveryCount h < maxPerRun p \<and> c \<in> set cs \<and> eligible_nudge h t p c
       \<and> list_all (\<lambda>d. compareNudgeCandidates c d \<le> 0) (filter (eligible_nudge h t p) cs)
   | None \<Rightarrow> maxPerResponse p < 1 \<or> maxPerRun p \<le> runDeliveryCount h \<or> filter (eligible_nudge h t p) cs = []"
  using selectNudge_SomeD [of cs h t p] selectNudge_None [of cs h t p]
  by (auto simp: list_all_iff filter_ex [symmetric] split: option.splits)

text \<open>
  A delivery that was accepted, written as a row and read back is the delivery that was given.
\<close>

theorem nudge_row_round_trip:
  assumes "parseNewNudgeDelivery sha256 input = Inr d" and "valid_identifier_text (nw_id d)"
  shows "parseStoredNudgeDelivery (nudge_row_value (serializeNudgeDelivery d)) = Inr (stored_of d)"
  using parseNew_ok [OF assms(1)] row_reads_back assms(2) by blast

theorem nudge_row_round_trip_witness:
  "\<exists>d. parseNewNudgeDelivery sample_digest
        (delivery_input ''r1'' ''c1'' 7 ''2024-05-01T10:00:00.000Z'' sample_candidate) = Inr d
      \<and> parseStoredNudgeDelivery (nudge_row_value (serializeNudgeDelivery d)) = Inr (stored_of d)
      \<and> nw_evidenceEventIds d = [''e1'']"
proof -
  have "map_sum id nw_evidenceEventIds (parseNewNudgeDelivery sample_digest
      (delivery_input ''r1'' ''c1'' 7 ''2024-05-01T10:00:00.000Z'' sample_candidate)) = Inr [''e1'']"
    by code_simp
  then obtain d where d: "parseNewNudgeDelivery sample_digest
      (delivery_input ''r1'' ''c1'' 7 ''2024-05-01T10:00:00.000Z'' sample_candidate) = Inr d"
      and e: "nw_evidenceEventIds d = [''e1'']"
    by (elim map_sum_InrD [THEN exE] conjE)
  have "valid_identifier_text (nw_id d)"
    using parseNew_ok [OF d] sample_digest_identifier by auto
  from nudge_row_round_trip [OF d this] d e show ?thesis by (intro exI conjI)
qed

text \<open>
  C15: In every table reached by recording selected nudges, every history can be read and has at most
  three deliveries: the limits hold and no stored row is ever rejected.
\<close>

theorem reachable_nudge_histories:
  assumes "nudge_reachable sha256 db" and "\<And>t. valid_identifier_text (sha256 t)" and "valid_identifier_text run"
  shows "\<exists>h vs. readNudgeHistory (VStr run) (VStr NUDGE_POLICY_VERSION) db = Inr h
    \<and> rtraverse read_row (history_rows run db) = Inr vs \<and> history_ok vs DEFAULT_NUDGE_RATE_LIMIT
    \<and> runDeliveryCount h = int (length vs) \<and> length vs \<le> 3"
proof -
  obtain h where h: "readNudgeHistory (VStr run) (VStr NUDGE_POLICY_VERSION) db = Inr h"
    using reachable_readable [OF assms] by blast
  with readNudgeHistory_Inr [OF h] show ?thesis
    by (auto simp: history_of_def history_ok_def DEFAULT_NUDGE_RATE_LIMIT_def)
qed

theorem reachable_nudge_histories_witness:
  "nudge_reachable sample_digest (snd sample_delivery)
   \<and> (\<exists>h. readNudgeHistory (VStr ''r1'') (VStr NUDGE_POLICY_VERSION) (snd sample_delivery) = Inr h)"
proof -
  have "nudge_reachable sample_digest sample_nudge_db"
    unfolding sample_nudge_db_def by (rule nudge_reachable.empty_table)
  moreover have "recordNudgeDeliveryInTransaction sample_digest
      (delivery_input ''r1'' ''c1'' 7 ''2024-05-01T10:00:00.000Z'' sample_candidate) sample_nudge_db
      = (Inr (), snd sample_delivery)"
    using sample_run(3) unfolding sample_delivery_def by (metis prod.collapse)
  ultimately have r: "nudge_reachable sample_digest (snd sample_delivery)"
    using nudge_reachable.delivered sample_run(1,2) by blast
  have "valid_identifier_text ''r1''" by (simp add: valid_identifier_text_def)
  from reachable_nudge_histories [OF r sample_digest_identifier this] r show ?thesis by blast
qed

end
