(* ===== verification/Write_Queue.thy ===== *)
theory Write_Queue
  imports Js_Prelude
begin

text \<open>
  The server's write queue, \<open>src/src/server/write-queue.ts\<close>: one operation runs at a time, a bounded
  number wait, and a closed queue refuses new work but finishes what it accepted. An operation is
  represented by its request identifier; when its promise settles is up to the environment, so
  \<open>settle\<close> is an event that carries the outcome. The promises handed out are observed through two
  logs: the settled operations and the resolved drain waiters, oldest first.
\<close>

section \<open>The queue\<close>

datatype settlement = Resolved | Rejected

record 'op write_queue =
  waitingCapacity :: nat
  items :: "'op list"
  accepting :: bool
  running :: "'op option"
  drainWaiters :: "nat list"
  settled :: "('op \<times> settlement) list"
  drained :: "nat list"

record write_queue_state =
  ws_accepting :: bool
  ws_running :: bool
  ws_waiting :: nat

definition newWriteQueue :: "int \<Rightarrow> 'op write_queue result" where
  "newWriteQueue capacity =
     rbind (check (0 < capacity) (KiokukoError VALIDATION_ERROR ''waitingCapacity must be a positive integer'')) (\<lambda>_.
     Inr \<lparr>waitingCapacity = nat capacity, items = [], accepting = True, running = None,
          drainWaiters = [], settled = [], drained = []\<rparr>)"

definition queueState :: "'op write_queue \<Rightarrow> write_queue_state" where
  "queueState q = \<lparr>ws_accepting = accepting q, ws_running = (running q \<noteq> None), ws_waiting = length (items q)\<rparr>"

definition startNext :: "'op write_queue \<Rightarrow> 'op write_queue" where
  "startNext q =
     (if running q \<noteq> None then q
      else case items q of
             [] \<Rightarrow> q
           | item # rest \<Rightarrow> q\<lparr>items := rest, running := Some item\<rparr>)"

definition enqueue :: "'op \<Rightarrow> 'op write_queue \<Rightarrow> unit result \<times> 'op write_queue" where
  "enqueue operation q =
     (if \<not> accepting q then (Inl (KiokukoError SERVICE_UNAVAILABLE ''Write queue is closed''), q)
      else if length (items q) \<ge> waitingCapacity q
      then (Inl (KiokukoError BACKPRESSURE ''Write queue is at capacity''), q)
      else (Inr (), startNext (q\<lparr>items := items q @ [operation]\<rparr>)))"

definition drain :: "nat \<Rightarrow> 'op write_queue \<Rightarrow> 'op write_queue" where
  "drain waiter q =
     (if running q = None \<and> items q = [] then q\<lparr>drained := drained q @ [waiter]\<rparr>
      else q\<lparr>drainWaiters := drainWaiters q @ [waiter]\<rparr>)"

definition close :: "nat \<Rightarrow> 'op write_queue \<Rightarrow> 'op write_queue" where
  "close waiter q = drain waiter (q\<lparr>accepting := False\<rparr>)"

definition finishCurrent :: "'op write_queue \<Rightarrow> 'op write_queue" where
  "finishCurrent q =
     (let q1 = startNext (q\<lparr>running := None\<rparr>) in
      if running q1 \<noteq> None \<or> items q1 \<noteq> [] then q1
      else q1\<lparr>drainWaiters := [], drained := drained q1 @ drainWaiters q1\<rparr>)"

text \<open>The settlement of the running operation: its promise first, then the next operation.\<close>

definition settle :: "settlement \<Rightarrow> 'op write_queue \<Rightarrow> 'op write_queue" where
  "settle outcome q =
     (case running q of
        None \<Rightarrow> q
      | Some item \<Rightarrow> finishCurrent (q\<lparr>settled := settled q @ [(item, outcome)]\<rparr>))"

section \<open>Runs\<close>

datatype 'op queue_event = Enqueue 'op | Settle settlement | Drain nat | Close nat

fun queue_step :: "'op queue_event \<Rightarrow> 'op write_queue \<Rightarrow> 'op write_queue" where
  "queue_step (Enqueue x) q = snd (enqueue x q)"
| "queue_step (Settle s) q = settle s q"
| "queue_step (Drain w) q = drain w q"
| "queue_step (Close w) q = close w q"

inductive queue_reachable :: "'op write_queue \<Rightarrow> bool" where
  created: "newWriteQueue capacity = Inr q \<Longrightarrow> queue_reachable q"
| stepped: "queue_reachable q \<Longrightarrow> queue_reachable (queue_step e q)"

section \<open>The abstract server\<close>

text \<open>
  What the queue promises: a FIFO of the accepted, unsettled operations, of which the first is being
  executed, with one execution slot beside the waiting capacity.
\<close>

record 'op fifo =
  ff_capacity :: nat
  ff_open :: bool
  ff_pending :: "'op list"
  ff_done :: "('op \<times> settlement) list"

definition fifo_of :: "'op write_queue \<Rightarrow> 'op fifo" where
  "fifo_of q =
     \<lparr>ff_capacity = waitingCapacity q, ff_open = accepting q,
      ff_pending = (case running q of None \<Rightarrow> [] | Some x \<Rightarrow> [x]) @ items q, ff_done = settled q\<rparr>"

fun fifo_step :: "'op queue_event \<Rightarrow> 'op fifo \<Rightarrow> 'op fifo" where
  "fifo_step (Enqueue x) f =
     (if ff_open f \<and> length (ff_pending f) \<le> ff_capacity f then f\<lparr>ff_pending := ff_pending f @ [x]\<rparr> else f)"
| "fifo_step (Settle s) f =
     (case ff_pending f of [] \<Rightarrow> f | x # xs \<Rightarrow> f\<lparr>ff_pending := xs, ff_done := ff_done f @ [(x, s)]\<rparr>)"
| "fifo_step (Drain w) f = f"
| "fifo_step (Close w) f = f\<lparr>ff_open := False\<rparr>"

definition accepts :: "'op fifo \<Rightarrow> 'op queue_event \<Rightarrow> 'op list" where
  "accepts f e =
     (case e of
        Enqueue x \<Rightarrow> if ff_open f \<and> length (ff_pending f) \<le> ff_capacity f then [x] else []
      | _ \<Rightarrow> [])"

section \<open>Invariant\<close>

definition queue_inv :: "'op write_queue \<Rightarrow> bool" where
  "queue_inv q =
     (0 < waitingCapacity q \<and> length (items q) \<le> waitingCapacity q
      \<and> (running q = None \<longrightarrow> items q = [] \<and> drainWaiters q = []))"

lemmas queue_defs = enqueue_def startNext_def drain_def close_def finishCurrent_def settle_def

lemma queue_step_inv: "queue_inv q \<Longrightarrow> queue_inv (queue_step e q)"
  by (cases e) (auto simp: queue_inv_def queue_defs Let_def split: list.splits option.splits if_splits)

lemma reachable_inv: "queue_reachable q \<Longrightarrow> queue_inv q"
proof (induction rule: queue_reachable.induct)
  case (created capacity q)
  then show ?case by (auto simp: newWriteQueue_def queue_inv_def rbind_eq_Inr)
next
  case (stepped q e)
  then show ?case by (simp add: queue_step_inv)
qed

lemma fifo_simulates: "queue_inv q \<Longrightarrow> fifo_of (queue_step e q) = fifo_step e (fifo_of q)"
  by (cases e)
    (auto simp: queue_inv_def fifo_of_def queue_defs Let_def split: list.splits option.splits)

section \<open>First come, first served\<close>

text \<open>What a sequence of events admits.\<close>

fun admitted :: "('e \<Rightarrow> 's \<Rightarrow> 's) \<Rightarrow> ('s \<Rightarrow> 'e \<Rightarrow> 'op list) \<Rightarrow> 'e list \<Rightarrow> 's \<Rightarrow> 'op list" where
  "admitted step admits [] s = []"
| "admitted step admits (e # es) s = admits s e @ admitted step admits es (step e s)"

text \<open>
  The interface of a service that finishes what it admits in order: what one step adds to the two
  ends of its backlog.
\<close>

locale fifo_service =
  fixes step :: "'e \<Rightarrow> 's \<Rightarrow> 's" and inv :: "'s \<Rightarrow> bool"
    and backlog :: "'s \<Rightarrow> 'op list" and finished :: "'s \<Rightarrow> 'op list" and admits :: "'s \<Rightarrow> 'e \<Rightarrow> 'op list"
  assumes keeps: "inv s \<Longrightarrow> inv (step e s)"
    and order: "inv s \<Longrightarrow> finished (step e s) @ backlog (step e s) = finished s @ backlog s @ admits s e"
    and monotone: "inv s \<Longrightarrow> \<exists>done. finished (step e s) = finished s @ done"
begin

lemma run_keeps: "inv s \<Longrightarrow> inv (fold step es s)"
  by (induction es arbitrary: s) (auto simp: keeps)

lemma run_order: "inv s \<Longrightarrow>
  finished (fold step es s) @ backlog (fold step es s) = finished s @ backlog s @ admitted step admits es s"
proof (induction es arbitrary: s)
  case Nil
  then show ?case by simp
next
  case (Cons e es)
  from Cons.IH [OF keeps [OF Cons.prems]] order [OF Cons.prems] show ?case by simp
qed

lemma run_monotone: "inv s \<Longrightarrow> \<exists>done. finished (fold step es s) = finished s @ done"
proof (induction es arbitrary: s)
  case Nil
  then show ?case by simp
next
  case (Cons e es)
  from monotone [OF Cons.prems, of e] Cons.IH [OF keeps [OF Cons.prems], of e] show ?case by auto
qed

end

interpretation fifo_spec: fifo_service fifo_step "\<lambda>f. True" ff_pending "\<lambda>f. map fst (ff_done f)" accepts
proof unfold_locales
  fix s :: "'op fifo" and e :: "'op queue_event"
  show "map fst (ff_done (fifo_step e s)) @ ff_pending (fifo_step e s) = map fst (ff_done s) @ ff_pending s @ accepts s e"
    by (cases e) (auto simp: accepts_def split: list.splits)
  show "\<exists>done. map fst (ff_done (fifo_step e s)) = map fst (ff_done s) @ done"
    by (cases e) (auto split: list.splits)
qed simp

abbreviation backlog_of :: "'op write_queue \<Rightarrow> 'op list" where
  "backlog_of q \<equiv> ff_pending (fifo_of q)"

text \<open>The queue inherits the laws of its specification through the simulation.\<close>

interpretation write_queue: fifo_service queue_step queue_inv backlog_of
  "\<lambda>q. map fst (settled q)" "\<lambda>q. accepts (fifo_of q)"
proof unfold_locales
  fix s :: "'op write_queue" and e :: "'op queue_event"
  assume inv: "queue_inv s"
  have d: "settled q = ff_done (fifo_of q)" for q :: "'op write_queue" by (simp add: fifo_of_def)
  show "queue_inv (queue_step e s)" using inv by (rule queue_step_inv)
  show "map fst (settled (queue_step e s)) @ backlog_of (queue_step e s) = map fst (settled s) @ backlog_of s @ accepts (fifo_of s) e"
    using fifo_spec.order [where s = "fifo_of s" and e = e] by (simp add: d fifo_simulates [OF inv])
  show "\<exists>done. map fst (settled (queue_step e s)) = map fst (settled s) @ done"
    using fifo_spec.monotone [where s = "fifo_of s" and e = e] by (simp add: d fifo_simulates [OF inv])
qed

section \<open>Progress\<close>

lemma settle_step:
  assumes "queue_inv q" and "backlog_of q = x # xs"
  shows "settled (settle s q) = settled q @ [(x, s)] \<and> backlog_of (settle s q) = xs
    \<and> drained (settle s q) @ drainWaiters (settle s q) = drained q @ drainWaiters q"
  using assms
  by (auto simp: queue_inv_def fifo_of_def settle_def finishCurrent_def startNext_def Let_def
      split: option.splits list.splits)

lemma settle_all:
  assumes "queue_inv q" and "length ss = length (backlog_of q)"
  shows "let q' = fold settle ss q in backlog_of q' = [] \<and> settled q' = settled q @ zip (backlog_of q) ss
    \<and> drained q' @ drainWaiters q' = drained q @ drainWaiters q \<and> queue_inv q'"
  using assms
proof (induction ss arbitrary: q)
  case Nil
  then show ?case by simp
next
  case (Cons s ss)
  then obtain x xs where b: "backlog_of q = x # xs" by (cases "backlog_of q") auto
  have inv: "queue_inv (settle s q)" using queue_step_inv [OF Cons.prems(1), of "Settle s"] by simp
  note step = settle_step [OF Cons.prems(1) b, of s]
  have "length ss = length (backlog_of (settle s q))" using Cons.prems(2) b step by simp
  from Cons.IH [OF inv this] step b show ?case by (simp add: Let_def)
qed

lemma idle_when_empty: "backlog_of q = [] \<longleftrightarrow> running q = None \<and> items q = []"
  by (simp add: fifo_of_def split: option.splits)

section \<open>Properties\<close>

definition sample_queue :: "nat write_queue" where
  "sample_queue =
     fold queue_step [Enqueue 1, Enqueue 2, Enqueue 3, Enqueue 4, Close 9]
       \<lparr>waitingCapacity = 2, items = [], accepting = True, running = None, drainWaiters = [], settled = [], drained = []\<rparr>"

lemma sample_queue_reachable: "queue_reachable sample_queue"
proof -
  have "queue_reachable (\<lparr>waitingCapacity = 2, items = [], accepting = True, running = None,
      drainWaiters = [], settled = [], drained = []\<rparr> :: nat write_queue)"
    by (rule queue_reachable.created [of 2]) (simp add: newWriteQueue_def)
  then show ?thesis
    unfolding sample_queue_def by (auto intro!: queue_reachable.stepped simp del: queue_step.simps)
qed

text \<open>
  C18: In every reachable state the queue behaves, step for step, as a FIFO whose first element is being
  executed and whose other elements number at most the waiting capacity.
\<close>

theorem write_queue_refines_fifo:
  assumes "queue_reachable q"
  shows "fifo_of (queue_step e q) = fifo_step e (fifo_of q) \<and> length (items q) \<le> waitingCapacity q
    \<and> (queueState q = \<lparr>ws_accepting = ff_open (fifo_of q), ws_running = (ff_pending (fifo_of q) \<noteq> []),
          ws_waiting = length (tl (ff_pending (fifo_of q)))\<rparr>)"
proof -
  have inv: "queue_inv q" using reachable_inv [OF assms] .
  then have "queueState q = \<lparr>ws_accepting = ff_open (fifo_of q), ws_running = (ff_pending (fifo_of q) \<noteq> []),
          ws_waiting = length (tl (ff_pending (fifo_of q)))\<rparr>"
    by (auto simp: queueState_def fifo_of_def queue_inv_def split: option.splits)
  with inv show ?thesis by (simp add: fifo_simulates queue_inv_def)
qed

theorem write_queue_refines_fifo_witness:
  "fifo_of (queue_step (Settle Resolved) sample_queue) = fifo_step (Settle Resolved) (fifo_of sample_queue)
   \<and> ff_pending (fifo_of sample_queue) = [1, 2, 3]"
  using write_queue_refines_fifo [OF sample_queue_reachable, of "Settle Resolved"]
  by (simp add: sample_queue_def fifo_of_def queue_defs)

text \<open>
  Whatever the interleaving of requests, settlements, drains and the close, the operations settled
  so far followed by the operations still pending are exactly the accepted ones in the order of
  acceptance: each accepted operation runs once, none overtakes another.
\<close>

theorem write_queue_fifo:
  assumes "queue_reachable q"
  shows "map fst (settled (fold queue_step es q)) @ backlog_of (fold queue_step es q)
    = map fst (settled q) @ backlog_of q @ admitted queue_step (\<lambda>q. accepts (fifo_of q)) es q"
  using write_queue.run_order [OF reachable_inv [OF assms]] .

theorem write_queue_fifo_witness:
  "map fst (settled (fold queue_step [Settle Rejected, Enqueue 5] sample_queue))
     @ backlog_of (fold queue_step [Settle Rejected, Enqueue 5] sample_queue) = [1, 2, 3]"
  using write_queue_fifo [OF sample_queue_reachable, of "[Settle Rejected, Enqueue 5]"]
  by (simp add: sample_queue_def fifo_of_def queue_defs accepts_def)

text \<open>
  C22: Every accepted operation is settled: once the running operation and its successors have each
  settled, the queue is idle, every pending operation got its own outcome, and every drain and close
  promise handed out is resolved.
\<close>

theorem write_queue_drains:
  assumes "queue_reachable q" and "length ss = length (backlog_of q)"
  shows "running (fold settle ss q) = None \<and> items (fold settle ss q) = []
    \<and> settled (fold settle ss q) = settled q @ zip (backlog_of q) ss
    \<and> drainWaiters (fold settle ss q) = [] \<and> drained (fold settle ss q) = drained q @ drainWaiters q"
proof -
  note all = settle_all [OF reachable_inv [OF assms(1)] assms(2), unfolded Let_def]
  then have "running (fold settle ss q) = None \<and> items (fold settle ss q) = []"
    by (simp add: idle_when_empty)
  with all show ?thesis by (auto simp: queue_inv_def)
qed

theorem write_queue_drains_witness:
  "settled (fold settle [Resolved, Rejected, Resolved] sample_queue) = [(1, Resolved), (2, Rejected), (3, Resolved)]
   \<and> drained (fold settle [Resolved, Rejected, Resolved] sample_queue) = [9]"
  using write_queue_drains [OF sample_queue_reachable, of "[Resolved, Rejected, Resolved]"]
  by (simp add: sample_queue_def fifo_of_def queue_defs)

end
