(* ===== verification/Orchestration_Jobs.thy ===== *)
theory Orchestration_Jobs
  imports Json_Reader Js_Date Sqlite_Tx
begin

text \<open>
  The queue of background jobs, \<open>src/src/orchestration/jobs.ts\<close>: enqueueing with de-duplication by
  content, claiming under a lease, and settling. The table carries the constraints of
  \<open>src/migrations/003_orcareplay_trace.sql\<close>. The digest, the random identifier and the clock are
  arguments; timestamps are compared as text, as the queries do.
\<close>

section \<open>Jobs\<close>

datatype job_kind =
    SemanticContext | SkillDiscovery | CompactionMeditation | PlanPublish | MemoryPromotion | TraceIngestion

definition ORCHESTRATION_JOB_KINDS :: "(string \<times> job_kind) list" where
  "ORCHESTRATION_JOB_KINDS =
     [(''semantic_context'', SemanticContext), (''skill_discovery'', SkillDiscovery),
      (''compaction_meditation'', CompactionMeditation), (''plan_publish'', PlanPublish),
      (''memory_promotion'', MemoryPromotion), (''trace_ingestion'', TraceIngestion)]"

fun kind_text :: "job_kind \<Rightarrow> string" where
  "kind_text SemanticContext = ''semantic_context''"
| "kind_text SkillDiscovery = ''skill_discovery''"
| "kind_text CompactionMeditation = ''compaction_meditation''"
| "kind_text PlanPublish = ''plan_publish''"
| "kind_text MemoryPromotion = ''memory_promotion''"
| "kind_text TraceIngestion = ''trace_ingestion''"

datatype job_state = JobPending | JobLeased | JobCompleted | JobFailed | JobAbandoned

definition JOB_STATES :: "(string \<times> job_state) list" where
  "JOB_STATES =
     [(''pending'', JobPending), (''leased'', JobLeased), (''completed'', JobCompleted),
      (''failed'', JobFailed), (''abandoned'', JobAbandoned)]"

fun state_text :: "job_state \<Rightarrow> string" where
  "state_text JobPending = ''pending''"
| "state_text JobLeased = ''leased''"
| "state_text JobCompleted = ''completed''"
| "state_text JobFailed = ''failed''"
| "state_text JobAbandoned = ''abandoned''"

record orchestration_job =
  oj_jobId :: string
  oj_kind :: job_kind
  oj_runId :: "string option"
  oj_inputDigest :: string
  oj_payload :: jsvalue
  oj_state :: job_state
  oj_attempts :: int
  oj_availableAt :: string
  oj_leaseOwner :: "string option"
  oj_leaseExpiresAt :: "string option"
  oj_resultDigest :: "string option"
  oj_errorCode :: "string option"
  oj_createdAt :: string
  oj_updatedAt :: string
  oj_completedAt :: "string option"

record job_row =
  jb_job_id :: string
  jb_kind :: string
  jb_run_id :: "string option"
  jb_input_digest :: string
  jb_payload_json :: string
  jb_state :: string
  jb_attempts :: int
  jb_available_at :: string
  jb_lease_owner :: "string option"
  jb_lease_expires_at :: "string option"
  jb_result_digest :: "string option"
  jb_error_code :: "string option"
  jb_created_at :: string
  jb_updated_at :: string
  jb_completed_at :: "string option"

record job_db =
  jd_runs :: "string list"
  jd_jobs :: "job_row list"

section \<open>Reading\<close>

definition parsePayload :: "string \<Rightarrow> jsvalue result" where
  "parsePayload text =
     (let e = KiokukoError INTEGRITY_ERROR ''Stored orchestration job payload is invalid'' in
      case json_parse text of
        Some (VObj fs) \<Rightarrow> Inr (VObj fs)
      | _ \<Rightarrow> Inl e)"

definition parseRow :: "job_row \<Rightarrow> orchestration_job result" where
  "parseRow row =
     (let e = KiokukoError INTEGRITY_ERROR ''Stored orchestration job is invalid'' in
      case (map_of ORCHESTRATION_JOB_KINDS (jb_kind row), map_of JOB_STATES (jb_state row)) of
        (Some kind, Some state) \<Rightarrow>
          rbind (parsePayload (jb_payload_json row)) (\<lambda>payload.
          Inr \<lparr>oj_jobId = jb_job_id row, oj_kind = kind, oj_runId = jb_run_id row,
               oj_inputDigest = jb_input_digest row, oj_payload = payload, oj_state = state,
               oj_attempts = jb_attempts row, oj_availableAt = jb_available_at row,
               oj_leaseOwner = jb_lease_owner row, oj_leaseExpiresAt = jb_lease_expires_at row,
               oj_resultDigest = jb_result_digest row, oj_errorCode = jb_error_code row,
               oj_createdAt = jb_created_at row, oj_updatedAt = jb_updated_at row,
               oj_completedAt = jb_completed_at row\<rparr>)
      | _ \<Rightarrow> Inl e)"

text \<open>The checks of the table.\<close>

definition is_hex64 :: "string \<Rightarrow> bool" where
  "is_hex64 s = (length s = 64 \<and> list_all (\<lambda>c. is_digit c \<or> CHR ''a'' \<le> c \<and> c \<le> CHR ''f'') s)"

definition job_columns_ok :: "job_row \<Rightarrow> bool" where
  "job_columns_ok r =
     (map_of ORCHESTRATION_JOB_KINDS (jb_kind r) \<noteq> None \<and> is_hex64 (jb_input_digest r)
      \<and> json_parse (jb_payload_json r) \<noteq> None \<and> map_of JOB_STATES (jb_state r) \<noteq> None
      \<and> 0 \<le> jb_attempts r \<and> jb_attempts r \<le> 20 \<and> opt_all is_hex64 (jb_result_digest r)
      \<and> (jb_state r = ''leased'') = (jb_lease_owner r \<noteq> None)
      \<and> (jb_state r = ''leased'') = (jb_lease_expires_at r \<noteq> None))"

definition job_check_failed :: js_error where
  "job_check_failed = SqliteError 275 ''CHECK constraint failed: orchestration_jobs''"

text \<open>An \<open>UPDATE\<close> of the rows that satisfy a condition; a row that violates a check fails it.\<close>

definition update_jobs :: "(job_row \<Rightarrow> bool) \<Rightarrow> (job_row \<Rightarrow> job_row) \<Rightarrow> job_db \<Rightarrow> unit result \<times> job_db" where
  "update_jobs P f d =
     (if list_all (\<lambda>r. P r \<longrightarrow> job_columns_ok (f r)) (jd_jobs d)
      then (Inr (), d\<lparr>jd_jobs := map (\<lambda>r. if P r then f r else r) (jd_jobs d)\<rparr>)
      else (Inl job_check_failed, d))"

section \<open>Enqueueing\<close>

record enqueue_input =
  eq_kind :: job_kind
  eq_runId :: "string option"
  eq_payload :: fields
  eq_availableAt :: "string option"

definition text_or_null :: "string option \<Rightarrow> jsvalue" where
  "text_or_null s = (case s of None \<Rightarrow> VNull | Some t \<Rightarrow> VStr t)"

definition input_digest :: "(string \<Rightarrow> string) \<Rightarrow> enqueue_input \<Rightarrow> string result" where
  "input_digest sha256 input =
     canonicalContentHash sha256
       (VObj [(''kind'', VStr (kind_text (eq_kind input))), (''runId'', text_or_null (eq_runId input)),
              (''payload'', VObj (eq_payload input))])"

definition find_job :: "string \<Rightarrow> string \<Rightarrow> job_db \<Rightarrow> job_row option" where
  "find_job kind digest d = find (\<lambda>r. jb_kind r = kind \<and> jb_input_digest r = digest) (jd_jobs d)"

definition insert_job :: "job_row \<Rightarrow> job_db \<Rightarrow> unit result \<times> job_db" where
  "insert_job row d =
     (if \<not> job_columns_ok row then (Inl job_check_failed, d)
      else if find_job (jb_kind row) (jb_input_digest row) d \<noteq> None then (Inr (), d)
      else if list_ex (\<lambda>r. jb_job_id r = jb_job_id row) (jd_jobs d)
      then (Inl (SqliteError 1555 ''UNIQUE constraint failed: orchestration_jobs.job_id''), d)
      else if \<not> opt_all (\<lambda>r. r \<in> set (jd_runs d)) (jb_run_id row)
      then (Inl (SqliteError 787 ''FOREIGN KEY constraint failed''), d)
      else (Inr (), d\<lparr>jd_jobs := jd_jobs d @ [row]\<rparr>))"

definition enqueueOrchestrationJob ::
    "(string \<Rightarrow> string) \<Rightarrow> string \<Rightarrow> string \<Rightarrow> enqueue_input \<Rightarrow> (job_db, orchestration_job) operation" where
  "enqueueOrchestrationJob sha256 uuid now input d =
     (case input_digest sha256 input of
        Inl e \<Rightarrow> (Inl e, d)
      | Inr digest \<Rightarrow>
          (case canonicalJson (VObj (eq_payload input)) of
             Inl e \<Rightarrow> (Inl e, d)
           | Inr payload \<Rightarrow>
               let row = \<lparr>jb_job_id = uuid, jb_kind = kind_text (eq_kind input), jb_run_id = eq_runId input,
                          jb_input_digest = digest, jb_payload_json = payload, jb_state = ''pending'',
                          jb_attempts = 0,
                          jb_available_at = (case eq_availableAt input of None \<Rightarrow> now | Some t \<Rightarrow> t),
                          jb_lease_owner = None, jb_lease_expires_at = None, jb_result_digest = None,
                          jb_error_code = None, jb_created_at = now, jb_updated_at = now,
                          jb_completed_at = None\<rparr>
               in (case insert_job row d of
                     (Inl e, d) \<Rightarrow> (Inl e, d)
                   | (Inr _, d) \<Rightarrow>
                       (case find_job (kind_text (eq_kind input)) digest d of
                          None \<Rightarrow> (Inl (KiokukoError INTEGRITY_ERROR ''Orchestration job could not be read back''), d)
                        | Some row \<Rightarrow> (parseRow row, d)))))"

section \<open>Claiming\<close>

record trace_scope =
  ts_directory :: string
  ts_traceRunId :: "string option"

record claim_input =
  cm_owner :: string
  cm_limit :: int
  cm_leaseMs :: int
  cm_kinds :: "job_kind list option"
  cm_traceScope :: "trace_scope option"

text \<open>\<open>json_extract(payload_json, '$.key') = text\<close>.\<close>

definition json_text_at :: "string \<Rightarrow> string \<Rightarrow> string option" where
  "json_text_at text key =
     (case json_parse text of
        Some (VObj fs) \<Rightarrow> (case getp fs key of VStr s \<Rightarrow> Some s | _ \<Rightarrow> None)
      | _ \<Rightarrow> None)"

definition in_scope :: "trace_scope option \<Rightarrow> job_row \<Rightarrow> bool" where
  "in_scope scope r =
     (case scope of
        None \<Rightarrow> True
      | Some s \<Rightarrow> jb_kind r = ''trace_ingestion''
          \<and> json_text_at (jb_payload_json r) ''directory'' = Some (ts_directory s)
          \<and> (case ts_traceRunId s of
               None \<Rightarrow> True
             | Some t \<Rightarrow> json_text_at (jb_payload_json r) ''traceRunId'' = Some t))"

definition claimable :: "job_row \<Rightarrow> bool" where
  "claimable r = (jb_state r \<in> {''pending'', ''failed'', ''abandoned''})"

definition lease_lapsed :: "string \<Rightarrow> job_row \<Rightarrow> bool" where
  "lease_lapsed now r =
     (jb_state r = ''leased'' \<and> (case jb_lease_expires_at r of None \<Rightarrow> False | Some t \<Rightarrow> t \<le> now))"

definition abandon :: "string \<Rightarrow> job_row \<Rightarrow> job_row" where
  "abandon now r =
     r\<lparr>jb_state := ''abandoned'', jb_lease_owner := None, jb_lease_expires_at := None,
       jb_error_code := Some ''lease_expired'', jb_updated_at := now\<rparr>"

definition ready :: "string \<Rightarrow> job_kind list \<Rightarrow> trace_scope option \<Rightarrow> job_row \<Rightarrow> bool" where
  "ready now kinds scope r =
     (claimable r \<and> jb_attempts r < 20 \<and> jb_available_at r \<le> now
      \<and> jb_kind r \<in> kind_text ` set kinds \<and> in_scope scope r)"

definition candidates :: "string \<Rightarrow> job_kind list \<Rightarrow> trace_scope option \<Rightarrow> int \<Rightarrow> job_db \<Rightarrow> string list" where
  "candidates now kinds scope limit d =
     map jb_job_id (take (nat limit)
       (sort_key (\<lambda>r. (jb_available_at r, jb_created_at r, jb_job_id r)) (filter (ready now kinds scope) (jd_jobs d))))"

definition lease :: "string \<Rightarrow> string \<Rightarrow> string \<Rightarrow> job_row \<Rightarrow> job_row" where
  "lease owner expiresAt now r =
     r\<lparr>jb_state := ''leased'', jb_attempts := jb_attempts r + 1, jb_lease_owner := Some owner,
       jb_lease_expires_at := Some expiresAt, jb_error_code := None, jb_updated_at := now\<rparr>"

fun claim_each ::
    "string \<Rightarrow> string \<Rightarrow> string \<Rightarrow> string list \<Rightarrow> orchestration_job list \<Rightarrow> (job_db, orchestration_job list) operation" where
  "claim_each owner expiresAt now [] claimed d = (Inr claimed, d)"
| "claim_each owner expiresAt now (jobId # rest) claimed d =
     (let P = (\<lambda>r. jb_job_id r = jobId \<and> claimable r) in
      case find P (jd_jobs d) of
        None \<Rightarrow> claim_each owner expiresAt now rest claimed d
      | Some row \<Rightarrow>
          (case update_jobs P (lease owner expiresAt now) d of
             (Inl e, d) \<Rightarrow> (Inl e, d)
           | (Inr _, d) \<Rightarrow>
               (case parseRow (lease owner expiresAt now row) of
                  Inl e \<Rightarrow> (Inl e, d)
                | Inr job \<Rightarrow> claim_each owner expiresAt now rest (claimed @ [job]) d)))"

definition claim_in_transaction :: "claim_input \<Rightarrow> string \<Rightarrow> (job_db, orchestration_job list) operation" where
  "claim_in_transaction input now d =
     (case update_jobs (\<lambda>r. lease_lapsed now r \<and> in_scope (cm_traceScope input) r) (abandon now) d of
        (Inl e, d) \<Rightarrow> (Inl e, d)
      | (Inr _, d) \<Rightarrow>
          let kinds = (case cm_kinds input of None \<Rightarrow> map snd ORCHESTRATION_JOB_KINDS | Some ks \<Rightarrow> ks) in
          if kinds = [] then (Inr [], d)
          else claim_each (cm_owner input) (iso_string (date_parse now + cm_leaseMs input)) now
                 (candidates now kinds (cm_traceScope input) (cm_limit input) d) [] d)"

definition claim_bounds_ok :: "claim_input \<Rightarrow> bool" where
  "claim_bounds_ok input =
     (1 \<le> cm_limit input \<and> cm_limit input \<le> 32 \<and> 1000 \<le> cm_leaseMs input \<and> cm_leaseMs input \<le> 300000)"

definition claimOrchestrationJobs :: "claim_input \<Rightarrow> string \<Rightarrow> (job_db, orchestration_job list) session" where
  "claimOrchestrationJobs input now c =
     (if \<not> claim_bounds_ok input
      then (Inl (KiokukoError VALIDATION_ERROR ''Orchestration job claim bounds are invalid''), c)
      else withImmediateTransaction (claim_in_transaction input now) c)"

section \<open>Settling\<close>

definition stale_lease :: js_error where
  "stale_lease = KiokukoError CONFLICT ''Orchestration job lease is stale''"

definition holds_lease :: "string \<Rightarrow> string \<Rightarrow> string \<Rightarrow> job_row \<Rightarrow> bool" where
  "holds_lease jobId owner now r =
     (jb_job_id r = jobId \<and> jb_state r = ''leased'' \<and> jb_lease_owner r = Some owner
      \<and> (case jb_lease_expires_at r of None \<Rightarrow> False | Some t \<Rightarrow> now < t))"

text \<open>An \<open>UPDATE ... RETURNING\<close> of the leased row; no row returned is a stale lease.\<close>

definition settle_job :: "string \<Rightarrow> string \<Rightarrow> string \<Rightarrow> (job_row \<Rightarrow> job_row) \<Rightarrow> (job_db, unit) operation" where
  "settle_job jobId owner now f d =
     (if list_ex (holds_lease jobId owner now) (jd_jobs d)
      then update_jobs (holds_lease jobId owner now) f d
      else (Inl stale_lease, d))"

definition completed_row :: "string option \<Rightarrow> string \<Rightarrow> job_row \<Rightarrow> job_row" where
  "completed_row digest now r =
     r\<lparr>jb_state := ''completed'', jb_lease_owner := None, jb_lease_expires_at := None,
       jb_result_digest := digest, jb_error_code := None, jb_completed_at := Some now, jb_updated_at := now\<rparr>"

definition completeOrchestrationJob ::
    "(string \<Rightarrow> string) \<Rightarrow> string \<Rightarrow> string \<Rightarrow> jsvalue option \<Rightarrow> string \<Rightarrow> (job_db, unit) operation" where
  "completeOrchestrationJob sha256 jobId owner outcome now d =
     (case (case outcome of
              None \<Rightarrow> Inr None
            | Some v \<Rightarrow> rbind (canonicalContentHash sha256 v) (\<lambda>h. Inr (Some h))) of
        Inl e \<Rightarrow> (Inl e, d)
      | Inr digest \<Rightarrow> settle_job jobId owner now (completed_row digest now) d)"

definition failed_row :: "string \<Rightarrow> string \<Rightarrow> string \<Rightarrow> job_row \<Rightarrow> job_row" where
  "failed_row errorCode availableAt now r =
     r\<lparr>jb_state := ''failed'', jb_lease_owner := None, jb_lease_expires_at := None,
       jb_error_code := Some (take 200 errorCode), jb_available_at := availableAt, jb_updated_at := now\<rparr>"

definition failOrchestrationJob ::
    "string \<Rightarrow> string \<Rightarrow> string \<Rightarrow> string option \<Rightarrow> string \<Rightarrow> (job_db, unit) operation" where
  "failOrchestrationJob jobId owner errorCode retryAt now d =
     settle_job jobId owner now
       (failed_row errorCode (case retryAt of None \<Rightarrow> now | Some t \<Rightarrow> t) now) d"

definition assertOrchestrationJobLease :: "string \<Rightarrow> string \<Rightarrow> string \<Rightarrow> job_db \<Rightarrow> unit result" where
  "assertOrchestrationJobLease jobId owner now d =
     check (list_ex (holds_lease jobId owner now) (jd_jobs d)) stale_lease"

definition renewOrchestrationJobLease :: "string \<Rightarrow> string \<Rightarrow> string \<Rightarrow> (job_db, unit) operation" where
  "renewOrchestrationJobLease jobId owner now d =
     (case assertOrchestrationJobLease jobId owner now d of
        Inl e \<Rightarrow> (Inl e, d)
      | Inr _ \<Rightarrow>
          update_jobs (\<lambda>r. jb_job_id r = jobId \<and> jb_state r = ''leased'' \<and> jb_lease_owner r = Some owner)
            (\<lambda>r. r\<lparr>jb_lease_expires_at := Some (iso_string (date_parse now + 120000))\<rparr>) d)"

record job_diagnostics =
  dg_pending :: nat
  dg_leased :: nat
  dg_failed :: nat
  dg_oldestPendingAt :: "string option"

definition least_text :: "string list \<Rightarrow> string option" where
  "least_text ts = (case sort ts of [] \<Rightarrow> None | t # _ \<Rightarrow> Some t)"

definition orchestrationJobDiagnostics :: "job_db \<Rightarrow> job_diagnostics" where
  "orchestrationJobDiagnostics d =
     (let count = (\<lambda>S. length (filter (\<lambda>r. jb_state r \<in> S) (jd_jobs d))) in
      \<lparr>dg_pending = count {''pending'', ''abandoned''}, dg_leased = count {''leased''},
       dg_failed = count {''failed''},
       dg_oldestPendingAt = least_text (map jb_created_at
         (filter (\<lambda>r. jb_state r \<in> {''pending'', ''abandoned'', ''failed''}) (jd_jobs d)))\<rparr>)"

end
