(* ===== verification/Job_Leases.thy ===== *)
theory Job_Leases
  imports Orchestration_Jobs
begin

text \<open>
  Correctness of the job queue: the table invariant, what a claim takes, exclusivity of leases under
  every interleaving, the bound on the number of claims, and idempotent enqueueing.
\<close>

section \<open>The table invariant\<close>

definition payload_object :: "job_row \<Rightarrow> bool" where
  "payload_object r = (case json_parse (jb_payload_json r) of Some (VObj fs) \<Rightarrow> True | _ \<Rightarrow> False)"

definition row_ok :: "job_row \<Rightarrow> bool" where
  "row_ok r = (job_columns_ok r \<and> payload_object r)"

definition jobs_inv :: "job_db \<Rightarrow> bool" where
  "jobs_inv d =
     (distinct (map jb_job_id (jd_jobs d)) \<and> distinct (map (\<lambda>r. (jb_kind r, jb_input_digest r)) (jd_jobs d))
      \<and> list_all row_ok (jd_jobs d))"

text \<open>The columns no statement but the insertion writes.\<close>

definition same_identity :: "job_row \<Rightarrow> job_row \<Rightarrow> bool" where
  "same_identity r s =
     (jb_job_id r = jb_job_id s \<and> jb_kind r = jb_kind s \<and> jb_input_digest r = jb_input_digest s
      \<and> jb_payload_json r = jb_payload_json s \<and> jb_run_id r = jb_run_id s \<and> jb_created_at r = jb_created_at s)"

lemma updates_keep_identity [simp]:
  "same_identity (abandon now r) r" "same_identity (lease owner expires now r) r"
  "same_identity (completed_row dg now r) r" "same_identity (failed_row c at now r) r"
  "same_identity (r\<lparr>jb_lease_expires_at := t\<rparr>) r" "same_identity r r"
  by (simp_all add: same_identity_def abandon_def lease_def completed_row_def failed_row_def)

lemma update_jobs_rows:
  assumes "update_jobs P f d = (x, d')"
  shows "(x = Inr () \<and> jd_jobs d' = map (\<lambda>r. if P r then f r else r) (jd_jobs d) \<and> jd_runs d' = jd_runs d
      \<and> list_all (\<lambda>r. P r \<longrightarrow> job_columns_ok (f r)) (jd_jobs d)) \<or> (x = Inl job_check_failed \<and> d' = d)"
  using assms by (auto simp: update_jobs_def split: if_splits)

lemma map_keeps_inv:
  assumes inv: "jobs_inv d" and rows: "jd_jobs d' = map g (jd_jobs d)"
    and same: "\<And>r. r \<in> set (jd_jobs d) \<Longrightarrow> same_identity (g r) r"
    and ok: "\<And>r. r \<in> set (jd_jobs d) \<Longrightarrow> row_ok r \<Longrightarrow> job_columns_ok (g r)"
  shows "jobs_inv d'"
proof -
  have ids: "map jb_job_id (map g (jd_jobs d)) = map jb_job_id (jd_jobs d)"
    and keys: "map (\<lambda>r. (jb_kind r, jb_input_digest r)) (map g (jd_jobs d))
        = map (\<lambda>r. (jb_kind r, jb_input_digest r)) (jd_jobs d)"
    using same by (auto simp: same_identity_def)
  have "list_all row_ok (map g (jd_jobs d))"
    using inv same ok by (auto simp: jobs_inv_def list_all_iff row_ok_def payload_object_def same_identity_def)
  with inv show ?thesis unfolding jobs_inv_def rows by (simp only: ids keys)
qed

lemma update_jobs_inv:
  assumes "jobs_inv d" and "\<And>r. same_identity (f r) r"
  shows "jobs_inv (snd (update_jobs P f d))"
proof -
  obtain x d' where u: "update_jobs P f d = (x, d')" by fastforce
  from update_jobs_rows [OF u] show ?thesis
  proof
    assume "x = Inl job_check_failed \<and> d' = d"
    with u assms(1) show ?thesis by simp
  next
    assume r: "x = Inr () \<and> jd_jobs d' = map (\<lambda>r. if P r then f r else r) (jd_jobs d)
      \<and> jd_runs d' = jd_runs d \<and> list_all (\<lambda>r. P r \<longrightarrow> job_columns_ok (f r)) (jd_jobs d)"
    have "jobs_inv d'"
      by (rule map_keeps_inv [OF assms(1), of _ "\<lambda>r. if P r then f r else r"])
        (use r assms(2) in \<open>auto simp: list_all_iff row_ok_def\<close>)
    with u show ?thesis by simp
  qed
qed

section \<open>What a claim does\<close>

definition expired :: "string \<Rightarrow> trace_scope option \<Rightarrow> job_row \<Rightarrow> job_row" where
  "expired now scope r = (if lease_lapsed now r \<and> in_scope scope r then abandon now r else r)"

lemma kind_state_known [simp]:
  "map_of JOB_STATES ''leased'' = Some JobLeased" "map_of JOB_STATES ''abandoned'' = Some JobAbandoned"
  "map_of JOB_STATES ''completed'' = Some JobCompleted" "map_of JOB_STATES ''failed'' = Some JobFailed"
  by (simp_all add: JOB_STATES_def)

lemma abandon_ok: "job_columns_ok r \<Longrightarrow> job_columns_ok (abandon now r)"
  by (simp add: job_columns_ok_def abandon_def)

lemma lease_ok: "job_columns_ok r \<Longrightarrow> jb_attempts r < 20 \<Longrightarrow> job_columns_ok (lease owner expires now r)"
  by (simp add: job_columns_ok_def lease_def)

lemma expire_step:
  assumes "jobs_inv d"
  shows "update_jobs (\<lambda>r. lease_lapsed now r \<and> in_scope scope r) (abandon now) d
    = (Inr (), d\<lparr>jd_jobs := map (expired now scope) (jd_jobs d)\<rparr>)"
  using assms abandon_ok
  by (auto simp: update_jobs_def jobs_inv_def list_all_iff row_ok_def expired_def)

lemma expire_inv:
  assumes "jobs_inv d"
  shows "jobs_inv (d\<lparr>jd_jobs := map (expired now scope) (jd_jobs d)\<rparr>)"
  using update_jobs_inv [OF assms, of "abandon now" "\<lambda>r. lease_lapsed now r \<and> in_scope scope r"]
  by (simp add: expire_step [OF assms])

lemma parse_leased:
  assumes "row_ok r"
  shows "\<exists>job. parseRow (lease owner expires now r) = Inr job \<and> oj_jobId job = jb_job_id r
    \<and> oj_state job = JobLeased \<and> oj_leaseOwner job = Some owner \<and> oj_leaseExpiresAt job = Some expires"
proof -
  obtain kind where kind: "map_of ORCHESTRATION_JOB_KINDS (jb_kind r) = Some kind"
    using assms by (auto simp: row_ok_def job_columns_ok_def)
  obtain fs where fs: "json_parse (jb_payload_json r) = Some (VObj fs)"
    using assms by (auto simp: row_ok_def payload_object_def split: option.splits jsvalue.splits)
  show ?thesis
    by (simp add: parseRow_def parsePayload_def Let_def lease_def kind fs)
qed

abbreviation leased_to :: "string \<Rightarrow> string \<Rightarrow> orchestration_job \<Rightarrow> bool" where
  "leased_to owner expires job \<equiv>
     oj_state job = JobLeased \<and> oj_leaseOwner job = Some owner \<and> oj_leaseExpiresAt job = Some expires"

lemma claim_one:
  assumes inv: "jobs_inv d" and r: "r \<in> set (jd_jobs d)" "claimable r" "jb_attempts r < 20"
  shows "find (\<lambda>s. jb_job_id s = jb_job_id r \<and> claimable s) (jd_jobs d) = Some r"
    and "update_jobs (\<lambda>s. jb_job_id s = jb_job_id r \<and> claimable s) (lease owner expires now) d
      = (Inr (), d\<lparr>jd_jobs := map (\<lambda>s. if jb_job_id s = jb_job_id r then lease owner expires now s else s) (jd_jobs d)\<rparr>)"
proof -
  have same: "s = r" if "s \<in> set (jd_jobs d)" "jb_job_id s = jb_job_id r" for s
    using inv r(1) that by (auto simp: jobs_inv_def distinct_map inj_on_def)
  show "find (\<lambda>s. jb_job_id s = jb_job_id r \<and> claimable s) (jd_jobs d) = Some r"
    using r same by (intro find_unique) auto
  have "job_columns_ok (lease owner expires now r)"
    using inv r by (auto simp: jobs_inv_def list_all_iff row_ok_def lease_ok)
  then show "update_jobs (\<lambda>s. jb_job_id s = jb_job_id r \<and> claimable s) (lease owner expires now) d
      = (Inr (), d\<lparr>jd_jobs := map (\<lambda>s. if jb_job_id s = jb_job_id r then lease owner expires now s else s) (jd_jobs d)\<rparr>)"
  proof -
    assume ok: "job_columns_ok (lease owner expires now r)"
    have "map (\<lambda>s. if jb_job_id s = jb_job_id r \<and> claimable s then lease owner expires now s else s) (jd_jobs d)
        = map (\<lambda>s. if jb_job_id s = jb_job_id r then lease owner expires now s else s) (jd_jobs d)"
      using same r(2) by (intro map_cong) auto
    moreover have "list_all (\<lambda>s. jb_job_id s = jb_job_id r \<and> claimable s \<longrightarrow> job_columns_ok (lease owner expires now s)) (jd_jobs d)"
      using same ok by (auto simp: list_all_iff)
    ultimately show ?thesis by (simp add: update_jobs_def)
  qed
qed

definition leased_among :: "string \<Rightarrow> string \<Rightarrow> string \<Rightarrow> string list \<Rightarrow> job_row \<Rightarrow> job_row" where
  "leased_among owner expires now ids r = (if jb_job_id r \<in> set ids then lease owner expires now r else r)"

lemma claim_each_exact:
  assumes "jobs_inv d" and "distinct ids"
    and "\<And>i. i \<in> set ids \<Longrightarrow> \<exists>r \<in> set (jd_jobs d). jb_job_id r = i \<and> claimable r \<and> jb_attempts r < 20"
  shows "\<exists>js. claim_each owner expires now ids claimed d
      = (Inr (claimed @ js), d\<lparr>jd_jobs := map (leased_among owner expires now ids) (jd_jobs d)\<rparr>)
    \<and> map oj_jobId js = ids \<and> list_all (leased_to owner expires) js"
  using assms
proof (induction ids arbitrary: claimed d)
  case Nil
  then show ?case by (auto simp: leased_among_def [abs_def])
next
  case (Cons i ids)
  obtain r where r: "r \<in> set (jd_jobs d)" "jb_job_id r = i" "claimable r" "jb_attempts r < 20"
    using Cons.prems(3) by auto
  define d1 where "d1 = d\<lparr>jd_jobs := map (\<lambda>s. if jb_job_id s = i then lease owner expires now s else s) (jd_jobs d)\<rparr>"
  note one = claim_one [OF Cons.prems(1) r(1,3,4), unfolded r(2)]
  have inv1: "jobs_inv d1"
    using update_jobs_inv [OF Cons.prems(1), of "lease owner expires now" "\<lambda>s. jb_job_id s = i \<and> claimable s"] one(2)
    by (simp add: d1_def)
  have rest: "\<exists>s \<in> set (jd_jobs d1). jb_job_id s = j \<and> claimable s \<and> jb_attempts s < 20" if j: "j \<in> set ids" for j
  proof -
    obtain s where "s \<in> set (jd_jobs d)" "jb_job_id s = j" "claimable s" "jb_attempts s < 20"
      using Cons.prems(3) j by auto
    moreover have "j \<noteq> i" using Cons.prems(2) j by auto
    ultimately show ?thesis by (force simp: d1_def)
  qed
  obtain job where job: "parseRow (lease owner expires now r) = Inr job" "oj_jobId job = i" "leased_to owner expires job"
    using parse_leased [of r owner expires now] Cons.prems(1) r by (auto simp: jobs_inv_def list_all_iff)
  have "distinct ids" using Cons.prems(2) by simp
  from Cons.IH [OF inv1 this rest, of "claimed @ [job]"] obtain js where
    js: "claim_each owner expires now ids (claimed @ [job]) d1
        = (Inr ((claimed @ [job]) @ js), d1\<lparr>jd_jobs := map (leased_among owner expires now ids) (jd_jobs d1)\<rparr>)"
      "map oj_jobId js = ids" "list_all (leased_to owner expires) js" by blast
  have "jd_jobs (d1\<lparr>jd_jobs := map (leased_among owner expires now ids) (jd_jobs d1)\<rparr>)
      = map (leased_among owner expires now (i # ids)) (jd_jobs d)"
    using Cons.prems(2) by (auto simp: d1_def leased_among_def lease_def)
  then have "d1\<lparr>jd_jobs := map (leased_among owner expires now ids) (jd_jobs d1)\<rparr>
      = d\<lparr>jd_jobs := map (leased_among owner expires now (i # ids)) (jd_jobs d)\<rparr>"
    by (simp add: d1_def)
  with one js job show ?case
    by (intro exI [of _ "job # js"]) (simp add: d1_def Let_def)
qed

definition claim_kinds :: "claim_input \<Rightarrow> job_kind list" where
  "claim_kinds input = (case cm_kinds input of None \<Rightarrow> map snd ORCHESTRATION_JOB_KINDS | Some ks \<Rightarrow> ks)"

definition after_expiry :: "claim_input \<Rightarrow> string \<Rightarrow> job_db \<Rightarrow> job_db" where
  "after_expiry input now d = d\<lparr>jd_jobs := map (expired now (cm_traceScope input)) (jd_jobs d)\<rparr>"

definition claim_ids :: "claim_input \<Rightarrow> string \<Rightarrow> job_db \<Rightarrow> string list" where
  "claim_ids input now d =
     (if claim_kinds input = [] then []
      else candidates now (claim_kinds input) (cm_traceScope input) (cm_limit input) (after_expiry input now d))"

definition claim_expiry :: "claim_input \<Rightarrow> string \<Rightarrow> string" where
  "claim_expiry input now = iso_string (date_parse now + cm_leaseMs input)"

lemma candidates_rows:
  assumes "i \<in> set (candidates now kinds scope limit d)"
  shows "\<exists>r \<in> set (jd_jobs d). jb_job_id r = i \<and> ready now kinds scope r"
  using assms by (auto simp: candidates_def dest!: in_set_takeD)

lemma candidates_distinct: "jobs_inv d \<Longrightarrow> distinct (candidates now kinds scope limit d)"
proof -
  assume "jobs_inv d"
  let ?key = "\<lambda>r. (jb_available_at r, jb_created_at r, jb_job_id r)"
  have "distinct (map jb_job_id (filter (ready now kinds scope) (jd_jobs d)))"
    using \<open>jobs_inv d\<close> by (simp add: jobs_inv_def distinct_map_filter)
  moreover have "mset (map jb_job_id (sort_key ?key (filter (ready now kinds scope) (jd_jobs d))))
      = mset (map jb_job_id (filter (ready now kinds scope) (jd_jobs d)))" by simp
  ultimately have "distinct (map jb_job_id (sort_key ?key (filter (ready now kinds scope) (jd_jobs d))))"
    using mset_eq_imp_distinct_iff by blast
  then show ?thesis by (simp add: candidates_def take_map [symmetric])
qed

text \<open>A claim always succeeds; it abandons the lapsed leases in scope and leases the first ready jobs.\<close>

lemma claim_exact:
  assumes "jobs_inv d"
  shows "\<exists>js. claim_in_transaction input now d
      = (Inr js, d\<lparr>jd_jobs := map (\<lambda>r. leased_among (cm_owner input) (claim_expiry input now) now (claim_ids input now d)
           (expired now (cm_traceScope input) r)) (jd_jobs d)\<rparr>)
    \<and> map oj_jobId js = claim_ids input now d \<and> list_all (leased_to (cm_owner input) (claim_expiry input now)) js"
proof -
  let ?d1 = "after_expiry input now d"
  have inv: "jobs_inv ?d1" unfolding after_expiry_def by (rule expire_inv [OF assms])
  have u: "update_jobs (\<lambda>r. lease_lapsed now r \<and> in_scope (cm_traceScope input) r) (abandon now) d = (Inr (), ?d1)"
    unfolding after_expiry_def by (rule expire_step [OF assms])
  have rows: "\<exists>r \<in> set (jd_jobs ?d1). jb_job_id r = i \<and> claimable r \<and> jb_attempts r < 20"
    if "i \<in> set (claim_ids input now d)" for i
    using that candidates_rows by (fastforce simp: claim_ids_def ready_def split: if_splits)
  have "distinct (claim_ids input now d)"
    using candidates_distinct [OF inv] by (simp add: claim_ids_def)
  from claim_each_exact [OF inv this rows, of "cm_owner input" "claim_expiry input now" now "[]"]
  obtain js where js: "claim_each (cm_owner input) (claim_expiry input now) now (claim_ids input now d) [] ?d1
      = (Inr js, ?d1\<lparr>jd_jobs := map (leased_among (cm_owner input) (claim_expiry input now) now (claim_ids input now d)) (jd_jobs ?d1)\<rparr>)"
    "map oj_jobId js = claim_ids input now d" "list_all (leased_to (cm_owner input) (claim_expiry input now)) js"
    by auto
  have "claim_in_transaction input now d
      = claim_each (cm_owner input) (claim_expiry input now) now (claim_ids input now d) [] ?d1"
    using u by (simp add: claim_in_transaction_def claim_ids_def claim_kinds_def claim_expiry_def Let_def)
  with js show ?thesis by (auto simp: after_expiry_def comp_def)
qed

lemma claim_keeps_inv:
  assumes "jobs_inv d"
  shows "jobs_inv (snd (claim_in_transaction input now d))"
proof -
  let ?ids = "claim_ids input now d" and ?e = "expired now (cm_traceScope input)"
  have inv1: "jobs_inv (after_expiry input now d)" unfolding after_expiry_def by (rule expire_inv [OF assms])
  have "job_columns_ok (leased_among owner t now ?ids (?e r))" if r: "r \<in> set (jd_jobs d)" for owner t r
  proof (cases "jb_job_id (?e r) \<in> set ?ids")
    case True
    then obtain s where s: "s \<in> set (jd_jobs (after_expiry input now d))" "jb_job_id s = jb_job_id (?e r)"
        "jb_attempts s < 20"
      using candidates_rows by (fastforce simp: claim_ids_def ready_def split: if_splits)
    moreover have "?e r \<in> set (jd_jobs (after_expiry input now d))" using r by (simp add: after_expiry_def)
    ultimately have "s = ?e r" using inv1 by (auto simp: jobs_inv_def distinct_map inj_on_def)
    with s inv1 True show ?thesis by (auto simp: leased_among_def jobs_inv_def list_all_iff row_ok_def lease_ok)
  next
    case False
    with r inv1 show ?thesis
      by (auto simp: leased_among_def after_expiry_def jobs_inv_def list_all_iff row_ok_def)
  qed
  moreover have "same_identity (leased_among owner t now ?ids (?e r)) r" for owner t r
    by (auto simp: leased_among_def expired_def same_identity_def lease_def abandon_def)
  ultimately show ?thesis
    using claim_exact [OF assms, of input now] by (auto intro!: map_keeps_inv [OF assms])
qed

section \<open>Runs\<close>

text \<open>
  The operations of all the processes that share the table, each with the time at which it runs. A
  failed operation leaves the committed table as it was.
\<close>

datatype job_event =
    EvEnqueue string string enqueue_input
  | EvClaim claim_input string
  | EvComplete string string "jsvalue option" string
  | EvFail string string string "string option" string
  | EvRenew string string string

definition committed_by :: "'a result \<times> job_db \<Rightarrow> job_db \<Rightarrow> job_db" where
  "committed_by p d = (case fst p of Inl e \<Rightarrow> d | Inr x \<Rightarrow> snd p)"

fun job_step :: "(string \<Rightarrow> string) \<Rightarrow> job_event \<Rightarrow> job_db \<Rightarrow> job_db" where
  "job_step sha256 (EvEnqueue uuid now input) d = committed_by (enqueueOrchestrationJob sha256 uuid now input d) d"
| "job_step sha256 (EvClaim input now) d = committed_by (claim_in_transaction input now d) d"
| "job_step sha256 (EvComplete i owner v now) d = committed_by (completeOrchestrationJob sha256 i owner v now d) d"
| "job_step sha256 (EvFail i owner c retryAt now) d = committed_by (failOrchestrationJob i owner c retryAt now d) d"
| "job_step sha256 (EvRenew i owner now) d = committed_by (renewOrchestrationJobLease i owner now d) d"

fun event_ok :: "job_event \<Rightarrow> bool" where
  "event_ok (EvEnqueue uuid now input) = json_repr (VObj (eq_payload input))"
| "event_ok e = True"

fun event_time :: "job_event \<Rightarrow> string" where
  "event_time (EvEnqueue uuid now input) = now"
| "event_time (EvClaim input now) = now"
| "event_time (EvComplete i owner v now) = now"
| "event_time (EvFail i owner c retryAt now) = now"
| "event_time (EvRenew i owner now) = now"

fun acts_for :: "string \<Rightarrow> string \<Rightarrow> job_event \<Rightarrow> bool" where
  "acts_for jobId holder (EvComplete i owner v now) = (i = jobId \<and> owner = holder)"
| "acts_for jobId holder (EvFail i owner c retryAt now) = (i = jobId \<and> owner = holder)"
| "acts_for jobId holder (EvRenew i owner now) = (i = jobId \<and> owner = holder)"
| "acts_for jobId holder e = False"

lemma committed_by_inv: "jobs_inv d \<Longrightarrow> jobs_inv (snd p) \<Longrightarrow> jobs_inv (committed_by p d)"
  by (simp add: committed_by_def split: sum.splits)

lemma settle_job_inv:
  assumes "jobs_inv d" and "\<And>r. same_identity (f r) r"
  shows "jobs_inv (snd (settle_job i owner now f d))"
  using assms update_jobs_inv [OF assms] by (simp add: settle_job_def)

inductive_cases same_json_ObjE: "same_json (VObj fs) w"

lemma canonical_payload_object:
  assumes "json_repr (VObj fs)" and "canonicalJson (VObj fs) = Inr t"
  shows "\<exists>gs. json_parse t = Some (VObj gs)"
  using canonicalJson_read [OF assms] by (auto elim: same_json_ObjE)

lemma insert_job_inv:
  assumes "jobs_inv d" and "payload_object row"
  shows "jobs_inv (snd (insert_job row d))"
  using assms
  by (auto simp: insert_job_def jobs_inv_def row_ok_def find_job_def find_None_iff list_ex_iff)

lemma enqueue_inv:
  assumes "jobs_inv d" and "json_repr (VObj (eq_payload input))"
  shows "jobs_inv (snd (enqueueOrchestrationJob sha256 uuid now input d))"
proof (cases "input_digest sha256 input")
  case (Inr digest)
  show ?thesis
  proof (cases "canonicalJson (VObj (eq_payload input))")
    case (Inr t)
    with canonical_payload_object [OF assms(2)] have obj: "payload_object r" if "jb_payload_json r = t" for r
      using that by (auto simp: payload_object_def)
    have "jobs_inv d'" if "insert_job row d = (x, d')" "jb_payload_json row = t" for row x d'
      using insert_job_inv [OF assms(1) obj [OF that(2)]] that(1) by simp
    then show ?thesis
      using \<open>input_digest sha256 input = Inr digest\<close> Inr
      by (auto simp: enqueueOrchestrationJob_def Let_def split: prod.splits sum.splits option.splits)
  qed (simp add: enqueueOrchestrationJob_def Inr assms(1))
qed (simp add: enqueueOrchestrationJob_def assms(1))

lemma job_step_inv:
  assumes "jobs_inv d" and "event_ok e"
  shows "jobs_inv (job_step sha256 e d)"
proof (cases e)
  case (EvEnqueue uuid now input)
  with assms enqueue_inv show ?thesis by (simp add: committed_by_inv)
next
  case (EvClaim input now)
  with assms claim_keeps_inv show ?thesis by (simp add: committed_by_inv)
next
  case (EvComplete i owner v now)
  with assms settle_job_inv show ?thesis
    by (auto simp: committed_by_inv completeOrchestrationJob_def split: sum.splits)
next
  case (EvFail i owner c retryAt now)
  with assms settle_job_inv show ?thesis by (simp add: committed_by_inv failOrchestrationJob_def)
next
  case (EvRenew i owner now)
  with assms update_jobs_inv show ?thesis
    by (auto simp: committed_by_inv renewOrchestrationJobLease_def split: sum.splits)
qed

lemma job_run_inv: "jobs_inv d \<Longrightarrow> list_all event_ok es \<Longrightarrow> jobs_inv (fold (job_step sha256) es d)"
  by (induction es arbitrary: d) (auto simp: job_step_inv)

section \<open>Exclusive leases\<close>

lemma update_jobs_other:
  assumes "r \<in> set (jd_jobs d)" and "\<not> P r"
  shows "r \<in> set (jd_jobs (snd (update_jobs P f d)))"
  using assms by (force simp: update_jobs_def)

lemma insert_job_other: "r \<in> set (jd_jobs d) \<Longrightarrow> r \<in> set (jd_jobs (snd (insert_job row d)))"
  by (simp add: insert_job_def)

lemma enqueue_other:
  assumes "r \<in> set (jd_jobs d)"
  shows "r \<in> set (jd_jobs (snd (enqueueOrchestrationJob sha256 uuid now input d)))"
proof -
  have "r \<in> set (jd_jobs d')" if "insert_job row d = (x, d')" for row x d'
    using insert_job_other [OF assms, of row] that by simp
  then show ?thesis
    using assms by (auto simp: enqueueOrchestrationJob_def Let_def split: prod.splits sum.splits option.splits)
qed

lemma held_row_facts:
  assumes "holds_lease i owner t r" and "jb_lease_expires_at r = Some e" and "now < e"
  shows "\<not> lease_lapsed now r \<and> \<not> claimable r"
  using assms by (auto simp: holds_lease_def lease_lapsed_def claimable_def)

lemma claim_other:
  assumes inv: "jobs_inv d" and r: "r \<in> set (jd_jobs d)" and free: "\<not> lease_lapsed now r" "\<not> claimable r"
  shows "r \<in> set (jd_jobs (snd (claim_in_transaction input now d)))"
proof -
  have e: "expired now scope r = r" for scope using free(1) by (simp add: expired_def)
  have inv1: "jobs_inv (after_expiry input now d)" unfolding after_expiry_def by (rule expire_inv [OF inv])
  have r1: "r \<in> set (jd_jobs (after_expiry input now d))"
    using imageI [OF r, of "expired now (cm_traceScope input)"] by (simp add: after_expiry_def e)
  have "jb_job_id r \<notin> set (claim_ids input now d)"
  proof
    assume "jb_job_id r \<in> set (claim_ids input now d)"
    then obtain s where s: "s \<in> set (jd_jobs (after_expiry input now d))" "jb_job_id s = jb_job_id r" "claimable s"
      using candidates_rows by (fastforce simp: claim_ids_def ready_def split: if_splits)
    then have "s = r" using inv1 r1 by (auto simp: jobs_inv_def distinct_map inj_on_def)
    with s(3) free(2) show False by simp
  qed
  then have same: "leased_among (cm_owner input) (claim_expiry input now) now (claim_ids input now d)
      (expired now (cm_traceScope input) r) = r"
    by (simp add: leased_among_def e)
  obtain js where c: "claim_in_transaction input now d
      = (Inr js, d\<lparr>jd_jobs := map (\<lambda>r. leased_among (cm_owner input) (claim_expiry input now) now (claim_ids input now d)
           (expired now (cm_traceScope input) r)) (jd_jobs d)\<rparr>)"
    using claim_exact [OF inv] by blast
  have "leased_among (cm_owner input) (claim_expiry input now) now (claim_ids input now d)
      (expired now (cm_traceScope input) r) \<in> set (jd_jobs (snd (claim_in_transaction input now d)))"
    unfolding c using r by auto
  then show ?thesis by (simp only: same)
qed

lemma step_keeps_row:
  assumes "jobs_inv d" and r: "r \<in> set (jd_jobs d)"
    and free: "\<not> lease_lapsed (event_time e) r" "\<not> claimable r"
    and other: "\<And>owner. jb_state r = ''leased'' \<Longrightarrow> jb_lease_owner r = Some owner \<Longrightarrow> \<not> acts_for (jb_job_id r) owner e"
  shows "r \<in> set (jd_jobs (job_step sha256 e d))"
proof -
  have settle: "r \<in> set (jd_jobs (snd (settle_job j o' now f d)))"
    if "\<And>owner. jb_state r = ''leased'' \<Longrightarrow> jb_lease_owner r = Some owner \<Longrightarrow> \<not> (j = jb_job_id r \<and> o' = owner)"
    for j o' now f
    using r that by (auto simp: settle_job_def holds_lease_def intro!: update_jobs_other)
  show ?thesis
  proof (cases e)
    case (EvEnqueue uuid now input)
    with r show ?thesis by (auto simp: committed_by_def enqueue_other split: sum.splits)
  next
    case (EvClaim input now)
    with free claim_other [OF assms(1) r] r show ?thesis
      by (auto simp: committed_by_def split: sum.splits)
  next
    case (EvComplete j o' v now)
    with other settle r show ?thesis
      by (auto simp: committed_by_def completeOrchestrationJob_def split: sum.splits)
  next
    case (EvFail j o' c retryAt now)
    with other settle r show ?thesis
      by (auto simp: committed_by_def failOrchestrationJob_def split: sum.splits)
  next
    case (EvRenew j o' now)
    with other r show ?thesis
      by (auto simp: committed_by_def renewOrchestrationJobLease_def split: sum.splits intro!: update_jobs_other)
  qed
qed

lemma step_keeps_lease:
  assumes "jobs_inv d" and "r \<in> set (jd_jobs d)" and "holds_lease i owner t r"
    and "jb_lease_expires_at r = Some x" and "event_time e < x" and "\<not> acts_for i owner e"
  shows "r \<in> set (jd_jobs (job_step sha256 e d))"
  using assms held_row_facts [OF assms(3,4,5)]
  by (intro step_keeps_row) (auto simp: holds_lease_def)

lemma run_keeps_completed:
  assumes "jobs_inv d" and "r \<in> set (jd_jobs d)" and "jb_state r = ''completed''" and "list_all event_ok es"
  shows "r \<in> set (jd_jobs (fold (job_step sha256) es d))"
  using assms
proof (induction es arbitrary: d)
  case Nil
  then show ?case by simp
next
  case (Cons e es)
  have "r \<in> set (jd_jobs (job_step sha256 e d))"
    using Cons.prems by (intro step_keeps_row) (auto simp: lease_lapsed_def claimable_def)
  with Cons show ?case by (simp add: job_step_inv)
qed

lemma run_keeps_lease:
  assumes "jobs_inv d" and "r \<in> set (jd_jobs d)" and "holds_lease i owner t r"
    and "jb_lease_expires_at r = Some x" and "list_all event_ok es"
    and "list_all (\<lambda>e. event_time e < x \<and> \<not> acts_for i owner e) es"
  shows "r \<in> set (jd_jobs (fold (job_step sha256) es d))"
  using assms
proof (induction es arbitrary: d)
  case Nil
  then show ?case by simp
next
  case (Cons e es)
  have "r \<in> set (jd_jobs (job_step sha256 e d))"
    by (rule step_keeps_lease [OF Cons.prems(1-4)]) (use Cons.prems(6) in auto)
  moreover have "jobs_inv (job_step sha256 e d)"
    using Cons.prems(1,5) by (simp add: job_step_inv)
  ultimately show ?case
    using Cons.prems by (simp add: Cons.IH)
qed

lemma completion_succeeds:
  assumes inv: "jobs_inv d" and r: "r \<in> set (jd_jobs d)" and held: "holds_lease i owner now r"
  shows "fst (completeOrchestrationJob sha256 i owner None now d) = Inr ()"
proof -
  have "list_all (\<lambda>r. holds_lease i owner now r \<longrightarrow> job_columns_ok (completed_row None now r)) (jd_jobs d)"
    using inv by (auto simp: jobs_inv_def list_all_iff row_ok_def job_columns_ok_def completed_row_def)
  moreover have "list_ex (holds_lease i owner now) (jd_jobs d)" using r held by (auto simp: list_ex_iff)
  ultimately show ?thesis
    by (simp add: completeOrchestrationJob_def settle_job_def update_jobs_def)
qed

lemma others_are_stale:
  assumes inv: "jobs_inv d" and r: "r \<in> set (jd_jobs d)" and held: "holds_lease i owner t r" and "o' \<noteq> owner"
  shows "settle_job i o' now f d = (Inl stale_lease, d)"
proof -
  have "\<not> holds_lease i o' now s" if s: "s \<in> set (jd_jobs d)" for s
  proof
    assume h: "holds_lease i o' now s"
    then have "s = r"
      using inv s r held by (auto simp: jobs_inv_def distinct_map inj_on_def holds_lease_def)
    with h held \<open>o' \<noteq> owner\<close> show False by (simp add: holds_lease_def)
  qed
  then show ?thesis by (auto simp: settle_job_def list_ex_iff)
qed

section \<open>The number of claims\<close>

definition job_budget :: "job_db \<Rightarrow> int" where
  "job_budget d = (\<Sum>r\<leftarrow>jd_jobs d. 20 - jb_attempts r)"

fun claims_made :: "(string \<Rightarrow> string) \<Rightarrow> job_event list \<Rightarrow> job_db \<Rightarrow> int" where
  "claims_made sha256 [] d = 0"
| "claims_made sha256 (e # es) d =
     (case e of
        EvClaim input now \<Rightarrow>
          (case fst (claim_in_transaction input now d) of Inl _ \<Rightarrow> 0 | Inr js \<Rightarrow> int (length js))
      | _ \<Rightarrow> 0) + claims_made sha256 es (job_step sha256 e d)"

fun enqueues :: "job_event list \<Rightarrow> int" where
  "enqueues [] = 0"
| "enqueues (EvEnqueue uuid now input # es) = 1 + enqueues es"
| "enqueues (e # es) = enqueues es"

lemma budget_nonneg: "jobs_inv d \<Longrightarrow> 0 \<le> job_budget d"
  unfolding job_budget_def
  by (rule sum_list_nonneg) (auto simp: jobs_inv_def list_all_iff row_ok_def job_columns_ok_def)

lemma update_jobs_budget:
  assumes "\<And>r. jb_attempts (f r) = jb_attempts r"
  shows "job_budget (snd (update_jobs P f d)) = job_budget d"
  using assms by (simp add: update_jobs_def job_budget_def comp_def if_distrib cong: if_cong)

lemma budget_lease:
  "(\<Sum>r\<leftarrow>rs. 20 - jb_attempts (if jb_job_id r \<in> S then lease owner t now r else r))
     = (\<Sum>r\<leftarrow>rs. 20 - jb_attempts r) - int (length (filter (\<lambda>r. jb_job_id r \<in> S) rs))"
  by (induction rs) (auto simp: lease_def)

lemma count_ids:
  assumes "distinct (map f rs)" and "distinct ids" and "set ids \<subseteq> f ` set rs"
  shows "length (filter (\<lambda>r. f r \<in> set ids) rs) = length ids"
proof -
  have "set (map f (filter (\<lambda>r. f r \<in> set ids) rs)) = set ids" using assms(3) by auto
  moreover have "distinct (map f (filter (\<lambda>r. f r \<in> set ids) rs))"
    using assms(1) by (simp add: distinct_map_filter)
  ultimately show ?thesis
    using assms(2) by (metis distinct_card length_map)
qed

lemma claim_budget:
  assumes inv: "jobs_inv d" and c: "claim_in_transaction input now d = (Inr js, d')"
  shows "job_budget d' = job_budget d - int (length js)"
proof -
  let ?ids = "claim_ids input now d" and ?d1 = "after_expiry input now d"
  have inv1: "jobs_inv ?d1" unfolding after_expiry_def by (rule expire_inv [OF inv])
  have len: "length js = length ?ids" and rows: "jd_jobs d' =
      map (leased_among (cm_owner input) (claim_expiry input now) now ?ids) (jd_jobs ?d1)"
    using claim_exact [OF inv, of input now] c by (auto simp: after_expiry_def simp flip: length_map [of oj_jobId])
  have "set ?ids \<subseteq> jb_job_id ` set (jd_jobs ?d1)"
    using candidates_rows by (fastforce simp: claim_ids_def split: if_splits)
  moreover have "distinct ?ids" using candidates_distinct [OF inv1] by (simp add: claim_ids_def)
  ultimately have n: "length (filter (\<lambda>r. jb_job_id r \<in> set ?ids) (jd_jobs ?d1)) = length ?ids"
    using inv1 by (intro count_ids) (auto simp: jobs_inv_def)
  have "job_budget d' = job_budget ?d1 - int (length ?ids)"
    unfolding job_budget_def rows using n
    by (simp add: leased_among_def [abs_def] comp_def budget_lease)
  also have "job_budget ?d1 = job_budget d"
    by (simp add: job_budget_def after_expiry_def comp_def expired_def abandon_def if_distrib cong: if_cong)
  finally show ?thesis by (simp add: len)
qed

lemma insert_job_budget:
  "jb_attempts row = 0 \<Longrightarrow> job_budget (snd (insert_job row d)) \<le> job_budget d + 20"
  by (simp add: insert_job_def job_budget_def)

lemma enqueue_budget: "job_budget (snd (enqueueOrchestrationJob sha256 uuid now input d)) \<le> job_budget d + 20"
proof -
  have "job_budget d' \<le> job_budget d + 20" if "insert_job row d = (x, d')" "jb_attempts row = 0" for row x d'
    using insert_job_budget [OF that(2), of d] that(1) by simp
  then show ?thesis
    by (auto simp: enqueueOrchestrationJob_def Let_def split: prod.splits sum.splits option.splits)
qed

lemma settle_budget:
  assumes "\<And>r. jb_attempts (f r) = jb_attempts r"
  shows "job_budget (snd (settle_job i owner now f d)) = job_budget d"
  using update_jobs_budget [OF assms] by (simp add: settle_job_def)

lemma other_budget:
  assumes "\<And>uuid now input. e \<noteq> EvEnqueue uuid now input" and "\<And>input now. e \<noteq> EvClaim input now"
  shows "job_budget (job_step sha256 e d) = job_budget d"
  using assms
  by (cases e) (auto simp: committed_by_def completeOrchestrationJob_def failOrchestrationJob_def
      renewOrchestrationJobLease_def completed_row_def failed_row_def settle_budget update_jobs_budget
      split: sum.splits)

lemma claims_bound:
  assumes "jobs_inv d" and "list_all event_ok es"
  shows "claims_made sha256 es d \<le> job_budget d + 20 * enqueues es"
  using assms
proof (induction es arbitrary: d)
  case Nil
  then show ?case using budget_nonneg by simp
next
  case (Cons e es)
  have inv': "jobs_inv (job_step sha256 e d)" using Cons.prems by (simp add: job_step_inv)
  with Cons have IH: "claims_made sha256 es (job_step sha256 e d) \<le> job_budget (job_step sha256 e d) + 20 * enqueues es"
    by simp
  show ?case
  proof (cases e)
    case (EvEnqueue uuid now input)
    with IH enqueue_budget [of sha256 uuid now input d] show ?thesis
      by (auto simp: committed_by_def split: sum.splits)
  next
    case (EvClaim input now)
    obtain js d' where c: "claim_in_transaction input now d = (Inr js, d')"
      using claim_exact [OF Cons.prems(1)] by blast
    with IH EvClaim claim_budget [OF Cons.prems(1) c] show ?thesis by (simp add: committed_by_def)
  qed (use IH other_budget [of e sha256 d] in auto)
qed

section \<open>Enqueueing twice\<close>

lemma insert_job_existing:
  assumes "job_columns_ok row" and "find_job (jb_kind row) (jb_input_digest row) d \<noteq> None"
  shows "insert_job row d = (Inr (), d)"
  using assms by (simp add: insert_job_def)

section \<open>Properties\<close>

lemma int_min_nat: "1 \<le> l \<Longrightarrow> int (min n (nat l)) = min l (int n)"
  by (auto simp: min_def)

definition sample_sha :: "string \<Rightarrow> string" where
  "sample_sha t = replicate 64 (CHR ''0'')"

definition sample_input :: enqueue_input where
  "sample_input = \<lparr>eq_kind = PlanPublish, eq_runId = None, eq_payload = [(''a'', VNum 1)], eq_availableAt = None\<rparr>"

definition sample_claim :: "string \<Rightarrow> claim_input" where
  "sample_claim owner = \<lparr>cm_owner = owner, cm_limit = 1, cm_leaseMs = 120000, cm_kinds = None, cm_traceScope = None\<rparr>"

definition sample_row :: "string \<Rightarrow> job_row" where
  "sample_row state =
     \<lparr>jb_job_id = ''j1'', jb_kind = ''plan_publish'', jb_run_id = None, jb_input_digest = sample_sha [],
      jb_payload_json = ''{}'', jb_state = state, jb_attempts = 3, jb_available_at = ''2024-05-01T10:00:00.000Z'',
      jb_lease_owner = (if state = ''leased'' then Some ''w1'' else None),
      jb_lease_expires_at = (if state = ''leased'' then Some ''2024-05-01T10:02:00.000Z'' else None),
      jb_result_digest = None, jb_error_code = None, jb_created_at = ''2024-05-01T09:00:00.000Z'',
      jb_updated_at = ''2024-05-01T10:00:00.000Z'', jb_completed_at = None\<rparr>"

definition sample_jobs :: "string \<Rightarrow> job_db" where
  "sample_jobs state = \<lparr>jd_runs = [], jd_jobs = [sample_row state]\<rparr>"

lemma sample_jobs_inv: "jobs_inv (sample_jobs ''leased'')" "jobs_inv (sample_jobs ''pending'')"
  by code_simp+

text \<open>
  C17: A lease is exclusive. Until it expires, no sequence of enqueues, claims, completions, failures and
  renewals by others changes the leased job; its holder can complete it, and a completion by anyone
  else is refused as stale and changes nothing.
\<close>

theorem lease_exclusive:
  assumes "jobs_inv d" and "r \<in> set (jd_jobs d)" and "holds_lease i owner t r"
    and "jb_lease_expires_at r = Some x" and "list_all event_ok es"
    and "list_all (\<lambda>e. event_time e < x \<and> \<not> acts_for i owner e) es" and "now < x"
  shows "r \<in> set (jd_jobs (fold (job_step sha256) es d))
    \<and> fst (completeOrchestrationJob sha256 i owner None now (fold (job_step sha256) es d)) = Inr ()
    \<and> (\<forall>o'. o' \<noteq> owner \<longrightarrow> completeOrchestrationJob sha256 i o' None now (fold (job_step sha256) es d)
          = (Inl stale_lease, fold (job_step sha256) es d))"
proof -
  let ?d = "fold (job_step sha256) es d"
  have r: "r \<in> set (jd_jobs ?d)" by (rule run_keeps_lease [OF assms(1-6)])
  have inv: "jobs_inv ?d" using assms(1,5) by (rule job_run_inv)
  have held: "holds_lease i owner now r" using assms(3,4,7) by (simp add: holds_lease_def)
  show ?thesis
    using r completion_succeeds [OF inv r held] others_are_stale [OF inv r held]
    by (simp add: completeOrchestrationJob_def)
qed

theorem lease_exclusive_witness:
  "fst (completeOrchestrationJob sample_sha ''j1'' ''w1'' None ''2024-05-01T10:01:30.000Z''
      (fold (job_step sample_sha) [EvClaim (sample_claim ''w2'') ''2024-05-01T10:01:00.000Z''] (sample_jobs ''leased'')))
    = Inr ()"
proof -
  have "holds_lease ''j1'' ''w1'' ''2024-05-01T10:00:00.000Z'' (sample_row ''leased'')" by code_simp
  moreover have "list_all (\<lambda>e. event_time e < ''2024-05-01T10:02:00.000Z'' \<and> \<not> acts_for ''j1'' ''w1'' e)
      [EvClaim (sample_claim ''w2'') ''2024-05-01T10:01:00.000Z'']" by code_simp
  moreover have "''2024-05-01T10:01:30.000Z'' < (''2024-05-01T10:02:00.000Z'' :: string)" by code_simp
  ultimately show ?thesis
    using lease_exclusive [OF sample_jobs_inv(1), of "sample_row ''leased''" "''j1''" "''w1''"
        "''2024-05-01T10:00:00.000Z''" "''2024-05-01T10:02:00.000Z''"
        "[EvClaim (sample_claim ''w2'') ''2024-05-01T10:01:00.000Z'']"]
    by (simp add: sample_jobs_def sample_row_def)
qed

text \<open>
  C23: Retrying ends. Over any sequence of operations the number of claims is at most twenty for each job
  ever enqueued, less the attempts already made.
\<close>

theorem claims_bounded:
  assumes "jobs_inv d" and "list_all event_ok es"
  shows "claims_made sha256 es d \<le> job_budget d + 20 * enqueues es"
  using assms by (rule claims_bound)

theorem claims_bounded_witness:
  "claims_made sample_sha [EvClaim (sample_claim ''w2'') ''2024-05-01T10:01:00.000Z''] (sample_jobs ''pending'') \<le> 17"
proof -
  have "job_budget (sample_jobs ''pending'') = 17" by code_simp
  with claims_bounded [OF sample_jobs_inv(2), of "[EvClaim (sample_claim ''w2'') ''2024-05-01T10:01:00.000Z'']" sample_sha]
  show ?thesis by simp
qed

text \<open>
  C26: A claim on a well-formed table never fails: it leases, to the claiming owner, the first ready jobs
  in order of availability, as many as there are up to the limit, so that a ready job is never passed
  over by an idle worker.
\<close>

theorem claim_takes_ready:
  assumes "jobs_inv d" and "claim_bounds_ok input" and "claim_kinds input \<noteq> []"
  shows "\<exists>js d'. claim_in_transaction input now d = (Inr js, d')
    \<and> map oj_jobId js = candidates now (claim_kinds input) (cm_traceScope input) (cm_limit input) (after_expiry input now d)
    \<and> int (length js) = min (cm_limit input)
        (int (length (filter (ready now (claim_kinds input) (cm_traceScope input)) (jd_jobs (after_expiry input now d)))))
    \<and> list_all (leased_to (cm_owner input) (claim_expiry input now)) js"
proof -
  obtain js d' where c: "claim_in_transaction input now d = (Inr js, d')"
    and ids: "map oj_jobId js = claim_ids input now d"
    and l: "list_all (leased_to (cm_owner input) (claim_expiry input now)) js"
    using claim_exact [OF assms(1), of input now] by blast
  have "length js = length (claim_ids input now d)" using ids by (metis length_map)
  also have "int \<dots> = min (cm_limit input)
      (int (length (filter (ready now (claim_kinds input) (cm_traceScope input)) (jd_jobs (after_expiry input now d)))))"
    using assms(2,3) by (simp add: claim_ids_def candidates_def claim_bounds_ok_def int_min_nat)
  finally show ?thesis using c ids l assms(3) by (simp add: claim_ids_def)
qed

theorem claim_takes_ready_witness:
  "\<exists>js d'. claim_in_transaction (sample_claim ''w2'') ''2024-05-01T10:01:00.000Z'' (sample_jobs ''pending'') = (Inr js, d')
     \<and> length js = 1"
proof -
  have b: "claim_bounds_ok (sample_claim ''w2'')" "claim_kinds (sample_claim ''w2'') \<noteq> []" by code_simp+
  have "int (length (filter (ready ''2024-05-01T10:01:00.000Z'' (claim_kinds (sample_claim ''w2'')) (cm_traceScope (sample_claim ''w2'')))
      (jd_jobs (after_expiry (sample_claim ''w2'') ''2024-05-01T10:01:00.000Z'' (sample_jobs ''pending''))))) = 1"
    by code_simp
  moreover have "cm_limit (sample_claim ''w2'') = 1" by code_simp
  ultimately show ?thesis
    using claim_takes_ready [OF sample_jobs_inv(2) b, of "''2024-05-01T10:01:00.000Z''"] by auto
qed

text \<open>
  Enqueueing the same work again, whenever and under whatever identifier, returns the job that is
  already there and changes nothing.
\<close>

theorem enqueue_idempotent:
  assumes "enqueueOrchestrationJob sha256 uuid now input d = (Inr job, d')"
    and "eq_kind input' = eq_kind input" and "eq_runId input' = eq_runId input" and "eq_payload input' = eq_payload input"
  shows "enqueueOrchestrationJob sha256 uuid' now' input' d' = (Inr job, d')"
proof -
  obtain digest t where dg: "input_digest sha256 input = Inr digest" and t: "canonicalJson (VObj (eq_payload input)) = Inr t"
    using assms(1) by (auto simp: enqueueOrchestrationJob_def split: sum.splits)
  obtain row x where ins: "insert_job row d = (Inr x, d')" and cols: "jb_kind row = kind_text (eq_kind input)"
      "jb_input_digest row = digest" "jb_payload_json row = t" "jb_state row = ''pending''" "jb_attempts row = 0"
      "jb_result_digest row = None" "jb_lease_owner row = None" "jb_lease_expires_at row = None"
    and found: "find_job (kind_text (eq_kind input)) digest d' \<noteq> None"
      "\<And>r. find_job (kind_text (eq_kind input)) digest d' = Some r \<Longrightarrow> parseRow r = Inr job"
    using assms(1) dg t
    by (force simp: enqueueOrchestrationJob_def Let_def split: prod.splits sum.splits option.splits)
  have "job_columns_ok row" using ins by (auto simp: insert_job_def split: if_splits)
  with cols found insert_job_existing show ?thesis
    using dg t assms(2-4)
    by (auto simp: enqueueOrchestrationJob_def input_digest_def Let_def job_columns_ok_def
        split: option.splits)
qed

theorem enqueue_idempotent_witness:
  "\<exists>job d'. enqueueOrchestrationJob sample_sha ''u1'' ''2024-05-01T10:00:00.000Z'' sample_input \<lparr>jd_runs = [], jd_jobs = []\<rparr> = (Inr job, d')
     \<and> enqueueOrchestrationJob sample_sha ''u2'' ''2024-05-02T10:00:00.000Z'' sample_input d' = (Inr job, d')"
proof -
  have "map_sum id oj_jobId (fst (enqueueOrchestrationJob sample_sha ''u1'' ''2024-05-01T10:00:00.000Z'' sample_input
      \<lparr>jd_runs = [], jd_jobs = []\<rparr>)) = Inr ''u1''" by code_simp
  then obtain job d' where e: "enqueueOrchestrationJob sample_sha ''u1'' ''2024-05-01T10:00:00.000Z'' sample_input
      \<lparr>jd_runs = [], jd_jobs = []\<rparr> = (Inr job, d')"
    using fst_InrD by (elim exE [OF fst_InrD] exE)
  from enqueue_idempotent [OF e refl refl refl, of "''u2''" "''2024-05-02T10:00:00.000Z''"] e show ?thesis
    by (intro exI conjI)
qed

text \<open>
  A completed job is final: no later operation changes it.
\<close>

theorem completed_job_final:
  assumes "jobs_inv d" and "r \<in> set (jd_jobs d)" and "jb_state r = ''completed''" and "list_all event_ok es"
  shows "r \<in> set (jd_jobs (fold (job_step sha256) es d)) \<and> jobs_inv (fold (job_step sha256) es d)"
  using run_keeps_completed [OF assms] job_run_inv [OF assms(1,4)] by blast

theorem completed_job_final_witness:
  "sample_row ''completed'' \<in> set (jd_jobs (fold (job_step sample_sha)
      [EvClaim (sample_claim ''w2'') ''2024-05-01T10:01:00.000Z''] (sample_jobs ''completed'')))"
proof -
  have "jobs_inv (sample_jobs ''completed'')" by code_simp
  from completed_job_final [OF this, of "sample_row ''completed''"
      "[EvClaim (sample_claim ''w2'') ''2024-05-01T10:01:00.000Z'']" sample_sha]
  show ?thesis by (simp add: sample_jobs_def sample_row_def)
qed

end
