(* ===== verification/Idempotency.thy ===== *)
theory Idempotency
  imports Json_Reader Js_Date Orchestration_Jobs
begin

text \<open>
  Idempotent task requests, \<open>src/src/task-run/idempotency.ts\<close>: a receipt per scope and key, checked
  before an operation runs and stored in the same transaction as its effects. The rest of the
  database is an arbitrary state \<open>'s\<close> on which the operation acts; \<open>has_run\<close> tells whether it holds a
  ledger run, for the reference of the receipt table. The digest and the clock are arguments.
\<close>

section \<open>Input\<close>

record validated_input =
  vi_scope :: string
  vi_keyHash :: string
  vi_requestHash :: string
  vi_createdAt :: string

definition MAX_SCOPE_OR_KEY_LENGTH :: int where
  "MAX_SCOPE_OR_KEY_LENGTH = 256"

definition INPUT_FIELDS :: "string list" where
  "INPUT_FIELDS = [''scope'', ''key'', ''request'', ''createdAt'']"

definition is_control :: "char \<Rightarrow> bool" where
  "is_control c = ((of_char c :: int) < 32 \<or> 127 \<le> (of_char c :: int) \<and> (of_char c :: int) < 160)"

definition invalidInput :: js_error where
  "invalidInput = KiokukoError VALIDATION_ERROR ''Invalid idempotency input''"

definition invalidResponse :: js_error where
  "invalidResponse = KiokukoError VALIDATION_ERROR ''Invalid idempotency response''"

definition invalidStoredRecord :: js_error where
  "invalidStoredRecord = KiokukoError INTEGRITY_ERROR ''Stored idempotency record is invalid''"

fun validateJsonValue :: "jsvalue \<Rightarrow> bool" where
  "validateJsonValue VNull = True"
| "validateJsonValue (VBool b) = True"
| "validateJsonValue (VStr s) = True"
| "validateJsonValue (VNum n) = True"
| "validateJsonValue (VFrac t) = True"
| "validateJsonValue (VArr xs) = list_all validateJsonValue xs"
| "validateJsonValue (VObj fs) = list_all (\<lambda>f. validateJsonValue (snd f)) fs"
| "validateJsonValue v = False"

definition boundedString :: "jsvalue \<Rightarrow> string result" where
  "boundedString v =
     rbind (as_string invalidInput v) (\<lambda>s.
     rbind (check (trim s \<noteq> [] \<and> int (length s) \<le> MAX_SCOPE_OR_KEY_LENGTH \<and> \<not> list_ex is_control s) invalidInput) (\<lambda>_.
     Inr s))"

definition canonicalTimestamp :: "jsvalue \<Rightarrow> string result" where
  "canonicalTimestamp v =
     rbind (as_string invalidInput v) (\<lambda>s. rbind (check (isCanonicalTimestamp s) invalidInput) (\<lambda>_. Inr s))"

text \<open>The canonical text of a checked value; every failure is the given error.\<close>

definition checked_json :: "js_error \<Rightarrow> jsvalue \<Rightarrow> string result" where
  "checked_json e v =
     (if \<not> validateJsonValue v then Inl e
      else case canonicalJson v of Inl _ \<Rightarrow> Inl e | Inr t \<Rightarrow> Inr t)"

definition validateInput :: "(string \<Rightarrow> string) \<Rightarrow> string \<Rightarrow> jsvalue \<Rightarrow> validated_input result" where
  "validateInput sha256 now input =
     rbind (as_fields invalidInput input) (\<lambda>fs.
     rbind (check (keys_within fs INPUT_FIELDS) invalidInput) (\<lambda>_.
     rbind (boundedString (getp fs ''scope'')) (\<lambda>scope.
     rbind (boundedString (getp fs ''key'')) (\<lambda>key.
     rbind (checked_json invalidInput (getp fs ''request'')) (\<lambda>requestJson.
     rbind (if getp fs ''createdAt'' = VUndefined then Inr now
            else canonicalTimestamp (getp fs ''createdAt'')) (\<lambda>createdAt.
     Inr \<lparr>vi_scope = scope, vi_keyHash = sha256 key, vi_requestHash = sha256 requestJson,
          vi_createdAt = createdAt\<rparr>))))))"

section \<open>Receipts\<close>

record receipt_row =
  rc_scope :: string
  rc_key_hash :: string
  rc_request_hash :: string
  rc_response_json :: string
  rc_created_at :: string
  rc_run_id :: "string option"
  rc_purged_at :: "string option"

text \<open>The database: whether the receipt table has its run columns, the receipts, and everything else.\<close>

record 's receipt_db =
  rd_bound :: bool
  rd_receipts :: "receipt_row list"
  rd_store :: 's

definition isSha256 :: "string \<Rightarrow> bool" where
  "isSha256 s = is_hex64 s"

definition validateStoredRecord :: "receipt_row \<Rightarrow> string \<Rightarrow> unit result" where
  "validateStoredRecord row expectedScope =
     rbind (check (rc_scope row = expectedScope \<and> isSha256 (rc_key_hash row) \<and> isSha256 (rc_request_hash row)
              \<and> isCanonicalTimestamp (rc_created_at row)) invalidStoredRecord) (\<lambda>_.
     case rc_purged_at row of
       None \<Rightarrow> Inr ()
     | Some t \<Rightarrow> check (isCanonicalTimestamp t \<and> rc_run_id row = None \<and> rc_response_json row = ''null'')
                  invalidStoredRecord)"

definition storedResponse :: "receipt_row \<Rightarrow> string \<Rightarrow> jsvalue result" where
  "storedResponse row expectedScope =
     rbind (validateStoredRecord row expectedScope) (\<lambda>_.
     rbind (check (rc_purged_at row = None) (KiokukoError CONFLICT ''Idempotent task request was purged'')) (\<lambda>_.
     case json_parse (rc_response_json row) of
       None \<Rightarrow> Inl invalidStoredRecord
     | Some parsed \<Rightarrow>
         (case canonicalJson parsed of
            Inl _ \<Rightarrow> Inl invalidStoredRecord
          | Inr t \<Rightarrow> if t = rc_response_json row then Inr parsed else Inl invalidStoredRecord)))"

text \<open>The columns an older table does not have read as null.\<close>

definition selected_row :: "bool \<Rightarrow> receipt_row \<Rightarrow> receipt_row" where
  "selected_row bound r = (if bound then r else r\<lparr>rc_run_id := None, rc_purged_at := None\<rparr>)"

fun scan_receipts :: "validated_input \<Rightarrow> receipt_row list \<Rightarrow> (string \<times> jsvalue) option result" where
  "scan_receipts v [] = Inr None"
| "scan_receipts v (row # rows) =
     rbind (validateStoredRecord row (vi_scope v)) (\<lambda>_.
     if rc_key_hash row = vi_keyHash v
     then rbind (storedResponse row (vi_scope v)) (\<lambda>response. Inr (Some (rc_request_hash row, response)))
     else scan_receipts v rows)"

definition findStoredRecord :: "validated_input \<Rightarrow> 's receipt_db \<Rightarrow> (string \<times> jsvalue) option result" where
  "findStoredRecord v db =
     (let rows = map (selected_row (rd_bound db)) (rd_receipts db) in
      case find (\<lambda>r. rc_scope r = vi_scope v \<and> rc_key_hash r = vi_keyHash v) rows of
        Some direct \<Rightarrow>
          rbind (storedResponse direct (vi_scope v)) (\<lambda>response. Inr (Some (rc_request_hash direct, response)))
      | None \<Rightarrow> scan_receipts v (filter (\<lambda>r. rc_scope r = vi_scope v) rows))"

text \<open>The insertion with the constraints of the receipt table.\<close>

definition insert_receipt :: "('s \<Rightarrow> string \<Rightarrow> bool) \<Rightarrow> receipt_row \<Rightarrow> ('s receipt_db, unit) operation" where
  "insert_receipt has_run row db =
     (if \<not> (is_hex64 (rc_key_hash row) \<and> is_hex64 (rc_request_hash row))
      then (Inl (SqliteError 275 ''CHECK constraint failed: task_request_receipts''), db)
      else if list_ex (\<lambda>r. rc_scope r = rc_scope row \<and> rc_key_hash r = rc_key_hash row) (rd_receipts db)
      then (Inl (SqliteError 1555 ''UNIQUE constraint failed: task_request_receipts.scope, task_request_receipts.key_hash''), db)
      else if rd_bound db \<and> \<not> opt_all (has_run (rd_store db)) (rc_run_id row)
      then (Inl (SqliteError 787 ''FOREIGN KEY constraint failed''), db)
      else (Inr (), db\<lparr>rd_receipts := rd_receipts db @ [row]\<rparr>))"

definition receipt_run :: "validated_input \<Rightarrow> jsvalue \<Rightarrow> string option" where
  "receipt_run v response =
     (if vi_scope v \<in> {''opencode.task.create'', ''opencode.task.answer''}
      then (case response of
              VObj fs \<Rightarrow> (case getp fs ''runId'' of VStr s \<Rightarrow> Some s | _ \<Rightarrow> None)
            | _ \<Rightarrow> None)
      else None)"

text \<open>The operation on the rest of the database, run inside it.\<close>

definition run_task :: "('s, jsvalue) operation \<Rightarrow> ('s receipt_db, jsvalue) operation" where
  "run_task operation db = (let (r, s) = operation (rd_store db) in (r, db\<lparr>rd_store := s\<rparr>))"

definition executeValidated ::
    "('s \<Rightarrow> string \<Rightarrow> bool) \<Rightarrow> validated_input \<Rightarrow> ('s, jsvalue) operation \<Rightarrow> ('s receipt_db, jsvalue) operation" where
  "executeValidated has_run v operation db =
     (case findStoredRecord v db of
        Inl e \<Rightarrow> (Inl e, db)
      | Inr (Some (requestHash, response)) \<Rightarrow>
          (if requestHash \<noteq> vi_requestHash v
           then (Inl (KiokukoError CONFLICT ''Idempotency key was reused with a different request''), db)
           else (Inr response, db))
      | Inr None \<Rightarrow>
          (case run_task operation db of
             (Inl e, db1) \<Rightarrow> (Inl e, db1)
           | (Inr response, db1) \<Rightarrow>
               (case checked_json invalidResponse response of
                  Inl e \<Rightarrow> (Inl e, db1)
                | Inr responseJson \<Rightarrow>
                    (case insert_receipt has_run
                            \<lparr>rc_scope = vi_scope v, rc_key_hash = vi_keyHash v, rc_request_hash = vi_requestHash v,
                             rc_response_json = responseJson, rc_created_at = vi_createdAt v,
                             rc_run_id = (if rd_bound db1 then receipt_run v response else None),
                             rc_purged_at = None\<rparr> db1 of
                       (Inl e, db2) \<Rightarrow> (Inl e, db2)
                     | (Inr _, db2) \<Rightarrow>
                         (case json_parse responseJson of
                            None \<Rightarrow> (Inl (OtherError ''SyntaxError''), db2)
                          | Some w \<Rightarrow> (Inr w, db2))))))"

definition executeTaskRequestInTransaction ::
    "(string \<Rightarrow> string) \<Rightarrow> ('s \<Rightarrow> string \<Rightarrow> bool) \<Rightarrow> string \<Rightarrow> jsvalue \<Rightarrow> ('s, jsvalue) operation
       \<Rightarrow> ('s receipt_db, jsvalue) operation" where
  "executeTaskRequestInTransaction sha256 has_run now input operation db =
     (case validateInput sha256 now input of
        Inl e \<Rightarrow> (Inl e, db)
      | Inr v \<Rightarrow> executeValidated has_run v operation db)"

definition executeTaskRequest ::
    "(string \<Rightarrow> string) \<Rightarrow> ('s \<Rightarrow> string \<Rightarrow> bool) \<Rightarrow> string \<Rightarrow> jsvalue \<Rightarrow> ('s, jsvalue) operation
       \<Rightarrow> ('s receipt_db, jsvalue) session" where
  "executeTaskRequest sha256 has_run now input operation c =
     (case validateInput sha256 now input of
        Inl e \<Rightarrow> (Inl e, c)
      | Inr v \<Rightarrow> withImmediateTransaction (executeValidated has_run v operation) c)"

section \<open>A stored receipt answers for its operation\<close>

lemma checked_json_Inr:
  "checked_json e v = Inr t \<longleftrightarrow> validateJsonValue v \<and> canonicalJson v = Inr t"
  by (auto simp: checked_json_def split: sum.splits)

lemma stored_reads_back:
  assumes "json_repr v" and "canonicalJson v = Inr t"
  shows "\<exists>w. json_parse t = Some w \<and> canonicalJson w = Inr t"
  using canonicalJson_read [OF assms] canonicalJson_same_json assms(2) by metis

text \<open>
  What holds of a receipt table: rows are unique per scope and key and well formed, and a row is either
  purged or holds the canonical text of its response.
\<close>

definition receipt_ok :: "receipt_row \<Rightarrow> bool" where
  "receipt_ok r =
     (is_hex64 (rc_key_hash r) \<and> is_hex64 (rc_request_hash r) \<and> isCanonicalTimestamp (rc_created_at r)
      \<and> (case rc_purged_at r of
           None \<Rightarrow> (case json_parse (rc_response_json r) of
                      None \<Rightarrow> False | Some w \<Rightarrow> canonicalJson w = Inr (rc_response_json r))
         | Some t \<Rightarrow> isCanonicalTimestamp t \<and> rc_run_id r = None \<and> rc_response_json r = ''null''))"

definition receipts_ok :: "'s receipt_db \<Rightarrow> bool" where
  "receipts_ok db =
     (list_all receipt_ok (rd_receipts db)
      \<and> distinct (map (\<lambda>r. (rc_scope r, rc_key_hash r)) (rd_receipts db))
      \<and> (rd_bound db \<or> list_all (\<lambda>r. rc_purged_at r = None) (rd_receipts db)))"

definition purged_error :: js_error where
  "purged_error = KiokukoError CONFLICT ''Idempotent task request was purged''"

definition reuse_error :: js_error where
  "reuse_error = KiokukoError CONFLICT ''Idempotency key was reused with a different request''"

lemma selected_row_keys [simp]:
  "rc_scope (selected_row b r) = rc_scope r" "rc_key_hash (selected_row b r) = rc_key_hash r"
  "rc_request_hash (selected_row b r) = rc_request_hash r" "rc_response_json (selected_row b r) = rc_response_json r"
  by (simp_all add: selected_row_def)

lemma validateStoredRecord_ok:
  assumes "receipt_ok r" and "b \<or> rc_purged_at r = None"
  shows "validateStoredRecord (selected_row b r) (rc_scope r) = Inr ()"
  using assms
  by (auto simp: receipt_ok_def validateStoredRecord_def selected_row_def isSha256_def split: option.splits)

lemma storedResponse_ok:
  assumes "receipt_ok r" and "b \<or> rc_purged_at r = None"
  shows "storedResponse (selected_row b r) (rc_scope r) =
    (if rc_purged_at r = None then Inr (the (json_parse (rc_response_json r))) else Inl purged_error)"
  using validateStoredRecord_ok [OF assms] assms
  by (auto simp: storedResponse_def receipt_ok_def selected_row_def purged_error_def split: option.splits)

lemma scan_none:
  assumes "list_all receipt_ok rows" and "b \<or> list_all (\<lambda>r. rc_purged_at r = None) rows"
    and "\<And>r. r \<in> set rows \<Longrightarrow> rc_scope r = vi_scope v \<and> rc_key_hash r \<noteq> vi_keyHash v"
  shows "scan_receipts v (map (selected_row b) rows) = Inr None"
  using assms
proof (induction rows)
  case Nil
  then show ?case by simp
next
  case (Cons r rows)
  then have "validateStoredRecord (selected_row b r) (vi_scope v) = Inr ()"
    using validateStoredRecord_ok [of r b] by auto
  moreover have "scan_receipts v (map (selected_row b) rows) = Inr None"
    by (rule Cons.IH) (use Cons.prems in auto)
  ultimately show ?case using Cons.prems(3) [of r] by simp
qed

lemma find_map: "find P (map f xs) = map_option f (find (P \<circ> f) xs)"
  by (induction xs) auto

definition receipt_for :: "validated_input \<Rightarrow> 's receipt_db \<Rightarrow> receipt_row option" where
  "receipt_for v db = find (\<lambda>r. rc_scope r = vi_scope v \<and> rc_key_hash r = vi_keyHash v) (rd_receipts db)"

lemma findStoredRecord_eq:
  assumes "receipts_ok db"
  shows "findStoredRecord v db = (case receipt_for v db of
      None \<Rightarrow> Inr None
    | Some r \<Rightarrow> if rc_purged_at r = None then Inr (Some (rc_request_hash r, the (json_parse (rc_response_json r))))
                else Inl purged_error)"
proof (cases "receipt_for v db")
  case None
  have "scan_receipts v (map (selected_row (rd_bound db)) (filter (\<lambda>r. rc_scope r = vi_scope v) (rd_receipts db))) = Inr None"
    by (rule scan_none)
      (use assms None in \<open>auto simp: receipts_ok_def list_all_iff receipt_for_def find_None_iff\<close>)
  with None show ?thesis
    by (simp add: findStoredRecord_def receipt_for_def find_map comp_def filter_map Let_def)
next
  case (Some r)
  then have r: "r \<in> set (rd_receipts db)" "rc_scope r = vi_scope v"
    by (auto simp: receipt_for_def find_Some_iff)
  then have "storedResponse (selected_row (rd_bound db) r) (vi_scope v) =
      (if rc_purged_at r = None then Inr (the (json_parse (rc_response_json r))) else Inl purged_error)"
    using storedResponse_ok [of r "rd_bound db"] assms by (auto simp: receipts_ok_def list_all_iff)
  with Some show ?thesis
    by (simp add: findStoredRecord_def receipt_for_def find_map comp_def Let_def)
qed

text \<open>The two ways a request succeeds: the receipt that was there, or a run of the operation.\<close>

definition replayed :: "validated_input \<Rightarrow> 's receipt_db \<Rightarrow> jsvalue \<Rightarrow> bool" where
  "replayed v db w =
     (case receipt_for v db of
        None \<Rightarrow> False
      | Some r \<Rightarrow> rc_purged_at r = None \<and> rc_request_hash r = vi_requestHash v \<and> json_parse (rc_response_json r) = Some w)"

lemma receipt_parses:
  assumes "receipts_ok db" and "receipt_for v db = Some r" and "rc_purged_at r = None"
  shows "\<exists>w. json_parse (rc_response_json r) = Some w"
  using assms
  by (auto simp: receipts_ok_def receipt_for_def find_Some_iff list_all_iff receipt_ok_def split: option.splits)

lemma execute_replay:
  assumes "receipts_ok db" and "replayed v db w"
  shows "executeValidated has_run v operation db = (Inr w, db)"
  using assms(2)
  by (auto simp: executeValidated_def findStoredRecord_eq [OF assms(1)] replayed_def split: option.splits)

lemma execute_reuse:
  assumes "receipts_ok db" and "replayed v db w" and "vi_scope v' = vi_scope v" and "vi_keyHash v' = vi_keyHash v"
    and "vi_requestHash v' \<noteq> vi_requestHash v"
  shows "executeValidated has_run v' operation db = (Inl reuse_error, db)"
  using assms(2-)
  by (auto simp: executeValidated_def findStoredRecord_eq [OF assms(1)] replayed_def receipt_for_def reuse_error_def
      split: option.splits)

lemma insert_receipt_Inr:
  assumes "insert_receipt has_run row db = (Inr u, db')"
  shows "db' = db\<lparr>rd_receipts := rd_receipts db @ [row]\<rparr> \<and> is_hex64 (rc_key_hash row) \<and> is_hex64 (rc_request_hash row)
    \<and> \<not> list_ex (\<lambda>r. rc_scope r = rc_scope row \<and> rc_key_hash r = rc_key_hash row) (rd_receipts db)"
  using assms by (auto simp: insert_receipt_def split: if_splits)

lemma find_snoc: "find P (xs @ [x]) = (case find P xs of None \<Rightarrow> if P x then Some x else None | Some y \<Rightarrow> Some y)"
  by (induction xs) auto

lemma stored_receipt:
  assumes ok: "receipts_ok db" and none: "receipt_for v db = None" and "isCanonicalTimestamp (vi_createdAt v)"
    and "json_repr response" and c: "canonicalJson response = Inr t"
    and ins: "insert_receipt has_run \<lparr>rc_scope = vi_scope v, rc_key_hash = vi_keyHash v,
        rc_request_hash = vi_requestHash v, rc_response_json = t, rc_created_at = vi_createdAt v,
        rc_run_id = run, rc_purged_at = None\<rparr> (db\<lparr>rd_store := s\<rparr>) = (Inr u, db')"
  shows "\<exists>w. json_parse t = Some w \<and> replayed v db' w \<and> receipts_ok db' \<and> rd_store db' = s"
proof -
  obtain w where w: "json_parse t = Some w" "canonicalJson w = Inr t"
    using stored_reads_back [OF assms(4) c] by blast
  note i = insert_receipt_Inr [OF ins]
  have "replayed v db' w"
    using i none w by (simp add: replayed_def receipt_for_def find_snoc)
  moreover have "receipts_ok db'"
    using ok i w assms(3) by (auto simp: receipts_ok_def receipt_ok_def list_ex_iff)
  ultimately show ?thesis using i w by auto
qed

text \<open>An operation whose responses are plain JSON data.\<close>

definition json_task :: "('s, jsvalue) operation \<Rightarrow> bool" where
  "json_task operation = (\<forall>s r s'. operation s = (Inr r, s') \<longrightarrow> json_repr r)"

lemma execute_success:
  assumes ok: "receipts_ok db" and at: "isCanonicalTimestamp (vi_createdAt v)"
    and repr: "json_task operation"
    and ex: "executeValidated has_run v operation db = (Inr w, db')"
  shows "replayed v db' w \<and> receipts_ok db' \<and>
    (if receipt_for v db = None then \<exists>x. operation (rd_store db) = (Inr x, rd_store db') else db' = db)"
proof (cases "receipt_for v db")
  case (Some r)
  with ex receipt_parses [OF ok Some] show ?thesis
    using ok by (auto simp: executeValidated_def findStoredRecord_eq [OF ok] replayed_def split: if_splits)
next
  case None
  obtain response s t u where op: "operation (rd_store db) = (Inr response, s)"
    and c: "canonicalJson response = Inr t"
    and ins: "insert_receipt has_run \<lparr>rc_scope = vi_scope v, rc_key_hash = vi_keyHash v,
        rc_request_hash = vi_requestHash v, rc_response_json = t, rc_created_at = vi_createdAt v,
        rc_run_id = (if rd_bound db then receipt_run v response else None), rc_purged_at = None\<rparr>
        (db\<lparr>rd_store := s\<rparr>) = (Inr u, db')" and w: "json_parse t = Some w"
    using ex
    by (auto simp: executeValidated_def findStoredRecord_eq [OF ok] None run_task_def checked_json_Inr
        split: prod.splits sum.splits option.splits)
  have "json_repr response" using repr op by (auto simp: json_task_def)
  from stored_receipt [OF ok None at this c ins] w None op show ?thesis by auto
qed

section \<open>Requests\<close>

definition task_request :: "string \<Rightarrow> string \<Rightarrow> jsvalue \<Rightarrow> jsvalue" where
  "task_request scope key request = VObj [(''scope'', VStr scope), (''key'', VStr key), (''request'', request)]"

lemma validate_task_request:
  "validateInput sha256 now (task_request scope key request) = Inr v \<longleftrightarrow>
     boundedString (VStr scope) = Inr scope \<and> boundedString (VStr key) = Inr key \<and>
     (\<exists>t. checked_json invalidInput request = Inr t
       \<and> v = \<lparr>vi_scope = scope, vi_keyHash = sha256 key, vi_requestHash = sha256 t, vi_createdAt = now\<rparr>)"
  by (auto simp: validateInput_def task_request_def rbind_eq_Inr keys_within_def INPUT_FIELDS_def getp_def
      boundedString_def)

lemma same_request_validates:
  assumes "validateInput sha256 now (task_request scope key request) = Inr v" and "same_json request request'"
    and "validateJsonValue request'"
  shows "validateInput sha256 now' (task_request scope key request') = Inr (v\<lparr>vi_createdAt := now'\<rparr>)"
  using assms canonicalJson_same_json [OF assms(2)]
  by (auto simp: validate_task_request checked_json_Inr)

lemma replayed_created [simp]: "replayed (v\<lparr>vi_createdAt := t\<rparr>) db w = replayed v db w"
  by (simp add: replayed_def receipt_for_def cong: option.case_cong)

section \<open>Properties\<close>

definition sample_hash :: "string \<Rightarrow> string" where
  "sample_hash t = (if t = ''1'' then replicate 64 (CHR ''a'') else replicate 64 (CHR ''b''))"

definition sample_task :: "(nat, jsvalue) operation" where
  "sample_task n = (Inr (VObj [(''done'', VBool True)]), n + 1)"

definition sample_receipts :: "nat receipt_db" where
  "sample_receipts = \<lparr>rd_bound = True, rd_receipts = [], rd_store = 7\<rparr>"

definition sample_instant :: string where
  "sample_instant = ''2024-05-01T10:00:00.000Z''"

lemma sample_task_repr: "json_task sample_task"
  by (auto simp: json_task_def sample_task_def)

lemma sample_facts: "receipts_ok sample_receipts" "isCanonicalTimestamp sample_instant"
  by code_simp+

text \<open>
  C9: A request that succeeded is answered from its receipt from then on: the same request, with its
  fields in any order, returns the same response without running any operation or changing anything,
  and another request under the same key is refused as a conflict.
\<close>

theorem task_request_replay:
  assumes "receipts_ok db" and "isCanonicalTimestamp now" and "json_task operation"
    and "executeTaskRequestInTransaction sha256 has_run now (task_request scope key request) operation db = (Inr w, db')"
    and "validateJsonValue request'"
  shows "(same_json request request' \<longrightarrow>
      executeTaskRequestInTransaction sha256 has_run now' (task_request scope key request') operation' db' = (Inr w, db'))
    \<and> (\<forall>t t'. canonicalJson request = Inr t \<longrightarrow> canonicalJson request' = Inr t' \<longrightarrow> sha256 t' \<noteq> sha256 t \<longrightarrow>
      executeTaskRequestInTransaction sha256 has_run now' (task_request scope key request') operation' db' = (Inl reuse_error, db'))"
proof -
  obtain v where v: "validateInput sha256 now (task_request scope key request) = Inr v"
    and ex: "executeValidated has_run v operation db = (Inr w, db')"
    using assms(4) by (auto simp: executeTaskRequestInTransaction_def split: sum.splits)
  have "isCanonicalTimestamp (vi_createdAt v)" using v assms(2) by (auto simp: validate_task_request)
  from execute_success [OF assms(1) this assms(3) ex]
  have r: "replayed v db' w" and ok: "receipts_ok db'" by auto
  have "executeTaskRequestInTransaction sha256 has_run now' (task_request scope key request') operation' db' = (Inr w, db')"
    if "same_json request request'"
    using same_request_validates [OF v that assms(5)] execute_replay [OF ok] r
    by (simp add: executeTaskRequestInTransaction_def)
  moreover have "executeTaskRequestInTransaction sha256 has_run now' (task_request scope key request') operation' db' = (Inl reuse_error, db')"
    if t: "canonicalJson request = Inr t" "canonicalJson request' = Inr t'" "sha256 t' \<noteq> sha256 t" for t t'
  proof -
    let ?v = "\<lparr>vi_scope = scope, vi_keyHash = sha256 key, vi_requestHash = sha256 t', vi_createdAt = now'\<rparr>"
    have "validateInput sha256 now' (task_request scope key request') = Inr ?v"
      using v t(2) assms(5) by (simp add: validate_task_request checked_json_Inr)
    moreover have "executeValidated has_run ?v operation' db' = (Inl reuse_error, db')"
      using v t by (intro execute_reuse [OF ok r]) (auto simp: validate_task_request checked_json_Inr)
    ultimately show ?thesis by (simp add: executeTaskRequestInTransaction_def)
  qed
  ultimately show ?thesis by blast
qed

theorem task_request_replay_witness:
  "\<exists>w db'. executeTaskRequestInTransaction sample_hash (\<lambda>s r. False) sample_instant
        (task_request ''s'' ''k'' (VNum 1)) sample_task sample_receipts = (Inr w, db')
     \<and> executeTaskRequestInTransaction sample_hash (\<lambda>s r. False) sample_instant
        (task_request ''s'' ''k'' (VNum 1)) sample_task db' = (Inr w, db')"
proof -
  have "map_sum id validateJsonValue (fst (executeTaskRequestInTransaction sample_hash (\<lambda>s r. False) sample_instant
      (task_request ''s'' ''k'' (VNum 1)) sample_task sample_receipts)) = Inr True" by code_simp
  then obtain w db' where e: "executeTaskRequestInTransaction sample_hash (\<lambda>s r. False) sample_instant
      (task_request ''s'' ''k'' (VNum 1)) sample_task sample_receipts = (Inr w, db')"
    by (elim exE [OF fst_InrD] exE)
  have "validateJsonValue (VNum 1)" by simp
  from conjunct1 [OF task_request_replay [OF sample_facts sample_task_repr e this, of sample_instant sample_task], THEN mp,
      OF same_json.same_refl] e
  show ?thesis by (intro exI conjI)
qed

text \<open>
  C8: Exactly once. When a request fails, even with a commit whose outcome is unknown, and is then
  repeated successfully on a fresh connection, the effects of its operation are in the database
  exactly once.
\<close>

theorem task_request_exactly_once:
  assumes ok: "receipts_ok (committed c)" and idle: "working c = None"
    and now: "isCanonicalTimestamp now" "isCanonicalTimestamp now'"
    and repr: "json_task operation"
    and new: "\<not> list_ex (\<lambda>r. rc_scope r = scope \<and> rc_key_hash r = sha256 key) (rd_receipts (committed c))"
    and first: "executeTaskRequest sha256 has_run now (task_request scope key request) operation c = (Inl e, c1)"
    and fresh: "committed c2 = committed c1" "working c2 = None"
    and second: "executeTaskRequest sha256 has_run now' (task_request scope key request) operation c2 = (Inr w, c3)"
  shows "\<exists>x. operation (rd_store (committed c)) = (Inr x, rd_store (committed c3))"
proof -
  obtain v' where v': "validateInput sha256 now' (task_request scope key request) = Inr v'"
    and r2: "withImmediateTransaction (executeValidated has_run v' operation) c2 = (Inr w, c3)"
    using second by (auto simp: executeTaskRequest_def split: sum.splits)
  then obtain v where v: "validateInput sha256 now (task_request scope key request) = Inr v"
    by (auto simp: validate_task_request)
  have at: "isCanonicalTimestamp (vi_createdAt v)" "isCanonicalTimestamp (vi_createdAt v')"
    and same: "receipt_for v' db = receipt_for v db" for db :: "'a receipt_db"
    using v v' now by (auto simp: validate_task_request receipt_for_def)
  have none: "receipt_for v (committed c) = None"
    using new v by (auto simp: receipt_for_def find_None_iff list_ex_iff validate_task_request)
  have r1: "withImmediateTransaction (executeValidated has_run v operation) c = (Inl e, c1)"
    using first v by (simp add: executeTaskRequest_def)
  have ex2: "executeValidated has_run v' operation (committed c1) = (Inr w, committed c3)"
    using immediate.run_success [OF fresh(2) r2] fresh(1) by simp
  from immediate.run_failure [OF idle r1] show ?thesis
  proof
    assume c1: "committed c1 = committed c"
    from execute_success [OF ok at(2) repr] ex2 same none show ?thesis by (auto simp: c1)
  next
    assume "\<exists>e1 e2 x. e = TransactionCommitUncertainError e1 e2
      \<and> executeValidated has_run v operation (committed c) = (Inr x, committed c1)"
    then obtain x where ex1: "executeValidated has_run v operation (committed c) = (Inr x, committed c1)" by blast
    note s = execute_success [OF ok at(1) repr ex1]
    then have "receipt_for v' (committed c1) \<noteq> None" by (auto simp: replayed_def same split: option.splits)
    with execute_success [OF _ at(2) repr ex2] s have "committed c3 = committed c1" by auto
    with s none show ?thesis by auto
  qed
qed

definition sample_link :: "(js_error \<times> bool) option list \<Rightarrow> nat receipt_db \<Rightarrow> nat receipt_db connection" where
  "sample_link os db = \<lparr>committed = db, working = None, savepoints = [], outcomes = os\<rparr>"

text \<open>The commit of the first attempt goes through but its acknowledgement is lost.\<close>

definition lost_commit :: "nat receipt_db connection" where
  "lost_commit = sample_link [None, Some (OtherError ''io'', True)] sample_receipts"

definition first_attempt :: "jsvalue result \<times> nat receipt_db connection" where
  "first_attempt =
     executeTaskRequest sample_hash (\<lambda>s r. False) sample_instant (task_request ''s'' ''k'' (VNum 1)) sample_task lost_commit"

definition second_attempt :: "jsvalue result \<times> nat receipt_db connection" where
  "second_attempt =
     executeTaskRequest sample_hash (\<lambda>s r. False) sample_instant (task_request ''s'' ''k'' (VNum 1)) sample_task
       (sample_link [] (committed (snd first_attempt)))"

theorem task_request_exactly_once_witness:
  "isl (fst first_attempt) \<and> \<not> isl (fst second_attempt)
   \<and> (\<exists>x. sample_task 7 = (Inr x, rd_store (committed (snd second_attempt))))"
proof -
  have l: "isl (fst first_attempt)" "\<not> isl (fst second_attempt)" by code_simp+
  then obtain e w where "fst first_attempt = Inl e" "fst second_attempt = Inr w"
    by (cases "fst first_attempt"; cases "fst second_attempt") auto
  then have e: "executeTaskRequest sample_hash (\<lambda>s r. False) sample_instant (task_request ''s'' ''k'' (VNum 1))
      sample_task lost_commit = (Inl e, snd first_attempt)"
    and w: "executeTaskRequest sample_hash (\<lambda>s r. False) sample_instant (task_request ''s'' ''k'' (VNum 1)) sample_task
       (sample_link [] (committed (snd first_attempt))) = (Inr w, snd second_attempt)"
    unfolding first_attempt_def second_attempt_def by (metis prod.collapse)+
  have c: "committed lost_commit = sample_receipts" "working lost_commit = None"
    and n: "\<not> list_ex (\<lambda>r. rc_scope r = ''s'' \<and> rc_key_hash r = sample_hash ''k'') (rd_receipts (committed lost_commit))"
    by (simp_all add: lost_commit_def sample_link_def sample_receipts_def)
  have "\<exists>x. sample_task (rd_store (committed lost_commit)) = (Inr x, rd_store (committed (snd second_attempt)))"
    by (rule task_request_exactly_once [OF _ c(2) sample_facts(2) sample_facts(2) sample_task_repr n e _ _ w])
      (simp_all add: c(1) sample_facts(1) sample_link_def)
  with l show ?thesis by (simp add: c(1)) (simp add: sample_receipts_def)
qed

end
