(* ===== verification/Js_Text.thy ===== *)
theory Js_Text
  imports Js_Prelude "HOL-Library.Sublist"
begin

text \<open>
  Searching in strings: \<open>indexOf\<close> with its contract, the first position at which the pattern is a
  prefix of the rest.
\<close>

text \<open>\<open>s.indexOf(m, from)\<close>, with \<open>None\<close> for -1.\<close>

fun index_of :: "string \<Rightarrow> string \<Rightarrow> nat option" where
  "index_of m [] = (if m = [] then Some 0 else None)"
| "index_of m (c # s) = (if prefix m (c # s) then Some 0 else map_option Suc (index_of m s))"

definition index_from :: "string \<Rightarrow> string \<Rightarrow> nat \<Rightarrow> nat option" where
  "index_from s m start = map_option (\<lambda>i. start + i) (index_of m (drop start s))"

lemma index_of_Some:
  "index_of m s = Some i \<Longrightarrow> prefix m (drop i s) \<and> i \<le> length s \<and> (\<forall>j<i. \<not> prefix m (drop j s))"
proof (induction s arbitrary: i)
  case (Cons c s)
  show ?case
  proof (cases "prefix m (c # s)")
    case True
    thus ?thesis using Cons.prems by auto
  next
    case False
    then obtain k where k: "index_of m s = Some k" "i = Suc k" using Cons.prems by auto
    have "\<not> prefix m (drop j (c # s))" if "j < i" for j
      using Cons.IH [OF k(1)] False that k(2) by (cases j) auto
    thus ?thesis using Cons.IH [OF k(1)] k(2) by auto
  qed
qed (auto split: if_splits)

lemma index_of_None: "index_of m s = None \<Longrightarrow> \<not> prefix m (drop j s)"
proof (induction s arbitrary: j)
  case (Cons c s)
  thus ?case by (cases j) (auto split: if_splits)
qed (auto split: if_splits)

lemma index_from_Some:
  assumes "index_from s m start = Some i"
  shows "start \<le> i \<and> prefix m (drop i s) \<and> (\<forall>j. start \<le> j \<and> j < i \<longrightarrow> \<not> prefix m (drop j s))"
proof -
  obtain k where k: "index_of m (drop start s) = Some k" "i = start + k"
    using assms by (auto simp: index_from_def)
  have "\<not> prefix m (drop j s)" if "start \<le> j" "j < i" for j
    using index_of_Some [OF k(1)] k(2) that by (auto dest!: spec [where x = "j - start"])
  thus ?thesis using index_of_Some [OF k(1)] k(2) by (simp add: add.commute)
qed

lemma index_from_None: "index_from s m start = None \<Longrightarrow> start \<le> j \<Longrightarrow> \<not> prefix m (drop j s)"
  using index_of_None [of m "drop start s" "j - start"] by (auto simp: index_from_def)

end
