(* ===== verification/Js_Number.thy ===== *)
theory Js_Number
  imports Js_Prelude "HOL-Library.Log_Nat"
begin

text \<open>
  The arithmetic of fractional numbers, on ratios of integers: the value of a decimal text, the nearest
  double (ties to even), products of doubles and \<open>Math.round\<close>. The ratios stay between 0 and 20, so
  infinities do not occur; below the smallest normal double the rounding differs, where every
  rounded result is 0 anyway.
\<close>

type_synonym ratio = "int \<times> int"

definition decimal_ratio :: "string \<Rightarrow> ratio" where
  "decimal_ratio t =
     (let m = takeWhile (\<lambda>c. c \<noteq> CHR ''e'') t; x = drop (length m + 1) t;
          ip = takeWhile (\<lambda>c. c \<noteq> CHR ''.'') m; fp = drop (length ip + 1) m;
          n = number_of_digits (ip @ fp);
          e = (if x = [] then 0 else if hd x = CHR ''-'' then - number_of_digits (tl x) else number_of_digits (tl x))
              - int (length fp) in
      if e < 0 then (n, 10 ^ nat (- e)) else (n * 10 ^ nat e, 1))"

definition binary_exponent :: "ratio \<Rightarrow> int" where
  "binary_exponent q =
     (let (n, d) = q; b = bitlen n - bitlen d in
      if (if 0 \<le> b then d * 2 ^ nat b \<le> n else d \<le> n * 2 ^ nat (- b)) then b else b - 1)"

definition round_half_even :: "int \<Rightarrow> int \<Rightarrow> int" where
  "round_half_even n d =
     (let q = n div d; r = n mod d in if 2 * r < d \<or> 2 * r = d \<and> even q then q else q + 1)"

definition double_nearest :: "ratio \<Rightarrow> ratio" where
  "double_nearest q =
     (let (n, d) = q; e = binary_exponent q - 52 in
      if n = 0 then (0, 1)
      else if 0 \<le> e then (round_half_even n (d * 2 ^ nat e) * 2 ^ nat e, 1)
      else (round_half_even (n * 2 ^ nat (- e)) d, 2 ^ nat (- e)))"

definition double_times :: "ratio \<Rightarrow> int \<Rightarrow> ratio" where
  "double_times q k = double_nearest (fst q * k, snd q)"

definition math_round :: "ratio \<Rightarrow> int" where
  "math_round q = (2 * fst q + snd q) div (2 * snd q)"

text \<open>\<open>Math.round(x * k)\<close> for a number between 0 and 1.\<close>

fun rounded_product :: "jsvalue \<Rightarrow> int \<Rightarrow> int" where
  "rounded_product (VNum n) k = n * k"
| "rounded_product (VFrac t) k = math_round (double_times (double_nearest (decimal_ratio t)) k)"
| "rounded_product v k = 0"

end
