(* ===== verification/Record_Validate.thy ===== *)
theory Record_Validate
  imports Json_Columns Orchestration_Jobs
begin

text \<open>
  Validation of memory records and the content hash of their revisions,
  \<open>src/src/serialization/validate.ts\<close>. Enumerated fields are strings of the listed values, as in the
  source; the confidence, a number of the unit interval, stays a number value.
\<close>

section \<open>Vocabulary\<close>

definition ENTRY_KINDS :: "string list" where
  "ENTRY_KINDS = [''fact'', ''decision'', ''lesson'', ''preference'', ''reference'']"

definition ENTRY_STATUSES :: "string list" where
  "ENTRY_STATUSES = [''candidate'', ''verified'', ''superseded'']"

definition TRUST_LEVELS :: "string list" where
  "TRUST_LEVELS = [''untrusted'', ''user_asserted'', ''source_verified'', ''system_verified'']"

record validated_record =
  rv_workspace :: string
  rv_kind :: string
  rv_status :: string
  rv_title :: string
  rv_body :: string
  rv_summary :: "string option"
  rv_scope :: fields
  rv_provenance :: fields
  rv_trustLevel :: string
  rv_confidence :: jsvalue
  rv_tags :: "string list"
  rv_createdBy :: string
  rv_actor :: string

definition RECORD_FIELDS :: "string list" where
  "RECORD_FIELDS =
     [''workspace'', ''kind'', ''status'', ''title'', ''body'', ''summary'', ''scope'', ''provenance'',
      ''trustLevel'', ''confidence'', ''tags'', ''createdBy'', ''actor'']"

definition PROVENANCE_FIELDS :: "string list" where
  "PROVENANCE_FIELDS =
     [''type'', ''reference'', ''sourceRepositoryId'', ''sourceWorkspace'', ''sourceCommit'', ''sourcePath'',
      ''sourceChunkIndex'', ''externalSkillId'', ''requirementScopeHash'', ''runId'', ''deliveryId'',
      ''evidenceIds'', ''sourcePaths'', ''clientKind'', ''timestamp'']"

section \<open>Checks\<close>

definition validation :: "string \<Rightarrow> js_error" where
  "validation message = KiokukoError VALIDATION_ERROR message"

definition assertObject :: "string \<Rightarrow> jsvalue \<Rightarrow> fields result" where
  "assertObject field v = as_fields (validation (field @ '' must be a JSON object'')) v"

definition assertKnownFields :: "string list \<Rightarrow> string \<Rightarrow> fields \<Rightarrow> unit result" where
  "assertKnownFields allowed label fs =
     (case find (\<lambda>f. fst f \<notin> set allowed) (own_order fs) of
        None \<Rightarrow> Inr ()
      | Some f \<Rightarrow> Inl (validation (''Unknown '' @ label @ '' field: '' @ fst f)))"

lemma size_list_own_order: "size_list f (own_order fs) = size_list f fs"
proof -
  have "size_list f xs = sum_mset (image_mset f (mset xs)) + size (mset xs)" for xs :: "(string \<times> 'a) list"
    by (induction xs) auto
  thus ?thesis by simp
qed

function (sequential) assertJsonValue :: "string \<Rightarrow> jsvalue \<Rightarrow> unit result"
  and assertItems :: "string \<Rightarrow> nat \<Rightarrow> jsvalue list \<Rightarrow> unit result"
  and assertFields :: "string \<Rightarrow> fields \<Rightarrow> unit result"
where
  "assertJsonValue path VNull = Inr ()"
| "assertJsonValue path (VBool b) = Inr ()"
| "assertJsonValue path (VStr s) = Inr ()"
| "assertJsonValue path (VNum n) = Inr ()"
| "assertJsonValue path (VFrac t) = Inr ()"
| "assertJsonValue path VNonFinite = Inl (validation (path @ '' must contain only finite JSON numbers''))"
| "assertJsonValue path (VArr xs) = assertItems path 0 xs"
| "assertJsonValue path (VObj fs) = assertFields path (own_order fs)"
| "assertJsonValue path v = Inl (validation (path @ '' must be JSON-compatible''))"
| "assertItems path index [] = Inr ()"
| "assertItems path index (x # xs) =
     rbind (assertJsonValue (path @ ''['' @ nat_text index @ '']'') x) (\<lambda>_. assertItems path (index + 1) xs)"
| "assertFields path [] = Inr ()"
| "assertFields path ((k, x) # fs) = rbind (assertJsonValue (path @ ''.'' @ k) x) (\<lambda>_. assertFields path fs)"
  by pat_completeness auto
termination
  by (relation "measure (\<lambda>x. case x of
        Inl (p, v) \<Rightarrow> size v
      | Inr (Inl (p, i, xs)) \<Rightarrow> size_list size xs
      | Inr (Inr (p, fs)) \<Rightarrow> size_list (size_prod (\<lambda>_. 0) size) fs)")
    (auto simp: size_list_own_order)

fun isNonEmptyString :: "jsvalue \<Rightarrow> bool" where
  "isNonEmptyString (VStr s) = (trim s \<noteq> [])"
| "isNonEmptyString v = False"

fun join_with :: "string \<Rightarrow> string list \<Rightarrow> string" where
  "join_with sep [] = []"
| "join_with sep [s] = s"
| "join_with sep (s # ss) = s @ sep @ join_with sep ss"

definition enumValue :: "string list \<Rightarrow> string \<Rightarrow> jsvalue \<Rightarrow> string result" where
  "enumValue allowed field v =
     (let e = validation (field @ '' must be one of: '' @ join_with '', '' allowed) in
      rbind (as_string e v) (\<lambda>s. rbind (check (s \<in> set allowed) e) (\<lambda>_. Inr s)))"

definition nonempty_field :: "string \<Rightarrow> jsvalue \<Rightarrow> string result" where
  "nonempty_field field v =
     (let e = validation (field @ '' must be a non-empty string'') in
      rbind (check (isNonEmptyString v) e) (\<lambda>_. as_string e v))"

definition requireWorkspace :: "jsvalue \<Rightarrow> string result" where
  "requireWorkspace v = nonempty_field ''workspace'' v"

definition validateObjectField :: "string \<Rightarrow> jsvalue \<Rightarrow> fields result" where
  "validateObjectField field v =
     rbind (assertObject field v) (\<lambda>fs. rbind (assertJsonValue field v) (\<lambda>_. Inr fs))"

section \<open>Provenance and tags\<close>

definition PROVENANCE_TEXTS :: "string list" where
  "PROVENANCE_TEXTS =
     [''sourceRepositoryId'', ''sourceWorkspace'', ''sourceCommit'', ''sourcePath'', ''externalSkillId'',
      ''requirementScopeHash'', ''runId'', ''deliveryId'', ''clientKind'', ''timestamp'']"

fun is_hash_value :: "jsvalue \<Rightarrow> bool" where
  "is_hash_value (VStr s) = is_hex64 s"
| "is_hash_value v = False"

fun is_chunk_index :: "jsvalue \<Rightarrow> bool" where
  "is_chunk_index (VNum n) = (0 \<le> n \<and> n \<le> MAX_SAFE_INTEGER)"
| "is_chunk_index v = False"

fun is_bounded_strings :: "jsvalue \<Rightarrow> bool" where
  "is_bounded_strings (VArr xs) = (length xs \<le> 200 \<and> list_all isNonEmptyString xs)"
| "is_bounded_strings v = False"

definition when_present :: "(jsvalue \<Rightarrow> bool) \<Rightarrow> jsvalue \<Rightarrow> bool" where
  "when_present ok v = (v = VUndefined \<or> ok v)"

definition provenance_checks :: "fields \<Rightarrow> (bool \<times> string) list" where
  "provenance_checks fs =
     [(isNonEmptyString (getp fs ''type''), ''type must be a non-empty string''),
      (isNonEmptyString (getp fs ''reference''), ''reference must be a non-empty string'')]
     @ map (\<lambda>f. (when_present isNonEmptyString (getp fs f), f @ '' must be a non-empty string'')) PROVENANCE_TEXTS
     @ [(when_present is_hash_value (getp fs ''requirementScopeHash''),
         ''requirementScopeHash must be a lowercase SHA-256 hash''),
        (when_present is_chunk_index (getp fs ''sourceChunkIndex''),
         ''sourceChunkIndex must be a non-negative integer'')]
     @ map (\<lambda>f. (when_present is_bounded_strings (getp fs f), f @ '' must be a bounded string array''))
         [''evidenceIds'', ''sourcePaths'']"

definition first_failure :: "(bool \<times> string) list \<Rightarrow> unit result" where
  "first_failure checks =
     (case find (\<lambda>c. \<not> fst c) checks of
        None \<Rightarrow> Inr ()
      | Some c \<Rightarrow> Inl (validation (''provenance.'' @ snd c)))"

definition validateProvenance :: "jsvalue \<Rightarrow> fields result" where
  "validateProvenance v =
     rbind (validateObjectField ''provenance'' v) (\<lambda>fs.
     rbind (assertKnownFields PROVENANCE_FIELDS ''provenance'' fs) (\<lambda>_.
     rbind (if fs = [] then Inr () else first_failure (provenance_checks fs)) (\<lambda>_.
     Inr fs)))"

fun validate_tag :: "nat \<times> jsvalue \<Rightarrow> string result" where
  "validate_tag (index, v) =
     (let e = validation (''tags['' @ nat_text index @ ''] must be a non-empty string of at most 200 characters'') in
      rbind (check (isNonEmptyString v) e) (\<lambda>_.
      rbind (as_string e v) (\<lambda>s.
      rbind (check (length s \<le> 200) e) (\<lambda>_. Inr s))))"

definition validateTags :: "jsvalue \<Rightarrow> string list result" where
  "validateTags v =
     rbind (as_array (validation ''tags must be an array of strings'') v) (\<lambda>xs.
     rbind (check (length xs \<le> 100) (validation ''tags must contain at most 100 values'')) (\<lambda>_.
     rbind (rtraverse validate_tag (enumerate 0 xs)) (\<lambda>tags.
     Inr (canonicalTagOrder tags))))"

section \<open>Records\<close>

text \<open>A number between 0 and 1; the text of a fraction below one starts with \<open>0.\<close> or has a negative exponent.\<close>

fun is_unit_number :: "jsvalue \<Rightarrow> bool" where
  "is_unit_number (VNum n) = (n = 0 \<or> n = 1)"
| "is_unit_number (VFrac t) = (take 2 t = ''0.'' \<or> take 1 t \<noteq> ''-'' \<and> search (literal ''e-'') t)"
| "is_unit_number v = False"

definition or_default :: "'a \<Rightarrow> (jsvalue \<Rightarrow> 'a result) \<Rightarrow> jsvalue \<Rightarrow> 'a result" where
  "or_default d f v = (if v = VUndefined then Inr d else f v)"

definition validate_summary :: "jsvalue \<Rightarrow> string option result" where
  "validate_summary v =
     (if v = VUndefined \<or> v = VNull then Inr None
      else rbind (as_string (validation ''summary must be a string or null'') v) (\<lambda>s. Inr (Some s)))"

definition validate_confidence :: "jsvalue \<Rightarrow> jsvalue result" where
  "validate_confidence v =
     (let confidence = (if v = VUndefined then VNum 1 else v) in
      rbind (check (is_unit_number confidence) (validation ''confidence must be between 0 and 1'')) (\<lambda>_.
      Inr confidence))"

definition validateRecordInput :: "jsvalue \<Rightarrow> validated_record result" where
  "validateRecordInput v =
     rbind (assertObject ''record input'' v) (\<lambda>fs.
     rbind (assertKnownFields RECORD_FIELDS ''record input'' fs) (\<lambda>_.
     rbind (requireWorkspace (getp fs ''workspace'')) (\<lambda>workspace.
     rbind (enumValue ENTRY_KINDS ''kind'' (getp fs ''kind'')) (\<lambda>kind.
     rbind (or_default ''candidate'' (enumValue ENTRY_STATUSES ''status'') (getp fs ''status'')) (\<lambda>status.
     rbind (nonempty_field ''title'' (getp fs ''title'')) (\<lambda>title.
     rbind (as_string (validation ''body must be a string'') (getp fs ''body'')) (\<lambda>body.
     rbind (validate_summary (getp fs ''summary'')) (\<lambda>summary.
     rbind (or_default [] (validateObjectField ''scope'') (getp fs ''scope'')) (\<lambda>scope.
     rbind (or_default [] validateProvenance (getp fs ''provenance'')) (\<lambda>provenance.
     rbind (or_default ''user_asserted'' (enumValue TRUST_LEVELS ''trustLevel'') (getp fs ''trustLevel'')) (\<lambda>trustLevel.
     rbind (validate_confidence (getp fs ''confidence'')) (\<lambda>confidence.
     rbind (or_default [] validateTags (getp fs ''tags'')) (\<lambda>tags.
     rbind (or_default ''kiokuko-cli'' (nonempty_field ''createdBy'') (getp fs ''createdBy'')) (\<lambda>createdBy.
     rbind (or_default createdBy (nonempty_field ''actor'') (getp fs ''actor'')) (\<lambda>actor.
     Inr \<lparr>rv_workspace = workspace, rv_kind = kind, rv_status = status, rv_title = title, rv_body = body,
          rv_summary = summary, rv_scope = scope, rv_provenance = provenance, rv_trustLevel = trustLevel,
          rv_confidence = confidence, rv_tags = tags, rv_createdBy = createdBy, rv_actor = actor\<rparr>)))))))))))))))"

section \<open>Revision hashes\<close>

definition entryRevisionHashPayload :: "validated_record \<Rightarrow> string list \<Rightarrow> jsvalue" where
  "entryRevisionHashPayload input tags = VObj
     [(''kind'', VStr (rv_kind input)), (''title'', VStr (rv_title input)), (''body'', VStr (rv_body input)),
      (''summary'', case rv_summary input of None \<Rightarrow> VNull | Some s \<Rightarrow> VStr s),
      (''scope'', VObj (rv_scope input)), (''provenance'', VObj (rv_provenance input)),
      (''tags'', VArr (map VStr tags))]"

definition canonicalEntryRevisionContentHash :: "(string \<Rightarrow> string) \<Rightarrow> validated_record \<Rightarrow> string result" where
  "canonicalEntryRevisionContentHash sha256 input =
     canonicalContentHash sha256 (entryRevisionHashPayload input (canonicalTagOrder (rv_tags input)))"

section \<open>What validation accepts\<close>

fun json_compatible :: "jsvalue \<Rightarrow> bool" where
  "json_compatible (VArr xs) = list_all json_compatible xs"
| "json_compatible (VObj fs) = list_all (\<lambda>f. json_compatible (snd f)) fs"
| "json_compatible v = (v \<notin> {VUndefined, VNonFinite, VOpaque})"

lemma assertJsonValue_iff:
  "assertJsonValue path v = Inr () \<longleftrightarrow> json_compatible v"
  "assertItems path i xs = Inr () \<longleftrightarrow> list_all json_compatible xs"
  "assertFields path fs = Inr () \<longleftrightarrow> list_all (\<lambda>f. json_compatible (snd f)) fs"
proof (induction path v and path i xs and path fs rule: assertJsonValue_assertItems_assertFields.induct)
  case (8 path fs)
  thus ?case by (simp add: list_all_iff)
qed (auto simp: rbind_eq_Inr)

lemma assertKnownFields_iff: "assertKnownFields allowed label fs = Inr () \<longleftrightarrow> keys_within fs allowed"
proof -
  have "assertKnownFields allowed label fs = Inr () \<longleftrightarrow> find (\<lambda>f. fst f \<notin> set allowed) (own_order fs) = None"
    by (simp add: assertKnownFields_def split: option.split)
  thus ?thesis by (auto simp: find_None_iff keys_within_def list_all_iff)
qed

lemma isNonEmptyString_iff: "isNonEmptyString v \<longleftrightarrow> (\<exists>s. v = VStr s \<and> trim s \<noteq> [])"
  by (cases v) auto

lemma enumValue_Inr: "enumValue allowed field v = Inr s \<longleftrightarrow> v = VStr s \<and> s \<in> set allowed"
  by (auto simp: enumValue_def Let_def rbind_eq_Inr)

lemma nonempty_field_Inr: "nonempty_field field v = Inr s \<longleftrightarrow> v = VStr s \<and> trim s \<noteq> []"
  by (auto simp: nonempty_field_def Let_def rbind_eq_Inr isNonEmptyString_iff)

lemma validateObjectField_Inr: "validateObjectField field v = Inr fs \<longleftrightarrow> v = VObj fs \<and> json_compatible (VObj fs)"
  by (auto simp: validateObjectField_def assertObject_def rbind_eq_Inr assertJsonValue_iff)

definition provenance_ok :: "fields \<Rightarrow> bool" where
  "provenance_ok fs = (json_compatible (VObj fs) \<and> keys_within fs PROVENANCE_FIELDS
     \<and> (fs = [] \<or> list_all fst (provenance_checks fs)))"

lemma first_failure_iff: "first_failure cs = Inr () \<longleftrightarrow> list_all fst cs"
  by (induction cs) (auto simp: first_failure_def)

lemma validateProvenance_Inr: "validateProvenance v = Inr fs \<longleftrightarrow> v = VObj fs \<and> provenance_ok fs"
  by (auto simp: validateProvenance_def rbind_eq_Inr validateObjectField_Inr assertKnownFields_iff first_failure_iff
      provenance_ok_def)

definition tag_ok :: "string \<Rightarrow> bool" where
  "tag_ok s = (trim s \<noteq> [] \<and> length s \<le> 200)"

definition tags_ok :: "string list \<Rightarrow> bool" where
  "tags_ok tags = (length tags \<le> 100 \<and> list_all tag_ok tags \<and> canonicalTagOrder tags = tags)"

lemma validate_tag_Inr: "validate_tag (i, v) = Inr s \<longleftrightarrow> v = VStr s \<and> tag_ok s"
  by (auto simp: Let_def rbind_eq_Inr isNonEmptyString_iff tag_ok_def)

lemma tag_values:
  "rtraverse validate_tag (enumerate n xs) = Inr tags \<longleftrightarrow> xs = map VStr tags \<and> list_all tag_ok tags"
proof (induction xs arbitrary: n tags)
  case (Cons x xs)
  show ?case by (cases tags) (auto simp: rbind_eq_Inr Cons.IH validate_tag_Inr simp del: validate_tag.simps)
qed auto

lemma length_canonicalTagOrder_le: "length (canonicalTagOrder xs) \<le> length xs"
  by (metis distinct_card distinct_canonicalTagOrder set_canonicalTagOrder card_length)

lemma validateTags_Inr:
  "validateTags v = Inr tags \<longleftrightarrow>
     (\<exists>xs. v = VArr (map VStr xs) \<and> length xs \<le> 100 \<and> list_all tag_ok xs \<and> tags = canonicalTagOrder xs)"
  by (auto simp: validateTags_def rbind_eq_Inr tag_values)

lemma validateTags_ok: "validateTags v = Inr tags \<Longrightarrow> tags_ok tags"
  using length_canonicalTagOrder_le
  by (fastforce simp: validateTags_Inr tags_ok_def list_all_iff intro: order_trans)

lemma validateTags_again: "tags_ok tags \<Longrightarrow> validateTags (VArr (map VStr tags)) = Inr tags"
  by (auto simp: validateTags_Inr tags_ok_def)

lemma or_default_Inr: "or_default d f v = Inr x \<longleftrightarrow> (if v = VUndefined then x = d else f v = Inr x)"
  by (auto simp: or_default_def)

text \<open>A well-formed record, and the plain object with its fields.\<close>

definition record_ok :: "validated_record \<Rightarrow> bool" where
  "record_ok r =
     (trim (rv_workspace r) \<noteq> [] \<and> rv_kind r \<in> set ENTRY_KINDS \<and> rv_status r \<in> set ENTRY_STATUSES
      \<and> trim (rv_title r) \<noteq> [] \<and> json_compatible (VObj (rv_scope r)) \<and> provenance_ok (rv_provenance r)
      \<and> rv_trustLevel r \<in> set TRUST_LEVELS \<and> is_unit_number (rv_confidence r) \<and> tags_ok (rv_tags r)
      \<and> trim (rv_createdBy r) \<noteq> [] \<and> trim (rv_actor r) \<noteq> [])"

definition record_value :: "validated_record \<Rightarrow> jsvalue" where
  "record_value r = VObj
     [(''workspace'', VStr (rv_workspace r)), (''kind'', VStr (rv_kind r)), (''status'', VStr (rv_status r)),
      (''title'', VStr (rv_title r)), (''body'', VStr (rv_body r)),
      (''summary'', case rv_summary r of None \<Rightarrow> VNull | Some s \<Rightarrow> VStr s),
      (''scope'', VObj (rv_scope r)), (''provenance'', VObj (rv_provenance r)),
      (''trustLevel'', VStr (rv_trustLevel r)), (''confidence'', rv_confidence r),
      (''tags'', VArr (map VStr (rv_tags r))), (''createdBy'', VStr (rv_createdBy r)), (''actor'', VStr (rv_actor r))]"

lemma validate_confidence_Inr:
  "validate_confidence v = Inr c \<longleftrightarrow> (c = (if v = VUndefined then VNum 1 else v)) \<and> is_unit_number c"
  by (auto simp: validate_confidence_def Let_def rbind_eq_Inr)

lemma provenance_ok_Nil: "provenance_ok []"
  by (simp add: provenance_ok_def keys_within_def)

lemma tags_ok_Nil: "tags_ok []"
  by code_simp

lemma accepted_fields:
  "requireWorkspace v = Inr s \<Longrightarrow> trim s \<noteq> []"
  "enumValue allowed field v = Inr s \<Longrightarrow> s \<in> set allowed"
  "nonempty_field field v = Inr s \<Longrightarrow> trim s \<noteq> []"
  "or_default ''candidate'' (enumValue ENTRY_STATUSES field) v = Inr s \<Longrightarrow> s \<in> set ENTRY_STATUSES"
  "or_default ''user_asserted'' (enumValue TRUST_LEVELS field) v = Inr s \<Longrightarrow> s \<in> set TRUST_LEVELS"
  "or_default [] (validateObjectField field) v = Inr fs \<Longrightarrow> json_compatible (VObj fs)"
  "or_default [] validateProvenance v = Inr fs \<Longrightarrow> provenance_ok fs"
  "validate_confidence v = Inr c \<Longrightarrow> is_unit_number c"
  "or_default [] validateTags v = Inr tags \<Longrightarrow> tags_ok tags"
  by (auto simp: requireWorkspace_def nonempty_field_Inr enumValue_Inr or_default_Inr validateObjectField_Inr
      validateProvenance_Inr validate_confidence_Inr provenance_ok_Nil tags_ok_Nil ENTRY_STATUSES_def TRUST_LEVELS_def
      split: if_splits dest: validateTags_ok)

lemma default_name:
  "or_default d (nonempty_field field) v = Inr s \<Longrightarrow> trim d \<noteq> [] \<Longrightarrow> trim s \<noteq> []"
  by (auto simp: or_default_Inr nonempty_field_Inr split: if_splits)

lemma cli_name: "trim ''kiokuko-cli'' \<noteq> []"
  by code_simp

lemma created_by_ok: "or_default ''kiokuko-cli'' (nonempty_field ''createdBy'') v = Inr s \<Longrightarrow> trim s \<noteq> []"
  by (rule default_name [OF _ cli_name])

lemma actor_ok:
  "or_default d (nonempty_field ''actor'') w = Inr s \<Longrightarrow> or_default ''kiokuko-cli'' (nonempty_field ''createdBy'') v = Inr d
   \<Longrightarrow> trim s \<noteq> []"
  by (rule default_name [OF _ created_by_ok])

lemma validateRecordInput_ok:
  assumes "validateRecordInput v = Inr r"
  shows "record_ok r"
  using assms unfolding validateRecordInput_def rbind_eq_Inr
  apply (elim exE conjE)
  apply (drule Inr_inject)
  apply hypsubst
  apply (simp only: record_ok_def validated_record.simps)
  apply (intro conjI)
  apply (erule (1) actor_ok | erule created_by_ok accepted_fields)+
  done

lemma validateRecordInput_again:
  assumes "record_ok r"
  shows "validateRecordInput (record_value r) = Inr r"
proof -
  note ok = assms [unfolded record_ok_def]
  obtain fs where fs: "record_value r = VObj fs" by (simp add: record_value_def)
  have f: "keys_within fs RECORD_FIELDS"
    "getp fs ''workspace'' = VStr (rv_workspace r)" "getp fs ''kind'' = VStr (rv_kind r)"
    "getp fs ''status'' = VStr (rv_status r)" "getp fs ''title'' = VStr (rv_title r)" "getp fs ''body'' = VStr (rv_body r)"
    "getp fs ''summary'' = (case rv_summary r of None \<Rightarrow> VNull | Some s \<Rightarrow> VStr s)"
    "getp fs ''scope'' = VObj (rv_scope r)" "getp fs ''provenance'' = VObj (rv_provenance r)"
    "getp fs ''trustLevel'' = VStr (rv_trustLevel r)" "getp fs ''confidence'' = rv_confidence r"
    "getp fs ''tags'' = VArr (map VStr (rv_tags r))" "getp fs ''createdBy'' = VStr (rv_createdBy r)"
    "getp fs ''actor'' = VStr (rv_actor r)"
    using fs [symmetric] by (simp_all add: record_value_def keys_within_def RECORD_FIELDS_def getp_def)
  have "requireWorkspace (VStr (rv_workspace r)) = Inr (rv_workspace r)"
    "enumValue ENTRY_KINDS ''kind'' (VStr (rv_kind r)) = Inr (rv_kind r)"
    "or_default ''candidate'' (enumValue ENTRY_STATUSES ''status'') (VStr (rv_status r)) = Inr (rv_status r)"
    "nonempty_field ''title'' (VStr (rv_title r)) = Inr (rv_title r)"
    "or_default [] (validateObjectField ''scope'') (VObj (rv_scope r)) = Inr (rv_scope r)"
    "or_default [] validateProvenance (VObj (rv_provenance r)) = Inr (rv_provenance r)"
    "or_default ''user_asserted'' (enumValue TRUST_LEVELS ''trustLevel'') (VStr (rv_trustLevel r)) = Inr (rv_trustLevel r)"
    "or_default [] validateTags (VArr (map VStr (rv_tags r))) = Inr (rv_tags r)"
    "or_default ''kiokuko-cli'' (nonempty_field ''createdBy'') (VStr (rv_createdBy r)) = Inr (rv_createdBy r)"
    "or_default (rv_createdBy r) (nonempty_field ''actor'') (VStr (rv_actor r)) = Inr (rv_actor r)"
    using ok by (simp_all only: requireWorkspace_def enumValue_Inr or_default_Inr nonempty_field_Inr validateObjectField_Inr
      validateProvenance_Inr validateTags_again jsvalue.distinct if_False simp_thms)
  moreover have "validate_confidence (rv_confidence r) = Inr (rv_confidence r)"
    using ok by (auto simp: validate_confidence_Inr)
  moreover have "validate_summary (case rv_summary r of None \<Rightarrow> VNull | Some s \<Rightarrow> VStr s) = Inr (rv_summary r)"
    by (simp add: validate_summary_def split: option.split)
  moreover have "assertKnownFields RECORD_FIELDS ''record input'' fs = Inr ()" using f(1) by (simp add: assertKnownFields_iff)
  ultimately show ?thesis
    by (simp only: fs validateRecordInput_def assertObject_def as_fields.simps as_string.simps rbind_Inr f(2-)) simp
qed

lemma validated_iff: "(\<exists>v. validateRecordInput v = Inr r) = record_ok r"
proof
  assume "\<exists>v. validateRecordInput v = Inr r"
  then obtain v where "validateRecordInput v = Inr r" ..
  thus "record_ok r" by (rule validateRecordInput_ok)
next
  assume "record_ok r"
  from validateRecordInput_again [OF this] show "\<exists>v. validateRecordInput v = Inr r" ..
qed

lemma revalidated_iff: "record_ok r = (validateRecordInput (record_value r) = Inr r)"
proof
  assume "record_ok r"
  thus "validateRecordInput (record_value r) = Inr r" by (rule validateRecordInput_again)
next
  assume "validateRecordInput (record_value r) = Inr r"
  thus "record_ok r" by (rule validateRecordInput_ok)
qed

section \<open>What a revision hash identifies\<close>

definition canonical_payload :: "validated_record \<Rightarrow> jsvalue" where
  "canonical_payload r = entryRevisionHashPayload r (canonicalTagOrder (rv_tags r))"

definition same_value :: "jsvalue \<Rightarrow> jsvalue \<Rightarrow> bool" where
  "same_value v w = (\<exists>u. same_json v u \<and> same_json w u)"

lemma payload_repr:
  "json_repr (VObj (rv_scope r)) \<Longrightarrow> json_repr (VObj (rv_provenance r)) \<Longrightarrow> json_repr (canonical_payload r)"
  by (simp add: canonical_payload_def entryRevisionHashPayload_def list_all_iff split: option.split)

definition payload_with :: "validated_record \<Rightarrow> jsvalue \<Rightarrow> jsvalue \<Rightarrow> jsvalue" where
  "payload_with r scope provenance = VObj
     [(''kind'', VStr (rv_kind r)), (''title'', VStr (rv_title r)), (''body'', VStr (rv_body r)),
      (''summary'', case rv_summary r of None \<Rightarrow> VNull | Some s \<Rightarrow> VStr s),
      (''scope'', scope), (''provenance'', provenance), (''tags'', VArr (map VStr (canonicalTagOrder (rv_tags r))))]"

lemma payload_cong:
  assumes "same_json (VObj (rv_scope r)) u" "same_json (VObj (rv_provenance r)) w"
  shows "same_json (canonical_payload r) (payload_with r u w)"
  unfolding canonical_payload_def entryRevisionHashPayload_def payload_with_def
  by (rule same_json_objectI) (use assms in \<open>simp_all add: same_json.same_refl\<close>)

lemma summary_same:
  "same_json (case a of None \<Rightarrow> VNull | Some s \<Rightarrow> VStr s) u \<Longrightarrow> same_json (case b of None \<Rightarrow> VNull | Some s \<Rightarrow> VStr s) u
   \<Longrightarrow> a = b"
  by (cases a; cases b) auto

definition same_revision :: "validated_record \<Rightarrow> validated_record \<Rightarrow> bool" where
  "same_revision r q =
     (rv_kind r = rv_kind q \<and> rv_title r = rv_title q \<and> rv_body r = rv_body q \<and> rv_summary r = rv_summary q
      \<and> set (rv_tags r) = set (rv_tags q) \<and> same_value (VObj (rv_scope r)) (VObj (rv_scope q))
      \<and> same_value (VObj (rv_provenance r)) (VObj (rv_provenance q)))"

lemma same_payload_fields:
  assumes "same_json (canonical_payload r) u" "same_json (canonical_payload q) u"
  shows "same_revision r q"
proof -
  define fr fq where "fr = (case canonical_payload r of VObj fs \<Rightarrow> fs | _ \<Rightarrow> [])"
    and "fq = (case canonical_payload q of VObj fs \<Rightarrow> fs | _ \<Rightarrow> [])"
  have o: "canonical_payload r = VObj fr" "canonical_payload q = VObj fq"
    by (simp_all add: fr_def fq_def canonical_payload_def entryRevisionHashPayload_def)
  have d: "distinct (map fst fr)" "distinct (map fst fq)"
    by (simp_all add: fr_def fq_def canonical_payload_def entryRevisionHashPayload_def)
  obtain gs where gs: "u = VObj gs" "\<And>k. same_json (getp fr k) (getp gs k)"
    by (rule same_json_getp [OF assms(1) [unfolded o(1)] d(1)]) blast
  obtain gs' where "u = VObj gs'" "\<And>k. same_json (getp fq k) (getp gs' k)"
    by (rule same_json_getp [OF assms(2) [unfolded o(2)] d(2)]) blast
  hence both: "\<And>k. same_json (getp fr k) (getp gs k) \<and> same_json (getp fq k) (getp gs k)" using gs by simp
  note b = both [unfolded fr_def fq_def canonical_payload_def entryRevisionHashPayload_def getp_def]
  have t: "canonicalTagOrder (rv_tags r) = canonicalTagOrder (rv_tags q)"
    using b [of "''tags''"] same_json_strings by simp (metis inj_map_eq_map inj_def jsvalue.inject(4,5))
  have "set (rv_tags r) = set (rv_tags q)" using arg_cong [OF t, of set] by simp
  moreover have "rv_summary r = rv_summary q" using b [of "''summary''"] by simp (elim conjE, rule summary_same)
  moreover have "rv_kind r = rv_kind q" using b [of "''kind''"] by auto
  moreover have "rv_title r = rv_title q" using b [of "''title''"] by auto
  moreover have "rv_body r = rv_body q" using b [of "''body''"] by auto
  moreover have "same_value (VObj (rv_scope r)) (VObj (rv_scope q))" using b [of "''scope''"] unfolding same_value_def by simp (rule exI)
  moreover have "same_value (VObj (rv_provenance r)) (VObj (rv_provenance q))"
    using b [of "''provenance''"] unfolding same_value_def by simp (rule exI)
  ultimately show ?thesis by (simp add: same_revision_def)
qed

lemma same_fields_payload:
  assumes "same_revision r q"
  shows "canonicalJson (canonical_payload r) = canonicalJson (canonical_payload q)"
proof -
  obtain u w where u: "same_json (VObj (rv_scope r)) u" "same_json (VObj (rv_scope q)) u"
    and w: "same_json (VObj (rv_provenance r)) w" "same_json (VObj (rv_provenance q)) w"
    using assms by (auto simp: same_revision_def same_value_def)
  have "payload_with r u w = payload_with q u w"
    using assms canonicalTagOrder_cong [of "rv_tags r" "rv_tags q"] by (simp add: same_revision_def payload_with_def)
  thus ?thesis
    using canonicalJson_same_json [OF payload_cong [OF u(1) w(1)]] canonicalJson_same_json [OF payload_cong [OF u(2) w(2)]]
    by simp
qed

lemma content_hash_Inr:
  "canonicalEntryRevisionContentHash sha256 r = Inr h \<longleftrightarrow>
     (\<exists>t. canonicalJson (canonical_payload r) = Inr t \<and> h = sha256 t)"
  by (auto simp: canonicalEntryRevisionContentHash_def canonicalContentHash_def rbind_eq_Inr canonical_payload_def)

section \<open>Properties\<close>

text \<open>
  C35: The records that validation returns are exactly the well-formed ones: non-blank names, listed
  kinds, statuses and trust levels, a confidence between 0 and 1, JSON scope, bounded provenance and at
  most 100 sorted distinct tags. Validating the fields of such a record again returns the same record.
\<close>

theorem validateRecordInput_exact:
  "((\<exists>v. validateRecordInput v = Inr r) = record_ok r) \<and> (record_ok r = (validateRecordInput (record_value r) = Inr r))"
  by (rule conjI [OF validated_iff revalidated_iff])

text \<open>
  C24: With a digest that does not confuse the two canonical texts, two revisions have the same content
  hash exactly when they agree on kind, title, body, summary and the set of tags, and on scope and
  provenance up to the order of fields; the order and repetition of tags do not matter.
\<close>

theorem revision_hash_identifies:
  assumes "json_repr (VObj (rv_scope r))" "json_repr (VObj (rv_provenance r))"
    "json_repr (VObj (rv_scope q))" "json_repr (VObj (rv_provenance q))"
    "canonicalEntryRevisionContentHash sha256 r = Inr h"
    "inj_on sha256 {t. canonicalJson (canonical_payload r) = Inr t \<or> canonicalJson (canonical_payload q) = Inr t}"
  shows "canonicalEntryRevisionContentHash sha256 q = Inr h \<longleftrightarrow> same_revision r q"
proof
  obtain t where t: "canonicalJson (canonical_payload r) = Inr t" "h = sha256 t"
    using assms(5) by (auto simp: content_hash_Inr)
  note reads = canonicalJson_read [OF payload_repr [OF assms(1,2)] t(1)]
  {
    assume "canonicalEntryRevisionContentHash sha256 q = Inr h"
    then obtain s where s: "canonicalJson (canonical_payload q) = Inr s" "h = sha256 s" by (auto simp: content_hash_Inr)
    from s(2) t(2) have "sha256 s = sha256 t" by (rule subst)
    hence "s = t" by (rule inj_onD [OF assms(6)]) (simp_all add: s(1) t(1))
    with s have s': "canonicalJson (canonical_payload q) = Inr t" by simp
    from reads canonicalJson_read [OF payload_repr [OF assms(3,4)] s']
    obtain u where "same_json (canonical_payload r) u" "same_json (canonical_payload q) u" by auto
    thus "same_revision r q" by (rule same_payload_fields)
  next
    assume "same_revision r q"
    from same_fields_payload [OF this] t(1) have "canonicalJson (canonical_payload q) = Inr t" by simp
    thus "canonicalEntryRevisionContentHash sha256 q = Inr h" unfolding content_hash_Inr using t(2) by blast
  }
qed

definition sample_record :: "string list \<Rightarrow> validated_record" where
  "sample_record tags =
     \<lparr>rv_workspace = ''w'', rv_kind = ''fact'', rv_status = ''candidate'', rv_title = ''t'', rv_body = ''b'',
      rv_summary = None, rv_scope = [(''path'', VStr ''a'')], rv_provenance = [], rv_trustLevel = ''user_asserted'',
      rv_confidence = VFrac ''0.5'', rv_tags = tags, rv_createdBy = ''x'', rv_actor = ''x''\<rparr>"

theorem revision_hash_identifies_witness:
  "canonicalEntryRevisionContentHash id (sample_record [''b'', ''a'']) =
   canonicalEntryRevisionContentHash id (sample_record [''a'', ''b'', ''a''])"
proof -
  let ?r = "sample_record [''b'', ''a'']" and ?q = "sample_record [''a'', ''b'', ''a'']"
  have j: "json_repr (VObj (rv_scope ?r))" "json_repr (VObj (rv_provenance ?r))"
    "json_repr (VObj (rv_scope ?q))" "json_repr (VObj (rv_provenance ?q))" by (simp_all add: sample_record_def)
  obtain h where h: "canonicalEntryRevisionContentHash id ?r = Inr h"
    by (cases "canonicalEntryRevisionContentHash id ?r") (simp, code_simp)
  have "same_revision ?r ?q"
    by (auto simp: same_revision_def sample_record_def same_value_def intro: same_json.same_refl)
  thus ?thesis using revision_hash_identifies [OF j h] h by simp
qed

end
