(* ===== verification/Context_Ranking.thy ===== *)
theory Context_Ranking
  imports Js_Text Js_Number Js_Date Ledger_Types Record_Validate
begin

text \<open>
  Ranking of memory candidates for a task, \<open>src/src/context/ranking.ts\<close>: validation of the input, the
  additive score of a candidate, the order and the character budget. The Unicode data behind
  \<open>normalize('NFKC')\<close>, \<open>toLowerCase\<close> and \<open>[\p{L}\p{N}]\<close> is an argument.
\<close>

section \<open>Vocabulary\<close>

record ranking_weights =
  statusVerified :: int
  statusCandidate :: int
  trustSystemVerified :: int
  trustSourceVerified :: int
  trustUserAsserted :: int
  w_confidence :: int
  w_taskAffinity :: int
  w_recommendedTag :: int
  w_pathOverlap :: int
  w_errorSignature :: int
  feedbackHelpful :: int
  feedbackIrrelevant :: int
  feedbackStale :: int
  feedbackConflicting :: int

definition CONTEXT_RANKING_WEIGHTS :: ranking_weights where
  "CONTEXT_RANKING_WEIGHTS =
     \<lparr>statusVerified = 100, statusCandidate = 40, trustSystemVerified = 30, trustSourceVerified = 25,
      trustUserAsserted = 15, w_confidence = 20, w_taskAffinity = 12, w_recommendedTag = 10, w_pathOverlap = 12,
      w_errorSignature = 15, feedbackHelpful = 3, feedbackIrrelevant = - 3, feedbackStale = - 4,
      feedbackConflicting = - 4\<rparr>"

definition CONTEXT_SELECTION_REASON_ORDER :: "string list" where
  "CONTEXT_SELECTION_REASON_ORDER =
     [''project_origin'', ''ecosystem_origin'', ''global_origin'', ''scope_affinity'', ''applicability_match'',
      ''applicability_unknown'', ''applicability_mismatch'', ''unscoped_global_prior'', ''exact_signal_match'',
      ''word_match'', ''semantic_match'', ''lexical_match'', ''cjk_window_match'', ''substring_match'',
      ''literal_fallback_match'', ''tag_match'', ''verified'', ''candidate'', ''system_verified_trust'',
      ''source_verified_trust'', ''user_asserted_trust'', ''confidence'', ''task_kind_affinity'',
      ''task_tag_affinity'', ''recommended_tag_match'', ''target_match'', ''changed_path_match'',
      ''error_signature_match'', ''helpful_feedback'', ''irrelevant_feedback'', ''stale_feedback'',
      ''conflicting_feedback'', ''recent'', ''contradiction_warning'', ''revision_changed'']"

record candidate_snapshot =
  cs_id :: string
  cs_revision :: int
  cs_kind :: string
  cs_status :: string
  cs_trustLevel :: string
  cs_confidence :: jsvalue
  cs_title :: string
  cs_summary :: "string option"
  cs_body :: string
  cs_tags :: "string list"
  cs_scope :: jsvalue
  cs_updatedAt :: string
  cs_selectionReasons :: "string list"
  cs_contradiction :: bool
  cs_origin :: "string option"

record prior_delivered =
  pd_entryId :: string
  pd_revision :: int

record context_feedback =
  cf_entryId :: string
  cf_verdict :: string

record score_components =
  sc_status :: int
  sc_trust :: int
  sc_confidence :: int
  sc_taskAffinity :: int
  sc_recommendedTags :: int
  sc_pathOverlap :: int
  sc_errorSignature :: int
  sc_feedback :: int
  sc_recency :: int
  sc_contradiction :: int

record ranked_content =
  ct_title :: string
  ct_summary :: "string option"
  ct_bodyPreview :: string
  ct_characterCount :: int
  ct_truncated :: bool

record ranked_candidate =
  rk_entryId :: string
  rk_revision :: int
  rk_kind :: string
  rk_status :: string
  rk_trustLevel :: string
  rk_confidence :: jsvalue
  rk_tags :: "string list"
  rk_scope :: jsvalue
  rk_updatedAt :: string
  rk_totalScore :: int
  rk_scoreComponents :: score_components
  rk_selectionReasons :: "string list"
  rk_content :: ranked_content
  rk_origin :: "string option"

record ranking_limits =
  MAX_CANDIDATES :: int
  MAX_ARRAY_ITEMS :: int
  MAX_ID_LENGTH :: int
  MAX_TAG_LENGTH :: int
  MAX_PATH_LENGTH :: int
  MAX_ERROR_SIGNATURE_LENGTH :: int
  MAX_TITLE_LENGTH :: int
  MAX_SUMMARY_LENGTH :: int
  MAX_BODY_LENGTH :: int
  MAX_SCOPE_DEPTH :: int
  MAX_SCOPE_ITEMS :: int
  DEFAULT_CHARACTER_BUDGET :: int
  MAX_CHARACTER_BUDGET :: int

definition LIMITS :: ranking_limits where
  "LIMITS =
     \<lparr>MAX_CANDIDATES = 500, MAX_ARRAY_ITEMS = 500, MAX_ID_LENGTH = 200, MAX_TAG_LENGTH = 200, MAX_PATH_LENGTH = 1000,
      MAX_ERROR_SIGNATURE_LENGTH = 500, MAX_TITLE_LENGTH = 2000, MAX_SUMMARY_LENGTH = 4000, MAX_BODY_LENGTH = 100000,
      MAX_SCOPE_DEPTH = 6, MAX_SCOPE_ITEMS = 500, DEFAULT_CHARACTER_BUDGET = 16000, MAX_CHARACTER_BUDGET = 100000\<rparr>"

fun TASK_AFFINITY :: "task_type \<Rightarrow> string list \<times> string list" where
  "TASK_AFFINITY TBuild = ([''decision'', ''lesson'', ''reference''],
     [''build'', ''builder'', ''implementation'', ''skill:tdd'', ''skill:codebase-design'', ''skill:test-driven-development''])"
| "TASK_AFFINITY TDebug = ([''lesson'', ''decision'', ''reference''],
     [''debug'', ''debugging'', ''reviewer'', ''skill:diagnosing-bugs'', ''skill:systematic-debugging''])"
| "TASK_AFFINITY TResearch = ([''reference'', ''fact''],
     [''research'', ''researcher'', ''skill:research'', ''skill:grounded-citations''])"
| "TASK_AFFINITY TReview = ([''lesson'', ''decision'', ''reference''],
     [''review'', ''reviewer'', ''code-review'', ''skill:code-review'', ''skill:requesting-code-review''])"
| "TASK_AFFINITY TDevops = ([''lesson'', ''decision'', ''reference''],
     [''devops'', ''skill:wizard'', ''skill:server-resource-monitoring''])"
| "TASK_AFFINITY TWriting = ([''preference'', ''reference'', ''decision''],
     [''writing'', ''writer'', ''skill:writing-for-agents'', ''skill:writing-plans''])"
| "TASK_AFFINITY TAnalysis = ([''fact'', ''reference'', ''decision''], [''analysis'', ''analyst''])"

section \<open>Input checks\<close>

definition invalid_ranking :: js_error where
  "invalid_ranking = KiokukoError VALIDATION_ERROR ''Invalid context ranking input''"

abbreviation need :: "bool \<Rightarrow> unit result" where
  "need b \<equiv> check b invalid_ranking"

definition ranking_object :: "string list \<Rightarrow> string list \<Rightarrow> jsvalue \<Rightarrow> fields result" where
  "ranking_object allowed mandatory v =
     rbind (as_fields invalid_ranking v) (\<lambda>fs.
     rbind (need (keys_within fs allowed)) (\<lambda>_.
     rbind (need (has_all fs mandatory)) (\<lambda>_. Inr fs)))"

definition bounded_text :: "int \<Rightarrow> bool \<Rightarrow> jsvalue \<Rightarrow> string result" where
  "bounded_text maximum nonEmpty v =
     rbind (as_string invalid_ranking v) (\<lambda>s.
     rbind (need (int (length s) \<le> maximum \<and> (nonEmpty \<longrightarrow> trim s \<noteq> []))) (\<lambda>_. Inr s))"

fun positiveInteger :: "int \<Rightarrow> jsvalue \<Rightarrow> int result" where
  "positiveInteger maximum (VNum n) =
     (if n \<le> MAX_SAFE_INTEGER \<and> 1 \<le> n \<and> n \<le> maximum then Inr n else Inl invalid_ranking)"
| "positiveInteger maximum v = Inl invalid_ranking"

definition finiteConfidence :: "jsvalue \<Rightarrow> jsvalue result" where
  "finiteConfidence v = rbind (need (is_unit_number v)) (\<lambda>_. Inr v)"

definition ranking_timestamp :: "jsvalue \<Rightarrow> string result" where
  "ranking_timestamp v =
     rbind (bounded_text 64 True v) (\<lambda>s. rbind (need (isCanonicalTimestamp s)) (\<lambda>_. Inr s))"

definition ranking_enum :: "string list \<Rightarrow> jsvalue \<Rightarrow> string result" where
  "ranking_enum allowed v =
     rbind (as_string invalid_ranking v) (\<lambda>s. rbind (need (s \<in> set allowed)) (\<lambda>_. Inr s))"

definition nullable :: "(jsvalue \<Rightarrow> 'a result) \<Rightarrow> jsvalue \<Rightarrow> 'a option result" where
  "nullable f v = (if v = VNull then Inr None else rbind (f v) (\<lambda>x. Inr (Some x)))"

definition stringArray :: "int \<Rightarrow> int \<Rightarrow> jsvalue \<Rightarrow> string list result" where
  "stringArray maxLength maxItems v =
     rbind (as_array invalid_ranking v) (\<lambda>xs.
     rbind (need (int (length xs) \<le> maxItems)) (\<lambda>_. rtraverse (bounded_text maxLength True) xs))"

section \<open>Scopes\<close>

text \<open>The count of fields is threaded through, as \<open>itemCount\<close> is.\<close>

function (sequential) cloneScope :: "int \<Rightarrow> jsvalue \<Rightarrow> int \<Rightarrow> (jsvalue \<times> int) result"
  and cloneScopeFields :: "int \<Rightarrow> fields \<Rightarrow> int \<Rightarrow> (fields \<times> int) result"
  and cloneScopeValue :: "int \<Rightarrow> jsvalue \<Rightarrow> int \<Rightarrow> (jsvalue \<times> int) result"
  and cloneScopeItems :: "int \<Rightarrow> jsvalue list \<Rightarrow> int \<Rightarrow> (jsvalue list \<times> int) result"
where
  "cloneScope depth (VObj fs) n =
     (if depth > MAX_SCOPE_DEPTH LIMITS then Inl invalid_ranking
      else rbind (cloneScopeFields depth (field_order fs) n) (\<lambda>(gs, n). Inr (assigned_object gs, n)))"
| "cloneScope depth v n = Inl invalid_ranking"
| "cloneScopeFields depth [] n = Inr ([], n)"
| "cloneScopeFields depth ((key, child) # fs) n =
     (if int (length key) > MAX_TAG_LENGTH LIMITS \<or> n + 1 > MAX_SCOPE_ITEMS LIMITS then Inl invalid_ranking
      else rbind (cloneScopeValue (case child of VObj _ \<Rightarrow> depth + 1 | _ \<Rightarrow> depth) child (n + 1)) (\<lambda>(w, n).
           rbind (cloneScopeFields depth fs n) (\<lambda>(gs, n). Inr ((key, w) # gs, n))))"
| "cloneScopeValue depth VNull n = Inr (VNull, n)"
| "cloneScopeValue depth (VBool b) n = Inr (VBool b, n)"
| "cloneScopeValue depth (VStr s) n = (if int (length s) \<le> MAX_BODY_LENGTH LIMITS then Inr (VStr s, n) else Inl invalid_ranking)"
| "cloneScopeValue depth (VNum k) n = Inr (VNum k, n)"
| "cloneScopeValue depth (VFrac t) n = Inr (VFrac t, n)"
| "cloneScopeValue depth (VArr xs) n =
     (if int (length xs) > MAX_ARRAY_ITEMS LIMITS then Inl invalid_ranking
      else rbind (cloneScopeItems (depth + 1) xs n) (\<lambda>(ys, n). Inr (VArr ys, n)))"
| "cloneScopeValue depth (VObj fs) n = cloneScope depth (VObj fs) n"
| "cloneScopeValue depth v n = Inl invalid_ranking"
| "cloneScopeItems depth [] n = Inr ([], n)"
| "cloneScopeItems depth (x # xs) n =
     rbind (cloneScopeValue depth x n) (\<lambda>(y, n).
     rbind (cloneScopeItems depth xs n) (\<lambda>(ys, n). Inr (y # ys, n)))"
  by pat_completeness auto
termination
  by (relation "measure (\<lambda>x. case x of
        Inl (Inl (d, v, n)) \<Rightarrow> 2 * size v
      | Inl (Inr (d, fs, n)) \<Rightarrow> 2 * size_list (size_prod (\<lambda>_. 0) size) fs
      | Inr (Inl (d, v, n)) \<Rightarrow> 2 * size v + 1
      | Inr (Inr (d, xs, n)) \<Rightarrow> 2 * size_list size xs)")
    (auto simp: size_list_field_order)

definition clone_scope :: "jsvalue \<Rightarrow> jsvalue result" where
  "clone_scope v = rbind (cloneScope 0 v 0) (\<lambda>(w, n). Inr w)"

section \<open>Literal text\<close>

record unicode =
  uc_nfkc :: "string \<Rightarrow> string"
  uc_lower :: "string \<Rightarrow> string"
  uc_word :: "char \<Rightarrow> bool"

text \<open>\<open>replace(/\s+/gu, ' ')\<close>.\<close>

fun collapse_spaces :: "string \<Rightarrow> string" where
  "collapse_spaces [] = []"
| "collapse_spaces (c # s) =
     (if is_js_space c
      then (case s of [] \<Rightarrow> '' '' | d # _ \<Rightarrow> if is_js_space d then collapse_spaces s else CHR '' '' # collapse_spaces s)
      else c # collapse_spaces s)"

definition normalizeLiteral :: "unicode \<Rightarrow> string \<Rightarrow> string" where
  "normalizeLiteral u s = collapse_spaces (trim (uc_lower u (uc_nfkc u s)))"

text \<open>
  A token is a run of word characters and joining punctuation that starts and ends with a word
  character; the global match continues after it.
\<close>

definition joins_token :: "unicode \<Rightarrow> char \<Rightarrow> bool" where
  "joins_token u c = (uc_word u c \<or> c \<in> set (''._:/-'' @ [CHR 0x5C]))"

function tokens_from :: "unicode \<Rightarrow> string \<Rightarrow> string list" where
  "tokens_from u [] = []"
| "tokens_from u (c # s) =
     (if uc_word u c
      then let run = takeWhile (joins_token u) s in
        (c # rev (dropWhile (\<lambda>x. \<not> uc_word u x) (rev run))) # tokens_from u (drop (length run) s)
      else tokens_from u s)"
  by pat_completeness auto
termination
  by (relation "measure (\<lambda>(u, s). length s)") (auto simp: less_Suc_eq_le)

definition literalTokens :: "unicode \<Rightarrow> string \<Rightarrow> string list" where
  "literalTokens u s = tokens_from u (normalizeLiteral u s)"

text \<open>The non-empty segments between slashes and backslashes.\<close>

fun path_segments :: "string \<Rightarrow> string list" where
  "path_segments [] = [[]]"
| "path_segments (c # s) =
     (if c = CHR ''/'' \<or> c = CHR 0x5C then [] # path_segments s
      else case path_segments s of [] \<Rightarrow> [[c]] | p # ps \<Rightarrow> (c # p) # ps)"

definition pathEvidenceTokens :: "unicode \<Rightarrow> string \<Rightarrow> string list" where
  "pathEvidenceTokens u s =
     js_set (concat (map (\<lambda>t. t # filter (\<lambda>p. p \<noteq> []) (path_segments t)) (literalTokens u s)))"

function (sequential) collectScopeStrings :: "jsvalue \<Rightarrow> string list"
  and collectItems :: "jsvalue list \<Rightarrow> string list"
  and collectValues :: "fields \<Rightarrow> string list"
where
  "collectScopeStrings (VObj fs) = collectValues (own_order fs)"
| "collectScopeStrings v = []"
| "collectItems [] = []"
| "collectItems (VStr s # xs) = s # collectItems xs"
| "collectItems (x # xs) = collectScopeStrings x @ collectItems xs"
| "collectValues [] = []"
| "collectValues ((k, VStr s) # fs) = s # collectValues fs"
| "collectValues ((k, VArr xs) # fs) = collectItems xs @ collectValues fs"
| "collectValues ((k, v) # fs) = collectScopeStrings v @ collectValues fs"
  by pat_completeness auto
termination
  by (relation "measure (\<lambda>x. case x of
        Inl v \<Rightarrow> size v
      | Inr (Inl xs) \<Rightarrow> size_list size xs
      | Inr (Inr fs) \<Rightarrow> size_list (size_prod (\<lambda>_. 0) size) fs)")
    (auto simp: size_list_own_order)

definition candidatePathFields :: "candidate_snapshot \<Rightarrow> string list" where
  "candidatePathFields c = cs_title c # cs_tags c @ collectScopeStrings (cs_scope c)"

definition candidateErrorFields :: "candidate_snapshot \<Rightarrow> string list" where
  "candidateErrorFields c =
     cs_title c # (case cs_summary c of None \<Rightarrow> [] | Some s \<Rightarrow> [s]) @ cs_tags c @ collectScopeStrings (cs_scope c)"

definition is_word_at :: "string \<Rightarrow> nat \<Rightarrow> bool" where
  "is_word_at s i = (i < length s \<and> (is_digit (s ! i) \<or> s ! i = CHR ''_''
     \<or> CHR ''a'' \<le> s ! i \<and> s ! i \<le> CHR ''z'' \<or> CHR ''A'' \<le> s ! i \<and> s ! i \<le> CHR ''Z''))"

definition is_ascii_text :: "string \<Rightarrow> bool" where
  "is_ascii_text s = (s \<noteq> [] \<and> list_all (\<lambda>c. (of_char c :: int) < 128) s)"

definition literalMatch :: "unicode \<Rightarrow> string \<Rightarrow> string \<Rightarrow> bool" where
  "literalMatch u field signature =
     (let normalizedField = normalizeLiteral u field; normalizedSignature = normalizeLiteral u signature in
      case index_of normalizedSignature normalizedField of
        None \<Rightarrow> False
      | Some start \<Rightarrow>
          \<not> is_ascii_text normalizedSignature
          \<or> \<not> (0 < start \<and> is_word_at normalizedField (start - 1))
            \<and> \<not> is_word_at normalizedField (start + length normalizedSignature))"

section \<open>Parsing\<close>

definition ranking_task_profile :: "jsvalue \<Rightarrow> task_profile result" where
  "ranking_task_profile v =
     rbind (ranking_object [''taskType'', ''target'', ''expected'', ''constraints'']
       [''taskType'', ''target'', ''expected'', ''constraints''] v) (\<lambda>fs.
     rbind (nullable (as_enum invalid_ranking TASK_TYPES) (getp fs ''taskType'')) (\<lambda>tt.
     rbind (nullable (bounded_text (MAX_PATH_LENGTH LIMITS) True) (getp fs ''target'')) (\<lambda>tg.
     rbind (nullable (bounded_text (MAX_SUMMARY_LENGTH LIMITS) True) (getp fs ''expected'')) (\<lambda>ex.
     rbind (nullable (bounded_text (MAX_SUMMARY_LENGTH LIMITS) True) (getp fs ''constraints'')) (\<lambda>co.
     Inr \<lparr>taskType = tt, target = tg, expected = ex, constraints = co\<rparr>)))))"

definition reasonRank :: "string \<Rightarrow> int" where
  "reasonRank reason = int (length (takeWhile (\<lambda>r. r \<noteq> reason) CONTEXT_SELECTION_REASON_ORDER))"

definition canonicalSelectionReasons :: "string list \<Rightarrow> string list" where
  "canonicalSelectionReasons reasons =
     js_sort (\<lambda>l r. cmp_or (reasonRank l - reasonRank r) (compareCanonicalStrings l r)) (js_set reasons)"

definition CANDIDATE_FIELDS :: "string list" where
  "CANDIDATE_FIELDS = [''id'', ''revision'', ''kind'', ''status'', ''trustLevel'', ''confidence'', ''title'',
     ''summary'', ''body'', ''tags'', ''scope'', ''updatedAt'']"

definition parseCandidate :: "jsvalue \<Rightarrow> candidate_snapshot result" where
  "parseCandidate v =
     rbind (ranking_object (CANDIDATE_FIELDS @ [''selectionReasons'', ''contradiction'', ''origin'']) CANDIDATE_FIELDS v) (\<lambda>fs.
     rbind (nullable (bounded_text (MAX_SUMMARY_LENGTH LIMITS) False) (getp fs ''summary'')) (\<lambda>summary.
     rbind (or_default False (as_bool invalid_ranking) (getp fs ''contradiction'')) (\<lambda>contradiction.
     rbind (or_default [] (stringArray (MAX_TAG_LENGTH LIMITS) (int (length CONTEXT_SELECTION_REASON_ORDER)))
              (getp fs ''selectionReasons'')) (\<lambda>selectionReasons.
     rbind (need (list_all (\<lambda>r. r \<in> set CONTEXT_SELECTION_REASON_ORDER) selectionReasons)) (\<lambda>_.
     rbind (bounded_text (MAX_ID_LENGTH LIMITS) True (getp fs ''id'')) (\<lambda>cid.
     rbind (positiveInteger MAX_SAFE_INTEGER (getp fs ''revision'')) (\<lambda>revision.
     rbind (ranking_enum ENTRY_KINDS (getp fs ''kind'')) (\<lambda>kind.
     rbind (ranking_enum ENTRY_STATUSES (getp fs ''status'')) (\<lambda>status.
     rbind (ranking_enum TRUST_LEVELS (getp fs ''trustLevel'')) (\<lambda>trustLevel.
     rbind (finiteConfidence (getp fs ''confidence'')) (\<lambda>confidence.
     rbind (bounded_text (MAX_TITLE_LENGTH LIMITS) True (getp fs ''title'')) (\<lambda>title.
     rbind (bounded_text (MAX_BODY_LENGTH LIMITS) False (getp fs ''body'')) (\<lambda>body.
     rbind (stringArray (MAX_TAG_LENGTH LIMITS) (MAX_ARRAY_ITEMS LIMITS) (getp fs ''tags'')) (\<lambda>tags.
     rbind (clone_scope (getp fs ''scope'')) (\<lambda>scope.
     rbind (ranking_timestamp (getp fs ''updatedAt'')) (\<lambda>updatedAt.
     rbind (or_default None (\<lambda>w. rbind (ranking_enum [''project'', ''ecosystem'', ''global''] w) (\<lambda>x. Inr (Some x)))
              (getp fs ''origin'')) (\<lambda>origin.
     Inr \<lparr>cs_id = cid, cs_revision = revision, cs_kind = kind, cs_status = status, cs_trustLevel = trustLevel,
          cs_confidence = confidence, cs_title = title, cs_summary = summary, cs_body = body, cs_tags = tags,
          cs_scope = scope, cs_updatedAt = updatedAt,
          cs_selectionReasons = canonicalSelectionReasons selectionReasons, cs_contradiction = contradiction,
          cs_origin = origin\<rparr>)))))))))))))))))"

record ranking_input =
  ri_taskProfile :: task_profile
  ri_recommendedTags :: "string list"
  ri_changedPaths :: "string list"
  ri_errorSignatures :: "string list"
  ri_priorDelivered :: "prior_delivered list"
  ri_feedback :: "context_feedback list"
  ri_candidates :: "candidate_snapshot list"
  ri_limit :: nat
  ri_characterBudget :: int

definition parse_prior :: "jsvalue \<Rightarrow> prior_delivered result" where
  "parse_prior v =
     rbind (ranking_object [''entryId'', ''revision''] [''entryId'', ''revision''] v) (\<lambda>fs.
     rbind (bounded_text (MAX_ID_LENGTH LIMITS) True (getp fs ''entryId'')) (\<lambda>i.
     rbind (positiveInteger MAX_SAFE_INTEGER (getp fs ''revision'')) (\<lambda>r.
     Inr \<lparr>pd_entryId = i, pd_revision = r\<rparr>)))"

definition parse_feedback :: "jsvalue \<Rightarrow> context_feedback result" where
  "parse_feedback v =
     rbind (ranking_object [''entryId'', ''verdict''] [''entryId'', ''verdict''] v) (\<lambda>fs.
     rbind (bounded_text (MAX_ID_LENGTH LIMITS) True (getp fs ''entryId'')) (\<lambda>i.
     rbind (ranking_enum [''helpful'', ''irrelevant'', ''stale'', ''conflicting''] (getp fs ''verdict'')) (\<lambda>r.
     Inr \<lparr>cf_entryId = i, cf_verdict = r\<rparr>)))"

definition array_of :: "int \<Rightarrow> (jsvalue \<Rightarrow> 'a result) \<Rightarrow> jsvalue \<Rightarrow> 'a list result" where
  "array_of maximum f v =
     rbind (as_array invalid_ranking v) (\<lambda>xs. rbind (need (int (length xs) \<le> maximum)) (\<lambda>_. rtraverse f xs))"

definition RANKING_FIELDS :: "string list" where
  "RANKING_FIELDS = [''taskProfile'', ''recommendedTags'', ''changedPaths'', ''errorSignatures'', ''priorDelivered'',
     ''feedback'', ''candidates'', ''limit'']"

definition ranking_parseInput :: "jsvalue \<Rightarrow> ranking_input result" where
  "ranking_parseInput v =
     rbind (ranking_object (RANKING_FIELDS @ [''characterBudget'']) RANKING_FIELDS v) (\<lambda>fs.
     rbind (array_of (MAX_CANDIDATES LIMITS) parseCandidate (getp fs ''candidates'')) (\<lambda>candidates.
     rbind (need (distinct (map cs_id candidates))) (\<lambda>_.
     rbind (array_of (MAX_ARRAY_ITEMS LIMITS) parse_prior (getp fs ''priorDelivered'')) (\<lambda>priorDelivered.
     rbind (array_of (MAX_ARRAY_ITEMS LIMITS) parse_feedback (getp fs ''feedback'')) (\<lambda>feedback.
     rbind (or_default (DEFAULT_CHARACTER_BUDGET LIMITS) (positiveInteger (MAX_CHARACTER_BUDGET LIMITS))
              (getp fs ''characterBudget'')) (\<lambda>characterBudget.
     rbind (ranking_task_profile (getp fs ''taskProfile'')) (\<lambda>taskProfile.
     rbind (stringArray (MAX_TAG_LENGTH LIMITS) (MAX_ARRAY_ITEMS LIMITS) (getp fs ''recommendedTags'')) (\<lambda>recommendedTags.
     rbind (stringArray (MAX_PATH_LENGTH LIMITS) (MAX_ARRAY_ITEMS LIMITS) (getp fs ''changedPaths'')) (\<lambda>changedPaths.
     rbind (stringArray (MAX_ERROR_SIGNATURE_LENGTH LIMITS) (MAX_ARRAY_ITEMS LIMITS) (getp fs ''errorSignatures'')) (\<lambda>errorSignatures.
     rbind (positiveInteger 100 (getp fs ''limit'')) (\<lambda>limit.
     Inr \<lparr>ri_taskProfile = taskProfile, ri_recommendedTags = recommendedTags, ri_changedPaths = changedPaths,
          ri_errorSignatures = errorSignatures, ri_priorDelivered = priorDelivered, ri_feedback = feedback,
          ri_candidates = candidates, ri_limit = nat limit, ri_characterBudget = characterBudget\<rparr>)))))))))))"

section \<open>Scores\<close>

record ranking_context =
  rx_taskProfile :: task_profile
  rx_recommendedTags :: "string list"
  rx_changedPaths :: "string list"
  rx_errorSignatures :: "string list"
  rx_priorDelivered :: "string \<Rightarrow> int option"
  rx_feedback :: "string \<Rightarrow> string list"
  rx_oldestUpdatedAt :: int

definition statusScore :: "string \<Rightarrow> int" where
  "statusScore status =
     (if status = ''verified'' then statusVerified CONTEXT_RANKING_WEIGHTS else statusCandidate CONTEXT_RANKING_WEIGHTS)"

definition trustScore :: "string \<Rightarrow> int" where
  "trustScore level =
     (if level = ''system_verified'' then trustSystemVerified CONTEXT_RANKING_WEIGHTS
      else if level = ''source_verified'' then trustSourceVerified CONTEXT_RANKING_WEIGHTS
      else if level = ''user_asserted'' then trustUserAsserted CONTEXT_RANKING_WEIGHTS else 0)"

definition verdict_points :: "string \<Rightarrow> int" where
  "verdict_points verdict =
     (if verdict = ''helpful'' then feedbackHelpful CONTEXT_RANKING_WEIGHTS
      else if verdict = ''irrelevant'' then feedbackIrrelevant CONTEXT_RANKING_WEIGHTS
      else if verdict = ''stale'' then feedbackStale CONTEXT_RANKING_WEIGHTS
      else feedbackConflicting CONTEXT_RANKING_WEIGHTS)"

record candidate_evidence =
  ev_taskKindMatch :: bool
  ev_taskTagMatch :: bool
  ev_recommendedTagMatches :: nat
  ev_targetMatch :: bool
  ev_changedPathMatch :: bool
  ev_errorMatches :: nat
  ev_verdicts :: "string list"
  ev_recency :: int

definition candidate_evidence_of :: "unicode \<Rightarrow> candidate_snapshot \<Rightarrow> ranking_context \<Rightarrow> candidate_evidence" where
  "candidate_evidence_of u c x =
     (let candidateTags = map (normalizeLiteral u) (cs_tags c);
          affinity = map_option TASK_AFFINITY (taskType (rx_taskProfile x));
          tokens = concat (map (pathEvidenceTokens u) (candidatePathFields c));
          overlaps = (\<lambda>path. list_ex (\<lambda>t. t \<in> set tokens) (pathEvidenceTokens u path)) in
      \<lparr>ev_taskKindMatch = (case affinity of None \<Rightarrow> False | Some a \<Rightarrow> cs_kind c \<in> set (fst a)),
       ev_taskTagMatch = (case affinity of None \<Rightarrow> False
          | Some a \<Rightarrow> list_ex (\<lambda>t. normalizeLiteral u t \<in> set candidateTags) (snd a)),
       ev_recommendedTagMatches = length (filter (\<lambda>t. t \<in> set candidateTags) (rx_recommendedTags x)),
       ev_targetMatch = (case target (rx_taskProfile x) of None \<Rightarrow> False | Some t \<Rightarrow> overlaps t),
       ev_changedPathMatch = list_ex overlaps (rx_changedPaths x),
       ev_errorMatches = (if cs_kind c = ''lesson'' \<or> cs_kind c = ''reference''
          then length (filter (\<lambda>g. list_ex (\<lambda>f. literalMatch u f g) (candidateErrorFields c)) (rx_errorSignatures x))
          else 0),
       ev_verdicts = rx_feedback x (cs_id c),
       ev_recency = min 5 (max 0 (date_parse (cs_updatedAt c) - rx_oldestUpdatedAt x) div 86400000)\<rparr>)"

definition candidate_components :: "candidate_snapshot \<Rightarrow> candidate_evidence \<Rightarrow> score_components" where
  "candidate_components c e =
     (let w = CONTEXT_RANKING_WEIGHTS in
      \<lparr>sc_status = statusScore (cs_status c),
       sc_trust = trustScore (cs_trustLevel c),
       sc_confidence = rounded_product (cs_confidence c) (w_confidence w),
       sc_taskAffinity = (if ev_taskKindMatch e \<or> ev_taskTagMatch e then w_taskAffinity w else 0),
       sc_recommendedTags = min 20 (int (ev_recommendedTagMatches e) * w_recommendedTag w),
       sc_pathOverlap = (if ev_targetMatch e \<or> ev_changedPathMatch e then w_pathOverlap w else 0),
       sc_errorSignature = min 30 (int (ev_errorMatches e) * w_errorSignature w),
       sc_feedback = max (- 4) (min 4 (sum_list (map verdict_points (ev_verdicts e)))),
       sc_recency = ev_recency e,
       sc_contradiction = 0\<rparr>)"

definition component_sum :: "score_components \<Rightarrow> int" where
  "component_sum s = sc_status s + sc_trust s + sc_confidence s + sc_taskAffinity s + sc_recommendedTags s
     + sc_pathOverlap s + sc_errorSignature s + sc_feedback s + sc_recency s + sc_contradiction s"

definition origin_points :: "string option \<Rightarrow> int" where
  "origin_points origin =
     (case origin of None \<Rightarrow> 0 | Some k \<Rightarrow> if k = ''project'' then 100 else if k = ''ecosystem'' then 45 else 35)"

definition selection_reasons :: "candidate_snapshot \<Rightarrow> candidate_evidence \<Rightarrow> score_components \<Rightarrow> int option \<Rightarrow> string list" where
  "selection_reasons c e s delivered =
     (let given = (\<lambda>b r. if b then [r] else []) in
      cs_selectionReasons c
      @ (case cs_origin c of None \<Rightarrow> []
         | Some k \<Rightarrow> [if k = ''project'' then ''project_origin''
                      else if k = ''ecosystem'' then ''ecosystem_origin'' else ''global_origin''])
      @ [if cs_status c = ''verified'' then ''verified'' else ''candidate'']
      @ given (cs_trustLevel c \<noteq> ''untrusted'') (cs_trustLevel c @ ''_trust'')
      @ given (sc_confidence s > 0) ''confidence''
      @ given (ev_taskKindMatch e) ''task_kind_affinity''
      @ given (ev_taskTagMatch e) ''task_tag_affinity''
      @ given (sc_recommendedTags s > 0) ''recommended_tag_match''
      @ given (ev_targetMatch e) ''target_match''
      @ given (ev_changedPathMatch e) ''changed_path_match''
      @ given (sc_errorSignature s > 0) ''error_signature_match''
      @ given (''helpful'' \<in> set (ev_verdicts e)) ''helpful_feedback''
      @ concat (map (\<lambda>k. given (k \<in> set (ev_verdicts e)) (k @ ''_feedback'')) [''irrelevant'', ''stale'', ''conflicting''])
      @ given (ev_recency e > 0) ''recent''
      @ given (cs_contradiction c) ''contradiction_warning''
      @ given (case delivered of None \<Rightarrow> False | Some r \<Rightarrow> cs_revision c > r) ''revision_changed'')"

definition scoreCandidate :: "unicode \<Rightarrow> ranking_context \<Rightarrow> candidate_snapshot \<Rightarrow> ranked_candidate result" where
  "scoreCandidate u x c =
     (let e = candidate_evidence_of u c x; s = candidate_components c e in
      rbind (clone_scope (cs_scope c)) (\<lambda>scope.
      Inr \<lparr>rk_entryId = cs_id c, rk_revision = cs_revision c, rk_kind = cs_kind c, rk_status = cs_status c,
           rk_trustLevel = cs_trustLevel c, rk_confidence = cs_confidence c,
           rk_tags = js_sort compareCanonicalStrings (cs_tags c), rk_scope = scope, rk_updatedAt = cs_updatedAt c,
           rk_totalScore = component_sum s + origin_points (cs_origin c), rk_scoreComponents = s,
           rk_selectionReasons =
             canonicalSelectionReasons (selection_reasons c e s (rx_priorDelivered x (cs_id c))),
           rk_content =
             \<lparr>ct_title = cs_title c, ct_summary = cs_summary c, ct_bodyPreview = cs_body c,
              ct_characterCount = int (length (cs_title c))
                + (case cs_summary c of None \<Rightarrow> 0 | Some t \<Rightarrow> int (length t)) + int (length (cs_body c)),
              ct_truncated = False\<rparr>,
           rk_origin = cs_origin c\<rparr>))"

section \<open>Budget and order\<close>

text \<open>One code unit below 256 is one character.\<close>

definition takeCharacters :: "string \<Rightarrow> int \<Rightarrow> string" where
  "takeCharacters s budget = take (nat (max 0 budget)) s"

definition characterCount :: "string \<Rightarrow> int" where
  "characterCount s = int (length s)"

definition fitContent :: "ranked_content \<Rightarrow> int \<Rightarrow> ranked_content" where
  "fitContent content budget =
     (let title = takeCharacters (ct_title content) budget;
          remaining = budget - characterCount title;
          fullSummary = (case ct_summary content of None \<Rightarrow> [] | Some s \<Rightarrow> s);
          summaryText = takeCharacters fullSummary remaining;
          remaining = remaining - characterCount summaryText;
          bodyPreview = takeCharacters (ct_bodyPreview content) remaining in
      \<lparr>ct_title = title, ct_summary = map_option (\<lambda>_. summaryText) (ct_summary content),
       ct_bodyPreview = bodyPreview,
       ct_characterCount = characterCount title + characterCount summaryText + characterCount bodyPreview,
       ct_truncated = (length title \<noteq> length (ct_title content) \<or> length summaryText \<noteq> length fullSummary
          \<or> length bodyPreview \<noteq> length (ct_bodyPreview content))\<rparr>)"

fun applyCharacterBudget :: "ranked_candidate list \<Rightarrow> int \<Rightarrow> ranked_candidate list" where
  "applyCharacterBudget [] remaining = []"
| "applyCharacterBudget (c # cs) remaining =
     (if remaining \<le> 0 then []
      else let content = fitContent (rk_content c) remaining in
        c\<lparr>rk_content := content\<rparr> # applyCharacterBudget cs (remaining - ct_characterCount content))"

definition compareRanked :: "ranked_candidate \<Rightarrow> ranked_candidate \<Rightarrow> int" where
  "compareRanked left right =
     cmp_or (rk_totalScore right - rk_totalScore left) (compareCanonicalStrings (rk_entryId left) (rk_entryId right))"

definition prior_map :: "prior_delivered list \<Rightarrow> string \<Rightarrow> int option" where
  "prior_map ps = fold (\<lambda>d m. m(pd_entryId d \<mapsto>
     max (pd_revision d) (case m (pd_entryId d) of None \<Rightarrow> 0 | Some r \<Rightarrow> r))) ps Map.empty"

definition feedback_map :: "context_feedback list \<Rightarrow> string \<Rightarrow> string list" where
  "feedback_map fs i = map cf_verdict (filter (\<lambda>f. cf_entryId f = i) fs)"

definition ranking_context_of :: "unicode \<Rightarrow> ranking_input \<Rightarrow> ranking_context" where
  "ranking_context_of u p =
     \<lparr>rx_taskProfile = ri_taskProfile p,
      rx_recommendedTags = js_set (map (normalizeLiteral u) (ri_recommendedTags p)),
      rx_changedPaths = ri_changedPaths p, rx_errorSignatures = ri_errorSignatures p,
      rx_priorDelivered = prior_map (ri_priorDelivered p), rx_feedback = feedback_map (ri_feedback p),
      rx_oldestUpdatedAt = (case map (\<lambda>c. date_parse (cs_updatedAt c)) (ri_candidates p) of
         [] \<Rightarrow> 0 | t # ts \<Rightarrow> fold min ts t)\<rparr>"

definition eligible_candidate :: "ranking_context \<Rightarrow> candidate_snapshot \<Rightarrow> bool" where
  "eligible_candidate x c =
     (cs_status c \<noteq> ''superseded''
      \<and> (case rx_priorDelivered x (cs_id c) of None \<Rightarrow> True | Some r \<Rightarrow> cs_revision c > r))"

definition rank_parsed :: "unicode \<Rightarrow> ranking_input \<Rightarrow> ranked_candidate list result" where
  "rank_parsed u p =
     (let x = ranking_context_of u p in
      rbind (rtraverse (scoreCandidate u x) (filter (eligible_candidate x) (ri_candidates p))) (\<lambda>scored.
      Inr (applyCharacterBudget (take (ri_limit p) (js_sort compareRanked scored)) (ri_characterBudget p))))"

definition rankContextCandidates :: "unicode \<Rightarrow> jsvalue \<Rightarrow> ranked_candidate list result" where
  "rankContextCandidates u v = rbind (ranking_parseInput v) (rank_parsed u)"

end
