(* ===== verification/Ranking_Order.thy ===== *)
theory Ranking_Order
  imports Context_Ranking
begin

text \<open>
  The laws of the context ranking: the comparator sorts by score and identifier, the budget keeps a
  prefix of the order, every failure is the same error, and the result does not depend on the
  order of the candidates.
\<close>

section \<open>Laws\<close>

interpretation ranked_order: keyed_comparator compareRanked "\<lambda>c. (- rk_totalScore c, rk_entryId c)"
  by unfold_locales (auto simp: compareRanked_def cmp_or_def compareCanonicalStrings_def)

lemma js_insert_map: "(\<And>a b. cmp (f a) (f b) = cmp a b) \<Longrightarrow> js_insert cmp (f x) (map f xs) = map f (js_insert cmp x xs)"
  by (induction xs) auto

text \<open>Every failure of the scope clone, and so of scoring, is the same error.\<close>

lemma cloneScope_error:
  "cloneScope d v n = Inl e \<Longrightarrow> e = invalid_ranking"
  "cloneScopeFields d fs n = Inl e \<Longrightarrow> e = invalid_ranking"
  "cloneScopeValue d v n = Inl e \<Longrightarrow> e = invalid_ranking"
  "cloneScopeItems d xs n = Inl e \<Longrightarrow> e = invalid_ranking"
proof (induction d v n and d fs n and d v n and d xs n arbitrary: e and e and e and e
    rule: cloneScope_cloneScopeFields_cloneScopeValue_cloneScopeItems.induct)
qed (auto simp: rbind_eq_Inl split: if_splits prod.splits)

lemma scoreCandidate_error: "scoreCandidate u x c = Inl e \<Longrightarrow> e = invalid_ranking"
  by (auto simp: scoreCandidate_def clone_scope_def Let_def rbind_eq_Inl dest: cloneScope_error)

lemma rtraverse_one_error:
  assumes "\<And>x e'. f x = Inl e' \<Longrightarrow> e' = e"
  shows "rtraverse f xs = (if \<forall>x\<in>set xs. isl (f x) = False then Inr (map (\<lambda>x. projr (f x)) xs) else Inl e)"
proof (induction xs)
  case (Cons x xs)
  show ?case
  proof (cases "f x")
    case (Inl e')
    thus ?thesis using assms by auto
  next
    case (Inr y)
    thus ?thesis using Cons by auto
  qed
qed simp

lemma fold_min_Min: "fold min ts t = Min (set (t # ts))" for t :: int
  by (rule Min.set_eq_fold [symmetric])

definition total_characters :: "ranked_candidate list \<Rightarrow> int" where
  "total_characters rs = sum_list (map (\<lambda>r. ct_characterCount (rk_content r)) rs)"

lemma takeCharacters_count: "0 \<le> b \<Longrightarrow> characterCount (takeCharacters s b) \<le> b" "0 \<le> characterCount s"
  by (simp_all add: takeCharacters_def characterCount_def min_def le_nat_iff)

lemma fitContent_count:
  assumes "0 < budget"
  shows "0 \<le> ct_characterCount (fitContent c budget)" "ct_characterCount (fitContent c budget) \<le> budget"
proof -
  define t where "t = takeCharacters (ct_title c) budget"
  define s where "s = takeCharacters (case ct_summary c of None \<Rightarrow> [] | Some s \<Rightarrow> s) (budget - characterCount t)"
  define b where "b = takeCharacters (ct_bodyPreview c) (budget - characterCount t - characterCount s)"
  have "ct_characterCount (fitContent c budget) = characterCount t + characterCount s + characterCount b"
    by (simp add: fitContent_def Let_def t_def s_def b_def)
  moreover have "characterCount t \<le> budget" using assms takeCharacters_count(1) by (simp add: t_def)
  moreover from this have "characterCount s \<le> budget - characterCount t" using takeCharacters_count(1) by (simp add: s_def)
  moreover from this have "characterCount b \<le> budget - characterCount t - characterCount s"
    using takeCharacters_count(1) by (simp add: b_def)
  ultimately show "0 \<le> ct_characterCount (fitContent c budget)" "ct_characterCount (fitContent c budget) \<le> budget"
    using takeCharacters_count(2) by (simp_all add: add_nonneg_nonneg)
qed

text \<open>A content that is cut fills the budget.\<close>

lemma budget_ids:
  "\<exists>n \<le> length cs. map rk_entryId (applyCharacterBudget cs b) = take n (map rk_entryId cs)
     \<and> (n < length cs \<longrightarrow> b \<le> 0 \<or> total_characters (applyCharacterBudget cs b) = b)"
proof (induction cs arbitrary: b)
  case (Cons c cs)
  show ?case
  proof (cases "b \<le> 0")
    case False
    define k where "k = ct_characterCount (fitContent (rk_content c) b)"
    obtain n where n: "n \<le> length cs" "map rk_entryId (applyCharacterBudget cs (b - k)) = take n (map rk_entryId cs)"
      "n < length cs \<longrightarrow> b - k \<le> 0 \<or> total_characters (applyCharacterBudget cs (b - k)) = b - k"
      using Cons.IH by blast
    have kb: "k \<le> b" using fitContent_count(2) False by (simp add: k_def)
    have "total_characters (applyCharacterBudget (c # cs) b) = b" if "n < length cs"
    proof (cases "b - k \<le> 0")
      case True
      thus ?thesis using False kb by (cases cs) (auto simp: total_characters_def Let_def k_def)
    next
      case False
      thus ?thesis using n(3) that \<open>\<not> b \<le> 0\<close> by (simp add: total_characters_def Let_def k_def)
    qed
    thus ?thesis using n(1,2) False by (intro exI [of _ "Suc n"]) (simp add: Let_def k_def)
  qed simp
qed simp

lemma budget_total: "0 \<le> b \<Longrightarrow> total_characters (applyCharacterBudget cs b) \<le> b"
proof (induction cs arbitrary: b)
  case (Cons c cs)
  show ?case
  proof (cases "b \<le> 0")
    case False
    have "ct_characterCount (fitContent (rk_content c) b) \<le> b" using fitContent_count(2) False by simp
    thus ?thesis using Cons.IH [of "b - ct_characterCount (fitContent (rk_content c) b)"] False
      by (simp add: total_characters_def Let_def)
  qed (use Cons.prems in \<open>simp add: total_characters_def\<close>)
qed (simp add: total_characters_def)


definition ranked_before :: "ranked_candidate \<Rightarrow> ranked_candidate \<Rightarrow> bool" where
  "ranked_before a b =
     (rk_totalScore b < rk_totalScore a \<or> rk_totalScore a = rk_totalScore b \<and> rk_entryId a < rk_entryId b)"

lemma ranked_before_key: "ranked_before a b \<longleftrightarrow> (- rk_totalScore a, rk_entryId a) < (- rk_totalScore b, rk_entryId b)"
  by (auto simp: ranked_before_def)

lemma sorted_strictly:
  assumes "distinct (map rk_entryId scored)"
  shows "sorted_wrt ranked_before (js_sort compareRanked scored)"
proof -
  let ?key = "\<lambda>c. (- rk_totalScore c, rk_entryId c)"
  let ?s = "js_sort compareRanked scored"
  have "mset (map rk_entryId ?s) = mset (map rk_entryId scored)" by simp
  hence "distinct (map rk_entryId ?s)" using assms mset_eq_imp_distinct_iff by blast
  hence "distinct (map ?key ?s)" by (auto simp: distinct_map inj_on_def)
  moreover have "sorted (map ?key ?s)" by (simp add: ranked_order.js_sort_sort_key)
  ultimately have "sorted_wrt (<) (map ?key ?s)" by (simp add: strict_sorted_iff)
  moreover have "ranked_before = (\<lambda>a b. ?key a < ?key b)" by (intro ext ranked_before_key)
  ultimately show ?thesis by (simp only: sorted_wrt_map)
qed

lemma budget_content:
  assumes "r \<in> set (applyCharacterBudget cs b)"
  shows "\<exists>c\<in>set cs. \<exists>n. r = c\<lparr>rk_content := fitContent (rk_content c) n\<rparr>"
  using assms by (induction cs arbitrary: b) (auto simp: Let_def split: if_splits)

lemma budget_sorted:
  assumes "sorted_wrt ranked_before cs"
  shows "sorted_wrt ranked_before (applyCharacterBudget cs b)"
  using assms
proof (induction cs arbitrary: b)
  case (Cons c cs)
  thus ?case by (auto simp: Let_def ranked_before_def dest!: budget_content)
qed simp

text \<open>The title, summary and body a delivery shows are prefixes of the candidate's.\<close>

definition shows_prefix :: "ranked_content \<Rightarrow> candidate_snapshot \<Rightarrow> bool" where
  "shows_prefix t c =
     (prefix (ct_title t) (cs_title c) \<and> prefix (ct_bodyPreview t) (cs_body c)
      \<and> rel_option prefix (ct_summary t) (cs_summary c))"

lemma fitContent_prefix:
  "prefix (ct_title (fitContent t n)) (ct_title t)" "prefix (ct_bodyPreview (fitContent t n)) (ct_bodyPreview t)"
  "rel_option prefix (ct_summary (fitContent t n)) (ct_summary t)"
  unfolding fitContent_def Let_def ranked_content.simps takeCharacters_def
  by (rule take_is_prefix, rule take_is_prefix) (cases "ct_summary t"; simp only: option.simps option.rel_inject; rule take_is_prefix)

definition rank_spec :: "ranking_context \<Rightarrow> candidate_snapshot list \<Rightarrow> ranked_candidate \<Rightarrow> bool" where
  "rank_spec x cs r =
     list_ex (\<lambda>c. eligible_candidate x c \<and> rk_entryId r = cs_id c \<and> rk_revision r = cs_revision c
       \<and> rk_status r = cs_status c \<and> shows_prefix (rk_content r) c) cs"

lemma scoreCandidate_fields:
  assumes "scoreCandidate u x c = Inr s"
  shows "rk_entryId s = cs_id c" "rk_revision s = cs_revision c" "rk_status s = cs_status c"
    "ct_title (rk_content s) = cs_title c" "ct_summary (rk_content s) = cs_summary c"
    "ct_bodyPreview (rk_content s) = cs_body c"
  using assms by (auto simp: scoreCandidate_def Let_def rbind_eq_Inr split: prod.splits)

lemma scored_ids:
  assumes "rtraverse (scoreCandidate u x) cs = Inr scored"
  shows "map rk_entryId scored = map cs_id cs"
  using assms unfolding rtraverse_Inr_iff
  by (induction rule: list_all2_induct) (auto simp: scoreCandidate_fields)

lemma rank_parsed_Inr:
  assumes "rank_parsed u p = Inr ranked"
  obtains scored where
    "rtraverse (scoreCandidate u (ranking_context_of u p)) (filter (eligible_candidate (ranking_context_of u p)) (ri_candidates p)) = Inr scored"
    "ranked = applyCharacterBudget (take (ri_limit p) (js_sort compareRanked scored)) (ri_characterBudget p)"
  using assms by (auto simp: rank_parsed_def Let_def rbind_eq_Inr)

lemma list_all2_memR: "list_all2 P xs ys \<Longrightarrow> y \<in> set ys \<Longrightarrow> \<exists>x\<in>set xs. P x y"
  by (induction rule: list_all2_induct) auto

lemma list_all2_memL: "list_all2 P xs ys \<Longrightarrow> x \<in> set xs \<Longrightarrow> \<exists>y\<in>set ys. P x y"
  by (induction rule: list_all2_induct) auto

lemma rank_members:
  assumes "rtraverse (scoreCandidate u x) (filter (eligible_candidate x) cs) = Inr scored" "s \<in> set scored"
  obtains c where "c \<in> set cs" "eligible_candidate x c" "scoreCandidate u x c = Inr s"
  using list_all2_memR [OF iffD1 [OF rtraverse_Inr_iff assms(1)] assms(2)] by auto

lemma rank_covers:
  assumes "rtraverse (scoreCandidate u x) (filter (eligible_candidate x) cs) = Inr scored" "c \<in> set cs" "eligible_candidate x c"
    "scoreCandidate u x c = Inr s"
  shows "s \<in> set scored"
  using list_all2_memL [OF iffD1 [OF rtraverse_Inr_iff assms(1)], of c] assms(2-4) by auto

lemma parsed_budget:
  "or_default 16000 (positiveInteger m) v = Inr k \<Longrightarrow> 0 < k"
  by (cases v) (auto simp: or_default_def split: if_splits)

lemma parsed_input:
  assumes "ranking_parseInput v = Inr p"
  shows "distinct (map cs_id (ri_candidates p)) \<and> 0 < ri_characterBudget p"
  using assms unfolding ranking_parseInput_def rbind_eq_Inr
  apply (elim exE conjE)
  apply (drule Inr_inject)
  apply hypsubst
  apply (simp only: ranking_input.simps check_eq_Inr LIMITS_def ranking_limits.simps simp_thms)
  apply (erule parsed_budget)
  done

lemma take_sorted_before:
  assumes "sorted_wrt P (xs @ ys)" "a \<in> set xs" "b \<in> set ys"
  shows "P a b"
  using assms by (simp add: sorted_wrt_append)

lemma ranking_facts:
  assumes "ranking_parseInput v = Inr p" "rankContextCandidates u v = Inr ranked"
    "x = ranking_context_of u p"
  shows "length ranked \<le> ri_limit p" "total_characters ranked \<le> ri_characterBudget p"
    "sorted_wrt ranked_before ranked"
    "list_all (rank_spec x (ri_candidates p)) ranked"
    "\<And>c s. c \<in> set (ri_candidates p) \<Longrightarrow> eligible_candidate x c \<Longrightarrow> scoreCandidate u x c = Inr s \<Longrightarrow>
       cs_id c \<notin> set (map rk_entryId ranked) \<Longrightarrow>
       (length ranked = ri_limit p \<or> total_characters ranked = ri_characterBudget p)
       \<and> list_all (\<lambda>r. ranked_before r s) ranked"
proof -
  have ids: "distinct (map cs_id (ri_candidates p))" and b: "0 < ri_characterBudget p"
    using parsed_input [OF assms(1)] by simp_all
  have "rank_parsed u p = Inr ranked" using assms(1,2) by (simp add: rankContextCandidates_def)
  then obtain scored where
    sc: "rtraverse (scoreCandidate u x) (filter (eligible_candidate x) (ri_candidates p)) = Inr scored"
    and r: "ranked = applyCharacterBudget (take (ri_limit p) (js_sort compareRanked scored)) (ri_characterBudget p)"
    unfolding assms(3) by (rule rank_parsed_Inr)
  define best where "best = take (ri_limit p) (js_sort compareRanked scored)"
  have ds: "distinct (map rk_entryId scored)" using scored_ids [OF sc] distinct_map_filter [OF ids] by simp
  have "mset (map rk_entryId (js_sort compareRanked scored)) = mset (map rk_entryId scored)" by simp
  from mset_eq_imp_distinct_iff [OF this] ds have df: "distinct (map rk_entryId (js_sort compareRanked scored))" by simp
  from ds have so: "sorted_wrt ranked_before (js_sort compareRanked scored)" by (rule sorted_strictly)
  show "sorted_wrt ranked_before ranked" unfolding r by (rule budget_sorted [OF sorted_wrt_take [OF so]])
  show "total_characters ranked \<le> ri_characterBudget p" unfolding r by (rule budget_total) (use b in simp)
  obtain n where n: "n \<le> length best" "map rk_entryId ranked = take n (map rk_entryId best)"
    "n < length best \<longrightarrow> total_characters ranked = ri_characterBudget p"
    using budget_ids [of best "ri_characterBudget p"] b unfolding r best_def by auto
  have ln: "length ranked = n" using arg_cong [OF n(2), of length] n(1) by simp
  thus "length ranked \<le> ri_limit p" using n(1) by (simp add: best_def)
  have mem: "\<exists>s\<in>set best. \<exists>k. t = s\<lparr>rk_content := fitContent (rk_content s) k\<rparr>" if "t \<in> set ranked" for t
    using budget_content that unfolding r best_def by blast
  show "list_all (rank_spec x (ri_candidates p)) ranked"
    unfolding list_all_iff
  proof
    fix t assume "t \<in> set ranked"
    then obtain s k where s: "s \<in> set best" "t = s\<lparr>rk_content := fitContent (rk_content s) k\<rparr>" using mem by blast
    have "s \<in> set scored" using s(1) unfolding best_def by (metis in_set_takeD set_js_sort)
    then obtain c where c: "c \<in> set (ri_candidates p)" "eligible_candidate x c" "scoreCandidate u x c = Inr s"
      by (rule rank_members [OF sc])
    have "shows_prefix (rk_content t) c"
      using fitContent_prefix [of "rk_content s" k] scoreCandidate_fields [OF c(3)] by (simp add: shows_prefix_def s(2))
    thus "rank_spec x (ri_candidates p) t"
      using c(1,2) scoreCandidate_fields [OF c(3)] s(2) by (auto simp: rank_spec_def list_ex_iff)
  qed
  fix c s
  assume c: "c \<in> set (ri_candidates p)" "eligible_candidate x c" "scoreCandidate u x c = Inr s"
    "cs_id c \<notin> set (map rk_entryId ranked)"
  define full where "full = js_sort compareRanked scored"
  have "s \<in> set scored" by (rule rank_covers [OF sc c(1-3)])
  hence sm: "s \<in> set full" by (simp add: full_def)
  have nl: "n \<le> length full" "take n (map rk_entryId best) = map rk_entryId (take n full)"
    using n(1) by (simp_all add: best_def full_def take_map)
  have "s \<notin> set (take n full)"
    using c(4) n(2) nl(2) scoreCandidate_fields(1) [OF c(3)] by force
  hence sd: "s \<in> set (drop n full)" using sm by (metis Un_iff append_take_drop_id set_append)
  hence "n < length full" by (metis drop_eq_Nil empty_iff leI list.set(1))
  hence "length ranked = ri_limit p \<or> total_characters ranked = ri_characterBudget p"
    using n(3) ln n(1) by (cases "n < length best") (auto simp: best_def full_def)
  moreover have "ranked_before t s" if t: "t \<in> set ranked" for t
  proof -
    obtain s0 k where s0: "s0 \<in> set best" "t = s0\<lparr>rk_content := fitContent (rk_content s0) k\<rparr>" using mem t by blast
    have "rk_entryId t \<in> set (map rk_entryId (take n full))"
      unfolding nl(2) [symmetric] n(2) [symmetric] using t by simp
    then obtain s1 where s1: "s1 \<in> set (take n full)" "rk_entryId s1 = rk_entryId s0" using s0(2) by auto
    have "s0 \<in> set full" "s1 \<in> set full" using s0(1) s1(1) by (auto simp: best_def full_def dest: in_set_takeD)
    hence "s0 = s1" using df s1(2) unfolding full_def distinct_map by (metis inj_onD)
    moreover have "sorted_wrt ranked_before (take n full @ drop n full)" using so by (simp add: full_def)
    ultimately have "ranked_before s0 s" using take_sorted_before [OF _ s1(1) sd] by simp
    thus ?thesis by (simp add: ranked_before_def s0(2))
  qed
  ultimately show "(length ranked = ri_limit p \<or> total_characters ranked = ri_characterBudget p)
       \<and> list_all (\<lambda>r. ranked_before r s) ranked" by (simp add: list_all_iff)
qed

section \<open>Properties\<close>

text \<open>
  C27: A ranking returns at most the requested number of candidates within the character budget, best
  score first and ties by identifier; each is a current candidate that was not delivered in this
  revision before and shows prefixes of its text. An eligible candidate is left out only when the
  limit or the budget is used up, and then every returned one is ranked before it.
\<close>

theorem ranking_selects_best:
  assumes "ranking_parseInput v = Inr p" "rankContextCandidates u v = Inr ranked"
    "x = ranking_context_of u p"
  shows "length ranked \<le> ri_limit p \<and> total_characters ranked \<le> ri_characterBudget p
    \<and> sorted_wrt ranked_before ranked \<and> list_all (rank_spec x (ri_candidates p)) ranked
    \<and> (\<forall>c s. c \<in> set (ri_candidates p) \<longrightarrow> eligible_candidate x c \<longrightarrow> scoreCandidate u x c = Inr s \<longrightarrow>
         cs_id c \<notin> set (map rk_entryId ranked) \<longrightarrow>
         (length ranked = ri_limit p \<or> total_characters ranked = ri_characterBudget p)
         \<and> list_all (\<lambda>r. ranked_before r s) ranked)"
  using ranking_facts [OF assms] by blast

definition plain_unicode :: unicode where
  "plain_unicode = \<lparr>uc_nfkc = (\<lambda>s. s), uc_lower = map ascii_lower, uc_word = (\<lambda>c. is_digit c \<or> CHR ''a'' \<le> c \<and> c \<le> CHR ''z'')\<rparr>"

definition sample_candidate :: "string \<Rightarrow> string \<Rightarrow> string \<Rightarrow> jsvalue" where
  "sample_candidate i status body = VObj
     [(''id'', VStr i), (''revision'', VNum 2), (''kind'', VStr ''lesson''), (''status'', VStr status),
      (''trustLevel'', VStr ''user_asserted''), (''confidence'', VFrac ''0.5''), (''title'', VStr ''T''),
      (''summary'', VNull), (''body'', VStr body), (''tags'', VArr [VStr ''build'']), (''scope'', VObj []),
      (''updatedAt'', VStr ''2024-01-01T00:00:00.000Z'')]"

definition sample_ranking :: jsvalue where
  "sample_ranking = VObj
     [(''taskProfile'', VObj [(''taskType'', VStr ''build''), (''target'', VNull), (''expected'', VNull), (''constraints'', VNull)]),
      (''recommendedTags'', VArr []), (''changedPaths'', VArr []), (''errorSignatures'', VArr []),
      (''priorDelivered'', VArr [VObj [(''entryId'', VStr ''old''), (''revision'', VNum 2)]]), (''feedback'', VArr []),
      (''candidates'', VArr [sample_candidate ''a'' ''candidate'' ''abc'', sample_candidate ''b'' ''verified'' ''abcdef'',
         sample_candidate ''old'' ''verified'' ''x'', sample_candidate ''c'' ''candidate'' ''x'']),
      (''limit'', VNum 5), (''characterBudget'', VNum 9)]"

theorem ranking_selects_best_witness:
  "\<exists>p ranked. ranking_parseInput sample_ranking = Inr p \<and> rankContextCandidates plain_unicode sample_ranking = Inr ranked
     \<and> map rk_entryId ranked = [''b'', ''a''] \<and> total_characters ranked \<le> ri_characterBudget p
     \<and> sorted_wrt ranked_before ranked"
proof -
  obtain p where p: "ranking_parseInput sample_ranking = Inr p"
    by (cases "ranking_parseInput sample_ranking") (simp, code_simp)
  have i: "map_sum id (map rk_entryId) (rankContextCandidates plain_unicode sample_ranking) = Inr [''b'', ''a'']"
    by code_simp
  obtain ranked where r: "rankContextCandidates plain_unicode sample_ranking = Inr ranked" "map rk_entryId ranked = [''b'', ''a'']"
    using map_sum_InrD [OF i] by (elim exE conjE)
  show ?thesis using ranking_selects_best [OF p r(1) refl] p r by (intro exI conjI) (rule p, rule r, rule r, elim conjE, assumption, elim conjE, assumption)
qed

text \<open>
  C37: The order in which candidates are retrieved has no influence: ranking any permutation of the
  same candidates gives the same result, failures included.
\<close>

theorem ranking_order_independent:
  assumes "mset cs = mset (ri_candidates p)" "distinct (map cs_id (ri_candidates p))"
  shows "rank_parsed u (p\<lparr>ri_candidates := cs\<rparr>) = rank_parsed u p"
proof -
  let ?q = "p\<lparr>ri_candidates := cs\<rparr>" and ?x = "ranking_context_of u p"
  have "set cs = set (ri_candidates p)" using assms(1) by (rule mset_eq_setD)
  moreover have "(case map f zs of [] \<Rightarrow> 0 | t # ts \<Rightarrow> fold min ts t) = (if set zs = {} then 0 else Min (f ` set zs))"
    for f :: "candidate_snapshot \<Rightarrow> int" and zs by (cases zs) (simp_all add: fold_min_Min)
  ultimately have x: "ranking_context_of u ?q = ?x" by (cases "cs = []") (auto simp: ranking_context_of_def)
  define f where "f = scoreCandidate u ?x"
  define E where "E = filter (eligible_candidate ?x)"
  have m: "mset (E cs) = mset (E (ri_candidates p))" using assms(1) by (simp add: E_def)
  note tr = rtraverse_one_error [of f invalid_ranking, OF scoreCandidate_error [of u ?x, folded f_def]]
  have srt: "js_sort compareRanked (map (\<lambda>c. projr (f c)) (E cs)) = js_sort compareRanked (map (\<lambda>c. projr (f c)) (E (ri_candidates p)))"
    if ok: "\<forall>c\<in>set (E (ri_candidates p)). isl (f c) = False"
  proof -
    have same: "c = d" if "c \<in> set (E cs)" "d \<in> set (E cs)" "rk_entryId (projr (f c)) = rk_entryId (projr (f d))" for c d
    proof -
      have "c \<in> set (ri_candidates p)" "d \<in> set (ri_candidates p)" "isl (f c) = False" "isl (f d) = False"
        using that(1,2) ok mset_eq_setD [OF m] by (auto simp: E_def)
      moreover have "rk_entryId (projr (f e)) = cs_id e" if "isl (f e) = False" for e
        using that scoreCandidate_fields(1) [of u ?x e] by (cases "f e") (auto simp: f_def)
      ultimately have "cs_id c = cs_id d" using that(3) by simp
      thus ?thesis using assms(2) \<open>c \<in> set (ri_candidates p)\<close> \<open>d \<in> set (ri_candidates p)\<close>
        unfolding distinct_map by (metis inj_onD)
    qed
    have "inj_on (\<lambda>r. (- rk_totalScore r, rk_entryId r)) (set (map (\<lambda>c. projr (f c)) (E cs)))"
    proof (rule inj_onI)
      fix a b
      assume "a \<in> set (map (\<lambda>c. projr (f c)) (E cs))" "b \<in> set (map (\<lambda>c. projr (f c)) (E cs))"
        and k: "(- rk_totalScore a, rk_entryId a) = (- rk_totalScore b, rk_entryId b)"
      then obtain c d where "c \<in> set (E cs)" "d \<in> set (E cs)" "a = projr (f c)" "b = projr (f d)" by auto
      thus "a = b" using same [of c d] k by simp
    qed
    thus ?thesis unfolding ranked_order.js_sort_sort_key
      by (rule sort_key_eq_sort_key [rotated]) (simp add: m)
  qed
  have "set (E cs) = set (E (ri_candidates p))" using m by (rule mset_eq_setD)
  thus ?thesis unfolding rank_parsed_def x Let_def using tr srt by (simp add: f_def E_def)
qed

definition sample_snapshot :: "string \<Rightarrow> candidate_snapshot" where
  "sample_snapshot i =
     \<lparr>cs_id = i, cs_revision = 1, cs_kind = ''fact'', cs_status = ''candidate'', cs_trustLevel = ''untrusted'',
      cs_confidence = VNum 1, cs_title = ''T'', cs_summary = None, cs_body = ''B'', cs_tags = [], cs_scope = VObj [],
      cs_updatedAt = ''2024-01-01T00:00:00.000Z'', cs_selectionReasons = [], cs_contradiction = False, cs_origin = None\<rparr>"

definition sample_parsed :: ranking_input where
  "sample_parsed =
     \<lparr>ri_taskProfile = \<lparr>taskType = None, target = None, expected = None, constraints = None\<rparr>,
      ri_recommendedTags = [], ri_changedPaths = [], ri_errorSignatures = [], ri_priorDelivered = [], ri_feedback = [],
      ri_candidates = [sample_snapshot ''a'', sample_snapshot ''b''], ri_limit = 2, ri_characterBudget = 10\<rparr>"

theorem ranking_order_independent_witness:
  "map_sum id (map rk_entryId)
     (rank_parsed plain_unicode (sample_parsed\<lparr>ri_candidates := [sample_snapshot ''b'', sample_snapshot ''a'']\<rparr>)) = Inr [''a'', ''b'']"
proof -
  have "mset [sample_snapshot ''b'', sample_snapshot ''a''] = mset (ri_candidates sample_parsed)"
    "distinct (map cs_id (ri_candidates sample_parsed))" by (simp_all add: sample_parsed_def sample_snapshot_def)
  from ranking_order_independent [OF this, of plain_unicode]
  show ?thesis by (simp only:) code_simp
qed

text \<open>
  Only the first occurrence of an error signature is tested for word boundaries, so a later
  stand-alone occurrence is missed.
\<close>

lemma literalMatch_first_occurrence:
  "literalMatch plain_unicode ''e42'' ''e42'' \<and> \<not> literalMatch plain_unicode ''me42 e42'' ''e42''"
  by code_simp

end
