(* ===== verification/Managed_Block.thy ===== *)
theory Managed_Block
  imports Js_Text Js_Regex Boundary_Json
begin

text \<open>
  The block kiokuko manages inside the user's AGENTS.md, \<open>src/src/agent-file/managed-block.ts\<close>, with
  the region digest of \<open>src/src/managed-files/rebase.ts\<close> as an argument: locating the two markers,
  replacing, removing and rebasing the region between them. Everything outside belongs to the user.
\<close>

section \<open>Markers\<close>

abbreviation LF :: char where "LF \<equiv> CHR 0x0A"
abbreviation CR :: char where "CR \<equiv> CHR 0x0D"

definition BEGIN_MARKER :: string where
  "BEGIN_MARKER = ''<!-- BEGIN KIOKUKO-AI MANAGED BLOCK -->''"

definition END_MARKER :: string where
  "END_MARKER = ''<!-- END KIOKUKO-AI MANAGED BLOCK -->''"

datatype block_state = absent | balanced

datatype block_action = created | updated | unchanged

datatype removal_action = not_present | removed | deleted

record block_region =
  br_content :: string
  br_start :: nat
  br_end :: nat

record block_result =
  mb_content :: string
  mb_action :: block_action
  mb_state :: block_state

record removal_result =
  rm_content :: "string option"
  rm_action :: removal_action

lemma prefix_drop_length: "prefix m (drop i s) \<Longrightarrow> i + length m \<le> length s \<or> m = []"
  by (cases m) (auto dest!: prefix_length_le)

text \<open>The scan; the two markers it is called with are not empty, on which it advances.\<close>

function positions_from :: "string \<Rightarrow> string \<Rightarrow> nat \<Rightarrow> nat list" where
  "positions_from s m start =
     (if m = [] then []
      else case index_from s m start of None \<Rightarrow> [] | Some i \<Rightarrow> i # positions_from s m (i + length m))"
  by pat_completeness auto
termination
  by (relation "measure (\<lambda>(s, m, start). Suc (length s) - start)")
     (auto dest!: index_from_Some prefix_drop_length simp: Suc_diff_le neq_Nil_conv intro!: diff_less_mono2)

declare positions_from.simps [simp del]

definition markerPositions :: "string \<Rightarrow> string \<Rightarrow> nat list" where
  "markerPositions content marker = positions_from content marker 0"

definition isStandaloneMarker :: "string \<Rightarrow> string \<Rightarrow> nat \<Rightarrow> bool" where
  "isStandaloneMarker content marker position =
     (let after = take 2 (drop (position + length marker) content) in
      (position = 0 \<or> content ! (position - 1) = LF)
      \<and> (position + length marker = length content \<or> prefix [LF] after \<or> after = [CR, LF]))"

definition malformed_markers :: js_error where
  "malformed_markers = KiokukoError VALIDATION_ERROR ''AGENTS.md contains malformed Kiokuko managed markers''"

definition validateMarkers :: "string \<Rightarrow> (nat \<times> nat) option result" where
  "validateMarkers content =
     (case (markerPositions content BEGIN_MARKER, markerPositions content END_MARKER) of
        ([], []) \<Rightarrow> Inr None
      | ([start], [end]) \<Rightarrow>
          if start < end \<and> isStandaloneMarker content BEGIN_MARKER start \<and> isStandaloneMarker content END_MARKER end
          then Inr (Some (start, end + length END_MARKER)) else Inl malformed_markers
      | _ \<Rightarrow> Inl malformed_markers)"

section \<open>Operations\<close>

definition slice :: "string \<Rightarrow> nat \<Rightarrow> nat \<Rightarrow> string" where
  "slice s a b = take (b - a) (drop a s)"

definition readManagedBlockRegion :: "string \<Rightarrow> block_region option result" where
  "readManagedBlockRegion content =
     rbind (validateMarkers content) (\<lambda>markers.
     Inr (case markers of
        None \<Rightarrow> None
      | Some (a, b) \<Rightarrow> Some \<lparr>br_content = slice content a b, br_start = a, br_end = b\<rparr>))"

definition newlineFor :: "string \<Rightarrow> string" where
  "newlineFor content = (if search (literal [CR, LF]) content then [CR, LF] else [LF])"

text \<open>\<open>replaceAll('\r\n', '\n')\<close> and \<open>replaceAll('\n', newline)\<close>.\<close>

fun crlf_to_lf :: "string \<Rightarrow> string" where
  "crlf_to_lf (a # b # s) = (if a = CR \<and> b = LF then LF # crlf_to_lf s else a # crlf_to_lf (b # s))"
| "crlf_to_lf s = s"

definition lf_to :: "string \<Rightarrow> string \<Rightarrow> string" where
  "lf_to newline s = concat (map (\<lambda>c. if c = LF then newline else [c]) s)"

definition normalizeBlock :: "string \<Rightarrow> string \<Rightarrow> string" where
  "normalizeBlock block newline = lf_to newline (crlf_to_lf block)"

definition separator_for :: "string \<Rightarrow> string" where
  "separator_for existing =
     (let newline = newlineFor existing in
      if suffix [LF] existing \<or> suffix [CR] existing then newline @ newline else newline @ newline @ newline)"

definition upsertManagedBlock :: "string \<Rightarrow> string \<Rightarrow> block_result result" where
  "upsertManagedBlock existing managedBlock =
     rbind (validateMarkers existing) (\<lambda>markers.
     let normalizedBlock = normalizeBlock managedBlock (newlineFor existing) in
     case markers of
       None \<Rightarrow>
         if existing = [] then Inr \<lparr>mb_content = normalizedBlock, mb_action = created, mb_state = absent\<rparr>
         else Inr \<lparr>mb_content = existing @ separator_for existing @ normalizedBlock,
                   mb_action = created, mb_state = absent\<rparr>
     | Some (a, b) \<Rightarrow>
         if slice existing a b = normalizedBlock
         then Inr \<lparr>mb_content = existing, mb_action = unchanged, mb_state = balanced\<rparr>
         else Inr \<lparr>mb_content = take a existing @ normalizedBlock @ drop b existing,
                   mb_action = updated, mb_state = balanced\<rparr>)"

definition region_text :: "block_region option \<Rightarrow> string" where
  "region_text region = (case region of None \<Rightarrow> [] | Some r \<Rightarrow> br_content r)"

definition owned_region_conflict :: js_error where
  "owned_region_conflict = KiokukoError CONFLICT ''Managed file owned region changed concurrently''"

definition rebaseManagedBlock ::
    "(string \<Rightarrow> string) \<Rightarrow> string \<Rightarrow> string \<Rightarrow> string \<Rightarrow> block_result result" where
  "rebaseManagedBlock digestManagedRegion base latest desiredBlock =
     rbind (readManagedBlockRegion base) (\<lambda>baseRegion.
     rbind (readManagedBlockRegion latest) (\<lambda>latestRegion.
     rbind (upsertManagedBlock latest desiredBlock) (\<lambda>desired.
     rbind (readManagedBlockRegion (mb_content desired)) (\<lambda>desiredRegion.
     let baseDigest = digestManagedRegion (region_text baseRegion);
         latestDigest = digestManagedRegion (region_text latestRegion);
         desiredDigest = digestManagedRegion (region_text desiredRegion) in
     if latestDigest = desiredDigest then Inr (desired\<lparr>mb_content := latest, mb_action := unchanged\<rparr>)
     else if latestDigest \<noteq> baseDigest then Inl owned_region_conflict
     else Inr desired))))"

text \<open>The generic rebase, over a reader and a writer of the owned region.\<close>

datatype rebase_status = rebase_unchanged | rebased

record 'a managed_region =
  rg_value :: 'a
  rg_digest :: string

record 'a rebase_result =
  rb_content :: string
  rb_status :: rebase_status
  rb_region :: "'a managed_region"

definition rebaseManagedRegion ::
    "string \<Rightarrow> string \<Rightarrow> 'a \<Rightarrow> (string \<Rightarrow> 'a managed_region result) \<Rightarrow> (string \<Rightarrow> 'a \<Rightarrow> string result) \<Rightarrow>
     'a rebase_result result" where
  "rebaseManagedRegion base latest desired read write =
     rbind (read base) (\<lambda>baseRegion.
     rbind (read latest) (\<lambda>latestRegion.
     rbind (write latest desired) (\<lambda>desiredContent.
     rbind (read desiredContent) (\<lambda>desiredRegion.
     if rg_digest latestRegion = rg_digest desiredRegion
     then Inr \<lparr>rb_content = latest, rb_status = rebase_unchanged, rb_region = latestRegion\<rparr>
     else if rg_digest latestRegion \<noteq> rg_digest baseRegion then Inl owned_region_conflict
     else Inr \<lparr>rb_content = desiredContent, rb_status = rebased, rb_region = desiredRegion\<rparr>))))"

definition managedRegionReader :: "(string \<Rightarrow> string) \<Rightarrow> string \<Rightarrow> nat \<Rightarrow> nat \<Rightarrow> string managed_region" where
  "managedRegionReader digestManagedRegion content a b =
     (let value = slice content a b in \<lparr>rg_value = value, rg_digest = digestManagedRegion value\<rparr>)"

definition removeManagedBlock :: "string \<Rightarrow> removal_result result" where
  "removeManagedBlock existing =
     rbind (validateMarkers existing) (\<lambda>markers.
     case markers of
       None \<Rightarrow> Inr \<lparr>rm_content = Some existing, rm_action = not_present\<rparr>
     | Some (a, b) \<Rightarrow>
         let content = take a existing @ drop b existing in
         if content = [] then Inr \<lparr>rm_content = None, rm_action = deleted\<rparr>
         else Inr \<lparr>rm_content = Some content, rm_action = removed\<rparr>)"

text \<open>Writing the block into AGENTS.md; its text comes from a template.\<close>

definition renderAgentFile :: "string option \<Rightarrow> string \<Rightarrow> (string \<times> block_action) result" where
  "renderAgentFile existing managedBlock =
     rbind (upsertManagedBlock (case existing of None \<Rightarrow> [] | Some s \<Rightarrow> s) managedBlock) (\<lambda>r.
     Inr (mb_content r, mb_action r))"

section \<open>Template versions\<close>

fun split_lines :: "string \<Rightarrow> string list" where
  "split_lines [] = [[]]"
| "split_lines (c # s) =
     (if c = LF then [] # split_lines s
      else case split_lines s of [] \<Rightarrow> [[c]] | l # ls \<Rightarrow> (c # l) # ls)"

definition declares_template :: "string \<Rightarrow> bool" where
  "declares_template line =
     test (rseq [rlit ''kiokuko'', ROpt (ralt [rlit ''-ai'', rlit ''-dsh'']), rlit ''-template-version'']) line"

definition template_declarations :: "string \<Rightarrow> string list" where
  "template_declarations block = filter declares_template (split_lines (crlf_to_lf block))"

text \<open>\<open>/^<!-- product-template-version: ([1-9][0-9]*) -->$/u\<close> and the number it captures, when safe.\<close>

definition declared_version :: "string \<Rightarrow> string \<Rightarrow> int option" where
  "declared_version product line =
     (let before = ''<!-- '' @ product @ ''-template-version: ''; behind = '' -->'';
          digits = take (length line - length before - length behind) (drop (length before) line) in
      if line = before @ digits @ behind \<and> digits \<noteq> [] \<and> list_all is_digit digits \<and> hd digits \<noteq> CHR ''0''
         \<and> number_of_digits digits \<le> MAX_SAFE_INTEGER
      then Some (number_of_digits digits) else None)"

definition readManagedBlockTemplateVersion :: "string \<Rightarrow> int option result" where
  "readManagedBlockTemplateVersion existing =
     rbind (validateMarkers existing) (\<lambda>markers.
     case markers of
       None \<Rightarrow> Inr None
     | Some (a, b) \<Rightarrow>
         let lines = template_declarations (slice existing a b) in
         rbind (check (lines \<noteq> [])
           (KiokukoError VALIDATION_ERROR ''Managed block is missing its template-version declaration'')) (\<lambda>_.
         rbind (check (length lines = 1)
           (KiokukoError VALIDATION_ERROR ''Managed block has ambiguous template-version declarations'')) (\<lambda>_.
         case declared_version ''kiokuko-ai'' (hd lines) of
           None \<Rightarrow> Inl (KiokukoError VALIDATION_ERROR ''Managed block has a malformed template-version declaration'')
         | Some version \<Rightarrow> Inr (Some version))))"

definition hasDshManagedBlock :: "string \<Rightarrow> bool result" where
  "hasDshManagedBlock existing =
     rbind (readManagedBlockRegion existing) (\<lambda>region.
     Inr (case region of
        None \<Rightarrow> False
      | Some r \<Rightarrow>
          let declarations = template_declarations (br_content r) in
          length declarations = 1 \<and> declared_version ''kiokuko-dsh'' (hd declarations) \<noteq> None))"

section \<open>Occurrences\<close>

text \<open>All occurrences of a marker, against which the scan is checked.\<close>

definition occs :: "string \<Rightarrow> string \<Rightarrow> nat list" where
  "occs m s = filter (\<lambda>i. prefix m (drop i s)) [0..<length s]"

definition single :: "string \<Rightarrow> bool" where
  "single m = (m \<noteq> [] \<and> hd m \<notin> set (tl m))"

lemma no_overlap:
  assumes "hd n \<notin> set (tl m)" "n \<noteq> []" "prefix m (drop i s)" "i < j" "j < i + length m"
  shows "\<not> prefix n (drop j s)"
proof
  assume "prefix n (drop j s)"
  then obtain u v where u: "drop i s = m @ u" and v: "drop j s = n @ v" using assms(3) by (auto simp: prefix_def)
  have "drop (j - i) (m @ u) = n @ v" using u v assms(4) by (metis drop_drop le_add_diff_inverse2 less_imp_le_nat)
  hence "(m @ u) ! (j - i) = hd n" using assms(2,4)
    by (metis append_is_Nil_conv drop_eq_Nil hd_append2 hd_drop_conv_nth leI)
  moreover have "j - i < length m" using assms(4,5) by linarith
  ultimately have "m ! (j - i) = hd n" by (simp add: nth_append)
  hence "hd n \<in> set (tl m)" using assms(4) \<open>j - i < length m\<close>
    by (cases m) (auto simp: nth_Cons in_set_conv_nth split: nat.splits)
  thus False using assms(1) by simp
qed

lemma upt_split: "i \<le> j \<Longrightarrow> j \<le> k \<Longrightarrow> [i..<k] = [i..<j] @ [j..<k]" for i j k :: nat
  using upt_add_eq_append [of i j "k - j"] by simp

lemma positions_from_occs:
  "single m \<Longrightarrow> positions_from s m start = filter (\<lambda>i. prefix m (drop i s)) [start..<length s]"
proof (induction s m start rule: positions_from.induct)
  case (1 s m start)
  have m: "m \<noteq> []" using "1.prems" by (simp add: single_def)
  show ?case
  proof (cases "index_from s m start")
    case None
    thus ?thesis using index_from_None [OF None] m by (simp add: positions_from.simps [of s m start])
  next
    case (Some i)
    note f = index_from_Some [OF Some]
    have il: "i + length m \<le> length s" using f m by (auto dest: prefix_drop_length)
    have le: "start \<le> i" "i \<le> length s" "i < length s" "Suc i \<le> i + length m" using f il m by (cases m; simp)+
    have split: "[start..<length s] = [start..<i] @ i # [Suc i..<i + length m] @ [i + length m..<length s]"
      unfolding upt_split [OF le(1,2)] upt_conv_Cons [OF le(3)] upt_split [OF le(4) il] by (rule refl)
    have before: "filter (\<lambda>i. prefix m (drop i s)) [start..<i] = []" using f by simp
    have inside: "filter (\<lambda>i. prefix m (drop i s)) [Suc i..<i + length m] = []"
      using no_overlap [of m m i s] f m "1.prems" by (simp add: single_def)
    have "positions_from s m (i + length m) = filter (\<lambda>i. prefix m (drop i s)) [i + length m..<length s]"
      by (rule "1.IH" [OF m Some "1.prems"])
    thus ?thesis using f before inside Some m
      by (simp add: positions_from.simps [of s m start] split)
  qed
qed

lemma single_markers: "single BEGIN_MARKER" "single END_MARKER"
  by (simp_all add: single_def BEGIN_MARKER_def END_MARKER_def)

lemma marker_heads: "hd END_MARKER \<notin> set (tl BEGIN_MARKER)" "END_MARKER \<noteq> []"
  by (simp_all add: BEGIN_MARKER_def END_MARKER_def)

lemma marker_length: "2 \<le> length END_MARKER"
  by (simp add: END_MARKER_def)

lemma end_after_begin:
  assumes "prefix BEGIN_MARKER (drop a c)" "prefix END_MARKER (drop e c)" "a < e"
  shows "a + length BEGIN_MARKER \<le> e"
proof (rule ccontr)
  assume "\<not> ?thesis"
  hence "e < a + length BEGIN_MARKER" by simp
  from no_overlap [OF marker_heads assms(1,3) this] assms(2) show False by (rule notE)
qed

lemma markerPositions_occs:
  "markerPositions s BEGIN_MARKER = occs BEGIN_MARKER s" "markerPositions s END_MARKER = occs END_MARKER s"
  by (simp_all add: markerPositions_def occs_def positions_from_occs single_markers)

lemma occs_bound: "i \<in> set (occs m s) \<Longrightarrow> i < length s \<and> prefix m (drop i s)"
  by (simp add: occs_def)

text \<open>Occurrences do not cross a place with a foreign character on one side.\<close>

lemma occs_append:
  assumes "(a \<noteq> [] \<and> last a \<notin> set m) \<or> (b \<noteq> [] \<and> hd b \<notin> set m) \<or> a = [] \<or> b = []"
  shows "occs m (a @ b) = occs m a @ map ((+) (length a)) (occs m b)"
proof -
  have keep: "prefix m (drop i (a @ b)) = prefix m (drop i a)" if i: "i < length a" for i
  proof -
    have ne: "drop i a \<noteq> []" "last (drop i a) = last a" using i by simp_all
    have "v = []" if v: "m = drop i a @ v" "prefix v b" for v
    proof (rule ccontr)
      assume nv: "v \<noteq> []"
      hence "hd v = hd b" "b \<noteq> []" using v(2) by (auto simp: prefix_def)
      moreover have "last a \<in> set m" using v(1) ne by (metis in_set_conv_decomp append_is_Nil_conv last_in_set set_append UnCI)
      moreover have "hd v \<in> set m" using v(1) nv by (metis UnCI hd_in_set set_append)
      ultimately show False using assms i by auto
    qed
    thus ?thesis using i by (auto simp: prefix_append)
  qed
  have "[0..<length (a @ b)] = [0..<length a] @ map ((+) (length a)) [0..<length b]"
    by (intro nth_equalityI) (simp_all add: nth_append)
  moreover have "filter (\<lambda>i. prefix m (drop i (a @ b))) [0..<length a] = occs m a"
    unfolding occs_def by (rule filter_cong) (simp_all add: keep del: drop_append)
  moreover have "filter (\<lambda>i. prefix m (drop i (a @ b))) (map ((+) (length a)) [0..<length b]) = map ((+) (length a)) (occs m b)"
    by (simp add: occs_def filter_map o_def)
  ultimately show ?thesis unfolding occs_def [of m "a @ b"] by (simp only: filter_append)
qed

lemma occs_Nil_iff: "m \<noteq> [] \<Longrightarrow> occs m s = [] \<longleftrightarrow> \<not> sublist m s"
proof
  assume m: "m \<noteq> []" and "occs m s = []"
  hence none: "\<And>i. i < length s \<Longrightarrow> \<not> prefix m (drop i s)" by (auto simp: occs_def filter_empty_conv)
  show "\<not> sublist m s"
  proof
    assume "sublist m s"
    then obtain u v where "s = u @ m @ v" by (auto simp: sublist_def)
    thus False using none [of "length u"] m by simp
  qed
next
  assume "\<not> sublist m s"
  thus "occs m s = []"
    by (auto simp: occs_def filter_empty_conv) (metis append_take_drop_id prefix_def sublist_def)
qed

lemma occs_short: "occs m s = [i] \<Longrightarrow> i < length s"
  using occs_bound [of i m s] by simp

section \<open>The shape of a file with a block\<close>

definition no_markers :: "string \<Rightarrow> bool" where
  "no_markers s = (occs BEGIN_MARKER s = [] \<and> occs END_MARKER s = [])"

text \<open>A block is a text that is its own managed region.\<close>

definition is_block :: "string \<Rightarrow> bool" where
  "is_block b = (validateMarkers b = Inr (Some (0, length b)))"

definition line_end :: "string \<Rightarrow> bool" where
  "line_end s = (s = [] \<or> last s = LF)"

definition line_start :: "string \<Rightarrow> bool" where
  "line_start s = (s = [] \<or> prefix [LF] s \<or> prefix [CR, LF] s)"

definition framed :: "string \<Rightarrow> string \<Rightarrow> string \<Rightarrow> bool" where
  "framed p b s = (line_end p \<and> is_block b \<and> line_start s \<and> no_markers p \<and> no_markers s)"

definition is_marker :: "string \<Rightarrow> bool" where
  "is_marker m = (m \<noteq> [] \<and> LF \<notin> set m \<and> CR \<notin> set m)"

lemma is_marker_markers: "is_marker BEGIN_MARKER" "is_marker END_MARKER"
  by (simp_all add: is_marker_def BEGIN_MARKER_def END_MARKER_def)

lemma occs_after_line: "is_marker m \<Longrightarrow> line_end p \<Longrightarrow> occs m (p @ s) = occs m p @ map ((+) (length p)) (occs m s)"
  by (rule occs_append) (auto simp: line_end_def is_marker_def)

lemma occs_before_line: "is_marker m \<Longrightarrow> line_start s \<Longrightarrow> occs m (p @ s) = occs m p @ map ((+) (length p)) (occs m s)"
  by (rule occs_append) (auto simp: line_start_def is_marker_def prefix_def)

lemma standalone_iff:
  assumes "prefix m (drop i s)" "m \<noteq> []"
  shows "isStandaloneMarker s m i \<longleftrightarrow> line_end (take i s) \<and> line_start (drop (i + length m) s)"
proof -
  have il: "i + length m \<le> length s" "i < length s" using prefix_drop_length [OF assms(1)] assms(2) by (cases m; simp)+
  have "last (take i s) = s ! (i - 1)" if "i \<noteq> 0"
  proof -
    have "take i s \<noteq> []" using that il by auto
    thus ?thesis using that il by (simp add: last_conv_nth)
  qed
  moreover have "i + length m = length s \<longleftrightarrow> drop (i + length m) s = []" using il by auto
  moreover have "prefix [LF] (take 2 t) = prefix [LF] t" "(take 2 t = [CR, LF]) = prefix [CR, LF] t" for t :: string
    by (cases t; cases "tl t"; auto)+
  moreover have "s \<noteq> []" using il(2) by auto
  ultimately show ?thesis using il
    by (cases "i = 0") (simp_all add: isStandaloneMarker_def Let_def line_end_def line_start_def)
qed

lemma validateMarkers_None_iff: "validateMarkers c = Inr None \<longleftrightarrow> no_markers c"
  by (auto simp: validateMarkers_def markerPositions_occs no_markers_def split: list.splits)

lemma validateMarkers_Some_iff:
  "validateMarkers c = Inr (Some (a, b)) \<longleftrightarrow>
     (\<exists>e. occs BEGIN_MARKER c = [a] \<and> occs END_MARKER c = [e] \<and> a < e \<and> b = e + length END_MARKER
        \<and> line_end (take a c) \<and> line_start (drop (a + length BEGIN_MARKER) c)
        \<and> line_end (take e c) \<and> line_start (drop b c))"
proof -
  have "isStandaloneMarker c BEGIN_MARKER i = (line_end (take i c) \<and> line_start (drop (i + length BEGIN_MARKER) c))"
    if "occs BEGIN_MARKER c = [i]" for i
    using standalone_iff [of BEGIN_MARKER i c] occs_bound [of i BEGIN_MARKER c] that is_marker_markers
    by (simp add: is_marker_def)
  moreover have "isStandaloneMarker c END_MARKER i = (line_end (take i c) \<and> line_start (drop (i + length END_MARKER) c))"
    if "occs END_MARKER c = [i]" for i
    using standalone_iff [of END_MARKER i c] occs_bound [of i END_MARKER c] that is_marker_markers
    by (simp add: is_marker_def)
  ultimately show ?thesis
    by (auto simp: validateMarkers_def markerPositions_occs split: list.splits)
qed

lemma occs_split_single:
  assumes "occs m p @ map ((+) (length p)) (occs m s) = [k]"
  shows "if k < length p then occs m p = [k] \<and> occs m s = [] else occs m p = [] \<and> occs m s = [k - length p]"
  using assms occs_bound [of k m p] by (cases "occs m p") auto

lemma no_markers_append:
  "line_end p \<or> line_start s \<Longrightarrow> no_markers (p @ s) \<longleftrightarrow> no_markers p \<and> no_markers s"
  using occs_after_line occs_before_line is_marker_markers by (auto simp: no_markers_def)

lemma framed_markers:
  assumes "framed p b s"
  shows "validateMarkers (p @ b @ s) = Inr (Some (length p, length p + length b))"
proof -
  have p: "line_end p" and s: "line_start s" and np: "no_markers p" "no_markers s" using assms by (auto simp: framed_def)
  obtain e where b: "occs BEGIN_MARKER b = [0]" "occs END_MARKER b = [e]" "0 < e" "length b = e + length END_MARKER"
    "line_start (drop (length BEGIN_MARKER) b)" "line_end (take e b)"
    using assms by (auto simp: framed_def is_block_def validateMarkers_Some_iff)
  have o: "occs m (p @ b @ s) = occs m p @ map ((+) (length p)) (occs m b @ map ((+) (length b)) (occs m s))"
    if "is_marker m" for m
    using occs_after_line [OF that p, of "b @ s"] occs_before_line [OF that s, of b] by simp
  have ob: "occs BEGIN_MARKER (p @ b @ s) = [length p]" "occs END_MARKER (p @ b @ s) = [length p + e]"
    using o [OF is_marker_markers(1)] o [OF is_marker_markers(2)] b np by (simp_all add: no_markers_def)
  have "prefix BEGIN_MARKER b" using occs_bound [of 0 BEGIN_MARKER b] b(1) by simp
  hence bl: "length BEGIN_MARKER \<le> length b" by (rule prefix_length_le)
  have ne: "drop (length BEGIN_MARKER) b \<noteq> []"
  proof
    assume "drop (length BEGIN_MARKER) b = []"
    hence "b = BEGIN_MARKER" using \<open>prefix BEGIN_MARKER b\<close> by (auto simp: prefix_def)
    moreover have "occs END_MARKER BEGIN_MARKER = []" by code_simp
    ultimately show False using b(2) by simp
  qed
  have "line_start (drop (length BEGIN_MARKER) b @ s)"
    using b(5) ne by (auto simp: line_start_def prefix_def)
  moreover have "take e b \<noteq> []" using b(3,4) by auto
  moreover have "line_end (p @ take e b)" using b(6) \<open>take e b \<noteq> []\<close> by (auto simp: line_end_def)
  ultimately show ?thesis
    using ob p s b(3,4) bl by (auto simp: validateMarkers_Some_iff add.assoc)
qed

lemma line_start_appendD: "line_start (x @ s) \<Longrightarrow> 2 \<le> length x \<Longrightarrow> line_start x"
  by (cases x; cases "tl x") (auto simp: line_start_def)

lemma markers_framed:
  assumes "validateMarkers c = Inr (Some (a, b))"
  shows "a \<le> b \<and> b \<le> length c \<and> framed (take a c) (slice c a b) (drop b c)"
proof -
  obtain e where e: "occs BEGIN_MARKER c = [a]" "occs END_MARKER c = [e]" "a < e" "b = e + length END_MARKER"
    "line_end (take a c)" "line_start (drop (a + length BEGIN_MARKER) c)" "line_end (take e c)" "line_start (drop b c)"
    using assms by (auto simp: validateMarkers_Some_iff)
  have at: "prefix BEGIN_MARKER (drop a c)" "prefix END_MARKER (drop e c)"
    using occs_bound [of a BEGIN_MARKER c] occs_bound [of e END_MARKER c] e(1,2) by simp_all
  have bc: "b \<le> length c" using prefix_drop_length [OF at(2)] e(4) by (simp add: END_MARKER_def)
  have ae: "a + length BEGIN_MARKER \<le> e"
    by (rule end_after_begin [OF at e(3)])
  define P B S where "P = take a c" and "B = slice c a b" and "S = drop b c"
  have l: "length P = a" "length B = b - a" using e(3,4) bc by (simp_all add: P_def B_def slice_def)
  have "drop b c = drop (b - a) (drop a c)" using e(3,4) by simp
  hence "B @ S = drop a c" by (simp only: B_def S_def slice_def append_take_drop_id)
  hence c: "c = P @ B @ S" by (simp add: P_def)
  have le: "line_end P" "line_start S" using e(5,8) by (simp_all add: P_def S_def)
  have o: "occs m c = occs m P @ map ((+) (length P)) (occs m (B @ S))"
      "occs m (B @ S) = occs m B @ map ((+) (length B)) (occs m S)" if "is_marker m" for m
    using occs_after_line [OF that le(1), of "B @ S", folded c] occs_before_line [OF that le(2), of B] .
  note ob = occs_split_single [OF trans [OF o(1) [OF is_marker_markers(1), symmetric] e(1)]]
    and oe = occs_split_single [OF trans [OF o(1) [OF is_marker_markers(2), symmetric] e(2)]]
  have r: "occs BEGIN_MARKER P = []" "occs BEGIN_MARKER (B @ S) = [0]" "occs END_MARKER P = []"
    "occs END_MARKER (B @ S) = [e - a]"
    using ob oe l e(3) by simp_all
  have q: "occs BEGIN_MARKER B = [0]" "occs BEGIN_MARKER S = []" "occs END_MARKER B = [e - a]" "occs END_MARKER S = []"
    using occs_split_single [OF trans [OF o(2) [OF is_marker_markers(1), symmetric] r(2)]]
      occs_split_single [OF trans [OF o(2) [OF is_marker_markers(2), symmetric] r(4)]] l e(3,4) marker_length
    by simp_all
  have "drop (a + length BEGIN_MARKER) c = drop (length BEGIN_MARKER) B @ S"
    using l ae e(3,4) arg_cong [OF c, of "drop (a + length BEGIN_MARKER)"] by simp
  hence lb: "line_start (drop (length BEGIN_MARKER) B)"
    using e(4,6) l ae line_start_appendD [of "drop (length BEGIN_MARKER) B" S] marker_length by simp
  have "take e c = P @ take (e - a) B" using l e(3,4) arg_cong [OF c, of "take e"] by simp
  moreover have "take (e - a) B \<noteq> []" using e(3,4) l by auto
  ultimately have "line_end (take (e - a) B)" using e(7) by (simp add: line_end_def)
  hence "is_block B" using lb q l e(3,4) by (simp add: is_block_def validateMarkers_Some_iff line_end_def line_start_def)
  thus ?thesis using e bc r(1,3) q by (simp add: framed_def no_markers_def P_def B_def S_def)
qed

lemma marker_occs:
  "occs BEGIN_MARKER BEGIN_MARKER = [0]" "occs BEGIN_MARKER END_MARKER = []"
  "occs END_MARKER BEGIN_MARKER = []" "occs END_MARKER END_MARKER = [0]"
  by code_simp+

text \<open>A block is the two marker lines around lines without markers.\<close>

definition block_body :: "string \<Rightarrow> bool" where
  "block_body body = (body \<noteq> [] \<and> line_start body \<and> line_end body \<and> no_markers body)"

lemma occs_wrapped:
  assumes "is_marker m" "body \<noteq> []" "line_start body" "line_end body"
  shows "occs m (BEGIN_MARKER @ body @ END_MARKER) =
    occs m BEGIN_MARKER @ map ((+) (length BEGIN_MARKER)) (occs m body @ map ((+) (length body)) (occs m END_MARKER))"
proof -
  have "line_start (body @ END_MARKER)" using assms(2,3) by (auto simp: line_start_def prefix_append)
  thus ?thesis using occs_before_line [OF assms(1), of "body @ END_MARKER"] occs_after_line [OF assms(1,4)] by simp
qed

lemma is_block_wrapped: "block_body body \<Longrightarrow> is_block (BEGIN_MARKER @ body @ END_MARKER)"
proof -
  assume "block_body body"
  hence b: "body \<noteq> []" "line_start body" "line_end body" "no_markers body" by (simp_all add: block_body_def)
  have "line_start (body @ END_MARKER)" using b(1,2) by (auto simp: line_start_def prefix_append)
  moreover have "line_end (BEGIN_MARKER @ body)" using b(1,3) by (simp add: line_end_def)
  ultimately show ?thesis using occs_wrapped [OF is_marker_markers(1) b(1-3)] occs_wrapped [OF is_marker_markers(2) b(1-3)] b(1,4)
    by (simp add: is_block_def validateMarkers_Some_iff marker_occs no_markers_def line_end_def line_start_def)
qed

lemma is_block_body:
  assumes "is_block b"
  obtains body where "b = BEGIN_MARKER @ body @ END_MARKER" "block_body body"
proof -
  obtain e where e: "occs BEGIN_MARKER b = [0]" "occs END_MARKER b = [e]" "0 < e" "length b = e + length END_MARKER"
    "line_start (drop (length BEGIN_MARKER) b)" "line_end (take e b)"
    using assms by (auto simp: is_block_def validateMarkers_Some_iff)
  have at: "prefix BEGIN_MARKER (drop 0 b)" "prefix END_MARKER (drop e b)"
    using occs_bound [of 0 BEGIN_MARKER b] occs_bound [of e END_MARKER b] e(1,2) by simp_all
  have be: "length BEGIN_MARKER \<le> e"
    using end_after_begin [OF at e(3)] by simp
  define M where "M = slice b (length BEGIN_MARKER) e"
  have "take (length BEGIN_MARKER) b = BEGIN_MARKER" using at(1) by (auto simp: prefix_def)
  moreover have "length (drop e b) = length END_MARKER" using e(4) by simp
  hence "drop e b = END_MARKER" using at(2) by (metis append_eq_append_conv append_Nil2 prefix_def)
  ultimately have tk: "take (length BEGIN_MARKER) b = BEGIN_MARKER" "drop e b = END_MARKER" by simp_all
  have te: "take e b = BEGIN_MARKER @ M"
    using be tk(1) by (simp add: M_def slice_def) (metis append_take_drop_id le_add_diff_inverse take_add)
  hence b: "b = BEGIN_MARKER @ M @ END_MARKER" using tk(2) by (metis append_assoc append_take_drop_id)
  have ls: "line_start (M @ END_MARKER)" using e(5) by (simp add: b)
  hence M: "M \<noteq> []" "line_start M"
    by (cases M; cases "tl M"; auto simp: line_start_def END_MARKER_def)+
  have le: "line_end M" using e(6) te M(1) by (simp add: line_end_def)
  have "no_markers M"
    using e(1,2) b occs_wrapped [OF is_marker_markers(1) M le] occs_wrapped [OF is_marker_markers(2) M le]
    by (simp add: no_markers_def marker_occs)
  thus thesis using that b M le by (simp add: block_body_def)
qed

section \<open>Line endings\<close>

definition is_newline :: "string \<Rightarrow> bool" where
  "is_newline nl = (nl = [LF] \<or> nl = [CR, LF])"

lemma newlineFor_newline [simp]: "is_newline (newlineFor c)"
  by (simp add: newlineFor_def is_newline_def)

lemma crlf_to_lf_id: "CR \<notin> set s \<Longrightarrow> crlf_to_lf s = s"
  by (induction s rule: crlf_to_lf.induct) auto

lemma lf_to_append [simp]: "lf_to nl (a @ b) = lf_to nl a @ lf_to nl b"
  by (simp add: lf_to_def)

lemma lf_to_no_LF: "LF \<notin> set s \<Longrightarrow> lf_to nl s = s"
  by (induction s) (auto simp: lf_to_def)

lemma lf_to_LF [simp]: "lf_to [LF] s = s"
  by (induction s) (auto simp: lf_to_def)

lemma lf_to_Nil_iff: "is_newline nl \<Longrightarrow> lf_to nl s = [] \<longleftrightarrow> s = []"
  by (cases s) (auto simp: lf_to_def is_newline_def)

lemma filter_lf_to: "is_newline nl \<Longrightarrow> CR \<notin> set s \<Longrightarrow> filter (\<lambda>c. c \<noteq> CR) (lf_to nl s) = s"
  by (induction s) (auto simp: lf_to_def is_newline_def)

lemma no_markers_lf_to:
  assumes "is_newline nl" "CR \<notin> set s" "no_markers s"
  shows "no_markers (lf_to nl s)"
proof -
  have "\<not> sublist m (lf_to nl s)" if m: "is_marker m" "\<not> sublist m s" for m
  proof
    assume "sublist m (lf_to nl s)"
    then obtain u v where uv: "lf_to nl s = u @ m @ v" by (auto simp: sublist_def)
    have "filter (\<lambda>c. c \<noteq> CR) m = m" using m(1) by (auto simp: is_marker_def intro: filter_True)
    hence "s = filter (\<lambda>c. c \<noteq> CR) u @ m @ filter (\<lambda>c. c \<noteq> CR) v"
      using filter_lf_to [OF assms(1,2)] uv by simp
    thus False using m(2) by (metis sublist_def)
  qed
  thus ?thesis using assms(3) is_marker_markers by (simp add: no_markers_def occs_Nil_iff is_marker_def)
qed

lemma block_body_lf_to:
  assumes "is_newline nl" "CR \<notin> set s" "block_body s"
  shows "block_body (lf_to nl s)"
proof -
  have b: "s \<noteq> []" "line_start s" "line_end s" "no_markers s" using assms(3) by (simp_all add: block_body_def)
  have "prefix [LF] s" using b(1,2) assms(2) by (auto simp: line_start_def prefix_def)
  hence "line_start (lf_to nl s)" using assms(1)
    by (auto simp: prefix_def line_start_def is_newline_def lf_to_def)
  moreover have "line_end (lf_to nl s)" using b(1,3) assms(1)
    by (cases s rule: rev_cases) (auto simp: line_end_def is_newline_def lf_to_def)
  ultimately show ?thesis using b(1) no_markers_lf_to [OF assms(1,2) b(4)] assms(1)
    by (simp add: block_body_def lf_to_Nil_iff)
qed

lemma is_block_normalize:
  assumes "is_block b" "CR \<notin> set b" "is_newline nl"
  shows "is_block (normalizeBlock b nl)"
proof -
  obtain body where b: "b = BEGIN_MARKER @ body @ END_MARKER" "block_body body" by (rule is_block_body [OF assms(1)])
  have "lf_to nl BEGIN_MARKER = BEGIN_MARKER" "lf_to nl END_MARKER = END_MARKER"
    by (rule lf_to_no_LF, simp add: BEGIN_MARKER_def END_MARKER_def)+
  thus ?thesis using is_block_wrapped [OF block_body_lf_to [OF assms(3) _ b(2)]] assms(2) b(1)
    by (simp add: normalizeBlock_def crlf_to_lf_id)
qed

lemma newlineFor_eq: "newlineFor c = (if sublist [CR, LF] c then [CR, LF] else [LF])"
  by (auto simp: newlineFor_def search_literal sublist_def)

lemma no_crlf_append:
  "\<not> sublist [CR, LF] a \<Longrightarrow> \<not> sublist [CR, LF] b \<Longrightarrow> \<not> (suffix [CR] a \<and> prefix [LF] b) \<Longrightarrow> \<not> sublist [CR, LF] (a @ b)"
  by (auto simp: sublist_append Cons_eq_append_conv dest: prefix_imp_sublist suffix_imp_sublist)

lemma block_ends:
  assumes "is_block b"
  shows "\<not> prefix [LF] b" "\<not> suffix [CR] b" "LF \<in> set b \<or> CR \<in> set b"
proof -
  obtain body where b: "b = BEGIN_MARKER @ body @ END_MARKER" "block_body body" by (rule is_block_body [OF assms])
  show "\<not> prefix [LF] b" by (simp add: b(1) BEGIN_MARKER_def)
  show "\<not> suffix [CR] b" by (simp add: b(1) END_MARKER_def suffix_def) 
  show "LF \<in> set b \<or> CR \<in> set b" using b by (auto simp: block_body_def line_start_def prefix_def)
qed

section \<open>User text\<close>

text \<open>The text before and after the block that an upsert keeps.\<close>

definition kept_text :: "string \<Rightarrow> string \<times> string" where
  "kept_text existing =
     (case validateMarkers existing of
        Inr (Some (a, b)) \<Rightarrow> (take a existing, drop b existing)
      | _ \<Rightarrow> (if existing = [] then [] else existing @ separator_for existing, []))"

lemma separator_line:
  "no_markers (separator_for c)" "line_start (separator_for c)" "line_end (p @ separator_for c)"
proof -
  have "no_markers [LF, LF]" "no_markers [LF, LF, LF]" "no_markers [CR, LF, CR, LF]" "no_markers [CR, LF, CR, LF, CR, LF]"
    by code_simp+
  thus "no_markers (separator_for c)" by (auto simp: separator_for_def newlineFor_def Let_def)
qed (auto simp: separator_for_def newlineFor_def Let_def line_start_def line_end_def)

lemma region_split:
  assumes "validateMarkers existing = Inr (Some (a, b))"
  shows "existing = take a existing @ slice existing a b @ drop b existing" and "length (take a existing) = a"
proof -
  have "a \<le> b" "b \<le> length existing" using markers_framed [OF assms] by simp_all
  then show "existing = take a existing @ slice existing a b @ drop b existing" "length (take a existing) = a"
    by (simp_all add: slice_def) (metis append_take_drop_id drop_drop le_add_diff_inverse2)
qed

lemma upsert_framed:
  assumes "is_block block" "CR \<notin> set block" "upsertManagedBlock existing block = Inr r"
    "kept_text existing = (before, behind)"
  shows "framed before (normalizeBlock block (newlineFor existing)) behind"
    and "mb_content r = before @ normalizeBlock block (newlineFor existing) @ behind"
proof -
  define nb where "nb = normalizeBlock block (newlineFor existing)"
  have nb: "is_block nb" using is_block_normalize [OF assms(1,2) newlineFor_newline] by (simp add: nb_def)
  obtain ms where ms: "validateMarkers existing = Inr ms"
    using assms(3) by (auto simp: upsertManagedBlock_def rbind_eq_Inr)
  show "framed before (normalizeBlock block (newlineFor existing)) behind"
  proof (cases ms)
    case None
    hence "no_markers existing" using ms by (simp add: validateMarkers_None_iff)
    hence "no_markers before"
      using assms(4) ms None separator_line no_markers_append [of existing "separator_for existing"]
      by (auto simp: kept_text_def split: if_splits)
    thus ?thesis using assms(4) ms None nb separator_line(3)
      by (auto simp: kept_text_def framed_def nb_def line_end_def line_start_def no_markers_def occs_def split: if_splits)
  next
    case (Some m)
    thus ?thesis using markers_framed [of existing "fst m" "snd m"] ms assms(4) nb
      by (cases m) (simp add: kept_text_def framed_def nb_def)
  qed
  show "mb_content r = before @ normalizeBlock block (newlineFor existing) @ behind"
  proof (cases ms)
    case None
    thus ?thesis using assms(3,4) ms by (auto simp: upsertManagedBlock_def kept_text_def Let_def split: if_splits)
  next
    case (Some m)
    obtain a b where ab: "m = (a, b)" by (cases m)
    have "existing = take a existing @ slice existing a b @ drop b existing"
      by (rule region_split(1)) (simp add: ms Some ab)
    thus ?thesis using assms(3,4) ms Some ab
      by (auto simp: upsertManagedBlock_def kept_text_def Let_def split: if_splits)
  qed
qed

lemma framed_newline:
  assumes "is_block block" "CR \<notin> set block" "kept_text existing = (before, behind)"
    "validateMarkers existing = Inr ms" "ms = None \<Longrightarrow> \<not> suffix [CR] existing"
  shows "newlineFor (before @ normalizeBlock block (newlineFor existing) @ behind) = newlineFor existing"
proof (cases "sublist [CR, LF] existing")
  case True
  have "LF \<in> set block" using block_ends(3) [OF assms(1)] assms(2) by simp
  then obtain u v where "block = u @ LF # v" by (auto simp: in_set_conv_decomp)
  hence "sublist [CR, LF] (normalizeBlock block [CR, LF])"
    using assms(2) by (simp add: normalizeBlock_def crlf_to_lf_id lf_to_def sublist_def) blast
  thus ?thesis using True by (simp add: newlineFor_eq sublist_append)
next
  case False
  have nb: "normalizeBlock block [LF] = block" using assms(2) by (simp add: normalizeBlock_def crlf_to_lf_id)
  have b: "\<not> sublist [CR, LF] block" using assms(2) by (auto simp: sublist_def)
  have parts: "\<not> sublist [CR, LF] (take a existing)" "\<not> sublist [CR, LF] (drop a existing)" for a
    using False by (meson sublist_order.order.trans sublist_take sublist_drop)+
  have "\<not> sublist [CR, LF] before \<and> \<not> sublist [CR, LF] behind"
  proof (cases ms)
    case None
    have "\<not> sublist [CR, LF] (separator_for existing)"
      using False by (auto simp: separator_for_def newlineFor_eq Let_def sublist_def Cons_eq_append_conv)
    thus ?thesis using None assms(3-5) False no_crlf_append [of existing "separator_for existing"]
      by (auto simp: kept_text_def split: if_splits)
  next
    case (Some m)
    thus ?thesis using assms(3,4) parts by (cases m) (auto simp: kept_text_def)
  qed
  moreover from this have "\<not> sublist [CR, LF] (block @ behind)"
    using no_crlf_append [of block behind] b block_ends(2) [OF assms(1)] by simp
  moreover have "\<not> prefix [LF] (block @ behind)" using block_ends(1,3) [OF assms(1)] by (cases block) auto
  ultimately have "\<not> sublist [CR, LF] (before @ block @ behind)"
    using no_crlf_append [of before "block @ behind"] by simp
  thus ?thesis using False by (simp add: newlineFor_eq nb)
qed

lemma framed_slice: "slice (p @ b @ s) (length p) (length p + length b) = b"
  by (simp add: slice_def)

text \<open>A rebased file reads back as the region it reports, which has the digest of the wanted one.\<close>

lemma rebaseManagedRegion_reads:
  assumes "rebaseManagedRegion base latest desired read write = Inr r"
  shows "read (rb_content r) = Inr (rb_region r)"
    and "\<exists>c g. write latest desired = Inr c \<and> read c = Inr g \<and> rg_digest (rb_region r) = rg_digest g"
  using assms by (auto simp: rebaseManagedRegion_def rbind_eq_Inr split: if_splits)

section \<open>Properties\<close>

lemma upsert_facts:
  assumes "is_block block" "CR \<notin> set block" "upsertManagedBlock existing block = Inr r"
    "kept_text existing = (before, behind)"
  shows "mb_content r = before @ normalizeBlock block (newlineFor existing) @ behind"
    and "readManagedBlockRegion (mb_content r) =
      Inr (Some \<lparr>br_content = normalizeBlock block (newlineFor existing), br_start = length before,
                 br_end = length before + length (normalizeBlock block (newlineFor existing))\<rparr>)"
    and "removeManagedBlock (mb_content r) =
      Inr (if before @ behind = [] then \<lparr>rm_content = None, rm_action = deleted\<rparr>
           else \<lparr>rm_content = Some (before @ behind), rm_action = removed\<rparr>)"
proof -
  note f = framed_markers [OF upsert_framed(1) [OF assms]] upsert_framed(2) [OF assms]
  show "mb_content r = before @ normalizeBlock block (newlineFor existing) @ behind" by (rule f(2))
  show "readManagedBlockRegion (mb_content r) =
      Inr (Some \<lparr>br_content = normalizeBlock block (newlineFor existing), br_start = length before,
                 br_end = length before + length (normalizeBlock block (newlineFor existing))\<rparr>)"
    by (simp add: readManagedBlockRegion_def f framed_slice)
  show "removeManagedBlock (mb_content r) =
      Inr (if before @ behind = [] then \<lparr>rm_content = None, rm_action = deleted\<rparr>
           else \<lparr>rm_content = Some (before @ behind), rm_action = removed\<rparr>)"
    by (simp add: removeManagedBlock_def f Let_def)
qed

text \<open>
  C25: Upserting a block (one written with line feeds only) into a file keeps the user's text.  When the
  file had a managed region, all text before and after the region stays as it is; when it had none, all
  of the file stays, followed by a separator of line ends.  Between them stands exactly the block in the
  file's line endings: reading the region back gives the block, and removing it leaves exactly the
  text around it, which after a first append is the user's file with the separator at its end.
\<close>

theorem upsert_keeps_user_text:
  assumes "is_block block" "CR \<notin> set block" "upsertManagedBlock existing block = Inr r"
  shows "\<exists>before behind.
    (case validateMarkers existing of
       Inl e \<Rightarrow> False
     | Inr None \<Rightarrow> behind = [] \<and> set (separator_for existing) \<subseteq> {CR, LF}
         \<and> before = (if existing = [] then [] else existing @ separator_for existing)
     | Inr (Some (a, b)) \<Rightarrow> existing = before @ slice existing a b @ behind \<and> length before = a)
    \<and> mb_content r = before @ normalizeBlock block (newlineFor existing) @ behind
    \<and> readManagedBlockRegion (mb_content r) =
      Inr (Some \<lparr>br_content = normalizeBlock block (newlineFor existing), br_start = length before,
                 br_end = length before + length (normalizeBlock block (newlineFor existing))\<rparr>)
    \<and> removeManagedBlock (mb_content r) =
      Inr (if before @ behind = [] then \<lparr>rm_content = None, rm_action = deleted\<rparr>
           else \<lparr>rm_content = Some (before @ behind), rm_action = removed\<rparr>)"
proof -
  obtain before behind where k: "kept_text existing = (before, behind)" by (cases "kept_text existing")
  obtain ms where ms: "validateMarkers existing = Inr ms"
    using assms(3) by (auto simp: upsertManagedBlock_def rbind_eq_Inr)
  have "case ms of
      None \<Rightarrow> behind = [] \<and> set (separator_for existing) \<subseteq> {CR, LF}
        \<and> before = (if existing = [] then [] else existing @ separator_for existing)
    | Some (a, b) \<Rightarrow> existing = before @ slice existing a b @ behind \<and> length before = a"
  proof (cases ms)
    case None
    then show ?thesis using k ms by (auto simp: kept_text_def separator_for_def newlineFor_def Let_def)
  next
    case (Some m)
    then show ?thesis using k ms region_split by (cases m) (auto simp: kept_text_def)
  qed
  then show ?thesis
    using upsert_facts [OF assms k] ms by (intro exI [of _ before] exI [of _ behind] conjI) (auto split: option.splits)
qed

definition sample_block :: string where
  "sample_block = BEGIN_MARKER @ [LF] @ ''<!-- kiokuko-ai-template-version: 29 -->'' @ [LF] @ END_MARKER"

definition sample_agents :: string where
  "sample_agents = ''# Rules'' @ [CR, LF] @ BEGIN_MARKER @ [CR, LF] @ END_MARKER @ [CR, LF] @ ''- be kind''"

lemma sample_block_ok: "is_block sample_block" "CR \<notin> set sample_block"
  by code_simp+

lemma same_region: "c = p @ m @ q \<Longrightarrow> c = p' @ m @ q' \<Longrightarrow> length p = length p' \<Longrightarrow> p = p' \<and> q = q'"
  by simp

lemma upsert_keeps_user_text_witness:
  "(case upsertManagedBlock sample_agents sample_block of
      Inl e \<Rightarrow> False
    | Inr r \<Rightarrow> removeManagedBlock (mb_content r) =
        Inr \<lparr>rm_content = Some (''# Rules'' @ [CR, LF] @ [CR, LF] @ ''- be kind''), rm_action = removed\<rparr>)"
proof -
  let ?b = "''# Rules'' @ [CR, LF]" and ?e = "[CR, LF] @ ''- be kind''"
  have m: "validateMarkers sample_agents = Inr (Some (9, 9 + (length BEGIN_MARKER + 2 + length END_MARKER)))" by code_simp
  have s: "sample_agents = ?b @ slice sample_agents 9 (9 + (length BEGIN_MARKER + 2 + length END_MARKER)) @ ?e" by code_simp
  have u: "upsertManagedBlock sample_agents sample_block =
      Inr \<lparr>mb_content = ''# Rules'' @ [CR, LF] @ normalizeBlock sample_block [CR, LF] @ [CR, LF] @ ''- be kind'',
           mb_action = updated, mb_state = balanced\<rparr>" by code_simp
  from upsert_keeps_user_text [OF sample_block_ok u] m obtain p q where
    pq: "sample_agents = p @ slice sample_agents 9 (9 + (length BEGIN_MARKER + 2 + length END_MARKER)) @ q" "length p = 9"
    and r: "removeManagedBlock (''# Rules'' @ [CR, LF] @ normalizeBlock sample_block [CR, LF] @ [CR, LF] @ ''- be kind'') =
      Inr (if p @ q = [] then \<lparr>rm_content = None, rm_action = deleted\<rparr>
           else \<lparr>rm_content = Some (p @ q), rm_action = removed\<rparr>)" by auto
  have "p = ?b \<and> q = ?e" by (rule same_region [OF pq(1) s]) (simp add: pq(2))
  then show ?thesis using r u by simp
qed

text \<open>
  A second run changes nothing: upserting the same block into the result of an upsert returns the
  file as it is, unless the block was appended to a file that ends in a bare carriage return.
\<close>

theorem upsert_idempotent:
  assumes "is_block block" "CR \<notin> set block" "upsertManagedBlock existing block = Inr r"
    "suffix [CR] existing \<Longrightarrow> validateMarkers existing \<noteq> Inr None"
  shows "upsertManagedBlock (mb_content r) block =
    Inr \<lparr>mb_content = mb_content r, mb_action = unchanged, mb_state = balanced\<rparr>"
proof -
  obtain before behind where k: "kept_text existing = (before, behind)" by (cases "kept_text existing")
  obtain ms where ms: "validateMarkers existing = Inr ms"
    using assms(3) by (auto simp: upsertManagedBlock_def rbind_eq_Inr)
  note f = upsert_framed [OF assms(1-3) k]
  have "newlineFor (mb_content r) = newlineFor existing"
    unfolding f(2) using ms assms(4) by (intro framed_newline [OF assms(1,2) k ms]) auto
  thus ?thesis using framed_markers [OF f(1)] f(2)
    by (simp add: upsertManagedBlock_def Let_def framed_slice)
qed

lemma upsert_idempotent_witness:
  "upsertManagedBlock ''# Rules'' sample_block \<noteq> Inl malformed_markers
   \<and> rbind (upsertManagedBlock ''# Rules'' sample_block) (\<lambda>r. upsertManagedBlock (mb_content r) sample_block) =
     Inr \<lparr>mb_content = ''# Rules'' @ [LF, LF, LF] @ sample_block, mb_action = unchanged, mb_state = balanced\<rparr>"
proof -
  have u: "upsertManagedBlock ''# Rules'' sample_block =
      Inr \<lparr>mb_content = ''# Rules'' @ [LF, LF, LF] @ sample_block, mb_action = created, mb_state = absent\<rparr>"
    by code_simp
  have "\<not> suffix [CR] ''# Rules''" by code_simp
  thus ?thesis using upsert_idempotent [OF sample_block_ok u] u by simp
qed

text \<open>
  The exception is real: a file that ends in a carriage return without a line feed gets a separator
  that turns the ending into the Windows one, and the next run rewrites the block.
\<close>

lemma upsert_after_carriage_return:
  "rbind (upsertManagedBlock [CHR ''x'', CR] sample_block)
     (\<lambda>r. map_sum id mb_action (upsertManagedBlock (mb_content r) sample_block)) = Inr updated"
  by code_simp

lemma rebase_facts:
  assumes "is_block block" "CR \<notin> set block" "rebaseManagedBlock digest base latest block = Inr r"
    "readManagedBlockRegion base = Inr baseRegion" "readManagedBlockRegion latest = Inr latestRegion"
    "kept_text latest = (before, behind)"
    "inj_on digest {region_text baseRegion, region_text latestRegion, normalizeBlock block (newlineFor latest)}"
  shows "mb_content r = before @ normalizeBlock block (newlineFor latest) @ behind"
    and "region_text latestRegion = region_text baseRegion
         \<or> region_text latestRegion = normalizeBlock block (newlineFor latest) \<and> mb_content r = latest"
proof -
  obtain d where d: "upsertManagedBlock latest block = Inr d"
    using assms(3) by (auto simp: rebaseManagedBlock_def rbind_eq_Inr)
  note u = upsert_facts [OF assms(1,2) d assms(6)]
  have rt: "region_text latestRegion = normalizeBlock block (newlineFor latest) \<Longrightarrow> mb_content d = latest"
  proof -
    assume eq: "region_text latestRegion = normalizeBlock block (newlineFor latest)"
    have "normalizeBlock block (newlineFor latest) \<noteq> []"
      using is_block_normalize [OF assms(1,2) newlineFor_newline [of latest]] block_ends(3) by force
    then obtain a b where "validateMarkers latest = Inr (Some (a, b))" "slice latest a b = normalizeBlock block (newlineFor latest)"
      using assms(5) eq by (auto simp: readManagedBlockRegion_def region_text_def rbind_eq_Inr split: option.splits)
    thus ?thesis using d by (simp add: upsertManagedBlock_def Let_def) auto
  qed
  have c: "digest (region_text latestRegion) = digest (normalizeBlock block (newlineFor latest)) \<and> mb_content r = latest
      \<or> digest (region_text latestRegion) = digest (region_text baseRegion) \<and> r = d"
    using assms(3-5) d u(2) by (auto simp: rebaseManagedBlock_def region_text_def Let_def split: if_splits)
  hence e: "region_text latestRegion = normalizeBlock block (newlineFor latest) \<and> mb_content r = latest
      \<or> region_text latestRegion = region_text baseRegion \<and> r = d"
    using inj_on_eq_iff [OF assms(7), of "region_text latestRegion"] by simp
  show "mb_content r = before @ normalizeBlock block (newlineFor latest) @ behind" using e rt u(1) by auto
  show "region_text latestRegion = region_text baseRegion
         \<or> region_text latestRegion = normalizeBlock block (newlineFor latest) \<and> mb_content r = latest" using e by blast
qed

text \<open>
  A rebase onto the latest file keeps the user's text of the latest file around the new block, and
  succeeds only when the latest managed region is the one the change was planned on or already the
  wanted one; with a digest that separates these three texts a concurrent change of the region is a
  conflict.
\<close>

theorem rebase_keeps_latest:
  assumes "is_block block" "CR \<notin> set block" "rebaseManagedBlock digest base latest block = Inr r"
    "readManagedBlockRegion base = Inr baseRegion" "readManagedBlockRegion latest = Inr latestRegion"
    "kept_text latest = (before, behind)"
    "inj_on digest {region_text baseRegion, region_text latestRegion, normalizeBlock block (newlineFor latest)}"
  shows "mb_content r = before @ normalizeBlock block (newlineFor latest) @ behind
    \<and> (region_text latestRegion = region_text baseRegion
       \<or> region_text latestRegion = normalizeBlock block (newlineFor latest) \<and> mb_content r = latest)"
  by (intro conjI rebase_facts [OF assms])

lemma rebase_keeps_latest_witness:
  "map_sum id mb_content (rebaseManagedBlock id (''# Rule'' @ [CR, LF] @ drop 9 sample_agents) sample_agents sample_block) =
     Inr (''# Rules'' @ [CR, LF] @ normalizeBlock sample_block [CR, LF] @ [CR, LF] @ ''- be kind'')"
  (is "map_sum id mb_content (rebaseManagedBlock id ?base _ _) = Inr ?content")
proof -
  have k: "kept_text sample_agents = (''# Rules'' @ [CR, LF], [CR, LF] @ ''- be kind'')"
    and n: "newlineFor sample_agents = [CR, LF]" by code_simp+
  obtain b where b: "readManagedBlockRegion ?base = Inr b" by (cases "readManagedBlockRegion ?base") (simp, code_simp)
  obtain l where l: "readManagedBlockRegion sample_agents = Inr l" by (cases "readManagedBlockRegion sample_agents") (simp, code_simp)
  obtain r where r: "rebaseManagedBlock id ?base sample_agents sample_block = Inr r"
    by (cases "rebaseManagedBlock id ?base sample_agents sample_block") (simp, code_simp)
  have "inj_on id {region_text b, region_text l, normalizeBlock sample_block (newlineFor sample_agents)}" by simp
  from rebase_keeps_latest [OF sample_block_ok r b l k this, THEN conjunct1] r n show ?thesis by simp
qed

end
