(* ===== verification/Db_Operation.thy ===== *)
theory Db_Operation
  imports Sqlite_Tx
begin

text \<open>
  Sequencing of operations on a database: an operation either continues with its result on the new
  state or stops with the error, leaving the state as it is (the enclosing transaction rolls back).
\<close>

definition oreturn :: "'a \<Rightarrow> ('d, 'a) operation" where
  "oreturn x d = (Inr x, d)"

definition ofail :: "js_error \<Rightarrow> ('d, 'a) operation" where
  "ofail e d = (Inl e, d)"

definition oread :: "('d \<Rightarrow> 'a result) \<Rightarrow> ('d, 'a) operation" where
  "oread f d = (f d, d)"

definition ocheck :: "bool \<Rightarrow> js_error \<Rightarrow> ('d, unit) operation" where
  "ocheck b e d = (check b e, d)"

definition obind :: "('d, 'a) operation \<Rightarrow> ('a \<Rightarrow> ('d, 'b) operation) \<Rightarrow> ('d, 'b) operation" where
  "obind m f d = (case m d of (Inl e, d') \<Rightarrow> (Inl e, d') | (Inr x, d') \<Rightarrow> f x d')"

lemma oreturn_Inr [simp, result_inv]: "oreturn x d = (Inr y, d') \<longleftrightarrow> y = x \<and> d' = d"
  by (auto simp: oreturn_def)

lemma ofail_Inr [simp, result_inv]: "ofail e d = (Inr y, d') \<longleftrightarrow> False"
  by (simp add: ofail_def)

lemma oread_Inr [simp, result_inv]: "oread f d = (Inr y, d') \<longleftrightarrow> f d = Inr y \<and> d' = d"
  by (auto simp: oread_def)

lemma ocheck_Inr [simp, result_inv]: "ocheck b e d = (Inr u, d') \<longleftrightarrow> b \<and> d' = d"
  by (auto simp: ocheck_def)

lemma obind_Inr [result_inv]:
  "obind m f d = (Inr y, d'') \<longleftrightarrow> (\<exists>x d'. m d = (Inr x, d') \<and> f x d' = (Inr y, d''))"
  by (auto simp: obind_def split: prod.splits sum.splits)

lemma obind_cong [fundef_cong]:
  "m d = n d \<Longrightarrow> (\<And>x d'. n d = (Inr x, d') \<Longrightarrow> f x d' = g x d') \<Longrightarrow> obind m f d = obind n g d"
  by (auto simp: obind_def split: prod.splits sum.splits)

text \<open>An effect for every element of a list, in order.\<close>

fun oforeach :: "('a \<Rightarrow> ('d, unit) operation) \<Rightarrow> 'a list \<Rightarrow> ('d, unit) operation" where
  "oforeach f [] = oreturn ()"
| "oforeach f (x # xs) = obind (f x) (\<lambda>_. oforeach f xs)"

text \<open>Every state a property holds of is kept by an operation.\<close>

definition okeeps :: "('d \<Rightarrow> bool) \<Rightarrow> ('d, 'a) operation \<Rightarrow> bool" where
  "okeeps P m = (\<forall>d x d'. P d \<longrightarrow> m d = (Inr x, d') \<longrightarrow> P d')"

lemma okeepsD: "okeeps P m \<Longrightarrow> m d = (Inr x, d') \<Longrightarrow> P d \<Longrightarrow> P d'"
  by (simp add: okeeps_def)

lemma okeeps_obind: "okeeps P m \<Longrightarrow> (\<And>x. okeeps P (f x)) \<Longrightarrow> okeeps P (obind m f)"
  unfolding okeeps_def obind_Inr by blast

lemma okeeps_oforeach:
  assumes "\<And>x. okeeps P (f x)"
  shows "okeeps P (oforeach f xs)"
proof (induction xs)
  case (Cons x xs)
  show ?case unfolding oforeach.simps by (rule okeeps_obind [OF assms Cons.IH])
qed (simp add: okeeps_def)

end
