(* ===== verification/Structured_Scope.thy ===== *)
theory Structured_Scope
  imports Secrets Record_Validate Js_Text
begin

text \<open>
  The structured scope of a memory, \<open>src/src/memory/structured-memory.ts\<close>, and its normalization before
  it is stored, \<open>normalizeStructuredScopeInput\<close> of \<open>src/src/memory/revisions.ts\<close>. The argument \<open>nfkc\<close>
  is \<open>String.prototype.normalize('NFKC')\<close>.
\<close>

section \<open>Vocabulary\<close>

definition MEMORY_CLASSES :: "string list" where
  "MEMORY_CLASSES = [''implementation-pattern'', ''troubleshooting'', ''tool-usage'', ''extension-usage'',
     ''configuration'', ''workflow'', ''gotcha'', ''reference'', ''preference'']"

definition RETRIEVAL_SCOPES :: "string list" where
  "RETRIEVAL_SCOPES = [''project-only'', ''ecosystem'', ''global'']"

definition APPLICABILITY_FIELDS :: "string list" where
  "APPLICABILITY_FIELDS = [''languages'', ''frameworks'', ''databases'', ''runtimes'', ''tools'', ''platforms'']"

definition SIGNAL_FIELDS :: "string list" where
  "SIGNAL_FIELDS = [''symbols'', ''paths'', ''errors'', ''packages'', ''commands'']"

fun is_text_among :: "string list \<Rightarrow> jsvalue \<Rightarrow> bool" where
  "is_text_among allowed (VStr s) = (s \<in> set allowed)"
| "is_text_among allowed v = False"

text \<open>The retrieval policy of a stored scope.\<close>

definition effectiveRetrievalScope :: "fields \<Rightarrow> string result" where
  "effectiveRetrievalScope scope =
     (case getp scope ''retrievalScope'' of
        VUndefined \<Rightarrow> Inr (if getp scope ''visibility'' = VStr ''global'' then ''global'' else ''project-only'')
      | v \<Rightarrow> rbind (check (is_text_among RETRIEVAL_SCOPES v)
               (KiokukoError INTEGRITY_ERROR ''Stored retrieval scope is invalid'')) (\<lambda>_.
             as_string (KiokukoError INTEGRITY_ERROR ''Stored retrieval scope is invalid'') v))"

fun array_length :: "jsvalue \<Rightarrow> nat option" where
  "array_length (VArr xs) = Some (length xs)"
| "array_length v = None"

definition hasExplicitApplicability :: "fields \<Rightarrow> bool" where
  "hasExplicitApplicability scope =
     (case getp scope ''applicability'' of
        VObj fs \<Rightarrow>
          list_all (\<lambda>f. fst f \<in> set APPLICABILITY_FIELDS \<and> array_length (snd f) \<noteq> None) fs
          \<and> list_ex (\<lambda>f. array_length (snd f) \<noteq> Some 0) fs
      | _ \<Rightarrow> False)"

section \<open>Cleaning\<close>

definition invalid_metadata :: js_error where
  "invalid_metadata = KiokukoError VALIDATION_ERROR ''Structured memory metadata is invalid''"

definition metadata_secret :: js_error where
  "metadata_secret =
     KiokukoError SECURITY_REJECTION ''Structured memory metadata resembles a secret and was not stored''"

definition is_ascii_control :: "char \<Rightarrow> bool" where
  "is_ascii_control c = ((of_char c :: int) < 32 \<or> (of_char c :: int) = 127)"

definition clean_text_ok :: "int \<Rightarrow> string \<Rightarrow> bool" where
  "clean_text_ok maximum s = (trim s \<noteq> [] \<and> int (length s) \<le> maximum \<and> \<not> list_ex is_ascii_control s)"

definition cleanString :: "(string \<Rightarrow> string) \<Rightarrow> int \<Rightarrow> jsvalue \<Rightarrow> string result" where
  "cleanString nfkc maximum v =
     rbind (as_string invalid_metadata v) (\<lambda>s.
     rbind (check (clean_text_ok maximum s) invalid_metadata) (\<lambda>_.
     rbind (check (findSecret s = None) metadata_secret) (\<lambda>_.
     Inr (trim (nfkc s)))))"

definition stringList :: "(string \<Rightarrow> string) \<Rightarrow> jsvalue \<Rightarrow> string list result" where
  "stringList nfkc v =
     rbind (as_array invalid_metadata v) (\<lambda>xs.
     rbind (check (length xs \<le> 100) invalid_metadata) (\<lambda>_.
     rbind (rtraverse (cleanString nfkc 500) xs) (\<lambda>ss.
     Inr (sort (js_set ss)))))"

definition optionalStringList :: "(string \<Rightarrow> string) \<Rightarrow> jsvalue \<Rightarrow> string list option result" where
  "optionalStringList nfkc v =
     (if v = VUndefined then Inr None else rbind (stringList nfkc v) (\<lambda>ss. Inr (Some ss)))"

definition is_slash :: "char \<Rightarrow> bool" where
  "is_slash c = (c = CHR ''/'' \<or> c = CHR 0x5C)"

fun split_slashes :: "string \<Rightarrow> string list" where
  "split_slashes [] = [[]]"
| "split_slashes (c # s) =
     (if is_slash c then [] # split_slashes s
      else case split_slashes s of [] \<Rightarrow> [[c]] | p # ps \<Rightarrow> (c # p) # ps)"

definition has_drive_prefix :: "string \<Rightarrow> bool" where
  "has_drive_prefix s =
     match_here [\<lambda>c. CHR ''A'' \<le> c \<and> c \<le> CHR ''Z'' \<or> CHR ''a'' \<le> c \<and> c \<le> CHR ''z'', \<lambda>c. c = CHR '':'', is_slash] s"

definition validateRelativePath :: "string \<Rightarrow> string result" where
  "validateRelativePath s =
     rbind (check (\<not> (prefix ''/'' s \<or> has_drive_prefix s \<or> ''..'' \<in> set (split_slashes s))) invalid_metadata) (\<lambda>_.
     Inr (map (\<lambda>c. if c = CHR 0x5C then CHR ''/'' else c) s))"

section \<open>Applicability and signals\<close>

type_synonym framework = "string \<times> string option"

definition framework_key :: "framework \<Rightarrow> string" where
  "framework_key f = fst f @ [CHR 0x00] @ (case snd f of None \<Rightarrow> [] | Some v \<Rightarrow> v)"

definition clean_framework :: "(string \<Rightarrow> string) \<Rightarrow> jsvalue \<Rightarrow> framework result" where
  "clean_framework nfkc v =
     rbind (as_fields invalid_metadata v) (\<lambda>fs.
     rbind (check (keys_within fs [''name'', ''version'']) invalid_metadata) (\<lambda>_.
     rbind (cleanString nfkc 500 (getp fs ''name'')) (\<lambda>name.
     rbind (if getp fs ''version'' = VUndefined then Inr None
            else rbind (cleanString nfkc 100 (getp fs ''version'')) (\<lambda>s. Inr (Some s))) (\<lambda>version.
     Inr (name, version)))))"

text \<open>
  Cleaned frameworks contain no control character, so the key by which the map keeps one of each
  determines the framework.
\<close>

definition clean_frameworks :: "(string \<Rightarrow> string) \<Rightarrow> jsvalue \<Rightarrow> framework list result" where
  "clean_frameworks nfkc v =
     rbind (as_array invalid_metadata v) (\<lambda>xs.
     rbind (check (length xs \<le> 50) invalid_metadata) (\<lambda>_.
     rbind (rtraverse (clean_framework nfkc) xs) (\<lambda>fs.
     Inr (js_sort (\<lambda>l r. compareCanonicalStrings (framework_key l) (framework_key r)) (js_set fs)))))"

record applicability =
  ap_languages :: "string list option"
  ap_frameworks :: "framework list option"
  ap_databases :: "string list option"
  ap_runtimes :: "string list option"
  ap_tools :: "string list option"
  ap_platforms :: "string list option"

definition validateApplicability :: "(string \<Rightarrow> string) \<Rightarrow> jsvalue \<Rightarrow> applicability result" where
  "validateApplicability nfkc v =
     rbind (as_fields invalid_metadata v) (\<lambda>fs.
     rbind (check (keys_within fs APPLICABILITY_FIELDS) invalid_metadata) (\<lambda>_.
     rbind (if getp fs ''frameworks'' = VUndefined then Inr None
            else rbind (clean_frameworks nfkc (getp fs ''frameworks'')) (\<lambda>x. Inr (Some x))) (\<lambda>frameworks.
     rbind (optionalStringList nfkc (getp fs ''languages'')) (\<lambda>languages.
     rbind (optionalStringList nfkc (getp fs ''databases'')) (\<lambda>databases.
     rbind (optionalStringList nfkc (getp fs ''runtimes'')) (\<lambda>runtimes.
     rbind (optionalStringList nfkc (getp fs ''tools'')) (\<lambda>tools.
     rbind (optionalStringList nfkc (getp fs ''platforms'')) (\<lambda>platforms.
     Inr \<lparr>ap_languages = languages, ap_frameworks = frameworks, ap_databases = databases, ap_runtimes = runtimes,
          ap_tools = tools, ap_platforms = platforms\<rparr>))))))))"

definition texts_value :: "string list \<Rightarrow> jsvalue" where
  "texts_value ss = VArr (map VStr ss)"

definition framework_value :: "framework \<Rightarrow> jsvalue" where
  "framework_value f =
     VObj ((''name'', VStr (fst f)) # (case snd f of None \<Rightarrow> [] | Some v \<Rightarrow> [(''version'', VStr v)]))"

definition field_if :: "string \<Rightarrow> ('a \<Rightarrow> jsvalue) \<Rightarrow> 'a option \<Rightarrow> fields" where
  "field_if k f x = (case x of None \<Rightarrow> [] | Some y \<Rightarrow> [(k, f y)])"

definition applicability_fields :: "applicability \<Rightarrow> fields" where
  "applicability_fields a =
     field_if ''languages'' texts_value (ap_languages a)
     @ field_if ''frameworks'' (\<lambda>fs. VArr (map framework_value fs)) (ap_frameworks a)
     @ field_if ''databases'' texts_value (ap_databases a)
     @ field_if ''runtimes'' texts_value (ap_runtimes a)
     @ field_if ''tools'' texts_value (ap_tools a)
     @ field_if ''platforms'' texts_value (ap_platforms a)"

record memory_signals =
  sg_symbols :: "string list option"
  sg_paths :: "string list option"
  sg_errors :: "string list option"
  sg_packages :: "string list option"
  sg_commands :: "string list option"

definition relative_paths :: "(string \<Rightarrow> string) \<Rightarrow> jsvalue \<Rightarrow> string list option result" where
  "relative_paths nfkc v =
     (if v = VUndefined then Inr None
      else rbind (stringList nfkc v) (\<lambda>ss. rbind (rtraverse validateRelativePath ss) (\<lambda>ps. Inr (Some ps))))"

definition validateSignals :: "(string \<Rightarrow> string) \<Rightarrow> jsvalue \<Rightarrow> memory_signals result" where
  "validateSignals nfkc v =
     rbind (as_fields invalid_metadata v) (\<lambda>fs.
     rbind (check (keys_within fs SIGNAL_FIELDS) invalid_metadata) (\<lambda>_.
     rbind (relative_paths nfkc (getp fs ''paths'')) (\<lambda>paths.
     rbind (optionalStringList nfkc (getp fs ''symbols'')) (\<lambda>symbols.
     rbind (optionalStringList nfkc (getp fs ''errors'')) (\<lambda>errors.
     rbind (optionalStringList nfkc (getp fs ''packages'')) (\<lambda>packages.
     rbind (optionalStringList nfkc (getp fs ''commands'')) (\<lambda>commands.
     Inr \<lparr>sg_symbols = symbols, sg_paths = paths, sg_errors = errors, sg_packages = packages,
          sg_commands = commands\<rparr>)))))))"

definition signal_fields :: "memory_signals \<Rightarrow> fields" where
  "signal_fields s =
     field_if ''symbols'' texts_value (sg_symbols s) @ field_if ''paths'' texts_value (sg_paths s)
     @ field_if ''errors'' texts_value (sg_errors s) @ field_if ''packages'' texts_value (sg_packages s)
     @ field_if ''commands'' texts_value (sg_commands s)"

section \<open>The scope\<close>

definition has_applicability :: "applicability option \<Rightarrow> bool" where
  "has_applicability a =
     (case a of None \<Rightarrow> False
      | Some a \<Rightarrow> list_ex (\<lambda>f. array_length (snd f) \<noteq> Some 0) (applicability_fields a))"

definition when_given :: "jsvalue \<Rightarrow> (jsvalue \<Rightarrow> 'a result) \<Rightarrow> 'a option result" where
  "when_given v f = (if v = VUndefined then Inr None else rbind (f v) (\<lambda>x. Inr (Some x)))"

definition buildStructuredScope :: "(string \<Rightarrow> string) \<Rightarrow> fields \<Rightarrow> fields result" where
  "buildStructuredScope nfkc options =
     (let visibility = getp options ''visibility''; retrieval = getp options ''retrievalScope'';
          memoryClass = getp options ''memoryClass''; reason = getp options ''portableReason'' in
      rbind (check (visibility = VStr ''project'' \<or> visibility = VStr ''global'') invalid_metadata) (\<lambda>_.
      rbind (check (retrieval = VUndefined \<or> is_text_among RETRIEVAL_SCOPES retrieval) invalid_metadata) (\<lambda>_.
      rbind (check (\<not> (visibility = VStr ''global'' \<and> retrieval \<noteq> VUndefined \<and> retrieval \<noteq> VStr ''global'')) invalid_metadata) (\<lambda>_.
      rbind (check (\<not> (visibility = VStr ''project'' \<and> retrieval = VStr ''global'')) invalid_metadata) (\<lambda>_.
      rbind (when_given (getp options ''applicability'') (validateApplicability nfkc)) (\<lambda>applicability.
      rbind (check (\<not> (visibility = VStr ''project'' \<and> retrieval = VStr ''ecosystem'' \<and> \<not> has_applicability applicability))
        invalid_metadata) (\<lambda>_.
      rbind (check (\<not> (visibility = VStr ''global'' \<and> \<not> has_applicability applicability \<and> reason = VUndefined)) invalid_metadata) (\<lambda>_.
      rbind (if visibility = VStr ''global'' then when_given reason (cleanString nfkc 2000) else Inr None) (\<lambda>_.
      rbind (check (memoryClass = VUndefined \<or> is_text_among MEMORY_CLASSES memoryClass) invalid_metadata) (\<lambda>_.
      rbind (when_given (getp options ''repositoryId'') (cleanString nfkc 256)) (\<lambda>repositoryId.
      rbind (when_given (getp options ''signals'') (validateSignals nfkc)) (\<lambda>signals.
      rbind (when_given reason (cleanString nfkc 2000)) (\<lambda>portableReason.
      Inr ([(''schemaVersion'', VNum 1), (''visibility'', visibility)]
           @ (if retrieval = VUndefined then [] else [(''retrievalScope'', retrieval)])
           @ field_if ''repositoryId'' VStr repositoryId
           @ (if memoryClass = VUndefined then [] else [(''memoryClass'', memoryClass)])
           @ field_if ''applicability'' (\<lambda>a. VObj (applicability_fields a)) applicability
           @ field_if ''signals'' (\<lambda>s. VObj (signal_fields s)) signals
           @ field_if ''portableReason'' VStr portableReason))))))))))))))"

definition SCOPE_FIELDS :: "string list" where
  "SCOPE_FIELDS = [''schemaVersion'', ''visibility'', ''retrievalScope'', ''repositoryId'', ''memoryClass'',
     ''applicability'', ''signals'', ''portableReason'']"

definition normalizeStructuredScopeInput :: "(string \<Rightarrow> string) \<Rightarrow> fields \<Rightarrow> fields result" where
  "normalizeStructuredScopeInput nfkc scope =
     (if \<not> hasOwn scope ''schemaVersion'' then Inr scope
      else
        rbind (check (keys_within scope SCOPE_FIELDS)
          (KiokukoError VALIDATION_ERROR ''Structured memory scope contains an unknown field'')) (\<lambda>_.
        rbind (check (getp scope ''schemaVersion'' = VNum 1)
          (KiokukoError VALIDATION_ERROR ''Structured memory scope schemaVersion is unsupported'')) (\<lambda>_.
        buildStructuredScope nfkc scope)))"

end
