(* ===== verification/Memory_Rows.thy ===== *)
theory Memory_Rows
  imports Db_Operation Structured_Scope Js_Date
begin

text \<open>
  The tables of memory entries and their revisions with the constraints of
  \<open>src/migrations/001_initial.sql\<close>, the audit trail (\<open>src/src/memory/audit.ts\<close>) and everything that
  reads: decoding of stored rows in \<open>src/src/memory/revisions.ts\<close> and \<open>src/src/memory/entries.ts\<close>. Columns
  have their declared types; the digest and the Unicode tables are arguments. What the embedding
  tables say about the active profile is a value of the state.
\<close>

section \<open>Tables\<close>

record entry_row =
  en_rowid :: int
  en_id :: string
  en_workspace :: string
  en_status :: string
  en_trust_level :: string
  en_confidence :: jsvalue
  en_current_revision :: int
  en_superseded_by :: "string option"
  en_created_by :: string
  en_created_at :: string
  en_updated_at :: string
  en_verified_at :: "string option"

record revision_row =
  rn_entry_id :: string
  rn_workspace :: string
  rn_revision :: int
  rn_kind :: string
  rn_title :: string
  rn_body :: string
  rn_summary :: "string option"
  rn_scope_json :: string
  rn_provenance_json :: string
  rn_content_hash :: string
  rn_created_by :: string
  rn_created_at :: string

record tag_row =
  tg_entry_id :: string
  tg_revision :: int
  tg_tag :: string

record link_row =
  lk_from :: string
  lk_to :: string
  lk_relation :: string
  lk_created_at :: string
  lk_created_by :: string

record audit_row =
  au_event_id :: string
  au_entry_id :: "string option"
  au_workspace :: string
  au_operation :: string
  au_actor :: string
  au_details_json :: string
  au_created_at :: string

record document_row =
  sd_rowid :: int
  sd_entry_id :: string
  sd_title :: string
  sd_body :: string
  sd_summary :: string
  sd_tags_text :: string

record signal_row =
  ss_entry_id :: string
  ss_type :: string
  ss_value :: string

record embedding_job_row =
  ej_entry_id :: string
  ej_profile_id :: string
  ej_revision :: int
  ej_content_hash :: string
  ej_state :: string
  ej_attempts :: int
  ej_available_at :: string
  ej_lease_id :: "string option"
  ej_lease_expires_at :: "string option"
  ej_error_code :: "string option"
  ej_created_at :: string
  ej_updated_at :: string

text \<open>
  The database. \<open>md_projection_ok\<close>: the search schema is complete. \<open>md_embedding\<close>: no embedding tables,
  a runtime row that fails its checks, or the active profile if any.
\<close>

record mem_db =
  md_entries :: "entry_row list"
  md_revisions :: "revision_row list"
  md_tags :: "tag_row list"
  md_external :: "string list"
  md_links :: "link_row list"
  md_audit :: "audit_row list"
  md_documents :: "document_row list"
  md_signals :: "signal_row list"
  md_projection_ok :: bool
  md_embedding :: "string option result option"
  md_jobs :: "embedding_job_row list"

text \<open>The code's environment: Unicode normalization and case mapping, and SHA-256.\<close>

record mem_env =
  me_nfkc :: "string \<Rightarrow> string"
  me_lower :: "string \<Rightarrow> string"
  me_sha256 :: "string \<Rightarrow> string"

definition foreign_key_failed :: js_error where
  "foreign_key_failed = SqliteError 787 ''FOREIGN KEY constraint failed''"

definition entry_ids :: "mem_db \<Rightarrow> string list" where
  "entry_ids db = map en_id (md_entries db)"

definition entry_columns_ok :: "entry_row \<Rightarrow> bool" where
  "entry_columns_ok r =
     (en_status r \<in> set ENTRY_STATUSES \<and> en_trust_level r \<in> set TRUST_LEVELS \<and> is_unit_number (en_confidence r)
      \<and> 0 < en_current_revision r \<and> (en_status r = ''superseded'' \<longrightarrow> en_superseded_by r \<noteq> None))"

definition entry_constraints :: "string list \<Rightarrow> entry_row \<Rightarrow> unit result" where
  "entry_constraints ids r =
     rbind (check (entry_columns_ok r) (SqliteError 275 ''CHECK constraint failed: entries'')) (\<lambda>_.
     check (opt_all (\<lambda>i. i \<in> set ids) (en_superseded_by r)) foreign_key_failed)"

definition fresh_rowid :: "mem_db \<Rightarrow> int" where
  "fresh_rowid db = 1 + fold max (map en_rowid (md_entries db)) 0"

definition insert_entry :: "entry_row \<Rightarrow> (mem_db, unit) operation" where
  "insert_entry r db =
     (if en_id r \<in> set (entry_ids db) then (Inl (SqliteError 1555 ''UNIQUE constraint failed: entries.id''), db)
      else case entry_constraints (en_id r # entry_ids db) r of
        Inl e \<Rightarrow> (Inl e, db)
      | Inr _ \<Rightarrow> (Inr (), db\<lparr>md_entries := md_entries db @ [r\<lparr>en_rowid := fresh_rowid db\<rparr>]\<rparr>))"

text \<open>An \<open>UPDATE\<close> of one entry at a revision; no row may violate a constraint.\<close>

definition update_entry ::
    "string \<Rightarrow> string \<Rightarrow> int \<Rightarrow> (entry_row \<Rightarrow> entry_row) \<Rightarrow> (mem_db, unit) operation" where
  "update_entry entryId workspace revision f db =
     (let change = (\<lambda>r. if en_id r = entryId \<and> en_workspace r = workspace \<and> en_current_revision r = revision
            then f r else r);
          rows = map change (md_entries db) in
      case rtraverse (entry_constraints (entry_ids db)) (filter (\<lambda>r. r \<notin> set (md_entries db)) rows) of
        Inl e \<Rightarrow> (Inl e, db)
      | Inr _ \<Rightarrow> (Inr (), db\<lparr>md_entries := rows\<rparr>))"

definition insert_revision :: "revision_row \<Rightarrow> (mem_db, unit) operation" where
  "insert_revision r db =
     (if \<not> (0 < rn_revision r \<and> rn_kind r \<in> set ENTRY_KINDS)
      then (Inl (SqliteError 275 ''CHECK constraint failed: entry_revisions''), db)
      else if list_ex (\<lambda>q. rn_entry_id q = rn_entry_id r \<and> rn_revision q = rn_revision r) (md_revisions db)
      then (Inl (SqliteError 1555
              ''UNIQUE constraint failed: entry_revisions.entry_id, entry_revisions.revision''), db)
      else if list_ex (\<lambda>q. rn_workspace q = rn_workspace r \<and> rn_content_hash q = rn_content_hash r) (md_revisions db)
      then (Inl (SqliteError 2067
              ''UNIQUE constraint failed: entry_revisions.workspace, entry_revisions.content_hash''), db)
      else if \<not> list_ex (\<lambda>e. en_id e = rn_entry_id r \<and> en_workspace e = rn_workspace r) (md_entries db)
      then (Inl foreign_key_failed, db)
      else (Inr (), db\<lparr>md_revisions := md_revisions db @ [r]\<rparr>))"

definition insert_tag :: "tag_row \<Rightarrow> (mem_db, unit) operation" where
  "insert_tag t db =
     (if t \<in> set (md_tags db)
      then (Inl (SqliteError 1555
              ''UNIQUE constraint failed: entry_revision_tags.entry_id, entry_revision_tags.revision, entry_revision_tags.tag''), db)
      else if \<not> list_ex (\<lambda>q. rn_entry_id q = tg_entry_id t \<and> rn_revision q = tg_revision t) (md_revisions db)
      then (Inl foreign_key_failed, db)
      else (Inr (), db\<lparr>md_tags := md_tags db @ [t]\<rparr>))"

section \<open>Audit\<close>

definition AUDIT_OPERATIONS :: "string list" where
  "AUDIT_OPERATIONS = [''record'', ''promote'', ''supersede'', ''link'', ''import'', ''purge'']"

definition recordAuditEvent ::
    "string \<Rightarrow> string option \<Rightarrow> string \<Rightarrow> string \<Rightarrow> string \<Rightarrow> fields \<Rightarrow> string \<Rightarrow> (mem_db, string) operation" where
  "recordAuditEvent eventId entryId workspace operation actor details createdAt =
     obind (oread (\<lambda>_. requireWorkspace (VStr workspace))) (\<lambda>ws.
     obind (oread (\<lambda>_. canonicalJson (VObj details))) (\<lambda>detailsJson.
     \<lambda>db.
       if \<not> operation \<in> set AUDIT_OPERATIONS then (Inl (SqliteError 275 ''CHECK constraint failed: audit_events''), db)
       else if eventId \<in> set (map au_event_id (md_audit db))
       then (Inl (SqliteError 1555 ''UNIQUE constraint failed: audit_events.event_id''), db)
       else if \<not> opt_all (\<lambda>i. i \<in> set (entry_ids db)) entryId then (Inl foreign_key_failed, db)
       else (Inr eventId, db\<lparr>md_audit := md_audit db @
              [\<lparr>au_event_id = eventId, au_entry_id = entryId, au_workspace = ws, au_operation = operation,
                au_actor = actor, au_details_json = detailsJson, au_created_at = createdAt\<rparr>]\<rparr>)))"

section \<open>Decoding stored rows\<close>

definition storedMemoryIntegrityError :: js_error where
  "storedMemoryIntegrityError = KiokukoError INTEGRITY_ERROR
     (''Stored entry or revision failed the current integrity checks.'' @ [CHR 0x0A] @
      ''No compatibility conversion or automatic data deletion is performed.'' @ [CHR 0x0A] @
      ''Restore a known-good database backup or start with a new database after preserving the original file.'')"

abbreviation stored :: "bool \<Rightarrow> unit result" where
  "stored b \<equiv> check b storedMemoryIntegrityError"

record revision_record =
  re_entryId :: string
  re_workspace :: string
  re_revision :: int
  re_kind :: string
  re_title :: string
  re_body :: string
  re_summary :: "string option"
  re_scope :: fields
  re_provenance :: fields
  re_tags :: "string list"
  re_contentHash :: string
  re_createdBy :: string
  re_createdAt :: string

record entry_record =
  er_id :: string
  er_workspace :: string
  er_kind :: string
  er_status :: string
  er_title :: string
  er_body :: string
  er_summary :: "string option"
  er_scope :: fields
  er_provenance :: fields
  er_trustLevel :: string
  er_confidence :: jsvalue
  er_contentHash :: string
  er_revision :: int
  er_supersededBy :: "string option"
  er_createdBy :: string
  er_createdAt :: string
  er_updatedAt :: string
  er_verifiedAt :: "string option"
  er_tags :: "string list"

definition storedNonEmptyString :: "string \<Rightarrow> string result" where
  "storedNonEmptyString s = rbind (stored (trim s \<noteq> [])) (\<lambda>_. Inr s)"

text \<open>Validation and security errors of the decoder become integrity errors; others are thrown on.\<close>

fun as_integrity :: "'a result \<Rightarrow> 'a result" where
  "as_integrity (Inl (KiokukoError VALIDATION_ERROR m)) = Inl storedMemoryIntegrityError"
| "as_integrity (Inl (KiokukoError SECURITY_REJECTION m)) = Inl storedMemoryIntegrityError"
| "as_integrity r = r"

fun only_validation :: "'a result \<Rightarrow> 'a result" where
  "only_validation (Inl (KiokukoError VALIDATION_ERROR m)) = Inl storedMemoryIntegrityError"
| "only_validation r = r"

definition parseStoredObject :: "string \<Rightarrow> fields result" where
  "parseStoredObject text =
     (case json_parse text of
        None \<Rightarrow> Inl storedMemoryIntegrityError
      | Some parsed \<Rightarrow>
          rbind (as_fields storedMemoryIntegrityError parsed) (\<lambda>fs.
          rbind (only_validation (canonicalJson parsed)) (\<lambda>t.
          rbind (stored (t = text)) (\<lambda>_. Inr fs))))"

definition normalizeStoredStructuredScope :: "(string \<Rightarrow> string) \<Rightarrow> fields \<Rightarrow> bool \<Rightarrow> fields result" where
  "normalizeStoredStructuredScope nfkc scope required =
     rbind (stored (required \<longrightarrow> getp scope ''schemaVersion'' = VNum 1)) (\<lambda>_.
     as_integrity (normalizeStructuredScopeInput nfkc scope))"

definition decodeStoredStructuredScope :: "(string \<Rightarrow> string) \<Rightarrow> fields \<Rightarrow> bool \<Rightarrow> fields result" where
  "decodeStoredStructuredScope nfkc scope required =
     rbind (normalizeStoredStructuredScope nfkc scope required) (\<lambda>normalized.
     rbind (canonicalJson (VObj normalized)) (\<lambda>a.
     rbind (canonicalJson (VObj scope)) (\<lambda>b.
     rbind (stored (a = b)) (\<lambda>_. Inr normalized))))"

definition summary_value :: "string option \<Rightarrow> jsvalue" where
  "summary_value s = (case s of None \<Rightarrow> VNull | Some t \<Rightarrow> VStr t)"

definition normalizedStoredRecord ::
    "mem_env \<Rightarrow> revision_row \<Rightarrow> string list \<Rightarrow> bool \<Rightarrow> revision_record result" where
  "normalizedStoredRecord env row tags requireStructured =
     rbind (storedNonEmptyString (rn_entry_id row)) (\<lambda>entryId.
     rbind (storedNonEmptyString (rn_created_by row)) (\<lambda>createdBy.
     rbind (storedNonEmptyString (rn_created_at row)) (\<lambda>createdAt.
     rbind (stored (isCanonicalTimestamp createdAt \<and> rn_revision row \<le> MAX_SAFE_INTEGER \<and> 1 \<le> rn_revision row)) (\<lambda>_.
     rbind (parseStoredObject (rn_scope_json row)) (\<lambda>stored_scope.
     rbind (decodeStoredStructuredScope (me_nfkc env) stored_scope requireStructured) (\<lambda>scope.
     rbind (parseStoredObject (rn_provenance_json row)) (\<lambda>provenance.
     rbind (as_integrity (validateRecordInput (VObj
        [(''workspace'', VStr (rn_workspace row)), (''kind'', VStr (rn_kind row)), (''status'', VStr ''candidate''),
         (''title'', VStr (rn_title row)), (''body'', VStr (rn_body row)), (''summary'', summary_value (rn_summary row)),
         (''scope'', VObj scope), (''provenance'', VObj provenance), (''trustLevel'', VStr ''user_asserted''),
         (''confidence'', VNum 1), (''tags'', VArr (map VStr tags)), (''createdBy'', VStr createdBy),
         (''actor'', VStr createdBy)]))) (\<lambda>validated.
     rbind (stored (length (rv_tags validated) = length tags)) (\<lambda>_.
     rbind (canonicalEntryRevisionContentHash (me_sha256 env) validated) (\<lambda>contentHash.
     rbind (stored (rn_content_hash row = contentHash)) (\<lambda>_.
     Inr \<lparr>re_entryId = entryId, re_workspace = rv_workspace validated, re_revision = rn_revision row,
          re_kind = rv_kind validated, re_title = rv_title validated, re_body = rv_body validated,
          re_summary = rv_summary validated, re_scope = scope, re_provenance = rv_provenance validated,
          re_tags = rv_tags validated, re_contentHash = contentHash, re_createdBy = createdBy,
          re_createdAt = createdAt\<rparr>)))))))))))"

text \<open>The aggregate columns over the revisions of an entry.\<close>

record revision_chain =
  rc_min :: "int option"
  rc_max :: "int option"
  rc_count :: int
  rc_invalid :: int

definition least_of :: "int list \<Rightarrow> int option" where
  "least_of ns = (case ns of [] \<Rightarrow> None | n # ns \<Rightarrow> Some (fold min ns n))"

definition greatest_of :: "int list \<Rightarrow> int option" where
  "greatest_of ns = (case ns of [] \<Rightarrow> None | n # ns \<Rightarrow> Some (fold max ns n))"

definition revisions_of :: "mem_db \<Rightarrow> string \<Rightarrow> int list" where
  "revisions_of db entryId = map rn_revision (filter (\<lambda>r. rn_entry_id r = entryId) (md_revisions db))"

definition chain_of :: "mem_db \<Rightarrow> string \<Rightarrow> revision_chain" where
  "chain_of db entryId =
     (let ns = revisions_of db entryId in
      \<lparr>rc_min = least_of ns, rc_max = greatest_of ns, rc_count = int (length ns),
       rc_invalid = int (length (filter (\<lambda>n. n < 1) ns))\<rparr>)"

definition completeRevisionChain :: "int \<Rightarrow> revision_chain \<Rightarrow> bool" where
  "completeRevisionChain current chain =
     (rc_min chain = Some 1 \<and> rc_max chain = Some current \<and> current \<le> MAX_SAFE_INTEGER
      \<and> rc_count chain = current \<and> rc_invalid chain = 0)"

definition entry_state_ok :: "entry_row \<Rightarrow> bool" where
  "entry_state_ok r =
     ((en_status r = ''superseded'') = (en_superseded_by r \<noteq> None)
      \<and> \<not> (en_status r = ''candidate'' \<and> en_verified_at r \<noteq> None)
      \<and> \<not> (en_status r = ''verified'' \<and> en_verified_at r = None))"

definition entry_times_ok :: "entry_row \<Rightarrow> string \<Rightarrow> bool" where
  "entry_times_ok r revisionCreatedAt =
     (isCanonicalTimestamp (en_created_at r) \<and> isCanonicalTimestamp (en_updated_at r)
      \<and> opt_all isCanonicalTimestamp (en_verified_at r)
      \<and> en_created_at r \<le> revisionCreatedAt \<and> revisionCreatedAt \<le> en_updated_at r
      \<and> en_created_at r \<le> en_updated_at r
      \<and> opt_all (\<lambda>t. en_created_at r \<le> t \<and> t \<le> en_updated_at r) (en_verified_at r))"

definition decodedStoredEntry :: "entry_row \<Rightarrow> revision_chain \<Rightarrow> revision_record \<Rightarrow> unit result" where
  "decodedStoredEntry r chain revision =
     rbind (storedNonEmptyString (en_id r)) (\<lambda>_.
     rbind (storedNonEmptyString (en_workspace r)) (\<lambda>_.
     rbind (storedNonEmptyString (en_created_by r)) (\<lambda>_.
     rbind (storedNonEmptyString (en_created_at r)) (\<lambda>_.
     rbind (storedNonEmptyString (en_updated_at r)) (\<lambda>_.
     rbind (stored (en_id r = re_entryId revision \<and> en_workspace r = re_workspace revision
              \<and> en_current_revision r = re_revision revision
              \<and> completeRevisionChain (en_current_revision r) chain
              \<and> en_status r \<in> set ENTRY_STATUSES \<and> en_trust_level r \<in> set TRUST_LEVELS
              \<and> is_unit_number (en_confidence r)
              \<and> opt_all (\<lambda>s. trim s \<noteq> []) (en_superseded_by r) \<and> opt_all (\<lambda>s. trim s \<noteq> []) (en_verified_at r))) (\<lambda>_.
     stored (entry_state_ok r \<and> entry_times_ok r (re_createdAt revision))))))))"

definition tagsFor :: "mem_db \<Rightarrow> string \<Rightarrow> int \<Rightarrow> string list" where
  "tagsFor db entryId revision =
     sort (map tg_tag (filter (\<lambda>t. tg_entry_id t = entryId \<and> tg_revision t = revision) (md_tags db)))"

definition decodeEntryRow ::
    "mem_env \<Rightarrow> entry_row \<Rightarrow> revision_chain \<Rightarrow> revision_row \<Rightarrow> string list \<Rightarrow> bool \<Rightarrow> entry_record result" where
  "decodeEntryRow env e chain row tags requireStructured =
     rbind (normalizedStoredRecord env row tags requireStructured) (\<lambda>revision.
     rbind (decodedStoredEntry e chain revision) (\<lambda>_.
     Inr \<lparr>er_id = en_id e, er_workspace = en_workspace e, er_kind = re_kind revision, er_status = en_status e,
          er_title = re_title revision, er_body = re_body revision, er_summary = re_summary revision,
          er_scope = re_scope revision, er_provenance = re_provenance revision, er_trustLevel = en_trust_level e,
          er_confidence = en_confidence e, er_contentHash = re_contentHash revision,
          er_revision = re_revision revision, er_supersededBy = en_superseded_by e, er_createdBy = en_created_by e,
          er_createdAt = en_created_at e, er_updatedAt = en_updated_at e, er_verifiedAt = en_verified_at e,
          er_tags = re_tags revision\<rparr>))"

text \<open>The join of an entry with its current revision.\<close>

definition current_row :: "mem_db \<Rightarrow> entry_row \<Rightarrow> revision_row option" where
  "current_row db e =
     find (\<lambda>r. rn_entry_id r = en_id e \<and> rn_revision r = en_current_revision e) (md_revisions db)"

definition rowToEntry :: "mem_env \<Rightarrow> mem_db \<Rightarrow> entry_row \<Rightarrow> revision_row \<Rightarrow> bool \<Rightarrow> entry_record result" where
  "rowToEntry env db e row requireStructured =
     decodeEntryRow env e (chain_of db (en_id e)) row (tagsFor db (rn_entry_id row) (en_current_revision e)) requireStructured"

definition selectEntry :: "mem_env \<Rightarrow> string \<Rightarrow> string \<Rightarrow> bool \<Rightarrow> mem_db \<Rightarrow> entry_record option result" where
  "selectEntry env workspace entryId requireStructured db =
     (case find (\<lambda>e. en_id e = entryId \<and> en_workspace e = workspace) (md_entries db) of
        None \<Rightarrow> Inr None
      | Some e \<Rightarrow>
          (case current_row db e of
             Some row \<Rightarrow> rbind (rowToEntry env db e row requireStructured) (\<lambda>r. Inr (Some r))
           | None \<Rightarrow> Inl (KiokukoError INTEGRITY_ERROR ''Stored entry points to a missing current revision'')))"

definition readEntry :: "mem_env \<Rightarrow> string \<Rightarrow> string \<Rightarrow> bool \<Rightarrow> mem_db \<Rightarrow> entry_record result" where
  "readEntry env workspace entryId requireStructured db =
     rbind (requireWorkspace (VStr workspace)) (\<lambda>ws.
     rbind (check (entryId \<noteq> []) (KiokukoError VALIDATION_ERROR ''entryId must be a non-empty string'')) (\<lambda>_.
     rbind (selectEntry env ws entryId requireStructured db) (\<lambda>r.
     case r of
       None \<Rightarrow> Inl (KiokukoError NOT_FOUND ''Entry not found'')
     | Some record \<Rightarrow> Inr record)))"

text \<open>The batched read: one query for the rows, one for the tags of all current revisions.\<close>

record read_request =
  rq_workspace :: string
  rq_entryId :: string
  rq_requireStructured :: bool

definition batch_rows :: "mem_db \<Rightarrow> string list \<Rightarrow> (entry_row \<times> revision_row) list" where
  "batch_rows db ids =
     concat (map (\<lambda>e. if en_id e \<in> set ids
        then (case current_row db e of None \<Rightarrow> [] | Some row \<Rightarrow> [(e, row)]) else []) (md_entries db))"

definition batch_tags :: "mem_db \<Rightarrow> string list \<Rightarrow> (string \<times> string) list" where
  "batch_tags db ids =
     sort (map (\<lambda>t. (tg_entry_id t, tg_tag t))
       (filter (\<lambda>t. list_ex (\<lambda>e. en_id e = tg_entry_id t \<and> en_current_revision e = tg_revision t \<and> en_id e \<in> set ids)
          (md_entries db)) (md_tags db)))"

definition readEntries :: "mem_env \<Rightarrow> read_request list \<Rightarrow> mem_db \<Rightarrow> entry_record list result" where
  "readEntries env inputs db =
     (if length inputs > 256 then Inl (KiokukoError VALIDATION_ERROR ''Entry batch exceeds 256'')
      else if inputs = [] then Inr []
      else
        rbind (rtraverse (\<lambda>q. rbind (requireWorkspace (VStr (rq_workspace q))) (\<lambda>_.
            check (rq_entryId q \<noteq> []) (KiokukoError VALIDATION_ERROR ''entryId must be a non-empty string''))) inputs) (\<lambda>_.
        let ids = js_set (map rq_entryId inputs);
            rows = batch_rows db ids;
            tags = batch_tags db ids in
        rtraverse (\<lambda>q.
          case find (\<lambda>p. en_id (fst p) = rq_entryId q) (rev rows) of
            None \<Rightarrow> readEntry env (rq_workspace q) (rq_entryId q) (rq_requireStructured q) db
          | Some (e, row) \<Rightarrow>
              if en_workspace e \<noteq> rq_workspace q
              then readEntry env (rq_workspace q) (rq_entryId q) (rq_requireStructured q) db
              else decodeEntryRow env e (chain_of db (en_id e)) row
                     (map snd (filter (\<lambda>p. fst p = en_id e) tags)) (rq_requireStructured q)) inputs))"

section \<open>Reading revisions\<close>

definition revisionKey :: "string \<Rightarrow> string \<Rightarrow> int \<Rightarrow> unit result" where
  "revisionKey entryId workspace revision =
     rbind (check (entryId \<noteq> []) (KiokukoError VALIDATION_ERROR ''entryId must be a non-empty string'')) (\<lambda>_.
     rbind (requireWorkspace (VStr workspace)) (\<lambda>_.
     check (revision \<le> MAX_SAFE_INTEGER \<and> 1 \<le> revision)
       (KiokukoError VALIDATION_ERROR ''revision must be a positive integer'')))"

definition rowToRevision :: "mem_env \<Rightarrow> bool \<Rightarrow> mem_db \<Rightarrow> revision_row \<Rightarrow> revision_record result" where
  "rowToRevision env checkOwnerChronology db row =
     rbind (storedNonEmptyString (rn_entry_id row)) (\<lambda>entryId.
     rbind (stored (\<bar>rn_revision row\<bar> \<le> MAX_SAFE_INTEGER)) (\<lambda>_.
     rbind (normalizedStoredRecord env row (tagsFor db entryId (rn_revision row)) False) (\<lambda>decoded.
     if \<not> checkOwnerChronology then Inr decoded
     else
       (case find (\<lambda>e. en_id e = re_entryId decoded \<and> en_workspace e = re_workspace decoded) (md_entries db) of
          None \<Rightarrow> Inl storedMemoryIntegrityError
        | Some owner \<Rightarrow>
            rbind (stored (isCanonicalTimestamp (en_created_at owner) \<and> isCanonicalTimestamp (en_updated_at owner)
               \<and> completeRevisionChain (en_current_revision owner) (chain_of db (en_id owner))
               \<and> en_created_at owner \<le> re_createdAt decoded \<and> re_createdAt decoded \<le> en_updated_at owner)) (\<lambda>_.
            Inr decoded)))))"

definition selectRevision ::
    "mem_env \<Rightarrow> bool \<Rightarrow> string \<Rightarrow> string \<Rightarrow> int \<Rightarrow> mem_db \<Rightarrow> revision_record option result" where
  "selectRevision env checkOwnerChronology entryId workspace revision db =
     (case find (\<lambda>r. rn_entry_id r = entryId \<and> rn_workspace r = workspace \<and> rn_revision r = revision) (md_revisions db) of
        None \<Rightarrow> Inr None
      | Some row \<Rightarrow> rbind (rowToRevision env checkOwnerChronology db row) (\<lambda>r. Inr (Some r)))"

definition findEntryRevision ::
    "mem_env \<Rightarrow> string \<Rightarrow> string \<Rightarrow> int \<Rightarrow> mem_db \<Rightarrow> revision_record option result" where
  "findEntryRevision env entryId workspace revision db =
     rbind (revisionKey entryId workspace revision) (\<lambda>_. selectRevision env True entryId workspace revision db)"

definition readEntryRevision :: "mem_env \<Rightarrow> string \<Rightarrow> string \<Rightarrow> int \<Rightarrow> mem_db \<Rightarrow> revision_record result" where
  "readEntryRevision env entryId workspace revision db =
     rbind (findEntryRevision env entryId workspace revision db) (\<lambda>r.
     case r of
       None \<Rightarrow> Inl (KiokukoError NOT_FOUND ''Entry revision not found'')
     | Some record \<Rightarrow> Inr record)"

end
