(* ===== verification/Memory_Search.thy ===== *)
theory Memory_Search
  imports Memory_Rows Context_Ranking Ledger_Validate
begin

text \<open>
  What a write refreshes besides the entry tables: the search documents and signals
  (\<open>src/src/memory/structured-memory.ts\<close>, \<open>normalizeSearchSignal\<close> of
  \<open>src/src/memory/retrieval-query.ts\<close>) and the embedding job of the current revision
  (\<open>src/src/embedding/store.ts\<close>). The full-text indexes follow the documents by triggers of SQLite.
\<close>

section \<open>Search signals\<close>

definition normalizeSearchSignal :: "mem_env \<Rightarrow> string \<Rightarrow> string" where
  "normalizeSearchSignal env s = me_lower env (collapse_spaces (trim (me_nfkc env s)))"

definition is_ascii_letter :: "char \<Rightarrow> bool" where
  "is_ascii_letter c = (CHR ''A'' \<le> c \<and> c \<le> CHR ''Z'' \<or> CHR ''a'' \<le> c \<and> c \<le> CHR ''z'')"

definition is_word :: "string \<Rightarrow> char \<Rightarrow> bool" where
  "is_word extra c = (is_ascii_letter c \<or> is_digit c \<or> c = CHR ''_'' \<or> c \<in> set extra)"

text \<open>
  The alternatives of the pattern, tried in order at a position; each gives the length of its match.
  The classes around every repetition are disjoint from what follows, so no match backtracks.
\<close>

definition sqlstate_match :: "string \<Rightarrow> nat option" where
  "sqlstate_match s =
     (let r = takeWhile (\<lambda>c. c \<noteq> CHR '']'') (drop 9 s) in
      if prefix ''SQLSTATE['' s \<and> r \<noteq> [] \<and> length r + 9 < length s then Some (length r + 10) else None)"

definition led_match :: "char \<Rightarrow> (char \<Rightarrow> bool) \<Rightarrow> (char \<Rightarrow> bool) \<Rightarrow> string \<Rightarrow> nat option" where
  "led_match lead first_class rest_class s =
     (case s of
        a # b # r \<Rightarrow> if a = lead \<and> first_class b then Some (2 + length (takeWhile rest_class r)) else None
      | _ \<Rightarrow> None)"

definition member_match :: "string \<Rightarrow> nat option" where
  "member_match s =
     (case s of
        [] \<Rightarrow> None
      | c # r \<Rightarrow>
          let w = takeWhile (is_word ''$'') r; q = drop (length w) r;
              tail = takeWhile (is_word (''$:.()-'' @ [CHR 0x5C])) (drop 2 q) in
          if (is_ascii_letter c \<or> c = CHR ''_'' \<or> c = CHR ''$'') \<and> (prefix ''::'' q \<or> prefix ''->'' q) \<and> tail \<noteq> []
          then Some (1 + length w + 2 + length tail) else None)"

definition path_match :: "string \<Rightarrow> nat option" where
  "path_match s =
     (case s of
        [] \<Rightarrow> None
      | c # r \<Rightarrow>
          let p = takeWhile (is_word ''./-'') r in
          if c = CHR ''/'' \<and> 2 \<le> length p then Some (1 + length p) else None)"

fun first_some :: "'a option list \<Rightarrow> 'a option" where
  "first_some [] = None"
| "first_some (None # xs) = first_some xs"
| "first_some (Some x # xs) = Some x"

definition structured_match :: "string \<Rightarrow> nat option" where
  "structured_match s =
     first_some [sqlstate_match s, led_match (CHR ''@'') is_ascii_letter (is_word ''.-'') s,
       led_match (CHR ''$'') (\<lambda>c. is_ascii_letter c \<or> c = CHR ''_'') (is_word ''$'') s, member_match s, path_match s]"

lemma structured_match_pos: "structured_match s = Some n \<Longrightarrow> 0 < n"
  by (auto simp: structured_match_def sqlstate_match_def led_match_def member_match_def path_match_def Let_def
      split: if_splits list.splits)

function structured_texts :: "string \<Rightarrow> string list" where
  "structured_texts [] = []"
| "structured_texts (c # s) =
     (case structured_match (c # s) of
        None \<Rightarrow> structured_texts s
      | Some n \<Rightarrow> take n (c # s) # structured_texts (drop n (c # s)))"
  by pat_completeness auto
termination
  by (relation "measure length") (auto dest: structured_match_pos)

definition text_signal :: "mem_env \<Rightarrow> string \<Rightarrow> string \<times> string" where
  "text_signal env s =
     (if match_here (literal_i ''SQLSTATE['') s then ''error'' else if prefix ''/'' s then ''path'' else ''symbol'',
      normalizeSearchSignal env s)"

definition type_error :: js_error where
  "type_error = OtherError ''TypeError: value.normalize is not a function''"

definition collect :: "mem_env \<Rightarrow> string \<Rightarrow> jsvalue \<Rightarrow> (string \<times> string) list result" where
  "collect env type v =
     (case v of
        VArr xs \<Rightarrow> rtraverse (\<lambda>x. rbind (as_string type_error x) (\<lambda>s. Inr (type, normalizeSearchSignal env s))) xs
      | _ \<Rightarrow> Inr [])"

definition framework_names :: "jsvalue \<Rightarrow> jsvalue" where
  "framework_names v =
     (case v of
        VArr xs \<Rightarrow> VArr (concat (map (\<lambda>x. case x of
            VObj fs \<Rightarrow> (case getp fs ''name'' of VStr s \<Rightarrow> [VStr s] | _ \<Rightarrow> [])
          | _ \<Rightarrow> []) xs))
      | _ \<Rightarrow> v)"

definition object_fields :: "jsvalue \<Rightarrow> fields" where
  "object_fields v = (case v of VObj fs \<Rightarrow> fs | _ \<Rightarrow> [])"

record search_input =
  si_entryId :: string
  si_title :: string
  si_body :: string
  si_summary :: "string option"
  si_tags :: "string list"
  si_scope :: fields

definition scope_signals :: "mem_env \<Rightarrow> fields \<Rightarrow> (string \<times> string) list result" where
  "scope_signals env scope =
     (let structured = (if getp scope ''schemaVersion'' = VNum 1 then scope else []);
          applicability = object_fields (getp structured ''applicability'');
          signals = object_fields (getp structured ''signals'') in
      rbind (rtraverse (\<lambda>(type, v). collect env type v)
        [(''language'', getp applicability ''languages''), (''database'', getp applicability ''databases''),
         (''runtime'', getp applicability ''runtimes''), (''tool'', getp applicability ''tools''),
         (''platform'', getp applicability ''platforms''),
         (''framework'', framework_names (getp applicability ''frameworks'')),
         (''symbol'', getp signals ''symbols''), (''path'', getp signals ''paths''), (''error'', getp signals ''errors''),
         (''package'', getp signals ''packages''), (''command'', getp signals ''commands'')]) (\<lambda>xss.
      Inr (concat xss)))"

definition extractEntrySearchSignals :: "mem_env \<Rightarrow> search_input \<Rightarrow> (string \<times> string) list result" where
  "extractEntrySearchSignals env input =
     rbind (scope_signals env (si_scope input)) (\<lambda>scoped.
     let tagged = map (\<lambda>t. (''tag'', normalizeSearchSignal env t)) (si_tags input);
         text = si_title input @ [CHR 0x0A] @ si_body input @ [CHR 0x0A]
           @ (case si_summary input of None \<Rightarrow> [] | Some s \<Rightarrow> s);
         found = map (text_signal env) (structured_texts text) in
     Inr (js_sort (\<lambda>l r. compareCanonicalStrings (fst l @ '':'' @ snd l) (fst r @ '':'' @ snd r))
       (js_set (filter (\<lambda>p. snd p \<noteq> []) (tagged @ scoped @ found)))))"

section \<open>The projection\<close>

definition requireHybridSearchProjectionSchema :: "mem_db \<Rightarrow> unit result" where
  "requireHybridSearchProjectionSchema db =
     check (md_projection_ok db) (KiokukoError INTEGRITY_ERROR ''Hybrid search projection schema is incomplete'')"

definition insert_signal :: "string \<Rightarrow> string \<times> string \<Rightarrow> (mem_db, unit) operation" where
  "insert_signal entryId p db =
     (let r = \<lparr>ss_entry_id = entryId, ss_type = fst p, ss_value = snd p\<rparr> in
      (Inr (), if r \<in> set (md_signals db) then db else db\<lparr>md_signals := md_signals db @ [r]\<rparr>))"

definition syncEntrySearchSignals :: "mem_env \<Rightarrow> search_input \<Rightarrow> (mem_db, unit) operation" where
  "syncEntrySearchSignals env input =
     obind (oread requireHybridSearchProjectionSchema) (\<lambda>_.
     obind (\<lambda>db. (Inr (), db\<lparr>md_signals := filter (\<lambda>s. ss_entry_id s \<noteq> si_entryId input) (md_signals db)\<rparr>)) (\<lambda>_.
     obind (oread (\<lambda>_. extractEntrySearchSignals env input)) (\<lambda>signals.
     oforeach (insert_signal (si_entryId input)) signals)))"

definition insert_document :: "string \<Rightarrow> int \<Rightarrow> string \<Rightarrow> (mem_db, unit) operation" where
  "insert_document entryId revision tags_text db =
     (case find (\<lambda>e. en_id e = entryId \<and> en_current_revision e = revision) (md_entries db) of
        None \<Rightarrow> (Inr (), db)
      | Some e \<Rightarrow>
          (case current_row db e of
             None \<Rightarrow> (Inr (), db)
           | Some row \<Rightarrow>
               if list_ex (\<lambda>d. sd_rowid d = en_rowid e) (md_documents db)
               then (Inl (SqliteError 1555 ''UNIQUE constraint failed: entry_search_documents.entry_rowid''), db)
               else (Inr (), db\<lparr>md_documents := md_documents db @
                  [\<lparr>sd_rowid = en_rowid e, sd_entry_id = entryId, sd_title = rn_title row, sd_body = rn_body row,
                    sd_summary = (case rn_summary row of None \<Rightarrow> [] | Some s \<Rightarrow> s), sd_tags_text = tags_text\<rparr>]\<rparr>)))"

definition entry_with_id :: "js_error \<Rightarrow> string \<Rightarrow> mem_db \<Rightarrow> entry_row result" where
  "entry_with_id err entryId db =
     (case find (\<lambda>e. en_id e = entryId) (md_entries db) of None \<Rightarrow> Inl err | Some e \<Rightarrow> Inr e)"

definition syncEntrySearchProjection :: "mem_env \<Rightarrow> search_input \<Rightarrow> (mem_db, unit) operation" where
  "syncEntrySearchProjection env input =
     obind (oread requireHybridSearchProjectionSchema) (\<lambda>_.
     obind (oread (entry_with_id (KiokukoError INTEGRITY_ERROR ''Search projection entry is missing'') (si_entryId input))) (\<lambda>e.
     let tags = canonicalTagOrder (si_tags input) in
     obind (\<lambda>db. (Inr (), db\<lparr>md_documents := filter (\<lambda>d. sd_entry_id d \<noteq> si_entryId input) (md_documents db)\<rparr>)) (\<lambda>_.
     obind (insert_document (si_entryId input) (en_current_revision e) (join_with '' '' tags)) (\<lambda>_.
     obind (oread (\<lambda>db. check (map_option sd_entry_id (find (\<lambda>d. sd_rowid d = en_rowid e) (md_documents db)) = Some (si_entryId input))
        (KiokukoError INTEGRITY_ERROR ''Search projection refresh produced an incomplete result''))) (\<lambda>_.
     syncEntrySearchSignals env (input\<lparr>si_tags := tags\<rparr>))))))"

section \<open>Embedding jobs\<close>

definition currentEntry :: "string \<Rightarrow> mem_db \<Rightarrow> (int \<times> string) result" where
  "currentEntry entryId db =
     rbind (entry_with_id (KiokukoError NOT_FOUND ''Entry not found'') entryId db) (\<lambda>e.
     case current_row db e of
       None \<Rightarrow> Inl (KiokukoError NOT_FOUND ''Entry not found'')
     | Some row \<Rightarrow>
         rbind (check (en_current_revision e \<le> MAX_SAFE_INTEGER \<and> 1 \<le> en_current_revision e \<and> rn_content_hash row \<noteq> [])
           (KiokukoError INTEGRITY_ERROR ''Current entry embedding source is invalid'')) (\<lambda>_.
         Inr (en_current_revision e, rn_content_hash row)))"

definition upsert_job :: "embedding_job_row \<Rightarrow> embedding_job_row list \<Rightarrow> embedding_job_row list" where
  "upsert_job j js =
     (if list_ex (\<lambda>k. ej_entry_id k = ej_entry_id j \<and> ej_profile_id k = ej_profile_id j) js
      then map (\<lambda>k. if ej_entry_id k = ej_entry_id j \<and> ej_profile_id k = ej_profile_id j
             then j\<lparr>ej_created_at := ej_created_at k\<rparr> else k) js
      else js @ [j])"

definition enqueueForProfile :: "string \<Rightarrow> string \<Rightarrow> int \<Rightarrow> string \<Rightarrow> string \<Rightarrow> (mem_db, unit) operation" where
  "enqueueForProfile profileId entryId revision contentHash now =
     obind (oread (currentEntry entryId)) (\<lambda>current.
     obind (ocheck (current = (revision, contentHash))
       (KiokukoError CONFLICT ''Entry changed before its embedding job could be enqueued'')) (\<lambda>_.
     \<lambda>db. (Inr (), db\<lparr>md_jobs := upsert_job
       \<lparr>ej_entry_id = entryId, ej_profile_id = profileId, ej_revision = revision, ej_content_hash = contentHash,
        ej_state = ''pending'', ej_attempts = 0, ej_available_at = now, ej_lease_id = None,
        ej_lease_expires_at = None, ej_error_code = None, ej_created_at = now, ej_updated_at = now\<rparr> (md_jobs db)\<rparr>)))"

definition enqueueCurrentEntryEmbeddingInTransaction ::
    "string \<Rightarrow> int \<Rightarrow> string \<Rightarrow> string \<Rightarrow> (mem_db, unit) operation" where
  "enqueueCurrentEntryEmbeddingInTransaction entryId revision contentHash now =
     obind (ocheck (entryId \<noteq> [] \<and> length entryId \<le> 512 \<and> \<not> list_ex is_ascii_control entryId)
       (KiokukoError VALIDATION_ERROR ''entryId is invalid'')) (\<lambda>_.
     obind (ocheck (revision \<le> MAX_SAFE_INTEGER \<and> 1 \<le> revision) (KiokukoError VALIDATION_ERROR ''revision must be a positive integer'')) (\<lambda>_.
     obind (ocheck (is_hex64 contentHash) (KiokukoError VALIDATION_ERROR ''contentHash must be a lowercase SHA-256 hash'')) (\<lambda>_.
     obind (oread (\<lambda>_. validateTimestamp ''now'' (VStr now))) (\<lambda>_.
     obind (oread (\<lambda>db. case md_embedding db of None \<Rightarrow> Inr None | Some runtime \<Rightarrow> runtime)) (\<lambda>profile.
     case profile of
       None \<Rightarrow> oreturn ()
     | Some profileId \<Rightarrow> enqueueForProfile profileId entryId revision contentHash now)))))"

end
