(* ===== verification/Memory_Entries.thy ===== *)
theory Memory_Entries
  imports Memory_Search
begin

text \<open>
  Writing memory entries: recording, revising a candidate, promotion, supersession and links,
  \<open>src/src/memory/entries.ts\<close>, \<open>src/src/memory/revisions.ts\<close> and \<open>src/src/memory/lifecycle.ts\<close>. Fresh
  identifiers (\<open>idFactory\<close>, \<open>randomUUID\<close>) and the clock are arguments.
\<close>

section \<open>Revisions\<close>

record revision_input =
  vi_entryId :: string
  vi_workspace :: string
  vi_revision :: int
  vi_kind :: string
  vi_title :: string
  vi_body :: string
  vi_summary :: "string option"
  vi_scope :: fields
  vi_provenance :: fields
  vi_tags :: "string list"
  vi_contentHash :: "string option"
  vi_createdBy :: string
  vi_createdAt :: string

definition REVISION_UNIQUENESS_FAILURES :: "string list" where
  "REVISION_UNIQUENESS_FAILURES = [''entry_revisions.entry_id, entry_revisions.revision'',
     ''entry_revisions.workspace, entry_revisions.content_hash'']"

definition isExpectedRevisionConflict :: "js_error \<Rightarrow> bool" where
  "isExpectedRevisionConflict e = isSqliteUniqueConstraintError e REVISION_UNIQUENESS_FAILURES"

text \<open>The owner of a new revision and the number it must have.\<close>

definition next_revision :: "revision_input \<Rightarrow> mem_db \<Rightarrow> int result" where
  "next_revision input db =
     (case find (\<lambda>e. en_id e = vi_entryId input) (md_entries db) of
        None \<Rightarrow> Inl (KiokukoError NOT_FOUND ''Entry not found'')
      | Some owner \<Rightarrow>
          let chain = chain_of db (vi_entryId input) in
          rbind (check (en_workspace owner = vi_workspace input)
            (KiokukoError NOT_FOUND ''Entry does not belong to workspace'')) (\<lambda>_.
          if rc_count chain = 0
          then rbind (stored (rc_min chain = None \<and> rc_max chain = None \<and> en_current_revision owner = 1)) (\<lambda>_. Inr 1)
          else rbind (stored (completeRevisionChain (en_current_revision owner) chain)) (\<lambda>_.
               Inr (en_current_revision owner + 1))))"

definition record_fields ::
    "string \<Rightarrow> string \<Rightarrow> string \<Rightarrow> string \<Rightarrow> string option \<Rightarrow> fields \<Rightarrow> fields \<Rightarrow> string list \<Rightarrow> string \<Rightarrow> string \<Rightarrow> fields" where
  "record_fields workspace kind title body summary scope provenance tags createdBy actor =
     [(''workspace'', VStr workspace), (''kind'', VStr kind), (''title'', VStr title), (''body'', VStr body),
      (''summary'', summary_value summary), (''scope'', VObj scope), (''provenance'', VObj provenance),
      (''tags'', VArr (map VStr tags)), (''createdBy'', VStr createdBy), (''actor'', VStr actor)]"

definition insert_revision_or_conflict :: "revision_row \<Rightarrow> (mem_db, unit) operation" where
  "insert_revision_or_conflict row db =
     (case insert_revision row db of
        (Inl e, db') \<Rightarrow>
          (Inl (if isExpectedRevisionConflict e then KiokukoError CONFLICT ''Entry revision or content already exists'' else e), db')
      | r \<Rightarrow> r)"

definition insertEntryRevisionInTransaction :: "mem_env \<Rightarrow> revision_input \<Rightarrow> (mem_db, revision_record) operation" where
  "insertEntryRevisionInTransaction env input =
     obind (oread (\<lambda>_. revisionKey (vi_entryId input) (vi_workspace input) (vi_revision input))) (\<lambda>_.
     obind (ocheck (vi_createdBy input \<noteq> [] \<and> vi_createdAt input \<noteq> [])
       (KiokukoError VALIDATION_ERROR ''Revision creator and timestamp are required'')) (\<lambda>_.
     obind (oread (next_revision input)) (\<lambda>nextRevision.
     obind (ocheck (vi_revision input = nextRevision)
       (KiokukoError CONFLICT ''Entry revision must be the exact next revision'')) (\<lambda>_.
     obind (oread (\<lambda>_. validateRecordInput (VObj (record_fields (vi_workspace input) (vi_kind input) (vi_title input)
       (vi_body input) (vi_summary input) (vi_scope input) (vi_provenance input) (vi_tags input)
       (vi_createdBy input) (vi_createdBy input))))) (\<lambda>validated.
     obind (oread (\<lambda>_. normalizeStructuredScopeInput (me_nfkc env) (rv_scope validated))) (\<lambda>canonicalScope.
     obind (oread (\<lambda>_. canonicalEntryRevisionContentHash (me_sha256 env) (validated\<lparr>rv_scope := canonicalScope\<rparr>))) (\<lambda>contentHash.
     obind (ocheck (opt_all (\<lambda>h. h = contentHash) (vi_contentHash input))
       (KiokukoError INTEGRITY_ERROR ''Entry revision content hash does not match its content'')) (\<lambda>_.
     obind (oread (\<lambda>_. canonicalJson (VObj canonicalScope))) (\<lambda>scopeJson.
     obind (oread (\<lambda>_. canonicalJson (VObj (rv_provenance validated)))) (\<lambda>provenanceJson.
     obind (insert_revision_or_conflict
       \<lparr>rn_entry_id = vi_entryId input, rn_workspace = vi_workspace input, rn_revision = vi_revision input,
        rn_kind = rv_kind validated, rn_title = rv_title validated, rn_body = rv_body validated,
        rn_summary = rv_summary validated, rn_scope_json = scopeJson, rn_provenance_json = provenanceJson,
        rn_content_hash = contentHash, rn_created_by = vi_createdBy input, rn_created_at = vi_createdAt input\<rparr>) (\<lambda>_.
     obind (oforeach (\<lambda>tag. insert_tag \<lparr>tg_entry_id = vi_entryId input, tg_revision = vi_revision input, tg_tag = tag\<rparr>)
       (rv_tags validated)) (\<lambda>_.
     obind (oread (selectRevision env False (vi_entryId input) (vi_workspace input) (vi_revision input))) (\<lambda>result.
     case result of
       None \<Rightarrow> ofail (KiokukoError INTEGRITY_ERROR ''Inserted entry revision could not be read back'')
     | Some r \<Rightarrow> oreturn r)))))))))))))"

section \<open>Recording\<close>

definition semanticRevision :: "string \<Rightarrow> string \<Rightarrow> mem_db \<Rightarrow> (string \<times> int) option" where
  "semanticRevision workspace canonicalHash db =
     map_option (\<lambda>r. (rn_entry_id r, rn_revision r))
       (find (\<lambda>r. rn_workspace r = workspace \<and> rn_content_hash r = canonicalHash) (md_revisions db))"

text \<open>The secret scan over the canonical text of what is stored.\<close>

definition entry_secret_text :: "validated_record \<Rightarrow> string result" where
  "entry_secret_text r = canonicalJson (VObj
     [(''title'', VStr (rv_title r)), (''body'', VStr (rv_body r)), (''summary'', summary_value (rv_summary r)),
      (''scope'', VObj (rv_scope r)), (''provenance'', VObj (rv_provenance r)), (''tags'', VArr (map VStr (rv_tags r)))])"

definition entry_secret :: js_error where
  "entry_secret = KiokukoError SECURITY_REJECTION ''Entry content resembles a secret and was not stored''"

definition validateNewEntryInput :: "mem_env \<Rightarrow> jsvalue \<Rightarrow> (validated_record \<times> string) result" where
  "validateNewEntryInput env input =
     rbind (validateRecordInput input) (\<lambda>validated.
     rbind (normalizeStructuredScopeInput (me_nfkc env) (rv_scope validated)) (\<lambda>canonicalScope.
     let record = validated\<lparr>rv_scope := canonicalScope\<rparr> in
     rbind (entry_secret_text record) (\<lambda>text.
     rbind (check (findSecret text = None) entry_secret) (\<lambda>_.
     rbind (check (rv_status validated \<noteq> ''superseded'')
       (KiokukoError CONFLICT ''A new entry cannot start in superseded status'')) (\<lambda>_.
     rbind (canonicalEntryRevisionContentHash (me_sha256 env) record) (\<lambda>contentHash.
     Inr (record, contentHash)))))))"

definition existing_entry ::
    "mem_env \<Rightarrow> validated_record \<Rightarrow> string \<Rightarrow> string \<times> int \<Rightarrow> mem_db \<Rightarrow> entry_record result" where
  "existing_entry env validated contentHash existing db =
     rbind (selectEntry env (rv_workspace validated) (fst existing) False db) (\<lambda>found.
     case found of
       None \<Rightarrow> Inl (KiokukoError INTEGRITY_ERROR ''Entry hash index points to a missing entry'')
     | Some r \<Rightarrow>
         rbind (check (er_revision r = snd existing \<and> er_contentHash r = contentHash)
           (KiokukoError CONFLICT ''This content exists only as a historical entry revision'')) (\<lambda>_.
         rbind (check (er_status r = rv_status validated \<and> er_trustLevel r = rv_trustLevel validated
             \<and> er_confidence r = rv_confidence validated \<and> er_createdBy r = rv_createdBy validated)
           (KiokukoError CONFLICT ''Current entry content exists with different record metadata'')) (\<lambda>_.
         Inr r)))"

definition read_back :: "mem_env \<Rightarrow> string \<Rightarrow> string \<Rightarrow> string \<Rightarrow> mem_db \<Rightarrow> entry_record result" where
  "read_back env message workspace entryId db =
     rbind (selectEntry env workspace entryId False db) (\<lambda>found.
     case found of None \<Rightarrow> Inl (KiokukoError INTEGRITY_ERROR message) | Some r \<Rightarrow> Inr r)"

text \<open>The search input and the revision of validated content.\<close>

definition search_input_of :: "string \<Rightarrow> validated_record \<Rightarrow> search_input" where
  "search_input_of entryId v =
     \<lparr>si_entryId = entryId, si_title = rv_title v, si_body = rv_body v, si_summary = rv_summary v,
      si_tags = rv_tags v, si_scope = rv_scope v\<rparr>"

definition revision_input_of ::
    "string \<Rightarrow> int \<Rightarrow> validated_record \<Rightarrow> string \<Rightarrow> string \<Rightarrow> string \<Rightarrow> revision_input" where
  "revision_input_of entryId revision v contentHash createdBy now =
     \<lparr>vi_entryId = entryId, vi_workspace = rv_workspace v, vi_revision = revision, vi_kind = rv_kind v,
      vi_title = rv_title v, vi_body = rv_body v, vi_summary = rv_summary v, vi_scope = rv_scope v,
      vi_provenance = rv_provenance v, vi_tags = rv_tags v, vi_contentHash = Some contentHash,
      vi_createdBy = createdBy, vi_createdAt = now\<rparr>"

definition insert_new_entry ::
    "mem_env \<Rightarrow> string \<Rightarrow> string \<Rightarrow> string \<Rightarrow> validated_record \<Rightarrow> string \<Rightarrow> (mem_db, entry_record) operation" where
  "insert_new_entry env newId eventId now validated contentHash =
     obind (insert_entry
       \<lparr>en_rowid = 0, en_id = newId, en_workspace = rv_workspace validated, en_status = rv_status validated,
        en_trust_level = rv_trustLevel validated, en_confidence = rv_confidence validated,
        en_current_revision = 1, en_superseded_by = None, en_created_by = rv_createdBy validated,
        en_created_at = now, en_updated_at = now,
        en_verified_at = (if rv_status validated = ''verified'' then Some now else None)\<rparr>) (\<lambda>_.
     obind (insertEntryRevisionInTransaction env
       (revision_input_of newId 1 validated contentHash (rv_createdBy validated) now)) (\<lambda>_.
     obind (syncEntrySearchProjection env (search_input_of newId validated)) (\<lambda>_.
     obind (enqueueCurrentEntryEmbeddingInTransaction newId 1 contentHash now) (\<lambda>_.
     obind (recordAuditEvent eventId (Some newId) (rv_workspace validated) ''record'' (rv_actor validated)
       [(''contentHash'', VStr contentHash), (''status'', VStr (rv_status validated))] now) (\<lambda>_.
     oread (read_back env ''Recorded entry could not be read back'' (rv_workspace validated) newId))))))"

definition recordEntryInTransaction ::
    "mem_env \<Rightarrow> string \<Rightarrow> string \<Rightarrow> string \<Rightarrow> jsvalue \<Rightarrow> (mem_db, entry_record) operation" where
  "recordEntryInTransaction env newId eventId now input =
     obind (oread (\<lambda>_. validateNewEntryInput env input)) (\<lambda>(validated, contentHash).
     obind (oread (\<lambda>db. Inr (semanticRevision (rv_workspace validated) contentHash db))) (\<lambda>existing.
     case existing of
       Some found \<Rightarrow> oread (existing_entry env validated contentHash found)
     | None \<Rightarrow> insert_new_entry env newId eventId now validated contentHash))"

definition recordEntry ::
    "mem_env \<Rightarrow> string \<Rightarrow> string \<Rightarrow> string \<Rightarrow> jsvalue \<Rightarrow> (mem_db, entry_record) session" where
  "recordEntry env newId eventId now input =
     withImmediateTransaction (recordEntryInTransaction env newId eventId now input)"

section \<open>Revising a candidate\<close>

record update_input =
  up_workspace :: string
  up_entryId :: string
  up_expectedRevision :: int
  up_kind :: string
  up_title :: string
  up_body :: string
  up_summary :: "string option"
  up_scope :: "fields option"
  up_provenance :: "fields option"
  up_tags :: "string list option"
  up_createdBy :: "string option"
  up_actor :: "string option"

definition positive_revision :: "int \<Rightarrow> unit result" where
  "positive_revision n =
     check (1 \<le> n) (KiokukoError VALIDATION_ERROR ''expectedRevision must be a positive integer'')"

definition given_or :: "'a \<Rightarrow> 'a option \<Rightarrow> 'a" where
  "given_or d x = (case x of None \<Rightarrow> d | Some y \<Rightarrow> y)"

definition update_fields :: "update_input \<Rightarrow> fields" where
  "update_fields input =
     [(''workspace'', VStr (up_workspace input)), (''kind'', VStr (up_kind input)), (''status'', VStr ''candidate''),
      (''title'', VStr (up_title input)), (''body'', VStr (up_body input)), (''summary'', summary_value (up_summary input)),
      (''scope'', given_or VUndefined (map_option VObj (up_scope input))),
      (''provenance'', given_or VUndefined (map_option VObj (up_provenance input))),
      (''tags'', given_or VUndefined (map_option (\<lambda>ts. VArr (map VStr ts)) (up_tags input))),
      (''createdBy'', VStr (given_or ''kiokuko-web'' (up_createdBy input))),
      (''actor'', VStr (given_or (given_or ''kiokuko-web'' (up_createdBy input)) (up_actor input)))]"

definition validate_update :: "mem_env \<Rightarrow> update_input \<Rightarrow> (validated_record \<times> string) result" where
  "validate_update env input =
     rbind (validateRecordInput (VObj (update_fields input))) (\<lambda>validated.
     rbind (normalizeStructuredScopeInput (me_nfkc env) (rv_scope validated)) (\<lambda>canonicalScope.
     let record = validated\<lparr>rv_scope := canonicalScope\<rparr> in
     rbind (entry_secret_text record) (\<lambda>text.
     rbind (check (findSecret text = None) entry_secret) (\<lambda>_.
     rbind (canonicalEntryRevisionContentHash (me_sha256 env) record) (\<lambda>contentHash.
     Inr (record, contentHash))))))"

definition update_guards ::
    "mem_env \<Rightarrow> update_input \<Rightarrow> string \<Rightarrow> mem_db \<Rightarrow> entry_record result" where
  "update_guards env input contentHash db =
     rbind (readEntry env (up_workspace input) (up_entryId input) False db) (\<lambda>current.
     rbind (check (er_status current = ''candidate'')
       (KiokukoError CONFLICT ''Verified or superseded entries must be replaced, not edited'')) (\<lambda>_.
     rbind (check (er_revision current = up_expectedRevision input) (KiokukoError CONFLICT ''Entry revision is stale'')) (\<lambda>_.
     case semanticRevision (up_workspace input) contentHash db of
       None \<Rightarrow> Inr current
     | Some duplicate \<Rightarrow>
         Inl (if fst duplicate \<noteq> up_entryId input then KiokukoError CONFLICT ''Another entry already contains this content''
              else KiokukoError CONFLICT ''An entry revision already contains this content''))))"

definition pointer_moved :: "string \<Rightarrow> string \<Rightarrow> int \<Rightarrow> mem_db \<Rightarrow> unit result" where
  "pointer_moved workspace entryId revision db =
     check (map_option en_current_revision
         (find (\<lambda>e. en_id e = entryId \<and> en_workspace e = workspace) (md_entries db)) = Some revision)
       (KiokukoError CONFLICT ''Entry revision is stale'')"

definition updateCandidateEntryInTransactionInternal ::
    "mem_env \<Rightarrow> string \<Rightarrow> string \<Rightarrow> update_input \<Rightarrow> bool \<Rightarrow> (mem_db, entry_record) operation" where
  "updateCandidateEntryInTransactionInternal env eventId now input allowManagedExternal =
     obind (oread (\<lambda>_. requireWorkspace (VStr (up_workspace input)))) (\<lambda>workspace.
     obind (oread (\<lambda>_. positive_revision (up_expectedRevision input))) (\<lambda>_.
     obind (oread (\<lambda>db. check (allowManagedExternal \<or> up_entryId input \<notin> set (md_external db))
       (KiokukoError CONFLICT ''Managed external Skill entries cannot be edited''))) (\<lambda>_.
     obind (oread (\<lambda>_. validate_update env input)) (\<lambda>(validated, contentHash).
     obind (oread (update_guards env input contentHash)) (\<lambda>current.
     let nextRevision = up_expectedRevision input + 1 in
     obind (insertEntryRevisionInTransaction env
       (revision_input_of (up_entryId input) nextRevision validated contentHash
          (given_or ''kiokuko-web'' (up_createdBy input)) now)) (\<lambda>_.
     obind (update_entry (up_entryId input) workspace (up_expectedRevision input)
       (\<lambda>r. r\<lparr>en_current_revision := nextRevision, en_updated_at := now, en_verified_at := None\<rparr>)) (\<lambda>_.
     obind (oread (pointer_moved workspace (up_entryId input) nextRevision)) (\<lambda>_.
     obind (syncEntrySearchProjection env (search_input_of (up_entryId input) validated)) (\<lambda>_.
     obind (enqueueCurrentEntryEmbeddingInTransaction (up_entryId input) nextRevision contentHash now) (\<lambda>_.
     obind (recordAuditEvent eventId (Some (up_entryId input)) workspace ''record'' (rv_actor validated)
       [(''edited'', VBool True), (''previousRevision'', VNum (up_expectedRevision input)),
        (''revision'', VNum nextRevision), (''previousContentHash'', VStr (er_contentHash current)),
        (''contentHash'', VStr contentHash)] now) (\<lambda>_.
     oread (read_back env ''Updated entry could not be read back'' workspace (up_entryId input)))))))))))))"

definition updateCandidateEntryInTransaction ::
    "mem_env \<Rightarrow> string \<Rightarrow> string \<Rightarrow> update_input \<Rightarrow> (mem_db, entry_record) operation" where
  "updateCandidateEntryInTransaction env eventId now input =
     updateCandidateEntryInTransactionInternal env eventId now input False"

definition updateManagedExternalEntryInTransaction ::
    "mem_env \<Rightarrow> string \<Rightarrow> string \<Rightarrow> update_input \<Rightarrow> (mem_db, entry_record) operation" where
  "updateManagedExternalEntryInTransaction env eventId now input =
     updateCandidateEntryInTransactionInternal env eventId now input True"

definition updateCandidateEntry ::
    "mem_env \<Rightarrow> string \<Rightarrow> string \<Rightarrow> update_input \<Rightarrow> (mem_db, entry_record) session" where
  "updateCandidateEntry env eventId now input =
     withImmediateTransaction (updateCandidateEntryInTransaction env eventId now input)"

section \<open>Promotion, supersession and links\<close>

definition conflict_if :: "bool \<Rightarrow> string \<Rightarrow> unit result" where
  "conflict_if b message = check (\<not> b) (KiokukoError CONFLICT message)"

definition promote_in_transaction ::
    "mem_env \<Rightarrow> string \<Rightarrow> string \<Rightarrow> string \<Rightarrow> string \<Rightarrow> string \<Rightarrow> int \<Rightarrow> (mem_db, entry_record) operation" where
  "promote_in_transaction env eventId now actor workspace entryId expectedRevision =
     obind (oread (readEntry env workspace entryId False)) (\<lambda>current.
     obind (oread (\<lambda>db. conflict_if (entryId \<in> set (md_external db)) ''Managed external Skill entries cannot be promoted'')) (\<lambda>_.
     obind (oread (\<lambda>_. conflict_if (er_revision current \<noteq> expectedRevision) ''Entry revision is stale'')) (\<lambda>_.
     obind (oread (\<lambda>_. conflict_if (er_status current \<noteq> ''candidate'') ''Only candidate entries can be promoted'')) (\<lambda>_.
     obind (update_entry entryId workspace expectedRevision
       (\<lambda>r. r\<lparr>en_status := ''verified'', en_verified_at := Some now, en_updated_at := now\<rparr>)) (\<lambda>_.
     obind (recordAuditEvent eventId (Some entryId) workspace ''promote'' actor
       [(''expectedRevision'', VNum expectedRevision)] now) (\<lambda>_.
     oread (readEntry env workspace entryId False)))))))"

definition promoteEntry ::
    "mem_env \<Rightarrow> string \<Rightarrow> string \<Rightarrow> string option \<Rightarrow> string \<Rightarrow> string \<Rightarrow> int \<Rightarrow> (mem_db, entry_record) session" where
  "promoteEntry env eventId now actor workspace entryId expectedRevision c =
     (case positive_revision expectedRevision of
        Inl e \<Rightarrow> (Inl e, c)
      | Inr _ \<Rightarrow> withImmediateTransaction
          (promote_in_transaction env eventId now (given_or ''kiokuko-cli'' actor) workspace entryId expectedRevision) c)"

definition supersede_in_transaction ::
    "mem_env \<Rightarrow> string \<Rightarrow> string \<Rightarrow> string \<Rightarrow> string \<Rightarrow> string \<Rightarrow> string \<Rightarrow> int \<Rightarrow> (mem_db, entry_record) operation" where
  "supersede_in_transaction env eventId now actor workspace oldEntryId replacementEntryId expectedRevision =
     obind (oread (readEntry env workspace oldEntryId False)) (\<lambda>oldEntry.
     obind (oread (readEntry env workspace replacementEntryId False)) (\<lambda>replacement.
     obind (oread (\<lambda>db. conflict_if (oldEntryId \<in> set (md_external db) \<or> replacementEntryId \<in> set (md_external db))
       ''Managed external Skill entries cannot be superseded'')) (\<lambda>_.
     obind (oread (\<lambda>_. conflict_if (er_revision oldEntry \<noteq> expectedRevision) ''Entry revision is stale'')) (\<lambda>_.
     obind (oread (\<lambda>_. conflict_if (er_status oldEntry = ''superseded'') ''Entry is already superseded'')) (\<lambda>_.
     obind (oread (\<lambda>_. conflict_if (er_status replacement = ''superseded'') ''A superseded entry cannot be a replacement'')) (\<lambda>_.
     obind (update_entry oldEntryId workspace expectedRevision
       (\<lambda>r. r\<lparr>en_status := ''superseded'', en_superseded_by := Some replacementEntryId, en_updated_at := now\<rparr>)) (\<lambda>_.
     obind (recordAuditEvent eventId (Some oldEntryId) workspace ''supersede'' actor
       [(''replacementEntryId'', VStr replacementEntryId), (''expectedRevision'', VNum expectedRevision)] now) (\<lambda>_.
     oread (readEntry env workspace oldEntryId False)))))))))"

definition supersedeEntry ::
    "mem_env \<Rightarrow> string \<Rightarrow> string \<Rightarrow> string option \<Rightarrow> string \<Rightarrow> string \<Rightarrow> string \<Rightarrow> int \<Rightarrow> (mem_db, entry_record) session" where
  "supersedeEntry env eventId now actor workspace oldEntryId replacementEntryId expectedRevision c =
     (case rbind (positive_revision expectedRevision) (\<lambda>_.
        check (oldEntryId \<noteq> replacementEntryId) (KiokukoError VALIDATION_ERROR ''An entry cannot supersede itself'')) of
        Inl e \<Rightarrow> (Inl e, c)
      | Inr _ \<Rightarrow> withImmediateTransaction
          (supersede_in_transaction env eventId now (given_or ''kiokuko-cli'' actor) workspace oldEntryId
             replacementEntryId expectedRevision) c)"

definition LINK_RELATIONS :: "string list" where
  "LINK_RELATIONS = [''supports'', ''contradicts'', ''derived_from'', ''related_to'']"

definition insert_link :: "link_row \<Rightarrow> (mem_db, unit) operation" where
  "insert_link l db =
     (if lk_relation l \<notin> set LINK_RELATIONS then (Inl (SqliteError 275 ''CHECK constraint failed: entry_links''), db)
      else if list_ex (\<lambda>k. lk_from k = lk_from l \<and> lk_to k = lk_to l \<and> lk_relation k = lk_relation l) (md_links db)
      then (Inl (SqliteError 1555
              ''UNIQUE constraint failed: entry_links.from_entry_id, entry_links.to_entry_id, entry_links.relation''), db)
      else if \<not> (lk_from l \<in> set (entry_ids db) \<and> lk_to l \<in> set (entry_ids db)) then (Inl foreign_key_failed, db)
      else (Inr (), db\<lparr>md_links := md_links db @ [l]\<rparr>))"

definition link_in_transaction ::
    "string \<Rightarrow> string \<Rightarrow> string \<Rightarrow> string \<Rightarrow> string \<Rightarrow> string \<Rightarrow> string \<Rightarrow> (mem_db, unit) operation" where
  "link_in_transaction eventId now actor workspace fromEntryId toEntryId relation =
     obind (oread (\<lambda>db. check
       (length (filter (\<lambda>e. en_workspace e = workspace \<and> (en_id e = fromEntryId \<or> en_id e = toEntryId)) (md_entries db)) = 2)
       (KiokukoError NOT_FOUND ''Entry not found''))) (\<lambda>_.
     obind (insert_link \<lparr>lk_from = fromEntryId, lk_to = toEntryId, lk_relation = relation, lk_created_at = now,
       lk_created_by = actor\<rparr>) (\<lambda>_.
     obind (recordAuditEvent eventId (Some fromEntryId) workspace ''link'' actor
       [(''toEntryId'', VStr toEntryId), (''relation'', VStr relation)] now) (\<lambda>_.
     oreturn ())))"

definition linkEntries ::
    "string \<Rightarrow> string \<Rightarrow> string option \<Rightarrow> string \<Rightarrow> string \<Rightarrow> string \<Rightarrow> string \<Rightarrow> (mem_db, unit) session" where
  "linkEntries eventId now actor workspace fromEntryId toEntryId relation =
     withImmediateTransaction
       (link_in_transaction eventId now (given_or ''kiokuko-cli'' actor) workspace fromEntryId toEntryId relation)"

end
