(* ===== verification/Memory_Laws.thy ===== *)
theory Memory_Laws
  imports Memory_Entries
begin

text \<open>
  Laws of the memory store: what each operation leaves alone, that the history only grows, and that every
  operation leaves every entry readable. An operation is judged by a relation between the states before
  and after it; the locale \<open>step_relation\<close> composes such judgements along the code's sequencing, and
  \<open>entry_operation\<close> is the contract of an operation on one entry.
\<close>

section \<open>Relations between the states before and after\<close>

locale step_relation =
  fixes R :: "'d \<Rightarrow> 'd \<Rightarrow> bool"
  assumes same: "R d d" and chained: "R d d' \<Longrightarrow> R d' d'' \<Longrightarrow> R d d''"
begin

definition abides :: "('d, 'a) operation \<Rightarrow> bool" where
  "abides m = (\<forall>d x d'. m d = (Inr x, d') \<longrightarrow> R d d')"

lemma abidesD: "abides m \<Longrightarrow> m d = (Inr x, d') \<Longrightarrow> R d d'"
  by (simp add: abides_def)

lemma abides_reads: "abides (oreturn x)" "abides (ofail e)" "abides (oread f)" "abides (ocheck b e)"
  by (auto simp: abides_def same)

lemma abides_obind: "abides m \<Longrightarrow> (\<And>x. abides (f x)) \<Longrightarrow> abides (obind m f)"
  unfolding abides_def obind_Inr by (blast intro: chained)

lemma abides_oforeach:
  assumes "\<And>x. abides (f x)"
  shows "abides (oforeach f xs)"
  by (induction xs) (auto intro: abides_reads abides_obind assms)

lemma abides_case: "abides m \<Longrightarrow> (\<And>x. abides (f x)) \<Longrightarrow> abides (case y of None \<Rightarrow> m | Some x \<Rightarrow> f x)"
  by (cases y) auto

lemma abides_pair: "(\<And>a b. abides (f a b)) \<Longrightarrow> abides (case p of (a, b) \<Rightarrow> f a b)"
  by (cases p) auto

lemmas abides_intros = abides_obind abides_reads abides_oforeach abides_case abides_pair

end

text \<open>What the store holds about one entry; an operation on another entry leaves it as it is.\<close>

definition entry_view :: "mem_db \<Rightarrow> string \<Rightarrow> entry_row list \<times> revision_row list \<times> tag_row list" where
  "entry_view db i =
     (filter (\<lambda>e. en_id e = i) (md_entries db), filter (\<lambda>r. rn_entry_id r = i) (md_revisions db),
      filter (\<lambda>t. tg_entry_id t = i) (md_tags db))"

definition only_touches :: "string \<Rightarrow> mem_db \<Rightarrow> mem_db \<Rightarrow> bool" where
  "only_touches i d d' =
     ((\<forall>j. j \<noteq> i \<longrightarrow> entry_view d' j = entry_view d j) \<and> (distinct (entry_ids d) \<longrightarrow> distinct (entry_ids d')))"

interpretation touch: step_relation "only_touches i" for i
  by unfold_locales (auto simp: only_touches_def)

text \<open>The records of what happened are only ever extended.\<close>

definition history_grows :: "mem_db \<Rightarrow> mem_db \<Rightarrow> bool" where
  "history_grows d d' =
     (prefix (md_revisions d) (md_revisions d') \<and> prefix (md_tags d) (md_tags d') \<and> prefix (md_links d) (md_links d')
      \<and> prefix (md_audit d) (md_audit d') \<and> prefix (entry_ids d) (entry_ids d') \<and> md_external d' = md_external d)"

interpretation grow: step_relation history_grows
  by unfold_locales (auto simp: history_grows_def)

lemma insert_entry_Inr:
  "insert_entry r d = (Inr u, d') \<longleftrightarrow>
     en_id r \<notin> set (entry_ids d) \<and> entry_constraints (en_id r # entry_ids d) r = Inr ()
     \<and> d' = d\<lparr>md_entries := md_entries d @ [r\<lparr>en_rowid := fresh_rowid d\<rparr>]\<rparr>"
  by (auto simp: insert_entry_def split: sum.splits)

definition changed_rows :: "string \<Rightarrow> string \<Rightarrow> int \<Rightarrow> (entry_row \<Rightarrow> entry_row) \<Rightarrow> entry_row \<Rightarrow> entry_row" where
  "changed_rows i ws n f e = (if en_id e = i \<and> en_workspace e = ws \<and> en_current_revision e = n then f e else e)"

lemma update_entry_Inr:
  "update_entry i ws n f d = (Inr u, d') \<longrightarrow> d' = d\<lparr>md_entries := map (changed_rows i ws n f) (md_entries d)\<rparr>"
  by (auto simp: update_entry_def Let_def changed_rows_def [abs_def] split: sum.splits)

lemma insert_revision_Inr:
  "insert_revision_or_conflict r d = (Inr u, d') \<longrightarrow> d' = d\<lparr>md_revisions := md_revisions d @ [r]\<rparr>"
  by (auto simp: insert_revision_or_conflict_def insert_revision_def split: if_splits)

lemma insert_tag_Inr: "insert_tag t d = (Inr u, d') \<longrightarrow> d' = d\<lparr>md_tags := md_tags d @ [t]\<rparr>"
  by (auto simp: insert_tag_def split: if_splits)

lemma insert_link_Inr: "insert_link l d = (Inr u, d') \<longrightarrow> d' = d\<lparr>md_links := md_links d @ [l]\<rparr>"
  by (auto simp: insert_link_def split: if_splits)

lemma filter_map_same: "(\<And>x. P (f x) = P x) \<Longrightarrow> (\<And>x. P x \<Longrightarrow> f x = x) \<Longrightarrow> filter P (map f xs) = filter P xs"
  by (induction xs) auto

lemma entry_view_cong:
  "md_entries d' = md_entries d \<Longrightarrow> md_revisions d' = md_revisions d \<Longrightarrow> md_tags d' = md_tags d \<Longrightarrow> entry_view d' = entry_view d"
  by (simp add: entry_view_def fun_eq_iff)

text \<open>What an operation that leaves these tables alone relates.\<close>

definition beside :: "mem_db \<Rightarrow> mem_db \<Rightarrow> bool" where
  "beside d d' = (md_entries d' = md_entries d \<and> md_revisions d' = md_revisions d \<and> md_tags d' = md_tags d
     \<and> md_links d' = md_links d \<and> md_audit d' = md_audit d \<and> md_external d' = md_external d)"

interpretation beside: step_relation beside
  by unfold_locales (auto simp: beside_def)

lemma beside_search: "beside.abides (syncEntrySearchProjection env input)"
proof -
  have t: "beside.abides (\<lambda>db. (Inr (), f db))" if "\<And>db. beside db (f db)" for f :: "mem_db \<Rightarrow> mem_db"
    using that by (auto simp: beside.abides_def)
  have d: "beside.abides (insert_document i n s)" for i n s
    by (auto simp: beside.abides_def insert_document_def beside_def split: option.splits if_splits)
  have s: "beside.abides (insert_signal i p)" for i p
    by (auto simp: beside.abides_def insert_signal_def beside_def Let_def)
  show ?thesis
    unfolding syncEntrySearchProjection_def syncEntrySearchSignals_def Let_def
    by (intro beside.abides_intros t d s) (simp_all add: beside_def)
qed

lemma beside_enqueue: "beside.abides (enqueueCurrentEntryEmbeddingInTransaction i n h now)"
proof -
  have t: "beside.abides (\<lambda>db. (Inr (), f db))" if "\<And>db. beside db (f db)" for f :: "mem_db \<Rightarrow> mem_db"
    using that by (auto simp: beside.abides_def)
  show ?thesis
    unfolding enqueueCurrentEntryEmbeddingInTransaction_def enqueueForProfile_def
    by (intro beside.abides_intros t) (simp_all add: beside_def)
qed

lemma beside_touch: "beside d d' \<Longrightarrow> only_touches i d d'"
  by (simp add: beside_def only_touches_def entry_view_def entry_ids_def)

lemma beside_grow: "beside d d' \<Longrightarrow> history_grows d d'"
  by (simp add: beside_def history_grows_def entry_ids_def)

lemma touch_beside: "beside.abides m \<Longrightarrow> touch.abides i m"
  by (auto simp: beside.abides_def touch.abides_def beside_touch)

lemma grow_beside: "beside.abides m \<Longrightarrow> grow.abides m"
  by (auto simp: beside.abides_def grow.abides_def beside_grow)

section \<open>The writes\<close>

lemma changed_ids:
  assumes "\<And>e. en_id (f e) = en_id e"
  shows "entry_ids (d\<lparr>md_entries := map (changed_rows i ws n f) (md_entries d)\<rparr>) = entry_ids d"
  using assms by (simp add: entry_ids_def changed_rows_def)

lemma changed_view:
  assumes "\<And>e. en_id (f e) = en_id e" and "j \<noteq> i"
  shows "entry_view (d\<lparr>md_entries := map (changed_rows i ws n f) (md_entries d)\<rparr>) j = entry_view d j"
proof -
  have "filter (\<lambda>e. en_id e = j) (map (changed_rows i ws n f) (md_entries d)) = filter (\<lambda>e. en_id e = j) (md_entries d)"
    using assms by (intro filter_map_same) (auto simp: changed_rows_def)
  thus ?thesis by (simp add: entry_view_def)
qed

lemma touch_writes:
  "en_id r = i \<Longrightarrow> touch.abides i (insert_entry r)"
  "(\<And>e. en_id (f e) = en_id e) \<Longrightarrow> touch.abides i (update_entry i ws n f)"
  "rn_entry_id v = i \<Longrightarrow> touch.abides i (insert_revision_or_conflict v)"
  "tg_entry_id t = i \<Longrightarrow> touch.abides i (insert_tag t)"
  "touch.abides i (insert_link l)"
proof -
  show "touch.abides i (insert_entry r)" if "en_id r = i"
    using that by (auto simp: touch.abides_def insert_entry_Inr only_touches_def entry_view_def entry_ids_def)
  show "touch.abides i (update_entry i ws n f)" if "\<And>e. en_id (f e) = en_id e"
    using changed_ids [OF that] changed_view [OF that]
    by (auto simp: touch.abides_def only_touches_def dest!: update_entry_Inr [rule_format])
  show "touch.abides i (insert_revision_or_conflict v)" if "rn_entry_id v = i"
    using that by (auto simp: touch.abides_def only_touches_def entry_view_def entry_ids_def dest!: insert_revision_Inr [rule_format])
  show "touch.abides i (insert_tag t)" if "tg_entry_id t = i"
    using that by (auto simp: touch.abides_def only_touches_def entry_view_def entry_ids_def dest!: insert_tag_Inr [rule_format])
  show "touch.abides i (insert_link l)"
    by (auto simp: touch.abides_def only_touches_def entry_view_def entry_ids_def dest!: insert_link_Inr [rule_format])
qed

lemma grow_writes:
  "grow.abides (insert_entry r)"
  "(\<And>e. en_id (f e) = en_id e) \<Longrightarrow> grow.abides (update_entry i ws n f)"
  "grow.abides (insert_revision_or_conflict v)"
  "grow.abides (insert_tag t)"
  "grow.abides (insert_link l)"
proof -
  show "grow.abides (insert_entry r)"
    by (auto simp: grow.abides_def insert_entry_Inr history_grows_def entry_ids_def)
  show "grow.abides (update_entry i ws n f)" if "\<And>e. en_id (f e) = en_id e"
    using changed_ids [OF that]
    by (auto simp: grow.abides_def history_grows_def dest!: update_entry_Inr [rule_format])
  show "grow.abides (insert_revision_or_conflict v)"
    by (auto simp: grow.abides_def history_grows_def entry_ids_def dest!: insert_revision_Inr [rule_format])
  show "grow.abides (insert_tag t)"
    by (auto simp: grow.abides_def history_grows_def entry_ids_def dest!: insert_tag_Inr [rule_format])
  show "grow.abides (insert_link l)"
    by (auto simp: grow.abides_def history_grows_def entry_ids_def dest!: insert_link_Inr [rule_format])
qed

lemma recordAuditEvent_Inr:
  "recordAuditEvent ev i ws operation actor details t d = (Inr x, d') \<Longrightarrow> \<exists>a. d' = d\<lparr>md_audit := md_audit d @ [a]\<rparr>"
  by (auto simp: recordAuditEvent_def obind_Inr split: if_splits)

lemma audit_abides:
  "touch.abides j (recordAuditEvent ev i ws operation actor details t)"
  "grow.abides (recordAuditEvent ev i ws operation actor details t)"
  by (auto simp: touch.abides_def grow.abides_def only_touches_def history_grows_def entry_view_def entry_ids_def
      dest!: recordAuditEvent_Inr)

lemma revision_abides:
  "vi_entryId input = i \<Longrightarrow> touch.abides i (insertEntryRevisionInTransaction env input)"
  "grow.abides (insertEntryRevisionInTransaction env input)"
  unfolding insertEntryRevisionInTransaction_def
  by (intro touch.abides_intros touch_writes; simp) (intro grow.abides_intros grow_writes)

section \<open>The operations\<close>

lemma insert_new_abides:
  "touch.abides newId (insert_new_entry env newId ev now v h)"
  "grow.abides (insert_new_entry env newId ev now v h)"
  unfolding insert_new_entry_def
  by (intro touch.abides_intros touch_writes revision_abides audit_abides touch_beside [OF beside_search]
      touch_beside [OF beside_enqueue]; simp add: revision_input_of_def)
    (intro grow.abides_intros grow_writes revision_abides audit_abides grow_beside [OF beside_search]
      grow_beside [OF beside_enqueue])

lemma record_abides:
  "touch.abides newId (recordEntryInTransaction env newId ev now input)"
  "grow.abides (recordEntryInTransaction env newId ev now input)"
  unfolding recordEntryInTransaction_def
  by (intro touch.abides_intros insert_new_abides) (intro grow.abides_intros insert_new_abides)

lemma update_abides:
  "touch.abides (up_entryId input) (updateCandidateEntryInTransactionInternal env ev now input external)"
  "grow.abides (updateCandidateEntryInTransactionInternal env ev now input external)"
  unfolding updateCandidateEntryInTransactionInternal_def Let_def
  by (intro touch.abides_intros touch_writes revision_abides audit_abides touch_beside [OF beside_search]
      touch_beside [OF beside_enqueue]; simp add: revision_input_of_def)
    (intro grow.abides_intros grow_writes revision_abides audit_abides grow_beside [OF beside_search]
      grow_beside [OF beside_enqueue]; simp)

lemma promote_abides:
  "touch.abides i (promote_in_transaction env ev now actor ws i n)"
  "grow.abides (promote_in_transaction env ev now actor ws i n)"
  unfolding promote_in_transaction_def
  by (intro touch.abides_intros touch_writes audit_abides; simp) (intro grow.abides_intros grow_writes audit_abides; simp)

lemma supersede_abides:
  "touch.abides i (supersede_in_transaction env ev now actor ws i j n)"
  "grow.abides (supersede_in_transaction env ev now actor ws i j n)"
  unfolding supersede_in_transaction_def
  by (intro touch.abides_intros touch_writes audit_abides; simp) (intro grow.abides_intros grow_writes audit_abides; simp)

lemma link_abides:
  "touch.abides k (link_in_transaction ev now actor ws i j relation)"
  "grow.abides (link_in_transaction ev now actor ws i j relation)"
  unfolding link_in_transaction_def
  by (intro touch.abides_intros touch_writes audit_abides) (intro grow.abides_intros grow_writes audit_abides)

section \<open>Every entry stays readable\<close>

lemma find_filter: "(\<And>x. P x \<Longrightarrow> Q x) \<Longrightarrow> find P (filter Q xs) = find P xs"
  by (induction xs) auto

lemma entry_view_D:
  assumes "entry_view d' i = entry_view d i"
  shows "find (\<lambda>e. en_id e = i \<and> P e) (md_entries d') = find (\<lambda>e. en_id e = i \<and> P e) (md_entries d)"
    "find (\<lambda>r. rn_entry_id r = i \<and> Q r) (md_revisions d') = find (\<lambda>r. rn_entry_id r = i \<and> Q r) (md_revisions d)"
    "chain_of d' i = chain_of d i" "tagsFor d' i n = tagsFor d i n"
proof -
  note v = assms [unfolded entry_view_def, simplified]
  have f: "find (\<lambda>e. en_id e = i \<and> P e) es = find (\<lambda>e. en_id e = i \<and> P e) (filter (\<lambda>e. en_id e = i) es)" for es
    by (rule find_filter [symmetric]) simp
  show "find (\<lambda>e. en_id e = i \<and> P e) (md_entries d') = find (\<lambda>e. en_id e = i \<and> P e) (md_entries d)"
    using v f [of "md_entries d"] f [of "md_entries d'"] by simp
  have g: "find (\<lambda>r. rn_entry_id r = i \<and> Q r) rs = find (\<lambda>r. rn_entry_id r = i \<and> Q r) (filter (\<lambda>r. rn_entry_id r = i) rs)" for rs
    by (rule find_filter [symmetric]) simp
  show "find (\<lambda>r. rn_entry_id r = i \<and> Q r) (md_revisions d') = find (\<lambda>r. rn_entry_id r = i \<and> Q r) (md_revisions d)"
    using v g [of "md_revisions d"] g [of "md_revisions d'"] by simp
  show "chain_of d' i = chain_of d i" using v by (simp add: chain_of_def revisions_of_def)
  have t: "filter (\<lambda>t. tg_entry_id t = i \<and> tg_revision t = n) ts
      = filter (\<lambda>t. tg_revision t = n) (filter (\<lambda>t. tg_entry_id t = i) ts)" for ts
    by (simp add: conj_commute)
  show "tagsFor d' i n = tagsFor d i n" unfolding tagsFor_def t using v by simp
qed

lemma selectEntry_view:
  assumes "entry_view d' i = entry_view d i"
  shows "selectEntry env ws i q d' = selectEntry env ws i q d"
proof (cases "find (\<lambda>e. en_id e = i \<and> en_workspace e = ws) (md_entries d)")
  case None
  thus ?thesis using entry_view_D(1) [OF assms, of "\<lambda>e. en_workspace e = ws"] by (simp add: selectEntry_def)
next
  case (Some e)
  hence i: "en_id e = i" by (auto simp: find_Some_iff)
  have c: "current_row d' e = current_row d e"
    using entry_view_D(2) [OF assms, of "\<lambda>r. rn_revision r = en_current_revision e"] by (simp add: current_row_def i)
  have "rowToEntry env d' e row q = rowToEntry env d e row q" if "current_row d e = Some row" for row
  proof -
    have "rn_entry_id row = i" using that i by (auto simp: current_row_def find_Some_iff)
    thus ?thesis by (simp add: rowToEntry_def i entry_view_D(3,4) [OF assms])
  qed
  thus ?thesis
    using Some c entry_view_D(1) [OF assms, of "\<lambda>e. en_workspace e = ws"]
    by (auto simp: selectEntry_def split: option.splits)
qed

fun is_found :: "'a option result \<Rightarrow> bool" where
  "is_found (Inr (Some x)) = True"
| "is_found r = False"

lemma is_found_iff: "is_found r \<longleftrightarrow> (\<exists>x. r = Inr (Some x))"
  by (cases r rule: is_found.cases) auto

definition readable :: "mem_env \<Rightarrow> mem_db \<Rightarrow> entry_row \<Rightarrow> bool" where
  "readable env db e = is_found (selectEntry env (en_workspace e) (en_id e) False db)"

definition consistent :: "mem_env \<Rightarrow> mem_db \<Rightarrow> bool" where
  "consistent env db = (distinct (entry_ids db) \<and> list_all (readable env db) (md_entries db))"

lemma same_id: "distinct (entry_ids d) \<Longrightarrow> e \<in> set (md_entries d) \<Longrightarrow> e' \<in> set (md_entries d) \<Longrightarrow> en_id e = en_id e' \<Longrightarrow> e = e'"
  by (auto simp: entry_ids_def distinct_map dest: inj_onD)

lemma selected_row:
  "selectEntry env ws i q d = Inr (Some r) \<Longrightarrow>
     \<exists>e row. e \<in> set (md_entries d) \<and> en_id e = i \<and> en_workspace e = ws \<and> current_row d e = Some row
       \<and> rowToEntry env d e row q = Inr r"
  by (auto simp: selectEntry_def rbind_eq_Inr find_Some_iff split: option.splits dest!: nth_mem)

lemma selected_readable:
  assumes "selectEntry env ws i False d = Inr (Some r)" and "distinct (entry_ids d)"
    and "e \<in> set (md_entries d)" and "en_id e = i"
  shows "readable env d e"
proof -
  obtain e' where e': "e' \<in> set (md_entries d)" "en_id e' = i" "en_workspace e' = ws"
    using selected_row [OF assms(1)] by blast
  hence "e = e'" using same_id [OF assms(2,3)] assms(4) by simp
  thus ?thesis using e' assms(1) by (simp add: readable_def)
qed

lemma entry_view_row: "entry_view d' (en_id e) = entry_view d (en_id e) \<Longrightarrow> e \<in> set (md_entries d') \<Longrightarrow> e \<in> set (md_entries d)"
proof -
  assume v: "entry_view d' (en_id e) = entry_view d (en_id e)" and "e \<in> set (md_entries d')"
  hence "e \<in> set (filter (\<lambda>x. en_id x = en_id e) (md_entries d'))" by simp
  also have "\<dots> = set (filter (\<lambda>x. en_id x = en_id e) (md_entries d))" using v by (simp only: entry_view_def prod.inject)
  finally show ?thesis by simp
qed

text \<open>
  The contract of an operation on one entry: it touches no other entry, and the entry it touched can be
  read when it returns.
\<close>

locale entry_operation =
  fixes env :: mem_env and target :: "'i \<Rightarrow> string" and op :: "'i \<Rightarrow> (mem_db, 'a) operation"
  assumes op_touches: "touch.abides (target i) (op i)"
    and op_reads_back: "consistent env d \<Longrightarrow> op i d = (Inr x, d') \<Longrightarrow> distinct (entry_ids d') \<Longrightarrow>
      e \<in> set (md_entries d') \<Longrightarrow> en_id e = target i \<Longrightarrow> readable env d' e"
begin

lemma op_consistent:
  assumes "consistent env d" and "op i d = (Inr x, d')"
  shows "consistent env d'"
proof -
  have t: "only_touches (target i) d d'" using touch.abidesD [OF op_touches assms(2)] .
  hence ids: "distinct (entry_ids d')" using assms(1) by (simp add: only_touches_def consistent_def)
  have "readable env d' e" if e: "e \<in> set (md_entries d')" for e
  proof (cases "en_id e = target i")
    case True
    with op_reads_back [OF assms ids e] show ?thesis by blast
  next
    case False
    hence v: "entry_view d' (en_id e) = entry_view d (en_id e)" using t by (simp add: only_touches_def)
    have "e \<in> set (md_entries d)" by (rule entry_view_row [OF v e])
    hence "readable env d e" using assms(1) by (simp add: consistent_def list_all_iff)
    thus ?thesis by (simp add: readable_def selectEntry_view [OF v])
  qed
  with ids show ?thesis by (simp add: consistent_def list_all_iff)
qed

lemma session_consistent:
  assumes "working c = None" and "consistent env (committed c)"
  shows "consistent env (committed (snd (withImmediateTransaction (op i) c)))"
  using immediate.run_invariant [of "consistent env" "op i" c] op_consistent assms by blast

end

text \<open>An operation that ends by reading the entry.\<close>

definition ends_reading :: "mem_env \<Rightarrow> string \<Rightarrow> (mem_db, 'a) operation \<Rightarrow> bool" where
  "ends_reading env i m =
     (\<forall>d x d'. m d = (Inr x, d') \<longrightarrow> (\<exists>ws. is_found (selectEntry env ws i False d')))"

lemma ends_obind: "(\<And>x. ends_reading env i (f x)) \<Longrightarrow> ends_reading env i (obind m f)"
  unfolding ends_reading_def obind_Inr by blast

lemma ends_pair: "(\<And>a b. ends_reading env i (f a b)) \<Longrightarrow> ends_reading env i (case p of (a, b) \<Rightarrow> f a b)"
  by (cases p) simp

lemma ends_read:
  "ends_reading env i (oread (read_back env m ws i))" "ends_reading env i (oread (readEntry env ws i False))"
  by (auto simp: ends_reading_def read_back_def readEntry_def rbind_eq_Inr is_found_iff split: option.splits)

lemma ends_readable:
  "ends_reading env i m \<Longrightarrow> m d = (Inr x, d') \<Longrightarrow> distinct (entry_ids d') \<Longrightarrow> e \<in> set (md_entries d') \<Longrightarrow> en_id e = i
   \<Longrightarrow> readable env d' e"
  unfolding ends_reading_def is_found_iff by (blast intro: selected_readable)

lemmas ends_intros = ends_obind ends_pair ends_read

lemma operations_end_reading:
  "ends_reading env i (insert_new_entry env i ev now v h)"
  "ends_reading env (up_entryId input) (updateCandidateEntryInTransactionInternal env ev now input external)"
  "ends_reading env i (promote_in_transaction env ev now actor ws i n)"
  "ends_reading env i (supersede_in_transaction env ev now actor ws i j n)"
  unfolding insert_new_entry_def updateCandidateEntryInTransactionInternal_def promote_in_transaction_def
    supersede_in_transaction_def Let_def
  by (intro ends_intros)+

lemma record_cases:
  assumes "recordEntryInTransaction env newId ev now input d = (Inr r, d')"
  obtains (existing) v h p where "validateNewEntryInput env input = Inr (v, h)"
      "semanticRevision (rv_workspace v) h d = Some p" "existing_entry env v h p d = Inr r" "d' = d"
  | (new) v h where "validateNewEntryInput env input = Inr (v, h)" "semanticRevision (rv_workspace v) h d = None"
      "insert_new_entry env newId ev now v h d = (Inr r, d')"
proof -
  obtain v h where v: "validateNewEntryInput env input = Inr (v, h)"
    and rest: "(case semanticRevision (rv_workspace v) h d of
        Some found \<Rightarrow> oread (existing_entry env v h found) | None \<Rightarrow> insert_new_entry env newId ev now v h) d = (Inr r, d')"
    using assms by (auto simp: recordEntryInTransaction_def obind_Inr)
  show thesis
  proof (cases "semanticRevision (rv_workspace v) h d")
    case None
    show thesis by (rule new [OF v None]) (use rest None in simp)
  next
    case (Some p)
    show thesis by (rule existing [OF v Some]) (use rest Some in simp_all)
  qed
qed

interpretation recording: entry_operation env "\<lambda>(newId, ev, now, input). newId"
  "\<lambda>(newId, ev, now, input). recordEntryInTransaction env newId ev now input" for env
proof (unfold_locales, goal_cases)
  case (1 i)
  show ?case by (cases i) (simp add: record_abides)
next
  case (2 d i r d' e)
  obtain newId ev now input where i: "i = (newId, ev, now, input)" by (cases i)
  from 2(2) have "recordEntryInTransaction env newId ev now input d = (Inr r, d')" by (simp add: i)
  thus ?case
  proof (cases rule: record_cases)
    case existing
    with 2 show ?thesis by (simp add: consistent_def list_all_iff)
  next
    case new
    show ?thesis using ends_readable [OF operations_end_reading(1) new(3) 2(3,4)] 2(5) by (simp add: i)
  qed
qed

interpretation updating: entry_operation env "\<lambda>(ev, now, input, external). up_entryId input"
  "\<lambda>(ev, now, input, external). updateCandidateEntryInTransactionInternal env ev now input external" for env
  by unfold_locales (auto simp: update_abides intro: ends_readable [OF operations_end_reading(2)])

interpretation promoting: entry_operation env "\<lambda>(ev, now, actor, ws, i, n). i"
  "\<lambda>(ev, now, actor, ws, i, n). promote_in_transaction env ev now actor ws i n" for env
  by unfold_locales (auto simp: promote_abides intro: ends_readable [OF operations_end_reading(3)])

interpretation superseding: entry_operation env "\<lambda>(ev, now, actor, ws, i, j, n). i"
  "\<lambda>(ev, now, actor, ws, i, j, n). supersede_in_transaction env ev now actor ws i j n" for env
  by unfold_locales (auto simp: supersede_abides intro: ends_readable [OF operations_end_reading(4)])

lemma link_entries: "link_in_transaction ev now actor ws i j relation d = (Inr x, d') \<Longrightarrow> entry_view d' = entry_view d"
  using touch.abidesD [OF link_abides(1)] unfolding only_touches_def fun_eq_iff
  by (metis list.distinct(1))

interpretation linking: entry_operation env "\<lambda>(ev, now, actor, ws, i, j, relation). i"
  "\<lambda>(ev, now, actor, ws, i, j, relation). link_in_transaction ev now actor ws i j relation" for env
proof (unfold_locales, goal_cases)
  case (1 i)
  show ?case by (cases i) (simp add: link_abides)
next
  case (2 d i x d' e)
  obtain ev now actor ws f j relation where i: "i = (ev, now, actor, ws, f, j, relation)" by (cases i)
  from 2(2) have v: "entry_view d' = entry_view d" using link_entries by (auto simp: i)
  have "e \<in> set (md_entries d)" by (rule entry_view_row [OF fun_cong [OF v] 2(4)])
  hence "readable env d e" using 2(1) by (simp add: consistent_def list_all_iff)
  thus ?case using v by (simp add: readable_def selectEntry_view [of d' _ d])
qed

end
