(* ===== verification/Memory_History.thy ===== *)
theory Memory_History
  imports Memory_Laws
begin

text \<open>
  Histories of the memory store: the life cycle of an entry, what recording the same content twice does,
  and the theorems over every sequence of operations.
\<close>

section \<open>The life of an entry\<close>

fun may_become :: "string \<Rightarrow> string \<Rightarrow> bool" where
  "may_become s t = (s = t \<or> s = ''candidate'' \<or> (s = ''verified'' \<and> t = ''superseded''))"

definition evolves :: "entry_row \<Rightarrow> entry_row \<Rightarrow> bool" where
  "evolves e e' =
     (en_rowid e' = en_rowid e \<and> en_id e' = en_id e \<and> en_workspace e' = en_workspace e
      \<and> en_trust_level e' = en_trust_level e \<and> en_confidence e' = en_confidence e
      \<and> en_created_by e' = en_created_by e \<and> en_created_at e' = en_created_at e
      \<and> may_become (en_status e) (en_status e') \<and> en_current_revision e \<le> en_current_revision e'
      \<and> (en_status e \<noteq> ''candidate'' \<longrightarrow>
           en_current_revision e' = en_current_revision e \<and> en_verified_at e' = en_verified_at e)
      \<and> (en_status e = ''superseded'' \<longrightarrow> e' = e))"

lemma evolves_refl: "evolves e e"
  by (simp add: evolves_def)

lemma evolves_trans:
  assumes "evolves e e'" and "evolves e' e''"
  shows "evolves e e''"
  using assms unfolding evolves_def by (elim conjE) (intro conjI, auto)

definition entries_evolve :: "mem_db \<Rightarrow> mem_db \<Rightarrow> bool" where
  "entries_evolve d d' = list_all (\<lambda>e. list_ex (evolves e) (md_entries d')) (md_entries d)"

lemma entries_evolve_iff: "entries_evolve d d' \<longleftrightarrow> (\<forall>e \<in> set (md_entries d). \<exists>e' \<in> set (md_entries d'). evolves e e')"
  by (simp add: entries_evolve_def list_all_iff list_ex_iff)

definition lawful :: "mem_db \<Rightarrow> mem_db \<Rightarrow> bool" where
  "lawful d d' = (history_grows d d' \<and> (distinct (entry_ids d) \<longrightarrow> distinct (entry_ids d') \<and> entries_evolve d d'))"

lemma entries_evolve_trans: "entries_evolve d d' \<Longrightarrow> entries_evolve d' d'' \<Longrightarrow> entries_evolve d d''"
  unfolding entries_evolve_iff by (meson evolves_trans)

lemma entries_evolve_refl: "entries_evolve d d"
  unfolding entries_evolve_iff by (blast intro: evolves_refl)

interpretation law: step_relation lawful
  by unfold_locales
    (auto simp: lawful_def grow.same entries_evolve_refl intro: grow.chained entries_evolve_trans)

lemma lawfulI:
  assumes "only_touches i d d'" and "history_grows d d'" and "distinct (entry_ids d) \<Longrightarrow> entries_evolve d d'"
  shows "lawful d d'"
  using assms by (simp add: lawful_def only_touches_def)

text \<open>Operations that keep every entry row.\<close>

definition rows_kept :: "mem_db \<Rightarrow> mem_db \<Rightarrow> bool" where
  "rows_kept d d' = prefix (md_entries d) (md_entries d')"

interpretation kept: step_relation rows_kept
  by unfold_locales (auto simp: rows_kept_def)

lemma kept_beside: "beside.abides m \<Longrightarrow> kept.abides m"
  by (auto simp: beside.abides_def kept.abides_def beside_def rows_kept_def)

lemma kept_writes:
  "kept.abides (insert_entry r)" "kept.abides (insert_revision_or_conflict v)" "kept.abides (insert_tag t)"
  "kept.abides (insert_link l)" "kept.abides (recordAuditEvent ev j ws operation actor details now)"
  by (auto simp: kept.abides_def rows_kept_def insert_entry_Inr
      dest!: insert_revision_Inr [rule_format] insert_tag_Inr [rule_format] insert_link_Inr [rule_format] recordAuditEvent_Inr)

lemma kept_revision: "kept.abides (insertEntryRevisionInTransaction env input)"
  unfolding insertEntryRevisionInTransaction_def by (intro kept.abides_intros kept_writes)

lemmas kept_intros = kept.abides_intros kept_writes kept_revision kept_beside [OF beside_search] kept_beside [OF beside_enqueue]

lemma record_link_kept:
  "kept.abides (recordEntryInTransaction env newId ev now input)"
  "kept.abides (link_in_transaction ev now actor ws i j relation)"
  unfolding recordEntryInTransaction_def insert_new_entry_def link_in_transaction_def
  by (intro kept_intros)+

lemma kept_evolve: "rows_kept d d' \<Longrightarrow> entries_evolve d d'"
  by (auto simp: rows_kept_def entries_evolve_iff prefix_def intro: evolves_refl)

text \<open>The entry rows are the same before and after.\<close>

definition rows_same :: "mem_db \<Rightarrow> mem_db \<Rightarrow> bool" where
  "rows_same d d' = (md_entries d' = md_entries d)"

interpretation fixed: step_relation rows_same
  by unfold_locales (auto simp: rows_same_def)

lemma fixed_beside: "beside.abides m \<Longrightarrow> fixed.abides m"
  by (auto simp: beside.abides_def fixed.abides_def beside_def rows_same_def)

lemma fixed_writes:
  "fixed.abides (insert_revision_or_conflict v)" "fixed.abides (insert_tag t)"
  "fixed.abides (recordAuditEvent ev j ws operation actor details now)"
  by (auto simp: fixed.abides_def rows_same_def
      dest!: insert_revision_Inr [rule_format] insert_tag_Inr [rule_format] recordAuditEvent_Inr)

lemma fixed_revision: "fixed.abides (insertEntryRevisionInTransaction env input)"
  unfolding insertEntryRevisionInTransaction_def by (intro fixed.abides_intros fixed_writes)

lemmas fixed_rows = fixed_writes [THEN fixed.abidesD] fixed_revision [THEN fixed.abidesD]
  fixed_beside [OF beside_search, THEN fixed.abidesD] fixed_beside [OF beside_enqueue, THEN fixed.abidesD]

text \<open>The row behind an entry that was read.\<close>

lemma decoded_row:
  "rowToEntry env d e row q = Inr r \<Longrightarrow>
     er_status r = en_status e \<and> er_revision r = en_current_revision e \<and> er_status r \<in> set ENTRY_STATUSES"
  by (auto simp: rowToEntry_def decodeEntryRow_def rbind_eq_Inr decodedStoredEntry_def)

lemma read_row:
  assumes "readEntry env ws i q d = Inr r"
  obtains e where "e \<in> set (md_entries d)" "en_id e = i" "en_workspace e = ws" "er_status r = en_status e"
    "er_revision r = en_current_revision e" "er_status r \<in> set ENTRY_STATUSES"
proof -
  have "selectEntry env ws i q d = Inr (Some r)"
    using assms by (auto simp: readEntry_def rbind_eq_Inr requireWorkspace_def nonempty_field_Inr split: option.splits)
  from selected_row [OF this] decoded_row show thesis by (metis that)
qed

text \<open>One guarded update of the entry that was read.\<close>

lemma update_evolves:
  assumes "readEntry env ws i False d = Inr r" and "er_revision r = n" and "distinct (entry_ids d)"
    and "md_entries d1 = md_entries d" and "update_entry i ws' n f d1 = (Inr u, d2)" and "md_entries d' = md_entries d2"
    and "\<And>e. en_status e = er_status r \<Longrightarrow> en_current_revision e = n \<Longrightarrow> evolves e (f e)"
  shows "entries_evolve d d'"
proof -
  obtain e where e: "e \<in> set (md_entries d)" "en_id e = i" "er_status r = en_status e" "er_revision r = en_current_revision e"
    by (rule read_row [OF assms(1)])
  have rows: "md_entries d' = map (changed_rows i ws' n f) (md_entries d)"
    using update_entry_Inr [rule_format, OF assms(5)] assms(4,6) by simp
  have "evolves x (changed_rows i ws' n f x)" if x: "x \<in> set (md_entries d)" for x
  proof (cases "en_id x = i")
    case True
    hence "x = e" using same_id [OF assms(3) x e(1)] e(2) by simp
    thus ?thesis using assms(2,7) e(3,4) by (simp add: changed_rows_def evolves_refl)
  qed (simp add: changed_rows_def evolves_refl)
  thus ?thesis unfolding entries_evolve_iff rows by auto
qed

lemma update_guards_Inr:
  "update_guards env input h d = Inr r \<Longrightarrow>
     readEntry env (up_workspace input) (up_entryId input) False d = Inr r \<and> er_status r = ''candidate''
     \<and> er_revision r = up_expectedRevision input"
  by (auto simp: update_guards_def rbind_eq_Inr split: option.splits)

lemma update_evolve:
  assumes "updateCandidateEntryInTransactionInternal env ev now input external d = (Inr x, d')" and "distinct (entry_ids d)"
  shows "entries_evolve d d'"
proof -
  obtain ws h r v d1 u d2 where g: "update_guards env input h d = Inr r"
    and a: "md_entries d1 = md_entries d"
    and w: "update_entry (up_entryId input) ws (up_expectedRevision input)
       (\<lambda>r. r\<lparr>en_current_revision := up_expectedRevision input + 1, en_updated_at := now, en_verified_at := None\<rparr>) d1 = (Inr u, d2)"
    and b: "md_entries d' = md_entries d2"
    using assms(1)
    by (auto simp: updateCandidateEntryInTransactionInternal_def obind_Inr Let_def rows_same_def dest!: fixed_rows split: prod.splits)
  from update_guards_Inr [OF g] show ?thesis
    by (intro update_evolves [OF _ _ assms(2) a w b]) (auto simp: evolves_def)
qed

lemma promote_evolve:
  assumes "promote_in_transaction env ev now actor ws i n d = (Inr x, d')" and "distinct (entry_ids d)"
  shows "entries_evolve d d'"
proof -
  obtain r u d2 where g: "readEntry env ws i False d = Inr r" "er_revision r = n" "er_status r = ''candidate''"
    and w: "update_entry i ws n
       (\<lambda>r. r\<lparr>en_status := ''verified'', en_verified_at := Some now, en_updated_at := now\<rparr>) d = (Inr u, d2)"
    and b: "md_entries d' = md_entries d2"
    using assms(1) by (auto simp: promote_in_transaction_def obind_Inr conflict_if_def rows_same_def dest!: fixed_rows)
  show ?thesis by (rule update_evolves [OF g(1,2) assms(2) refl w b]) (use g in \<open>auto simp: evolves_def\<close>)
qed

lemma supersede_evolve:
  assumes "supersede_in_transaction env ev now actor ws i j n d = (Inr x, d')" and "distinct (entry_ids d)"
  shows "entries_evolve d d'"
proof -
  obtain r u d2 where g: "readEntry env ws i False d = Inr r" "er_revision r = n" "er_status r \<noteq> ''superseded''"
    and w: "update_entry i ws n
       (\<lambda>r. r\<lparr>en_status := ''superseded'', en_superseded_by := Some j, en_updated_at := now\<rparr>) d = (Inr u, d2)"
    and b: "md_entries d' = md_entries d2"
    using assms(1) by (auto simp: supersede_in_transaction_def obind_Inr conflict_if_def rows_same_def dest!: fixed_rows)
  have "er_status r \<in> set ENTRY_STATUSES" by (rule read_row [OF g(1)])
  hence s: "er_status r = ''candidate'' \<or> er_status r = ''verified''" using g(3) by (simp add: ENTRY_STATUSES_def)
  show ?thesis by (rule update_evolves [OF g(1,2) assms(2) refl w b]) (use s in \<open>auto simp: evolves_def\<close>)
qed

section \<open>Histories\<close>

text \<open>One call of an entry point on a connection with no transaction open.\<close>

inductive memory_step :: "mem_env \<Rightarrow> mem_db connection \<Rightarrow> mem_db connection \<Rightarrow> bool" for env where
  "working c = None \<Longrightarrow> memory_step env c (snd (recordEntry env newId ev now input c))"
| "working c = None \<Longrightarrow> memory_step env c (snd (updateCandidateEntry env ev now update c))"
| "working c = None \<Longrightarrow> memory_step env c (snd (promoteEntry env ev now actor ws i n c))"
| "working c = None \<Longrightarrow> memory_step env c (snd (supersedeEntry env ev now actor ws i j n c))"
| "working c = None \<Longrightarrow> memory_step env c (snd (linkEntries ev now actor ws i j relation c))"

definition memory_run :: "mem_env \<Rightarrow> mem_db connection \<Rightarrow> mem_db connection \<Rightarrow> bool" where
  "memory_run env = (memory_step env)\<^sup>*\<^sup>*"

text \<open>What every operation keeps or relates, every history does.\<close>

lemma step_inv:
  assumes "memory_step env c c'" and "I (committed c)"
    and "\<And>newId ev now input d x d'. I d \<Longrightarrow> recordEntryInTransaction env newId ev now input d = (Inr x, d') \<Longrightarrow> I d'"
    and "\<And>ev now input d x d'. I d \<Longrightarrow>
      updateCandidateEntryInTransactionInternal env ev now input False d = (Inr x, d') \<Longrightarrow> I d'"
    and "\<And>ev now actor ws i n d x d'. I d \<Longrightarrow> promote_in_transaction env ev now actor ws i n d = (Inr x, d') \<Longrightarrow> I d'"
    and "\<And>ev now actor ws i j n d x d'. I d \<Longrightarrow> supersede_in_transaction env ev now actor ws i j n d = (Inr x, d') \<Longrightarrow> I d'"
    and "\<And>ev now actor ws i j r d x d'. I d \<Longrightarrow> link_in_transaction ev now actor ws i j r d = (Inr x, d') \<Longrightarrow> I d'"
  shows "I (committed c')"
  using assms(1)
proof cases
  case (1 newId ev now input)
  show ?thesis unfolding 1(1) recordEntry_def by (rule immediate.run_invariant [where I = I, OF assms(3) 1(2) assms(2)])
next
  case (2 ev now update)
  show ?thesis unfolding 2(1) updateCandidateEntry_def updateCandidateEntryInTransaction_def
    by (rule immediate.run_invariant [where I = I, OF assms(4) 2(2) assms(2)])
next
  case (3 ev now actor ws i n)
  have "I (committed (snd (withImmediateTransaction (promote_in_transaction env ev now a ws i n) c)))" for a
    by (rule immediate.run_invariant [where I = I, OF assms(5) 3(2) assms(2)])
  thus ?thesis unfolding 3(1) promoteEntry_def using assms(2) by (simp split: sum.split)
next
  case (4 ev now actor ws i j n)
  have "I (committed (snd (withImmediateTransaction (supersede_in_transaction env ev now a ws i j n) c)))" for a
    by (rule immediate.run_invariant [where I = I, OF assms(6) 4(2) assms(2)])
  thus ?thesis unfolding 4(1) supersedeEntry_def using assms(2) by (simp split: sum.split)
next
  case (5 ev now actor ws i j relation)
  show ?thesis unfolding 5(1) linkEntries_def by (rule immediate.run_invariant [where I = I, OF assms(7) 5(2) assms(2)])
qed

lemma operations_consistent:
  "consistent env d \<Longrightarrow> recordEntryInTransaction env newId ev now input d = (Inr x, d') \<Longrightarrow> consistent env d'"
  "consistent env d \<Longrightarrow> updateCandidateEntryInTransactionInternal env ev now update external d = (Inr x, d') \<Longrightarrow> consistent env d'"
  "consistent env d \<Longrightarrow> promote_in_transaction env ev now actor ws i n d = (Inr x, d') \<Longrightarrow> consistent env d'"
  "consistent env d \<Longrightarrow> supersede_in_transaction env ev now actor ws i j n d = (Inr x, d') \<Longrightarrow> consistent env d'"
  "consistent env d \<Longrightarrow> link_in_transaction ev now actor ws i j relation d = (Inr u, d') \<Longrightarrow> consistent env d'"
  using recording.op_consistent [of env d "(newId, ev, now, input)" x d']
    updating.op_consistent [of env d "(ev, now, update, external)" x d']
    promoting.op_consistent [of env d "(ev, now, actor, ws, i, n)" x d']
    superseding.op_consistent [of env d "(ev, now, actor, ws, i, j, n)" x d']
    linking.op_consistent [of env d "(ev, now, actor, ws, i, j, relation)" u d']
  by simp_all

lemma step_consistent:
  assumes "memory_step env c c'" and "consistent env (committed c)"
  shows "consistent env (committed c')"
  by (rule step_inv [of env c c' "consistent env", OF assms]; erule (1) operations_consistent)

lemma op_lawful:
  "recordEntryInTransaction env newId ev now input d = (Inr x, d') \<Longrightarrow> lawful d d'"
  "updateCandidateEntryInTransactionInternal env ev now update external d = (Inr x, d') \<Longrightarrow> lawful d d'"
  "promote_in_transaction env ev now actor ws i n d = (Inr x, d') \<Longrightarrow> lawful d d'"
  "supersede_in_transaction env ev now actor ws i j n d = (Inr x, d') \<Longrightarrow> lawful d d'"
  "link_in_transaction ev now actor ws i j relation d = (Inr u, d') \<Longrightarrow> lawful d d'"
  by (rule lawfulI; (erule touch.abidesD [rotated] grow.abidesD [rotated])?;
      (rule record_abides update_abides promote_abides supersede_abides link_abides)?;
      auto intro: kept_evolve kept.abidesD [OF record_link_kept(1)] kept.abidesD [OF record_link_kept(2)]
        update_evolve promote_evolve supersede_evolve)+

lemma step_lawful:
  assumes "memory_step env c c'" and "lawful d (committed c)"
  shows "lawful d (committed c')"
  by (rule step_inv [of env c c' "lawful d", OF assms]; erule law.chained; erule op_lawful)

section \<open>Recording the same content again\<close>

text \<open>Operations that keep the entries and the revisions.\<close>

definition pages_same :: "mem_db \<Rightarrow> mem_db \<Rightarrow> bool" where
  "pages_same d d' = (md_entries d' = md_entries d \<and> md_revisions d' = md_revisions d)"

interpretation paged: step_relation pages_same
  by unfold_locales (auto simp: pages_same_def)

lemma paged_writes:
  "paged.abides (insert_tag t)" "paged.abides (recordAuditEvent ev j ws operation actor details now)"
  by (auto simp: paged.abides_def pages_same_def dest!: insert_tag_Inr [rule_format] recordAuditEvent_Inr)

lemma paged_beside: "beside.abides m \<Longrightarrow> paged.abides m"
  by (auto simp: beside.abides_def paged.abides_def beside_def pages_same_def)

lemmas paged_pages = paged_writes [THEN paged.abidesD] paged.abides_oforeach [OF paged_writes(1), THEN paged.abidesD]
  paged_beside [OF beside_search, THEN paged.abidesD] paged_beside [OF beside_enqueue, THEN paged.abidesD]

definition new_page :: "revision_input \<Rightarrow> revision_row \<Rightarrow> mem_db \<Rightarrow> mem_db \<Rightarrow> bool" where
  "new_page input row d d' =
     (md_revisions d' = md_revisions d @ [row] \<and> md_entries d' = md_entries d
      \<and> rn_entry_id row = vi_entryId input \<and> rn_workspace row = vi_workspace input \<and> rn_revision row = vi_revision input
      \<and> opt_all (\<lambda>h. h = rn_content_hash row) (vi_contentHash input)
      \<and> \<not> list_ex (\<lambda>q. rn_entry_id q = vi_entryId input \<and> rn_revision q = vi_revision input) (md_revisions d))"

lemma insert_revision_page:
  "insert_revision_or_conflict row d = (Inr u, d') \<Longrightarrow>
     d' = d\<lparr>md_revisions := md_revisions d @ [row]\<rparr>
     \<and> \<not> list_ex (\<lambda>q. rn_entry_id q = rn_entry_id row \<and> rn_revision q = rn_revision row) (md_revisions d)"
  by (auto simp: insert_revision_or_conflict_def insert_revision_def split: if_splits)

lemma found_or_fail:
  "(case y of None \<Rightarrow> ofail e | Some r \<Rightarrow> oreturn r) d = (Inr x, d') \<longleftrightarrow> y = Some x \<and> d' = d"
  by (cases y) auto

lemma inserted_page:
  assumes "insertEntryRevisionInTransaction env input d = (Inr x, d')"
  obtains row where "new_page input row d d'"
proof -
  obtain row u d1 d2 where w: "insert_revision_or_conflict row d = (Inr u, d1)"
    and t: "pages_same d1 d2"
    and r: "rn_entry_id row = vi_entryId input" "rn_workspace row = vi_workspace input"
      "rn_revision row = vi_revision input" "opt_all (\<lambda>h. h = rn_content_hash row) (vi_contentHash input)"
    and e: "d' = d2"
    using assms unfolding insertEntryRevisionInTransaction_def obind_Inr oread_Inr ocheck_Inr found_or_fail
    apply (elim exE conjE)
    apply (simp only:)
    apply (rule that)
    apply assumption
    apply (erule paged_pages(3))
    apply (simp_all only: revision_row.simps)
    done
  from t show thesis using r insert_revision_page [OF w] e by (intro that) (auto simp: new_page_def pages_same_def)
qed

definition new_entry_row :: "string \<Rightarrow> validated_record \<Rightarrow> entry_row \<Rightarrow> bool" where
  "new_entry_row newId v e =
     (en_id e = newId \<and> en_workspace e = rv_workspace v \<and> en_status e = rv_status v \<and> en_trust_level e = rv_trustLevel v
      \<and> en_confidence e = rv_confidence v \<and> en_created_by e = rv_createdBy v \<and> en_current_revision e = 1)"

lemma insert_new_rows:
  assumes "insert_new_entry env newId ev now v h d = (Inr r, d')"
  obtains e row where "md_entries d' = md_entries d @ [e]" "new_entry_row newId v e" "newId \<notin> set (entry_ids d)"
    "md_revisions d' = md_revisions d @ [row]" "rn_entry_id row = newId" "rn_workspace row = rv_workspace v"
    "rn_revision row = 1" "rn_content_hash row = h"
    "\<not> list_ex (\<lambda>q. rn_entry_id q = newId \<and> rn_revision q = 1) (md_revisions d)"
    "selectEntry env (rv_workspace v) newId False d' = Inr (Some r)"
proof -
  obtain e0 u d1 x d2 d3 d4 d5 u3 u4 u5 ev' where i: "insert_entry e0 d = (Inr u, d1)"
    and v: "insertEntryRevisionInTransaction env (revision_input_of newId 1 v h (rv_createdBy v) now) d1 = (Inr x, d2)"
    and p: "syncEntrySearchProjection env (search_input_of newId v) d2 = (Inr u3, d3)"
      "enqueueCurrentEntryEmbeddingInTransaction newId 1 h now d3 = (Inr u4, d4)"
      "recordAuditEvent ev (Some newId) (rv_workspace v) ''record'' (rv_actor v)
         [(''contentHash'', VStr h), (''status'', VStr (rv_status v))] now d4 = (Inr ev', d5)"
    and b: "read_back env ''Recorded entry could not be read back'' (rv_workspace v) newId d5 = Inr r" and d': "d' = d5"
    and e0: "new_entry_row newId v e0"
    using assms unfolding insert_new_entry_def obind_Inr oread_Inr
    apply (elim exE conjE)
    apply (rule that)
    apply assumption+
    apply (simp only: new_entry_row_def entry_row.simps)
    done
  have p: "pages_same d2 d'"
    unfolding d' by (rule paged.chained [OF paged_pages(4) [OF p(1)] paged.chained [OF paged_pages(5) [OF p(2)] paged_pages(2) [OF p(3)]]])
  obtain row where "new_page (revision_input_of newId 1 v h (rv_createdBy v) now) row d1 d2" by (rule inserted_page [OF v])
  moreover have "selectEntry env (rv_workspace v) newId False d' = Inr (Some r)"
    using b d' by (auto simp: read_back_def rbind_eq_Inr split: option.splits)
  ultimately show thesis
    using i p e0 by (intro that [of "e0\<lparr>en_rowid := fresh_rowid d\<rparr>" row])
      (auto simp: insert_entry_Inr new_page_def pages_same_def revision_input_of_def new_entry_row_def)
qed

definition holds_content :: "entry_record \<Rightarrow> validated_record \<Rightarrow> string \<Rightarrow> bool" where
  "holds_content r v h =
     (er_workspace r = rv_workspace v \<and> er_contentHash r = h \<and> er_status r = rv_status v
      \<and> er_trustLevel r = rv_trustLevel v \<and> er_confidence r = rv_confidence v \<and> er_createdBy r = rv_createdBy v)"

lemma decoded_content:
  "rowToEntry env d e row q = Inr r \<Longrightarrow> er_workspace r = en_workspace e \<and> er_contentHash r = rn_content_hash row
     \<and> er_status r = en_status e \<and> er_trustLevel r = en_trust_level e \<and> er_confidence r = en_confidence e
     \<and> er_createdBy r = en_created_by e \<and> er_revision r = en_current_revision e \<and> er_id r = en_id e"
  by (auto simp: rowToEntry_def decodeEntryRow_def rbind_eq_Inr decodedStoredEntry_def normalizedStoredRecord_def)

lemma existing_content:
  assumes "existing_entry env v h p d = Inr r"
  shows "holds_content r v h"
proof -
  obtain found where f: "selectEntry env (rv_workspace v) (fst p) False d = Inr found"
    and g: "(case found of
       None \<Rightarrow> Inl (KiokukoError INTEGRITY_ERROR ''Entry hash index points to a missing entry'')
     | Some r \<Rightarrow>
         rbind (check (er_revision r = snd p \<and> er_contentHash r = h)
           (KiokukoError CONFLICT ''This content exists only as a historical entry revision'')) (\<lambda>_.
         rbind (check (er_status r = rv_status v \<and> er_trustLevel r = rv_trustLevel v
             \<and> er_confidence r = rv_confidence v \<and> er_createdBy r = rv_createdBy v)
           (KiokukoError CONFLICT ''Current entry content exists with different record metadata'')) (\<lambda>_.
         Inr r))) = Inr r"
    using assms unfolding existing_entry_def rbind_eq_Inr by (elim exE conjE) (rule that)
  have c: "found = Some r" "er_contentHash r = h" "er_status r = rv_status v" "er_trustLevel r = rv_trustLevel v"
      "er_confidence r = rv_confidence v" "er_createdBy r = rv_createdBy v"
    using g by (cases found; simp only: option.simps rbind_eq_Inr check_eq_Inr sum.simps; fastforce)+
  from selected_row [OF f [unfolded c(1)]] decoded_content have "er_workspace r = rv_workspace v" by metis
  with c show ?thesis by (simp add: holds_content_def)
qed

lemma find_last: "\<not> list_ex P xs \<Longrightarrow> P x \<Longrightarrow> find P (xs @ [x]) = Some x"
  by (induction xs) auto

lemma record_again_outcome:
  assumes "recordEntryInTransaction env newId ev now input d = (Inr r, d1)"
  shows "\<exists>v h. validateNewEntryInput env input = Inr (v, h) \<and> holds_content r v h
    \<and> recordEntryInTransaction env newId' ev' now' input d1 = (Inr r, d1)"
  using assms
proof (cases rule: record_cases)
  case (existing v h p)
  from existing_content [OF existing(3)]
  have "holds_content r v h" .
  thus ?thesis using existing by (auto simp: recordEntryInTransaction_def obind_Inr)
next
  case (new v h)
  obtain e row where rows: "md_entries d1 = md_entries d @ [e]" "new_entry_row newId v e" "newId \<notin> set (entry_ids d)"
    "md_revisions d1 = md_revisions d @ [row]" "rn_entry_id row = newId" "rn_workspace row = rv_workspace v"
    "rn_revision row = 1" "rn_content_hash row = h"
    "\<not> list_ex (\<lambda>q. rn_entry_id q = newId \<and> rn_revision q = 1) (md_revisions d)"
    and s: "selectEntry env (rv_workspace v) newId False d1 = Inr (Some r)"
    by (rule insert_new_rows [OF new(3)])
  obtain e' row' where e': "e' \<in> set (md_entries d1)" "en_id e' = newId" "current_row d1 e' = Some row'"
      "rowToEntry env d1 e' row' False = Inr r"
    using selected_row [OF s] by blast
  have e: "e' = e" using e' rows(1,3) by (auto simp: entry_ids_def)
  have "row' = row"
    using e'(3) find_last [OF rows(9), of row] rows(2,4,5,7) by (simp add: e current_row_def new_entry_row_def)
  hence c: "holds_content r v h" "er_revision r = 1"
    using decoded_content [OF e'(4)] rows(2,8) by (auto simp: e holds_content_def new_entry_row_def)
  have "\<not> list_ex (\<lambda>q. rn_workspace q = rv_workspace v \<and> rn_content_hash q = h) (md_revisions d)"
    using new(2) by (auto simp: semanticRevision_def find_None_iff list_ex_iff)
  from find_last [OF this, of row] have "semanticRevision (rv_workspace v) h d1 = Some (newId, 1)"
    using rows by (simp add: semanticRevision_def)
  moreover have "existing_entry env v h (newId, 1) d1 = Inr r"
    using s c by (simp add: existing_entry_def holds_content_def)
  ultimately show ?thesis using new(1) c(1) by (auto simp: recordEntryInTransaction_def obind_Inr)
qed

section \<open>A small history\<close>

definition sample_env :: mem_env where
  "sample_env = \<lparr>me_nfkc = id, me_lower = id, me_sha256 = (\<lambda>s. replicate 64 (CHR ''0''))\<rparr>"

definition empty_memory :: mem_db where
  "empty_memory = \<lparr>md_entries = [], md_revisions = [], md_tags = [], md_external = [], md_links = [], md_audit = [],
     md_documents = [], md_signals = [], md_projection_ok = True, md_embedding = None, md_jobs = []\<rparr>"

definition sample_memory :: jsvalue where
  "sample_memory = VObj
     [(''workspace'', VStr ''w''), (''kind'', VStr ''fact''), (''title'', VStr ''t''), (''body'', VStr ''b''),
      (''tags'', VArr [VStr ''x''])]"

definition sample_now :: string where
  "sample_now = ''2024-05-01T10:00:00.000Z''"

definition first_connection :: "mem_db connection" where
  "first_connection = \<lparr>committed = empty_memory, working = None, savepoints = [], outcomes = []\<rparr>"

definition recorded_connection :: "mem_db connection" where
  "recorded_connection = snd (recordEntry sample_env ''e1'' ''v1'' sample_now sample_memory first_connection)"

definition promoted_connection :: "mem_db connection" where
  "promoted_connection =
     snd (promoteEntry sample_env ''v2'' ''2024-05-01T11:00:00.000Z'' None ''w'' ''e1'' 1 recorded_connection)"

lemma sample_memory_run:
  "memory_run sample_env first_connection recorded_connection"
  "memory_run sample_env recorded_connection promoted_connection"
  "memory_run sample_env first_connection promoted_connection"
proof -
  have w: "working first_connection = None" "working recorded_connection = None" by code_simp+
  have "memory_step sample_env first_connection recorded_connection"
    "memory_step sample_env recorded_connection promoted_connection"
    unfolding recorded_connection_def promoted_connection_def
    by (rule memory_step.intros(1) [OF w(1)]) (rule memory_step.intros(3) [OF w(2) [unfolded recorded_connection_def]])
  thus "memory_run sample_env first_connection recorded_connection"
    "memory_run sample_env recorded_connection promoted_connection"
    "memory_run sample_env first_connection promoted_connection"
    unfolding memory_run_def by auto
qed

text \<open>
  Two paths of a valid scope, one written with a backslash: the first normalization sorts before it replaces
  the backslash, so the second one sorts differently and the digests of the two disagree.
\<close>

definition mixed_memory :: jsvalue where
  "mixed_memory = VObj
     [(''workspace'', VStr ''w''), (''kind'', VStr ''fact''), (''title'', VStr ''t''), (''body'', VStr ''b''),
      (''scope'', VObj
         [(''schemaVersion'', VNum 1), (''visibility'', VStr ''project''),
          (''signals'', VObj [(''paths'', VArr [VStr ''aA'', VStr [CHR ''a'', CHR 0x5C, CHR ''b'']])])])]"

lemma mixed_separators_valid: "\<not> isl (validateNewEntryInput (sample_env\<lparr>me_sha256 := id\<rparr>) mixed_memory)"
  by code_simp

lemma mixed_separators_refused:
  "map_sum id (\<lambda>_. ()) (fst (recordEntryInTransaction (sample_env\<lparr>me_sha256 := id\<rparr>) ''e1'' ''v1'' sample_now mixed_memory empty_memory))
     = Inl (KiokukoError INTEGRITY_ERROR ''Entry revision content hash does not match its content'')"
  by code_simp

section \<open>Properties\<close>

text \<open>
  C3: Whatever sequence of records, updates, promotions, supersessions and links runs, each in its own
  transaction over a driver that may fail at any statement, every entry of the committed database can be
  read: its current revision exists, its revisions are numbered from one without a gap, its digest matches
  its content and its state and times are coherent.
\<close>

theorem entries_stay_readable:
  assumes "memory_run env c c'" and "consistent env (committed c)"
  shows "consistent env (committed c')"
  using assms(1) [unfolded memory_run_def] assms(2) by (induction rule: rtranclp_induct) (auto intro: step_consistent)

text \<open>
  C6: Under the same histories revisions, tags, links and audit events are only appended and entries are never
  removed; an entry keeps its identity, moves only from candidate to verified to superseded, its revision
  number never decreases, changes only while it is a candidate, and a superseded entry never changes again.
\<close>

theorem history_is_lawful:
  assumes "memory_run env c c'" and "distinct (entry_ids (committed c))"
  shows "history_grows (committed c) (committed c') \<and> entries_evolve (committed c) (committed c')"
proof -
  have "lawful (committed c) (committed c')"
    using assms(1) [unfolded memory_run_def]
    by (induction rule: rtranclp_induct) (auto intro: law.same step_lawful)
  thus ?thesis using assms(2) by (simp add: lawful_def)
qed

theorem entries_stay_readable_witness:
  "consistent sample_env (committed promoted_connection)
   \<and> map en_status (md_entries (committed promoted_connection)) = [''verified'']"
proof
  have "consistent sample_env (committed first_connection)" by code_simp
  thus "consistent sample_env (committed promoted_connection)" by (rule entries_stay_readable [OF sample_memory_run(3)])
  show "map en_status (md_entries (committed promoted_connection)) = [''verified'']" by code_simp
qed

theorem history_is_lawful_witness:
  "history_grows (committed recorded_connection) (committed promoted_connection)
   \<and> entries_evolve (committed recorded_connection) (committed promoted_connection)
   \<and> entry_ids (committed recorded_connection) = [''e1'']"
proof -
  have i: "entry_ids (committed recorded_connection) = [''e1'']" by code_simp
  hence "distinct (entry_ids (committed recorded_connection))" by simp
  from history_is_lawful [OF sample_memory_run(2) this] i show ?thesis by blast
qed

text \<open>
  C19: A record that succeeds returns an entry with the validated metadata and the digest of the validated
  content, and recording the same input again, whatever the fresh identifiers and the time, returns the same
  entry and leaves the database as it is.
\<close>

theorem record_once:
  assumes "recordEntryInTransaction env newId ev now input d = (Inr r, d1)"
  shows "\<exists>v h. validateNewEntryInput env input = Inr (v, h) \<and> holds_content r v h
    \<and> recordEntryInTransaction env newId' ev' now' input d1 = (Inr r, d1)"
  by (rule record_again_outcome [OF assms])

theorem record_once_witness:
  "\<exists>r d1. recordEntryInTransaction sample_env ''e1'' ''v1'' sample_now sample_memory empty_memory = (Inr r, d1)
     \<and> recordEntryInTransaction sample_env ''e2'' ''v2'' ''2024-06-01T00:00:00.000Z'' sample_memory d1 = (Inr r, d1)"
proof -
  have "\<not> isl (fst (recordEntryInTransaction sample_env ''e1'' ''v1'' sample_now sample_memory empty_memory))" by code_simp
  then obtain r d1 where r: "recordEntryInTransaction sample_env ''e1'' ''v1'' sample_now sample_memory empty_memory = (Inr r, d1)"
    by (metis prod.collapse sum.collapse(2))
  from record_once [OF r, of "''e2''" "''v2''" "''2024-06-01T00:00:00.000Z''"] r show ?thesis by blast
qed

end
