(* ===== verification/Memory_Batch.thy ===== *)
theory Memory_Batch
  imports Memory_History
begin

text \<open>
  The batched read of entries, \<open>readEntries\<close> of \<open>src/src/memory/entries.ts\<close>, against reading them one by one.
\<close>

section \<open>Rows and tags of a batch\<close>

lemma found_in: "find P xs = Some x \<Longrightarrow> x \<in> set xs \<and> P x"
  by (auto simp: find_Some_iff)

lemma unique_row:
  "distinct (map f xs) \<Longrightarrow> x \<in> set xs \<Longrightarrow> y \<in> set xs \<Longrightarrow> f x = f y \<Longrightarrow> x = y"
  by (auto simp: distinct_map dest: inj_onD)

lemma batch_rows_iff: "(e, row) \<in> set (batch_rows db ids) \<longleftrightarrow>
    e \<in> set (md_entries db) \<and> en_id e \<in> set ids \<and> current_row db e = Some row"
  by (auto simp: batch_rows_def split: option.splits if_splits)

lemma find_batch_row:
  assumes "distinct (entry_ids db)" and "e \<in> set (md_entries db)" and "en_id e \<in> set ids" and "current_row db e = Some row"
  shows "find (\<lambda>p. en_id (fst p) = en_id e) (rev (batch_rows db ids)) = Some (e, row)"
proof (rule find_unique)
  show "(e, row) \<in> set (rev (batch_rows db ids))" using assms by (simp add: batch_rows_iff)
  fix p assume "p \<in> set (rev (batch_rows db ids))" and id: "en_id (fst p) = en_id e"
  hence "p \<in> set (batch_rows db ids)" by (simp only: set_rev)
  moreover obtain e' row' where p: "p = (e', row')" by (rule prod.exhaust)
  ultimately have p: "p = (e', row')" "e' \<in> set (md_entries db)" "current_row db e' = Some row'" "en_id e' = en_id e"
    using id by (simp_all add: batch_rows_iff)
  hence "e' = e" using unique_row [of en_id "md_entries db"] assms(1,2) by (simp add: entry_ids_def)
  thus "p = (e, row)" using p assms(4) by simp
qed simp

lemma find_batch_none:
  assumes "\<And>e. e \<in> set (md_entries db) \<Longrightarrow> en_id e = i \<Longrightarrow> current_row db e = None"
  shows "find (\<lambda>p. en_id (fst p) = i) (rev (batch_rows db ids)) = None"
  using assms by (auto simp: find_None_iff batch_rows_iff)

lemma sort_snd: "map snd (sort (map (Pair a) xs)) = sort xs" for xs :: "('b::linorder) list"
proof -
  have "sort (map (Pair a) xs) = map (Pair a) (sort xs)"
  proof (rule properties_for_sort)
    show "mset (map (Pair a) (sort xs)) = mset (map (Pair a) xs)" by simp
    show "sorted (map (Pair a) (sort xs))" by (simp add: sorted_map less_eq_prod_def)
  qed
  thus ?thesis by (simp add: comp_def)
qed

lemma batch_tags_of:
  assumes "distinct (entry_ids db)" and "e \<in> set (md_entries db)" and "en_id e \<in> set ids"
  shows "map snd (filter (\<lambda>p. fst p = en_id e) (batch_tags db ids)) = tagsFor db (en_id e) (en_current_revision e)"
proof -
  let ?keep = "\<lambda>t. list_ex (\<lambda>e. en_id e = tg_entry_id t \<and> en_current_revision e = tg_revision t \<and> en_id e \<in> set ids) (md_entries db)"
  have k: "(tg_entry_id t = en_id e \<and> ?keep t) = (tg_entry_id t = en_id e \<and> tg_revision t = en_current_revision e)" for t
    using unique_row [OF assms(1) [unfolded entry_ids_def] assms(2)] assms(2,3) by (auto simp: list_ex_iff) metis
  have "filter (\<lambda>p. fst p = en_id e) (batch_tags db ids)
      = sort (filter (\<lambda>p. fst p = en_id e) (map (\<lambda>t. (tg_entry_id t, tg_tag t)) (filter ?keep (md_tags db))))"
    unfolding batch_tags_def by (rule filter_sort)
  also have "filter (\<lambda>p. fst p = en_id e) (map (\<lambda>t. (tg_entry_id t, tg_tag t)) (filter ?keep (md_tags db)))
      = map (\<lambda>t. (tg_entry_id t, tg_tag t)) (filter (\<lambda>t. tg_entry_id t = en_id e \<and> tg_revision t = en_current_revision e) (md_tags db))"
    by (simp add: filter_map comp_def conj_commute [of "?keep _"] k)
  also have "\<dots> = map (Pair (en_id e)) (map tg_tag (filter (\<lambda>t. tg_entry_id t = en_id e \<and> tg_revision t = en_current_revision e) (md_tags db)))"
    by simp
  finally show ?thesis by (simp add: sort_snd tagsFor_def del: map_map)
qed

section \<open>Equivalence\<close>

definition checkReadRequests :: "read_request list \<Rightarrow> unit list result" where
  "checkReadRequests inputs = rtraverse (\<lambda>q. rbind (requireWorkspace (VStr (rq_workspace q))) (\<lambda>_.
     check (rq_entryId q \<noteq> []) (KiokukoError VALIDATION_ERROR ''entryId must be a non-empty string''))) inputs"

definition readOne :: "mem_env \<Rightarrow> mem_db \<Rightarrow> read_request \<Rightarrow> entry_record result" where
  "readOne env db q = readEntry env (rq_workspace q) (rq_entryId q) (rq_requireStructured q) db"

lemma right: "\<not> isl x \<Longrightarrow> \<exists>u. x = Inr u"
  by (cases x) auto

lemma checked_request:
  assumes "checkReadRequests inputs = Inr us" and "q \<in> set inputs"
  shows "requireWorkspace (VStr (rq_workspace q)) = Inr (rq_workspace q) \<and> rq_entryId q \<noteq> []"
proof -
  have "\<exists>u. rbind (requireWorkspace (VStr (rq_workspace q))) (\<lambda>_.
     check (rq_entryId q \<noteq> []) (KiokukoError VALIDATION_ERROR ''entryId must be a non-empty string'')) = Inr u"
  proof (rule right)
    show "\<not> isl (rbind (requireWorkspace (VStr (rq_workspace q))) (\<lambda>_.
       check (rq_entryId q \<noteq> []) (KiokukoError VALIDATION_ERROR ''entryId must be a non-empty string'')))"
      using assms(1) unfolding checkReadRequests_def rtraverse_Inr_proj using assms(2) by (rule conjunct1 [THEN bspec])
  qed
  then obtain ws where "requireWorkspace (VStr (rq_workspace q)) = Inr ws" "rq_entryId q \<noteq> []"
    unfolding rbind_eq_Inr check_eq_Inr by blast
  thus ?thesis by (simp add: requireWorkspace_def nonempty_field_Inr)
qed

lemma readOne_select:
  assumes "requireWorkspace (VStr (rq_workspace q)) = Inr (rq_workspace q)" and "rq_entryId q \<noteq> []"
    and "distinct (entry_ids db)" and "e \<in> set (md_entries db)" and "en_id e = rq_entryId q" and "en_workspace e = rq_workspace q"
    and "current_row db e = Some row"
  shows "readOne env db q = rowToEntry env db e row (rq_requireStructured q)"
proof -
  have "find (\<lambda>e. en_id e = rq_entryId q \<and> en_workspace e = rq_workspace q) (md_entries db) = Some e"
    using unique_row [of en_id "md_entries db"] assms(3-6) by (intro find_unique) (auto simp: entry_ids_def)
  thus ?thesis
    using assms(1,2,7) by (cases "rowToEntry env db e row (rq_requireStructured q)") (simp_all add: readOne_def readEntry_def selectEntry_def)
qed

text \<open>
  C28: For at most 256 requests on a table with unique identifiers the batched read checks every request and
  then gives exactly what reading them one by one gives, the first error included.
\<close>

theorem readEntries_is_readEntry:
  assumes "distinct (entry_ids db)" and "length inputs \<le> 256"
  shows "readEntries env inputs db = rbind (checkReadRequests inputs) (\<lambda>_. rtraverse (readOne env db) inputs)"
proof (cases "inputs = []")
  case True
  thus ?thesis by (simp add: readEntries_def checkReadRequests_def)
next
  case False
  let ?ids = "js_set (map rq_entryId inputs)"
  let ?step = "\<lambda>q. case find (\<lambda>p. en_id (fst p) = rq_entryId q) (rev (batch_rows db ?ids)) of
            None \<Rightarrow> readEntry env (rq_workspace q) (rq_entryId q) (rq_requireStructured q) db
          | Some (e, row) \<Rightarrow>
              if en_workspace e \<noteq> rq_workspace q
              then readEntry env (rq_workspace q) (rq_entryId q) (rq_requireStructured q) db
              else decodeEntryRow env e (chain_of db (en_id e)) row
                     (map snd (filter (\<lambda>p. fst p = en_id e) (batch_tags db ?ids))) (rq_requireStructured q)"
  have "rtraverse ?step inputs = rtraverse (readOne env db) inputs" if c: "checkReadRequests inputs = Inr us" for us
  proof (rule rtraverse_cong [OF refl])
    fix q assume q: "q \<in> set inputs"
    hence i: "rq_entryId q \<in> set ?ids" by simp
    show "?step q = readOne env db q"
    proof (cases "find (\<lambda>p. en_id (fst p) = rq_entryId q) (rev (batch_rows db ?ids))")
      case (Some p)
      then obtain e row where p: "p = (e, row)" "(e, row) \<in> set (batch_rows db ?ids)" "en_id e = rq_entryId q"
        using found_in [OF Some] prod.exhaust [of p] by (metis fst_conv set_rev)
      hence e: "e \<in> set (md_entries db)" "current_row db e = Some row" by (auto simp: batch_rows_iff)
      hence "rn_entry_id row = en_id e" by (auto simp: current_row_def find_Some_iff)
      thus ?thesis
        using Some p i readOne_select [OF _ _ assms(1) e(1) p(3) _ e(2)] checked_request [OF c q]
          batch_tags_of [OF assms(1) e(1), of ?ids]
        by (auto simp: readOne_def rowToEntry_def)
    qed (simp add: readOne_def)
  qed
  thus ?thesis
    using False assms(2) by (cases "checkReadRequests inputs") (simp_all add: readEntries_def checkReadRequests_def [symmetric] Let_def)
qed

theorem readEntries_is_readEntry_witness:
  "readEntries sample_env [\<lparr>rq_workspace = ''w'', rq_entryId = ''e1'', rq_requireStructured = False\<rparr>]
     (committed recorded_connection)
   = rtraverse (readOne sample_env (committed recorded_connection))
       [\<lparr>rq_workspace = ''w'', rq_entryId = ''e1'', rq_requireStructured = False\<rparr>]"
proof -
  let ?qs = "[\<lparr>rq_workspace = ''w'', rq_entryId = ''e1'', rq_requireStructured = False\<rparr>]"
  have "distinct (entry_ids (committed recorded_connection))" by code_simp
  from readEntries_is_readEntry [OF this, of ?qs] have "readEntries sample_env ?qs (committed recorded_connection)
     = rbind (checkReadRequests ?qs) (\<lambda>_. rtraverse (readOne sample_env (committed recorded_connection)) ?qs)" by simp
  moreover have "checkReadRequests ?qs = Inr [()]" by code_simp
  ultimately show ?thesis by simp
qed

end
