(* ===== verification/Archive_Records.thy ===== *)
theory Archive_Records
  imports Ledger_Store Ledger_Projection Nudges Memory_Rows
begin

text \<open>
  The portable archive of a workspace's ledger, \<open>src/src/ledger/archive.ts\<close>: the records of fifteen tables as
  lines of canonical JSON under a manifest and a checksum. A table is a list of rows, a row the fields of
  its columns. Arguments: the digest, the parser of stored memory resolutions (it rests on the schema
  library \<open>zod\<close>; the archive uses only the workspaces of its candidates), and \<open>schema\<close>, the verdict of the
  database on a row that is inserted.
\<close>

section \<open>Records\<close>

datatype archive_type = MemoryResolutions | Runs | Sessions | Answers | RunIntakes | IntakeFeedback | Events | Evidence
  | Deliveries | DeliveryEntries | NudgeDeliveries | ContextFeedback | RunFeedback | MemoryLinks | PurgeAudit

text \<open>The keys of the counts, in their order.\<close>

definition ARCHIVE_TYPES :: "archive_type list" where
  "ARCHIVE_TYPES = [MemoryResolutions, Runs, Sessions, Answers, RunIntakes, IntakeFeedback, Events, Evidence,
     Deliveries, DeliveryEntries, NudgeDeliveries, ContextFeedback, RunFeedback, MemoryLinks, PurgeAudit]"

fun type_key :: "archive_type \<Rightarrow> string" where
  "type_key MemoryResolutions = ''memoryResolutions''"
| "type_key Runs = ''runs''"
| "type_key Sessions = ''sessions''"
| "type_key Answers = ''answers''"
| "type_key RunIntakes = ''runIntakes''"
| "type_key IntakeFeedback = ''intakeFeedback''"
| "type_key Events = ''events''"
| "type_key Evidence = ''evidence''"
| "type_key Deliveries = ''deliveries''"
| "type_key DeliveryEntries = ''deliveryEntries''"
| "type_key NudgeDeliveries = ''nudgeDeliveries''"
| "type_key ContextFeedback = ''contextFeedback''"
| "type_key RunFeedback = ''runFeedback''"
| "type_key MemoryLinks = ''memoryLinks''"
| "type_key PurgeAudit = ''purgeAudit''"

fun RECORD_NAMES :: "archive_type \<Rightarrow> string" where
  "RECORD_NAMES MemoryResolutions = ''memory_resolution''"
| "RECORD_NAMES Runs = ''run''"
| "RECORD_NAMES Sessions = ''session''"
| "RECORD_NAMES Answers = ''answer''"
| "RECORD_NAMES RunIntakes = ''run_intake''"
| "RECORD_NAMES IntakeFeedback = ''intake_feedback''"
| "RECORD_NAMES Events = ''event''"
| "RECORD_NAMES Evidence = ''evidence''"
| "RECORD_NAMES Deliveries = ''delivery''"
| "RECORD_NAMES DeliveryEntries = ''delivery_entry''"
| "RECORD_NAMES NudgeDeliveries = ''nudge_delivery''"
| "RECORD_NAMES ContextFeedback = ''context_feedback''"
| "RECORD_NAMES RunFeedback = ''run_feedback''"
| "RECORD_NAMES MemoryLinks = ''memory_link''"
| "RECORD_NAMES PurgeAudit = ''purge_audit''"

fun TABLE_FIELDS :: "archive_type \<Rightarrow> string list" where
  "TABLE_FIELDS MemoryResolutions = [''run_id'', ''resolution_json'', ''created_at'']"
| "TABLE_FIELDS Runs = [''run_id'', ''workspace'', ''client_kind'', ''client_version'', ''source_session_id'',
     ''parent_run_id'', ''protocol_version'', ''capture_profile'', ''coverage_json'', ''status'', ''title'', ''task_hash'',
     ''metadata_json'', ''last_sequence'', ''last_source_sequence'', ''started_at'', ''ended_at'', ''created_at'', ''updated_at'']"
| "TABLE_FIELDS Sessions = [''id'', ''workspace'', ''task_text'', ''profile_json'', ''status'', ''question_count'',
     ''created_at'', ''updated_at'']"
| "TABLE_FIELDS Answers = [''session_id'', ''question_id'', ''answer_json'', ''created_at'']"
| "TABLE_FIELDS RunIntakes = [''run_id'', ''session_id'', ''policy_version'', ''profile_schema_version'',
     ''profile_sources_json'', ''initial_profile_hash'', ''recommended_tags_json'', ''linked_at'', ''finalized_at'']"
| "TABLE_FIELDS IntakeFeedback = [''feedback_id'', ''run_id'', ''session_id'', ''question_id'', ''profile_field'', ''verdict'',
     ''comment'', ''actor'', ''idempotency_key'', ''created_at'']"
| "TABLE_FIELDS Events = [''event_id'', ''run_id'', ''sequence'', ''source_event_id'', ''source_sequence'', ''event_type'',
     ''source_type'', ''actor'', ''outcome'', ''occurred_at'', ''ingested_at'', ''payload_json'', ''redaction_json'',
     ''previous_hash'', ''event_hash'']"
| "TABLE_FIELDS Evidence = [''evidence_id'', ''run_id'', ''event_id'', ''kind'', ''locator'', ''digest_algorithm'', ''digest'',
     ''byte_size'', ''summary'', ''created_at'']"
| "TABLE_FIELDS Deliveries = [''delivery_id'', ''run_id'', ''through_sequence'', ''intake_session_id'', ''task_profile_hash'',
     ''query_hash'', ''policy_version'', ''score_schema_version'', ''char_budget'', ''char_count'', ''truncated'', ''created_at'']"
| "TABLE_FIELDS DeliveryEntries = [''delivery_id'', ''entry_id'', ''entry_revision'', ''rank'', ''score_components_json'',
     ''selection_reason_json'', ''origin_scope'']"
| "TABLE_FIELDS NudgeDeliveries = [''id'', ''run_id'', ''policy_version'', ''code'', ''occurrence_id'', ''checkpoint_id'',
     ''through_sequence'', ''priority'', ''evidence_event_ids_json'', ''reference_ids_json'', ''delivered_at'']"
| "TABLE_FIELDS ContextFeedback = [''feedback_id'', ''delivery_id'', ''entry_id'', ''run_id'', ''verdict'', ''comment'', ''actor'',
     ''idempotency_key'', ''created_at'']"
| "TABLE_FIELDS RunFeedback = [''feedback_id'', ''run_id'', ''outcome'', ''recommendation_code'', ''recommendation_verdict'',
     ''rating'', ''comment'', ''actor'', ''idempotency_key'', ''created_at'']"
| "TABLE_FIELDS MemoryLinks = [''link_id'', ''run_id'', ''event_id'', ''delivery_id'', ''entry_id'', ''created_at'']"
| "TABLE_FIELDS PurgeAudit = [''purge_id'', ''run_id'', ''event_id'', ''delivery_id'', ''entry_id'', ''target_type'', ''target_id'',
     ''actor'', ''reason'', ''created_at'']"

type_synonym archive_records = "archive_type \<Rightarrow> fields list"

section \<open>Errors and checks of a column\<close>

definition archive_validation :: js_error where
  "archive_validation = KiokukoError VALIDATION_ERROR ''Ledger archive validation failed''"

definition archive_integrity :: js_error where
  "archive_integrity = KiokukoError INTEGRITY_ERROR ''Ledger archive integrity validation failed''"

definition archive_conflict :: js_error where
  "archive_conflict = KiokukoError CONFLICT ''Ledger archive conflicts with existing data''"

definition archive_not_found :: js_error where
  "archive_not_found = KiokukoError NOT_FOUND ''Ledger archive reference was not found''"

fun canonicalIntegrity :: "'a result \<Rightarrow> 'a result" where
  "canonicalIntegrity (Inl (KiokukoError VALIDATION_ERROR m)) = Inl archive_integrity"
| "canonicalIntegrity r = r"

abbreviation valid_if :: "bool \<Rightarrow> unit result" where
  "valid_if b \<equiv> check b archive_validation"

abbreviation intact_if :: "bool \<Rightarrow> unit result" where
  "intact_if b \<equiv> check b archive_integrity"

text \<open>Each function of the source returns the value it was given or throws; here it is a check.\<close>

fun stringValue :: "int \<Rightarrow> jsvalue \<Rightarrow> unit result" where
  "stringValue maximum (VStr s) = valid_if (s \<noteq> [] \<and> int (length s) \<le> maximum \<and> CHR 0x00 \<notin> set s)"
| "stringValue maximum v = Inl archive_validation"

definition nullOr :: "(jsvalue \<Rightarrow> unit result) \<Rightarrow> jsvalue \<Rightarrow> unit result" where
  "nullOr f v = (if v = VNull then Inr () else f v)"

abbreviation ID_MAX :: int where
  "ID_MAX \<equiv> 256"

abbreviation TEXT_MAX :: int where
  "TEXT_MAX \<equiv> 16384"

fun integerValue :: "int \<Rightarrow> jsvalue \<Rightarrow> unit result" where
  "integerValue minimum (VNum n) = valid_if (is_safe_integer (VNum n) \<and> minimum \<le> n)"
| "integerValue minimum v = Inl archive_validation"

fun timestampValue :: "jsvalue \<Rightarrow> unit result" where
  "timestampValue (VStr s) = valid_if (isCanonicalTimestamp s)"
| "timestampValue v = Inl archive_validation"

fun hashValue :: "jsvalue \<Rightarrow> unit result" where
  "hashValue (VStr s) = valid_if (is_hex64 s)"
| "hashValue v = Inl archive_validation"

fun oneOf :: "string list \<Rightarrow> jsvalue \<Rightarrow> unit result" where
  "oneOf allowed (VStr s) = valid_if (s \<in> set allowed)"
| "oneOf allowed v = Inl archive_validation"

fun parsedJson :: "(jsvalue \<Rightarrow> unit result) \<Rightarrow> jsvalue \<Rightarrow> unit result" where
  "parsedJson validator (VStr s) =
     (case json_parse s of
        None \<Rightarrow> Inl archive_integrity
      | Some p \<Rightarrow>
          rbind (canonicalIntegrity (canonicalJson p)) (\<lambda>t.
          rbind (intact_if (t = s)) (\<lambda>_. validator p)))"
| "parsedJson validator v = Inl archive_integrity"

definition anyJson :: "jsvalue \<Rightarrow> unit result" where
  "anyJson v = rbind (canonicalIntegrity (canonicalJson v)) (\<lambda>_. Inr ())"

fun is_object :: "jsvalue \<Rightarrow> bool" where
  "is_object (VObj fs) = True"
| "is_object v = False"

definition objectJson :: "jsvalue \<Rightarrow> unit result" where
  "objectJson v = rbind (intact_if (is_object v)) (\<lambda>_. anyJson v)"

fun coverageJson :: "jsvalue \<Rightarrow> unit result" where
  "coverageJson (VObj fs) =
     intact_if (length fs = 5 \<and> list_all (\<lambda>k. is_text_among (map fst COVERAGE_LEVELS) (getp fs k))
       [''run'', ''tool'', ''command'', ''file'', ''approval''])"
| "coverageJson v = Inl archive_integrity"

fun is_text :: "jsvalue \<Rightarrow> bool" where
  "is_text (VStr s) = True"
| "is_text v = False"

fun profileJson :: "jsvalue \<Rightarrow> unit result" where
  "profileJson (VObj fs) =
     intact_if (length fs = 4 \<and> list_all (hasOwn fs) PROFILE_FIELDS
       \<and> (getp fs ''taskType'' = VNull \<or> is_text_among (map fst TASK_TYPES) (getp fs ''taskType''))
       \<and> list_all (\<lambda>k. getp fs k = VNull \<or> is_text (getp fs k)) [''target'', ''expected'', ''constraints''])"
| "profileJson v = Inl archive_integrity"

definition PROFILE_SOURCES :: "string list" where
  "PROFILE_SOURCES = [''inferred'', ''client_supplied'', ''user_answer'', ''memory'']"

fun profileSourcesJson :: "jsvalue \<Rightarrow> unit result" where
  "profileSourcesJson (VObj fs) =
     intact_if (list_all (\<lambda>f. fst f \<in> set PROFILE_FIELDS \<and> is_text_among PROFILE_SOURCES (snd f)) fs)"
| "profileSourcesJson v = Inl archive_integrity"

fun tag_like :: "jsvalue \<Rightarrow> bool" where
  "tag_like (VStr s) = (trim s \<noteq> [] \<and> length s \<le> 200)"
| "tag_like v = False"

fun tagsJson :: "jsvalue \<Rightarrow> unit result" where
  "tagsJson (VArr xs) = intact_if (list_all tag_like xs \<and> distinct xs)"
| "tagsJson v = Inl archive_integrity"

fun idItems :: "jsvalue list \<Rightarrow> jsvalue list \<Rightarrow> unit result" where
  "idItems seen [] = Inr ()"
| "idItems seen (x # xs) =
     rbind (stringValue ID_MAX x) (\<lambda>_. rbind (intact_if (x \<notin> set seen)) (\<lambda>_. idItems (x # seen) xs))"

fun ascending_texts :: "jsvalue list \<Rightarrow> bool" where
  "ascending_texts (VStr s # VStr t # xs) = (compareCanonicalStrings s t \<le> 0 \<and> ascending_texts (VStr t # xs))"
| "ascending_texts xs = True"

fun nudgeIdListJson :: "jsvalue \<Rightarrow> unit result" where
  "nudgeIdListJson (VArr xs) =
     rbind (intact_if (length xs \<le> 16)) (\<lambda>_. rbind (idItems [] xs) (\<lambda>_. intact_if (ascending_texts xs)))"
| "nudgeIdListJson v = Inl archive_integrity"

definition REDACTION_KINDS :: "string list" where
  "REDACTION_KINDS = [''sensitive_key'', ''secret_pattern'', ''url'', ''home_path'', ''preview_truncated'',
     ''environment_value'', ''hidden_reasoning'']"

fun redaction_like :: "jsvalue \<Rightarrow> bool" where
  "redaction_like (VObj fs) = (length fs = 2 \<and> is_text (getp fs ''path'') \<and> getp fs ''path'' \<noteq> VStr []
     \<and> is_text_among REDACTION_KINDS (getp fs ''kind''))"
| "redaction_like v = False"

fun redactionJson :: "jsvalue \<Rightarrow> unit result" where
  "redactionJson (VArr xs) = intact_if (list_all redaction_like xs)"
| "redactionJson v = Inl archive_integrity"

fun comment_bytes :: "jsvalue \<Rightarrow> int" where
  "comment_bytes (VStr s) = byteLength s"
| "comment_bytes v = 0"

definition commentValue :: "jsvalue \<Rightarrow> unit result" where
  "commentValue v = rbind (nullOr (stringValue TEXT_MAX) v) (\<lambda>_. intact_if (comment_bytes v \<le> 4096))"

section \<open>Normalization of a record\<close>

text \<open>
  The assignments and guards of one case of the switch, in order. Every check returns the value it was
  given, so a kept column keeps its value and a guard may look at the raw columns.
\<close>

datatype archive_step = Keep string "jsvalue \<Rightarrow> unit result" | Guard "fields \<Rightarrow> unit result"

fun run_steps :: "archive_step list \<Rightarrow> fields \<Rightarrow> fields result" where
  "run_steps [] raw = Inr []"
| "run_steps (Keep k f # ss) raw =
     rbind (f (getp raw k)) (\<lambda>_. rbind (run_steps ss raw) (\<lambda>fs. Inr ((k, getp raw k) # fs)))"
| "run_steps (Guard g # ss) raw = rbind (g raw) (\<lambda>_. run_steps ss raw)"

definition at_most :: "int \<Rightarrow> jsvalue \<Rightarrow> unit result" where
  "at_most m v = intact_if (case v of VNum n \<Rightarrow> n \<le> m | _ \<Rightarrow> True)"

definition workspace_guard :: "string \<Rightarrow> archive_step" where
  "workspace_guard workspace = Guard (\<lambda>raw. rbind (stringValue TEXT_MAX (getp raw ''workspace''))
     (\<lambda>_. valid_if (getp raw ''workspace'' = VStr workspace)))"

definition kept :: "jsvalue \<Rightarrow> unit result" where
  "kept v = Inr ()"

abbreviation ident :: "jsvalue \<Rightarrow> unit result" where
  "ident \<equiv> stringValue ID_MAX"

abbreviation body_text :: "jsvalue \<Rightarrow> unit result" where
  "body_text \<equiv> stringValue TEXT_MAX"

abbreviation is_null :: "fields \<Rightarrow> string \<Rightarrow> bool" where
  "is_null raw k \<equiv> getp raw k = VNull"

definition run_steps_of :: "string \<Rightarrow> archive_step list" where
  "run_steps_of workspace =
     [workspace_guard workspace, Keep ''run_id'' ident, Keep ''workspace'' kept, Keep ''client_kind'' ident,
      Keep ''client_version'' (nullOr ident), Keep ''source_session_id'' (nullOr ident), Keep ''parent_run_id'' (nullOr ident),
      Keep ''protocol_version'' (stringValue 32), Keep ''capture_profile'' (oneOf (map fst CAPTURE_PROFILES)),
      Keep ''coverage_json'' (parsedJson coverageJson), Keep ''status'' (oneOf (map fst RUN_STATUSES)),
      Keep ''title'' (nullOr body_text), Keep ''task_hash'' (nullOr hashValue), Keep ''metadata_json'' (parsedJson objectJson),
      Keep ''last_sequence'' (integerValue 0), Keep ''last_source_sequence'' (nullOr (integerValue 0)),
      Keep ''started_at'' timestampValue, Keep ''ended_at'' (nullOr timestampValue), Keep ''created_at'' timestampValue,
      Keep ''updated_at'' timestampValue,
      Guard (\<lambda>raw. valid_if (getp raw ''protocol_version'' = VStr ''1'')),
      Guard (\<lambda>raw. intact_if (is_text_among (map fst (filter (\<lambda>s. snd s \<in> set TERMINAL_RUN_STATUSES) RUN_STATUSES))
        (getp raw ''status'') = (\<not> is_null raw ''ended_at'')))]"

definition EVIDENCE_KINDS :: "string list" where
  "EVIDENCE_KINDS = [''command'', ''test'', ''file'', ''diff'', ''url'', ''artifact'']"

definition PURGE_TARGET_TYPES :: "string list" where
  "PURGE_TARGET_TYPES = [''run'', ''event'', ''evidence'', ''delivery'', ''feedback'', ''memory_link'']"

definition CONTEXT_ENTRY_ORIGINS :: "string list" where
  "CONTEXT_ENTRY_ORIGINS = [''project'', ''ecosystem'', ''global'']"

definition nudge_priority_ok :: "fields \<Rightarrow> bool" where
  "nudge_priority_ok raw =
     (case getp raw ''code'' of
        VStr s \<Rightarrow> (case map_of NUDGE_CODES s of Some c \<Rightarrow> getp raw ''priority'' = VNum (NUDGE_PRIORITY c) | None \<Rightarrow> False)
      | _ \<Rightarrow> False)"

definition in_budget :: "fields \<Rightarrow> bool" where
  "in_budget raw = (case (getp raw ''char_count'', getp raw ''char_budget'') of (VNum c, VNum b) \<Rightarrow> c \<le> b | _ \<Rightarrow> False)"

fun case_steps :: "(jsvalue \<Rightarrow> string list result) \<Rightarrow> string \<Rightarrow> archive_type \<Rightarrow> archive_step list" where
  "case_steps resolution workspace MemoryResolutions =
     [Keep ''run_id'' ident, Keep ''resolution_json'' (parsedJson (\<lambda>v. rbind (resolution v) (\<lambda>_. Inr ()))),
      Keep ''created_at'' timestampValue]"
| "case_steps resolution workspace Runs = run_steps_of workspace"
| "case_steps resolution workspace Sessions =
     [workspace_guard workspace, Keep ''id'' ident, Keep ''workspace'' kept, Keep ''task_text'' body_text,
      Keep ''profile_json'' (parsedJson profileJson), Keep ''status'' (oneOf [''active'', ''ready'', ''exhausted'']),
      Keep ''question_count'' (\<lambda>v. rbind (integerValue 0 v) (\<lambda>_. at_most 3 v)),
      Keep ''created_at'' timestampValue, Keep ''updated_at'' timestampValue]"
| "case_steps resolution workspace Answers =
     [Keep ''session_id'' ident, Keep ''question_id'' (oneOf PROFILE_FIELDS), Keep ''answer_json'' (parsedJson anyJson),
      Keep ''created_at'' timestampValue]"
| "case_steps resolution workspace RunIntakes =
     [Keep ''run_id'' ident, Keep ''session_id'' ident, Keep ''policy_version'' ident,
      Keep ''profile_schema_version'' (integerValue 1), Keep ''profile_sources_json'' (parsedJson profileSourcesJson),
      Keep ''initial_profile_hash'' (nullOr hashValue), Keep ''recommended_tags_json'' (parsedJson tagsJson),
      Keep ''linked_at'' timestampValue, Keep ''finalized_at'' (nullOr timestampValue),
      Guard (\<lambda>raw. intact_if (\<not> (\<not> is_null raw ''finalized_at'' \<and> is_null raw ''initial_profile_hash'')))]"
| "case_steps resolution workspace IntakeFeedback =
     [Keep ''feedback_id'' ident, Keep ''run_id'' ident, Keep ''session_id'' ident, Keep ''question_id'' (nullOr ident),
      Keep ''profile_field'' (nullOr ident),
      Guard (\<lambda>raw. valid_if (is_null raw ''question_id'' \<noteq> is_null raw ''profile_field'')),
      Guard (\<lambda>raw. nullOr (oneOf PROFILE_FIELDS) (getp raw ''question_id'')),
      Guard (\<lambda>raw. nullOr (oneOf PROFILE_FIELDS) (getp raw ''profile_field'')),
      Keep ''verdict'' (oneOf [''helpful'', ''unnecessary'', ''corrected'']), Keep ''comment'' commentValue, Keep ''actor'' ident,
      Keep ''idempotency_key'' hashValue, Keep ''created_at'' timestampValue]"
| "case_steps resolution workspace Events =
     [Keep ''event_id'' ident, Keep ''run_id'' ident, Keep ''sequence'' (integerValue 1), Keep ''source_event_id'' (nullOr ident),
      Keep ''source_sequence'' (nullOr (integerValue 0)), Keep ''event_type'' (oneOf LEDGER_EVENT_TYPES),
      Keep ''source_type'' (nullOr ident), Keep ''actor'' ident, Keep ''outcome'' (nullOr body_text),
      Keep ''occurred_at'' (nullOr timestampValue), Keep ''ingested_at'' timestampValue,
      Keep ''payload_json'' (parsedJson anyJson), Keep ''redaction_json'' (parsedJson redactionJson),
      Keep ''previous_hash'' hashValue, Keep ''event_hash'' hashValue]"
| "case_steps resolution workspace Evidence =
     [Keep ''evidence_id'' ident, Keep ''run_id'' ident, Keep ''event_id'' (nullOr ident), Keep ''kind'' (oneOf EVIDENCE_KINDS),
      Keep ''locator'' body_text, Keep ''digest_algorithm'' (nullOr ident), Keep ''digest'' (nullOr ident),
      Keep ''byte_size'' (nullOr (integerValue 0)), Keep ''summary'' (nullOr body_text), Keep ''created_at'' timestampValue]"
| "case_steps resolution workspace Deliveries =
     [Keep ''delivery_id'' ident, Keep ''run_id'' ident, Keep ''through_sequence'' (integerValue 0),
      Keep ''intake_session_id'' (nullOr ident), Keep ''task_profile_hash'' hashValue, Keep ''query_hash'' hashValue,
      Keep ''policy_version'' ident, Keep ''score_schema_version'' (\<lambda>v. rbind (integerValue 1 v) (\<lambda>_. at_most 2 v)),
      Keep ''char_budget'' (integerValue 0), Keep ''char_count'' (integerValue 0),
      Keep ''truncated'' (integerValue 0),
      Guard (\<lambda>raw. rbind (at_most 1 (getp raw ''truncated'')) (\<lambda>_. intact_if (in_budget raw))),
      Keep ''created_at'' timestampValue]"
| "case_steps resolution workspace DeliveryEntries =
     [Keep ''delivery_id'' ident, Keep ''entry_id'' ident, Keep ''entry_revision'' (integerValue 1),
      Keep ''rank'' (integerValue 1), Keep ''score_components_json'' (parsedJson objectJson),
      Keep ''selection_reason_json'' (parsedJson tagsJson), Keep ''origin_scope'' (oneOf CONTEXT_ENTRY_ORIGINS)]"
| "case_steps resolution workspace NudgeDeliveries =
     [Keep ''id'' ident, Keep ''run_id'' ident, Keep ''policy_version'' ident,
      Guard (\<lambda>raw. valid_if (getp raw ''policy_version'' = VStr NUDGE_POLICY_VERSION)),
      Keep ''code'' (oneOf (map fst NUDGE_CODES)), Keep ''occurrence_id'' ident, Keep ''checkpoint_id'' ident,
      Keep ''through_sequence'' (integerValue 0), Keep ''priority'' (integerValue 1),
      Guard (\<lambda>raw. intact_if (nudge_priority_ok raw)),
      Keep ''evidence_event_ids_json'' (parsedJson nudgeIdListJson), Keep ''reference_ids_json'' (parsedJson nudgeIdListJson),
      Keep ''delivered_at'' timestampValue]"
| "case_steps resolution workspace ContextFeedback =
     [Keep ''feedback_id'' ident, Keep ''delivery_id'' ident, Keep ''entry_id'' ident, Keep ''run_id'' ident,
      Keep ''verdict'' (oneOf [''helpful'', ''irrelevant'', ''stale'', ''conflicting'']), Keep ''comment'' commentValue,
      Keep ''actor'' ident, Keep ''idempotency_key'' hashValue, Keep ''created_at'' timestampValue]"
| "case_steps resolution workspace RunFeedback =
     [Keep ''feedback_id'' ident, Keep ''run_id'' ident, Keep ''outcome'' (nullOr body_text),
      Keep ''recommendation_code'' (nullOr ident),
      Keep ''recommendation_verdict'' (nullOr (oneOf [''accepted'', ''dismissed'', ''resolved''])),
      Keep ''rating'' (\<lambda>v. rbind (nullOr (integerValue 1) v) (\<lambda>_. at_most 5 v)), Keep ''comment'' commentValue,
      Keep ''actor'' ident, Keep ''idempotency_key'' hashValue, Keep ''created_at'' timestampValue,
      Guard (\<lambda>raw. intact_if (is_null raw ''recommendation_code'' = is_null raw ''recommendation_verdict'')),
      Guard (\<lambda>raw. intact_if (\<not> (is_null raw ''outcome'' \<and> is_null raw ''recommendation_code'' \<and> is_null raw ''rating'')))]"
| "case_steps resolution workspace MemoryLinks =
     [Keep ''link_id'' ident, Keep ''run_id'' ident, Keep ''event_id'' (nullOr ident), Keep ''delivery_id'' (nullOr ident),
      Keep ''entry_id'' ident, Keep ''created_at'' timestampValue,
      Guard (\<lambda>raw. intact_if (\<not> (is_null raw ''event_id'' \<and> is_null raw ''delivery_id'')))]"
| "case_steps resolution workspace PurgeAudit =
     [Keep ''purge_id'' ident, Keep ''run_id'' (nullOr ident), Keep ''event_id'' (nullOr ident),
      Keep ''delivery_id'' (nullOr ident), Keep ''entry_id'' (nullOr ident), Keep ''target_type'' (oneOf PURGE_TARGET_TYPES),
      Keep ''target_id'' ident, Keep ''actor'' ident, Keep ''reason'' (nullOr body_text), Keep ''created_at'' timestampValue]"

definition archive_secret :: js_error where
  "archive_secret = KiokukoError SECURITY_REJECTION ''Ledger archive contains secret residue''"

definition secretScan :: "fields \<Rightarrow> unit result" where
  "secretScan r =
     rbind (canonicalIntegrity (canonicalJson (VObj r))) (\<lambda>t. check (findSecret t = None) archive_secret)"

definition assertFields :: "fields \<Rightarrow> string list \<Rightarrow> unit result" where
  "assertFields fs names = valid_if (length fs = length names \<and> list_all (\<lambda>f. fst f \<in> set names) fs)"

text \<open>The object \<open>{ type, ...source }\<close>: a field of the source replaces the given one.\<close>

definition with_type :: "archive_type \<Rightarrow> fields \<Rightarrow> fields" where
  "with_type t source = (if hasOwn source ''type'' then source else (''type'', VStr (type_key t)) # source)"

definition normalizeRecord ::
    "(jsvalue \<Rightarrow> string list result) \<Rightarrow> archive_type \<Rightarrow> fields \<Rightarrow> string \<Rightarrow> bool \<Rightarrow> fields result" where
  "normalizeRecord resolution t source workspace importing =
     (let raw = with_type t source in
      rbind (assertFields raw (''type'' # TABLE_FIELDS t)) (\<lambda>_.
      rbind (run_steps (case_steps resolution workspace t) raw) (\<lambda>fs.
      let r = (''type'', VStr (type_key t)) # fs in
      rbind (if importing then Inr () else secretScan r) (\<lambda>_. Inr r))))"

end
