(* ===== verification/Archive_Transfer.thy ===== *)
theory Archive_Transfer
  imports Archive_Records Db_Operation
begin

text \<open>
  Export and import of an archive, \<open>src/src/ledger/archive.ts\<close>: selecting and writing the records, reading them
  back, checking the graph of their references and the hash chains, and merging them into a database.
\<close>

section \<open>The database\<close>

text \<open>The rows of the archived tables, the memory tables they refer to, and the workspaces with a backfill mark.\<close>

record archive_db =
  ad_rows :: archive_records
  ad_memory :: mem_db
  ad_backfill :: "string list"

definition sql_eq :: "jsvalue \<Rightarrow> jsvalue \<Rightarrow> bool" where
  "sql_eq a b = (a = b \<and> a \<noteq> VNull)"

definition joins :: "string \<Rightarrow> fields \<Rightarrow> string \<Rightarrow> fields \<Rightarrow> bool" where
  "joins k r l q = sql_eq (getp r k) (getp q l)"

definition run_scope :: "archive_db \<Rightarrow> string \<Rightarrow> fields \<Rightarrow> bool" where
  "run_scope db workspace r =
     list_ex (\<lambda>q. joins ''run_id'' r ''run_id'' q \<and> getp q ''workspace'' = VStr workspace) (ad_rows db Runs)"

definition session_scope :: "archive_db \<Rightarrow> string \<Rightarrow> fields \<Rightarrow> bool" where
  "session_scope db workspace s =
     list_ex (\<lambda>i. joins ''id'' s ''session_id'' i \<and> run_scope db workspace i) (ad_rows db RunIntakes)"

definition entry_in :: "archive_db \<Rightarrow> string \<Rightarrow> fields \<Rightarrow> bool" where
  "entry_in db workspace p =
     list_ex (\<lambda>e. getp p ''entry_id'' = VStr (en_id e) \<and> en_workspace e = workspace) (md_entries (ad_memory db))"

fun in_scope :: "archive_db \<Rightarrow> string \<Rightarrow> archive_type \<Rightarrow> fields \<Rightarrow> bool" where
  "in_scope db workspace Runs r = (getp r ''workspace'' = VStr workspace)"
| "in_scope db workspace Sessions r = session_scope db workspace r"
| "in_scope db workspace Answers r =
     list_ex (\<lambda>s. joins ''session_id'' r ''id'' s \<and> session_scope db workspace s) (ad_rows db Sessions)"
| "in_scope db workspace DeliveryEntries r =
     list_ex (\<lambda>d. joins ''delivery_id'' r ''delivery_id'' d \<and> run_scope db workspace d) (ad_rows db Deliveries)"
| "in_scope db workspace PurgeAudit r =
     (run_scope db workspace r
      \<or> list_ex (\<lambda>e. joins ''event_id'' r ''event_id'' e \<and> run_scope db workspace e) (ad_rows db Events)
      \<or> list_ex (\<lambda>d. joins ''delivery_id'' r ''delivery_id'' d \<and> run_scope db workspace d) (ad_rows db Deliveries)
      \<or> entry_in db workspace r)"
| "in_scope db workspace t r = run_scope db workspace r"

definition text_at :: "fields \<Rightarrow> string \<Rightarrow> string" where
  "text_at r k = (case getp r k of VStr s \<Rightarrow> s | _ \<Rightarrow> [])"

definition num_at :: "fields \<Rightarrow> string \<Rightarrow> int" where
  "num_at r k = (case getp r k of VNum n \<Rightarrow> n | _ \<Rightarrow> 0)"

fun row_order :: "archive_type \<Rightarrow> fields \<Rightarrow> string \<times> int \<times> string" where
  "row_order Sessions r = (text_at r ''id'', 0, [])"
| "row_order Answers r = (text_at r ''session_id'', 0, text_at r ''question_id'')"
| "row_order IntakeFeedback r = (text_at r ''feedback_id'', 0, [])"
| "row_order Events r = (text_at r ''run_id'', num_at r ''sequence'', [])"
| "row_order Evidence r = (text_at r ''run_id'', 0, text_at r ''evidence_id'')"
| "row_order Deliveries r = (text_at r ''run_id'', 0, text_at r ''delivery_id'')"
| "row_order DeliveryEntries r = (text_at r ''delivery_id'', 0, text_at r ''entry_id'')"
| "row_order NudgeDeliveries r = (text_at r ''run_id'', num_at r ''through_sequence'', text_at r ''id'')"
| "row_order ContextFeedback r = (text_at r ''feedback_id'', 0, [])"
| "row_order RunFeedback r = (text_at r ''feedback_id'', 0, [])"
| "row_order MemoryLinks r = (text_at r ''link_id'', 0, [])"
| "row_order PurgeAudit r = (text_at r ''purge_id'', 0, [])"
| "row_order t r = (text_at r ''run_id'', 0, [])"

definition columns_of :: "archive_type \<Rightarrow> fields \<Rightarrow> fields" where
  "columns_of t r = map (\<lambda>k. (k, getp r k)) (TABLE_FIELDS t)"

type_synonym resolution_parser = "jsvalue \<Rightarrow> string list result"

definition queryRows :: "resolution_parser \<Rightarrow> archive_db \<Rightarrow> archive_type \<Rightarrow> string \<Rightarrow> fields list result" where
  "queryRows resolution db t workspace =
     rtraverse (\<lambda>r. normalizeRecord resolution t (columns_of t r) workspace False)
       (sort_key (row_order t) (filter (in_scope db workspace t) (ad_rows db t)))"

section \<open>Writing\<close>

type_synonym archive_counts = "archive_type \<Rightarrow> int"

definition countRecords :: "archive_records \<Rightarrow> archive_counts" where
  "countRecords records t = int (length (records t))"

definition counts_value :: "archive_counts \<Rightarrow> jsvalue" where
  "counts_value counts = VObj (map (\<lambda>t. (type_key t, VNum (counts t))) ARCHIVE_TYPES)"

definition manifest_of :: "string \<Rightarrow> archive_counts \<Rightarrow> fields" where
  "manifest_of workspace counts =
     [(''type'', VStr ''manifest''), (''archiveVersion'', VNum 2), (''format'', VStr ''kiokuko-ledger-jsonl''),
      (''workspace'', VStr workspace), (''counts'', counts_value counts)]"

definition archived :: "archive_type \<Rightarrow> fields \<Rightarrow> fields" where
  "archived t r = map (\<lambda>f. if fst f = ''type'' then (''type'', VStr (RECORD_NAMES t)) else f) r"

definition LF :: char where
  "LF = CHR 0x0A"

definition unlines :: "string list \<Rightarrow> string" where
  "unlines ls = concat (map (\<lambda>l. l @ [LF]) ls)"

fun split_lf :: "string \<Rightarrow> string list" where
  "split_lf [] = [[]]"
| "split_lf (c # s) =
     (if c = LF then [] # split_lf s
      else case split_lf s of [] \<Rightarrow> [[c]] | l # ls \<Rightarrow> (c # l) # ls)"

definition checkBounds :: "string \<Rightarrow> string list result" where
  "checkBounds content =
     rbind (valid_if (byteLength content \<le> 67108864 \<and> content \<noteq> [] \<and> last content = LF)) (\<lambda>_.
     let serialized = butlast (split_lf content) in
     rbind (valid_if (int (length serialized) \<le> 10000 \<and> list_all (\<lambda>l. l \<noteq> [] \<and> byteLength l \<le> 524288) serialized)) (\<lambda>_.
     Inr serialized))"

record archive_export =
  ax_workspace :: string
  ax_counts :: archive_counts
  ax_checksum :: string
  ax_content :: string

definition checksum_line :: "string \<Rightarrow> jsvalue" where
  "checksum_line checksum = VObj [(''type'', VStr ''checksum''), (''sha256'', VStr checksum)]"

definition buildArchive :: "(string \<Rightarrow> string) \<Rightarrow> string \<Rightarrow> archive_records \<Rightarrow> archive_export result" where
  "buildArchive sha256 workspace records =
     (let counts = countRecords records; manifest = manifest_of workspace counts in
      rbind (secretScan manifest) (\<lambda>_.
      let ordered = concat (map (\<lambda>t. map (archived t) (records t)) ARCHIVE_TYPES) in
      rbind (rtraverse (\<lambda>r. canonicalJson (VObj r)) (manifest # ordered)) (\<lambda>payloadLines.
      let payload = unlines payloadLines; checksum = sha256 payload in
      rbind (canonicalJson (checksum_line checksum)) (\<lambda>first.
      let content = first @ [LF] @ payload in
      rbind (checkBounds content) (\<lambda>_.
      Inr \<lparr>ax_workspace = workspace, ax_counts = counts, ax_checksum = checksum, ax_content = content\<rparr>)))))"

section \<open>Reading\<close>

definition parseLine :: "string \<Rightarrow> string list \<Rightarrow> fields result" where
  "parseLine line names =
     (case json_parse line of
        None \<Rightarrow> Inl archive_integrity
      | Some parsed \<Rightarrow>
          rbind (as_fields archive_validation parsed) (\<lambda>fs.
          rbind (assertFields fs names) (\<lambda>_.
          rbind (canonicalIntegrity (canonicalJson parsed)) (\<lambda>t.
          rbind (intact_if (t = line)) (\<lambda>_. Inr fs)))))"

definition parseCounts :: "jsvalue \<Rightarrow> bool \<Rightarrow> archive_counts result" where
  "parseCounts v legacy =
     rbind (as_fields archive_validation v) (\<lambda>fs.
     let types = filter (\<lambda>t. \<not> legacy \<or> t \<noteq> MemoryResolutions) ARCHIVE_TYPES in
     rbind (assertFields fs (map type_key types)) (\<lambda>_.
     rbind (rtraverse (\<lambda>t. integerValue 0 (getp fs (type_key t))) types) (\<lambda>_.
     Inr (\<lambda>t. if t \<in> set types then num_at fs (type_key t) else 0))))"

definition record_type :: "string \<Rightarrow> archive_type option" where
  "record_type s = find (\<lambda>t. RECORD_NAMES t = s) ARCHIVE_TYPES"

definition add_record :: "archive_type \<Rightarrow> fields \<Rightarrow> archive_records \<Rightarrow> archive_records" where
  "add_record t r records = records(t := records t @ [r])"

definition parseRecord :: "resolution_parser \<Rightarrow> string \<Rightarrow> string \<Rightarrow> (archive_type \<times> fields) result" where
  "parseRecord resolution workspace line =
     (case json_parse line of
        None \<Rightarrow> Inl archive_integrity
      | Some v \<Rightarrow>
          rbind (as_fields archive_validation v) (\<lambda>raw.
          rbind (intact_if (getp raw ''type'' \<noteq> VStr ''manifest'' \<and> getp raw ''type'' \<noteq> VStr ''checksum'')) (\<lambda>_.
          rbind (as_string archive_validation (getp raw ''type'')) (\<lambda>name.
          case record_type name of
            None \<Rightarrow> Inl archive_validation
          | Some t \<Rightarrow>
              rbind (parseLine line (''type'' # TABLE_FIELDS t)) (\<lambda>parsed.
              rbind (normalizeRecord resolution t parsed workspace True) (\<lambda>normalized.
              rbind (secretScan normalized) (\<lambda>_. Inr (t, normalized))))))))"

fun parseRecords :: "resolution_parser \<Rightarrow> string \<Rightarrow> string list \<Rightarrow> archive_records \<Rightarrow> archive_records result" where
  "parseRecords resolution workspace [] records = Inr records"
| "parseRecords resolution workspace (line # ls) records =
     rbind (parseRecord resolution workspace line) (\<lambda>p.
     parseRecords resolution workspace ls (add_record (fst p) (snd p) records))"

record parsed_archive =
  pa_workspace :: string
  pa_counts :: archive_counts
  pa_records :: archive_records

definition MANIFEST_FIELDS :: "string list" where
  "MANIFEST_FIELDS = [''type'', ''archiveVersion'', ''format'', ''workspace'', ''counts'']"

definition parseArchive :: "resolution_parser \<Rightarrow> (string \<Rightarrow> string) \<Rightarrow> string \<Rightarrow> parsed_archive result" where
  "parseArchive resolution sha256 content =
     rbind (checkBounds content) (\<lambda>ls.
     rbind (intact_if (2 \<le> length ls)) (\<lambda>_.
     rbind (parseLine (ls ! 0) [''type'', ''sha256'']) (\<lambda>checksum.
     rbind (intact_if (getp checksum ''type'' = VStr ''checksum'' \<and> is_hash_value (getp checksum ''sha256''))) (\<lambda>_.
     rbind (intact_if (VStr (sha256 (unlines (tl ls))) = getp checksum ''sha256'')) (\<lambda>_.
     rbind (parseLine (ls ! 1) MANIFEST_FIELDS) (\<lambda>manifest.
     rbind (valid_if (getp manifest ''type'' = VStr ''manifest''
       \<and> (getp manifest ''archiveVersion'' = VNum 1 \<or> getp manifest ''archiveVersion'' = VNum 2)
       \<and> getp manifest ''format'' = VStr ''kiokuko-ledger-jsonl'')) (\<lambda>_.
     rbind (secretScan manifest) (\<lambda>_.
     rbind (requireWorkspace (getp manifest ''workspace'')) (\<lambda>workspace.
     rbind (parseCounts (getp manifest ''counts'') (getp manifest ''archiveVersion'' = VNum 1)) (\<lambda>counts.
     rbind (parseRecords resolution workspace (drop 2 ls) (\<lambda>_. [])) (\<lambda>records.
     rbind (intact_if (list_all (\<lambda>t. int (length (records t)) = counts t) ARCHIVE_TYPES)) (\<lambda>_.
     Inr \<lparr>pa_workspace = workspace, pa_counts = counts, pa_records = records\<rparr>))))))))))))"

end
