(* ===== verification/Archive_Import.thy ===== *)
theory Archive_Import
  imports Archive_Transfer
begin

text \<open>
  The checks over a whole archive and its merge into a database, \<open>src/src/ledger/archive.ts\<close>: unique records,
  references, hash chains and nudge limits, comparison with what is stored, and the insertion in one
  transaction. The parents of runs are followed by recursion, which need not end on untrusted input.
\<close>

section \<open>The graph of records\<close>

fun identity :: "archive_type \<Rightarrow> fields \<Rightarrow> string" where
  "identity Sessions r = text_at r ''id''"
| "identity Answers r = text_at r ''session_id'' @ [CHR 0x00] @ text_at r ''question_id''"
| "identity IntakeFeedback r = text_at r ''feedback_id''"
| "identity Events r = text_at r ''event_id''"
| "identity Evidence r = text_at r ''evidence_id''"
| "identity Deliveries r = text_at r ''delivery_id''"
| "identity DeliveryEntries r = text_at r ''delivery_id'' @ [CHR 0x00] @ text_at r ''entry_id''"
| "identity NudgeDeliveries r = text_at r ''id''"
| "identity ContextFeedback r = text_at r ''feedback_id''"
| "identity RunFeedback r = text_at r ''feedback_id''"
| "identity MemoryLinks r = text_at r ''link_id''"
| "identity PurgeAudit r = text_at r ''purge_id''"
| "identity t r = text_at r ''run_id''"

definition ensureUniqueRecords :: "archive_records \<Rightarrow> unit result" where
  "ensureUniqueRecords records = intact_if (list_all (\<lambda>t. distinct (map (identity t) (records t))) ARCHIVE_TYPES)"

definition byId :: "archive_records \<Rightarrow> archive_type \<Rightarrow> string \<Rightarrow> fields option" where
  "byId records t k = find (\<lambda>r. identity t r = k) (records t)"

definition ids_at :: "archive_records \<Rightarrow> archive_type \<Rightarrow> string \<Rightarrow> string list" where
  "ids_at records t k = map (\<lambda>r. text_at r k) (records t)"

definition run_known :: "archive_records \<Rightarrow> fields \<Rightarrow> bool" where
  "run_known records r = (text_at r ''run_id'' \<in> set (ids_at records Runs ''run_id''))"

definition intakeByRun :: "archive_records \<Rightarrow> string \<Rightarrow> fields option" where
  "intakeByRun records runId = find (\<lambda>i. text_at i ''run_id'' = runId) (records RunIntakes)"

definition each :: "('a \<Rightarrow> unit result) \<Rightarrow> 'a list \<Rightarrow> unit result" where
  "each f xs = rbind (rtraverse f xs) (\<lambda>_. Inr ())"

definition opt_text :: "fields \<Rightarrow> string \<Rightarrow> string option" where
  "opt_text r k = (if getp r k = VNull then None else Some (text_at r k))"

definition opt_num :: "fields \<Rightarrow> string \<Rightarrow> int option" where
  "opt_num r k = (if getp r k = VNull then None else Some (num_at r k))"

definition archived_event :: "fields \<Rightarrow> jsvalue \<Rightarrow> event_input" where
  "archived_event r body =
     \<lparr>ei_eventId = None, ei_sourceEventId = opt_text r ''source_event_id'',
      ei_sourceSequence = opt_num r ''source_sequence'', ei_eventType = text_at r ''event_type'',
      ei_sourceType = opt_text r ''source_type'', ei_actor = text_at r ''actor'',
      ei_outcome = map_option Some (opt_text r ''outcome''), ei_occurredAt = opt_text r ''occurred_at'',
      ei_payload = body\<rparr>"

definition record_hash :: "(string \<Rightarrow> string) \<Rightarrow> string \<Rightarrow> fields \<Rightarrow> string result" where
  "record_hash sha256 runId r =
     rbind (parseJson (text_at r ''payload_json'')) (\<lambda>body.
     rbind (parseJson (text_at r ''redaction_json'')) (\<lambda>redaction.
     hashLedgerEvent sha256 runId (num_at r ''sequence'') (text_at r ''event_id'') (text_at r ''previous_hash'')
       (archived_event r body) (text_at r ''ingested_at'') redaction))"

fun check_chain ::
    "(string \<Rightarrow> string) \<Rightarrow> string \<Rightarrow> int \<Rightarrow> string \<Rightarrow> int option \<Rightarrow> fields list \<Rightarrow> int option result" where
  "check_chain sha256 runId index previous maxSource [] = Inr maxSource"
| "check_chain sha256 runId index previous maxSource (e # es) =
     rbind (intact_if (num_at e ''sequence'' = index + 1 \<and> text_at e ''previous_hash'' = previous)) (\<lambda>_.
     rbind (record_hash sha256 runId e) (\<lambda>calculated.
     rbind (intact_if (calculated = text_at e ''event_hash'')) (\<lambda>_.
     check_chain sha256 runId (index + 1) (text_at e ''event_hash'') (max_source maxSource (opt_num e ''source_sequence'')) es)))"

definition ACTIVE_SESSION_STATUSES :: "string list" where
  "ACTIVE_SESSION_STATUSES = [''needs_answer'', ''ready'', ''exhausted'']"

definition session_of :: "archive_records \<Rightarrow> fields \<Rightarrow> fields option" where
  "session_of records intake = byId records Sessions (text_at intake ''session_id'')"

definition active_run_ok :: "archive_records \<Rightarrow> fields \<Rightarrow> bool" where
  "active_run_ok records run =
     (case intakeByRun records (text_at run ''run_id'') of
        None \<Rightarrow> False
      | Some intake \<Rightarrow>
          (case session_of records intake of
             None \<Rightarrow> False
           | Some session \<Rightarrow> text_at session ''status'' \<in> set ACTIVE_SESSION_STATUSES))"

definition run_events :: "archive_records \<Rightarrow> string \<Rightarrow> fields list" where
  "run_events records runId =
     sort_key (\<lambda>e. num_at e ''sequence'') (filter (\<lambda>e. text_at e ''run_id'' = runId) (records Events))"

definition check_run :: "(string \<Rightarrow> string) \<Rightarrow> archive_records \<Rightarrow> fields \<Rightarrow> unit result" where
  "check_run sha256 records run =
     (let runId = text_at run ''run_id''; eventRows = run_events records runId in
      rbind (intact_if (opt_all (\<lambda>p. p \<in> set (ids_at records Runs ''run_id'')) (opt_text run ''parent_run_id''))) (\<lambda>_.
      rbind (intact_if (int (length eventRows) = num_at run ''last_sequence'')) (\<lambda>_.
      rbind (check_chain sha256 runId 0 GENESIS_HASH None eventRows) (\<lambda>maxSource.
      rbind (intact_if (opt_num run ''last_source_sequence'' = maxSource)) (\<lambda>_.
      intact_if (getp run ''status'' = VStr ''active'' \<longrightarrow> active_run_ok records run))))))"

definition finalized_ok :: "archive_records \<Rightarrow> fields \<Rightarrow> bool" where
  "finalized_ok records intake =
     (\<not> is_null intake ''finalized_at'' \<longrightarrow>
        opt_all (\<lambda>s. text_at s ''status'' \<in> {''ready'', ''exhausted''}) (session_of records intake) \<and> session_of records intake \<noteq> None)"

definition intake_session_matches :: "archive_records \<Rightarrow> fields \<Rightarrow> string \<Rightarrow> bool" where
  "intake_session_matches records r k =
     (case intakeByRun records (text_at r ''run_id'') of None \<Rightarrow> False | Some intake \<Rightarrow> getp intake ''session_id'' = getp r k)"

definition through_known :: "archive_records \<Rightarrow> fields \<Rightarrow> bool" where
  "through_known records r =
     (case byId records Runs (text_at r ''run_id'') of
        None \<Rightarrow> False
      | Some run \<Rightarrow> num_at r ''through_sequence'' \<le> num_at run ''last_sequence'')"

definition nudge_key :: "fields \<Rightarrow> string \<Rightarrow> string" where
  "nudge_key r k = text_at r ''run_id'' @ [CHR 0x00] @ text_at r ''policy_version'' @ [CHR 0x00] @ text_at r k"

fun string_of_value :: "jsvalue \<Rightarrow> string" where
  "string_of_value (VStr s) = s"
| "string_of_value v = []"

definition evidence_known :: "archive_records \<Rightarrow> fields \<Rightarrow> jsvalue \<Rightarrow> bool" where
  "evidence_known records nudge v =
     (case find (\<lambda>e. text_at e ''event_id'' = string_of_value v) (records Events) of
        None \<Rightarrow> False
      | Some e \<Rightarrow> getp e ''run_id'' = getp nudge ''run_id'' \<and> num_at e ''sequence'' \<le> num_at nudge ''through_sequence'')"

fun check_nudges ::
    "archive_records \<Rightarrow> string list \<Rightarrow> string list \<Rightarrow> fields list \<Rightarrow> (string \<times> stored_delivery) list result" where
  "check_nudges records occurrences checkpoints [] = Inr []"
| "check_nudges records occurrences checkpoints (n # ns) =
     rbind (intact_if (through_known records n)) (\<lambda>_.
     rbind (intact_if (nudge_key n ''occurrence_id'' \<notin> set occurrences \<and> nudge_key n ''checkpoint_id'' \<notin> set checkpoints)) (\<lambda>_.
     rbind (parseStoredNudgeDelivery (VObj n)) (\<lambda>deliv.
     rbind (case json_parse (text_at n ''evidence_event_ids_json'') of
         Some (VArr xs) \<Rightarrow> intact_if (list_all (evidence_known records n) xs)
       | _ \<Rightarrow> Inl archive_integrity) (\<lambda>_.
     rbind (check_nudges records (nudge_key n ''occurrence_id'' # occurrences) (nudge_key n ''checkpoint_id'' # checkpoints) ns)
       (\<lambda>rest. Inr ((sd_policyVersion deliv @ [CHR 0x00] @ text_at n ''run_id'', deliv) # rest))))))"

definition check_nudge_histories :: "(string \<times> stored_delivery) list \<Rightarrow> unit result" where
  "check_nudge_histories deliv =
     each (\<lambda>k. validateStoredNudgeHistory (map snd (filter (\<lambda>p. fst p = k) deliv)) DEFAULT_NUDGE_RATE_LIMIT)
       (js_set (map fst deliv))"

definition feedback_ok :: "archive_records \<Rightarrow> fields \<Rightarrow> bool" where
  "feedback_ok records f =
     (case byId records Deliveries (text_at f ''delivery_id'') of
        None \<Rightarrow> False
      | Some d \<Rightarrow> getp d ''run_id'' = getp f ''run_id'' \<and> byId records DeliveryEntries (identity DeliveryEntries f) \<noteq> None)"

definition link_target_ok :: "archive_records \<Rightarrow> archive_type \<Rightarrow> string \<Rightarrow> fields \<Rightarrow> bool" where
  "link_target_ok records t k l =
     (is_null l k \<or>
      (case byId records t (text_at l k) of None \<Rightarrow> False | Some r \<Rightarrow> getp r ''run_id'' = getp l ''run_id''))"

definition named_or_null :: "archive_records \<Rightarrow> archive_type \<Rightarrow> string \<Rightarrow> fields \<Rightarrow> bool" where
  "named_or_null records t k r = (is_null r k \<or> text_at r k \<in> set (ids_at records t k))"

definition validateGraph ::
    "resolution_parser \<Rightarrow> (string \<Rightarrow> string) \<Rightarrow> archive_records \<Rightarrow> string \<Rightarrow> unit result" where
  "validateGraph resolution sha256 records workspace =
     rbind (ensureUniqueRecords records) (\<lambda>_.
     rbind (each (\<lambda>r.
         rbind (intact_if (run_known records r)) (\<lambda>_.
         rbind (parseJson (text_at r ''resolution_json'')) (\<lambda>v.
         rbind (resolution v) (\<lambda>workspaces. intact_if (list_all (\<lambda>w. w = workspace) workspaces))))) (records MemoryResolutions)) (\<lambda>_.
     rbind (intact_if (list_all (\<lambda>i. run_known records i \<and> text_at i ''session_id'' \<in> set (ids_at records Sessions ''id''))
         (records RunIntakes) \<and> distinct (ids_at records RunIntakes ''run_id'') \<and> distinct (ids_at records RunIntakes ''session_id''))) (\<lambda>_.
     rbind (intact_if (list_all (\<lambda>s. text_at s ''workspace'' = workspace) (records Sessions))) (\<lambda>_.
     rbind (intact_if (list_all (run_known records) (records Events))) (\<lambda>_.
     rbind (each (check_run sha256 records) (records Runs)) (\<lambda>_.
     rbind (intact_if (list_all (finalized_ok records) (records RunIntakes))) (\<lambda>_.
     rbind (intact_if (list_all (\<lambda>a. text_at a ''session_id'' \<in> set (ids_at records Sessions ''id'')) (records Answers))) (\<lambda>_.
     rbind (intact_if (list_all (\<lambda>f. intake_session_matches records f ''session_id'') (records IntakeFeedback))) (\<lambda>_.
     rbind (intact_if (list_all (\<lambda>e. run_known records e \<and> named_or_null records Events ''event_id'' e) (records Evidence))) (\<lambda>_.
     rbind (intact_if (list_all (\<lambda>d. through_known records d
         \<and> (is_null d ''intake_session_id'' \<or> intake_session_matches records d ''intake_session_id'')) (records Deliveries))) (\<lambda>_.
     rbind (check_nudges records [] [] (records NudgeDeliveries)) (\<lambda>deliv.
     rbind (check_nudge_histories deliv) (\<lambda>_.
     rbind (intact_if (list_all (\<lambda>e. byId records Deliveries (text_at e ''delivery_id'') \<noteq> None) (records DeliveryEntries))) (\<lambda>_.
     rbind (intact_if (list_all (feedback_ok records) (records ContextFeedback))) (\<lambda>_.
     rbind (intact_if (list_all (run_known records) (records RunFeedback))) (\<lambda>_.
     rbind (intact_if (list_all (\<lambda>l. run_known records l \<and> \<not> (is_null l ''event_id'' \<and> is_null l ''delivery_id'')
         \<and> link_target_ok records Events ''event_id'' l \<and> link_target_ok records Deliveries ''delivery_id'' l) (records MemoryLinks))) (\<lambda>_.
     intact_if (list_all (\<lambda>p. named_or_null records Runs ''run_id'' p \<and> named_or_null records Events ''event_id'' p
         \<and> named_or_null records Deliveries ''delivery_id'' p) (records PurgeAudit)))))))))))))))))))"

section \<open>References to memory entries\<close>

definition exactEntryReference :: "mem_db \<Rightarrow> string \<Rightarrow> int \<Rightarrow> (string \<times> string) option" where
  "exactEntryReference db entryId revision =
     (case find (\<lambda>e. en_id e = entryId) (md_entries db) of
        None \<Rightarrow> None
      | Some e \<Rightarrow> map_option (\<lambda>r. (en_workspace e, rn_workspace r))
          (find (\<lambda>r. rn_entry_id r = entryId \<and> rn_revision r = revision) (md_revisions db)))"

definition entryOriginMatchesWorkspace :: "string \<Rightarrow> string \<Rightarrow> string \<Rightarrow> bool" where
  "entryOriginMatchesWorkspace origin runWorkspace entryWorkspace =
     (if origin = ''project'' then entryWorkspace = runWorkspace
      else if origin = ''global'' then entryWorkspace = ''global''
      else entryWorkspace \<noteq> ''global'' \<and> entryWorkspace \<noteq> runWorkspace)"

definition check_reference :: "mem_db \<Rightarrow> string \<Rightarrow> string \<Rightarrow> int \<Rightarrow> string \<Rightarrow> unit result" where
  "check_reference db workspace entryId revision origin =
     (case exactEntryReference db entryId revision of
        None \<Rightarrow> Inl archive_not_found
      | Some (entryWorkspace, revisionWorkspace) \<Rightarrow>
          check (revisionWorkspace = entryWorkspace \<and> entryOriginMatchesWorkspace origin workspace entryWorkspace) archive_conflict)"

definition check_link :: "mem_db \<Rightarrow> string \<Rightarrow> fields \<Rightarrow> unit result" where
  "check_link db workspace l =
     (case find (\<lambda>e. en_id e = text_at l ''entry_id'') (md_entries db) of
        None \<Rightarrow> Inl archive_not_found
      | Some e \<Rightarrow> check (en_workspace e = workspace \<or> en_workspace e = ''global'') archive_conflict)"

definition validateMemoryReferences :: "mem_db \<Rightarrow> archive_records \<Rightarrow> string \<Rightarrow> unit result" where
  "validateMemoryReferences db records workspace =
     rbind (each (\<lambda>r.
         rbind (intact_if (is_text_among CONTEXT_ENTRY_ORIGINS (getp r ''origin_scope''))) (\<lambda>_.
         check_reference db workspace (text_at r ''entry_id'') (num_at r ''entry_revision'') (text_at r ''origin_scope'')))
       (records DeliveryEntries)) (\<lambda>_.
     rbind (each (\<lambda>f.
         case byId records DeliveryEntries (identity DeliveryEntries f) of
           None \<Rightarrow> Inl archive_integrity
         | Some r \<Rightarrow>
             rbind (intact_if (is_text_among CONTEXT_ENTRY_ORIGINS (getp r ''origin_scope''))) (\<lambda>_.
             check_reference db workspace (text_at f ''entry_id'') (num_at r ''entry_revision'') (text_at r ''origin_scope'')))
       (records ContextFeedback)) (\<lambda>_.
     each (check_link db workspace) (records MemoryLinks)))"

section \<open>Export\<close>

definition records_of :: "fields list list \<Rightarrow> archive_records" where
  "records_of rows t = (case map_of (zip ARCHIVE_TYPES rows) t of None \<Rightarrow> [] | Some rs \<Rightarrow> rs)"

definition exportLedgerArchive ::
    "resolution_parser \<Rightarrow> (string \<Rightarrow> string) \<Rightarrow> string \<Rightarrow> archive_db \<Rightarrow> archive_export result" where
  "exportLedgerArchive resolution sha256 workspace db =
     rbind (requireWorkspace (VStr workspace)) (\<lambda>ws.
     rbind (rtraverse (\<lambda>t. queryRows resolution db t ws) ARCHIVE_TYPES) (\<lambda>rows.
     let records = records_of rows in
     rbind (validateGraph resolution sha256 records ws) (\<lambda>_.
     rbind (validateMemoryReferences (ad_memory db) records ws) (\<lambda>_.
     buildArchive sha256 ws records))))"

section \<open>Comparison with what is stored\<close>

fun PRIMARY_KEY :: "archive_type \<Rightarrow> string list" where
  "PRIMARY_KEY Sessions = [''id'']"
| "PRIMARY_KEY Answers = [''session_id'', ''question_id'']"
| "PRIMARY_KEY IntakeFeedback = [''feedback_id'']"
| "PRIMARY_KEY Events = [''event_id'']"
| "PRIMARY_KEY Evidence = [''evidence_id'']"
| "PRIMARY_KEY Deliveries = [''delivery_id'']"
| "PRIMARY_KEY DeliveryEntries = [''delivery_id'', ''entry_id'']"
| "PRIMARY_KEY NudgeDeliveries = [''id'']"
| "PRIMARY_KEY ContextFeedback = [''feedback_id'']"
| "PRIMARY_KEY RunFeedback = [''feedback_id'']"
| "PRIMARY_KEY MemoryLinks = [''link_id'']"
| "PRIMARY_KEY PurgeAudit = [''purge_id'']"
| "PRIMARY_KEY t = [''run_id'']"

definition matches :: "string list \<Rightarrow> fields \<Rightarrow> fields \<Rightarrow> bool" where
  "matches ks r q = list_all (\<lambda>k. getp q k = VStr (text_at r k)) ks"

definition selectExisting :: "archive_db \<Rightarrow> archive_type \<Rightarrow> fields \<Rightarrow> fields option" where
  "selectExisting db t r = map_option (columns_of t) (find (matches (PRIMARY_KEY t) r) (ad_rows db t))"

fun UNIQUE_LOOKUP :: "archive_type \<Rightarrow> fields \<Rightarrow> fields \<Rightarrow> bool" where
  "UNIQUE_LOOKUP RunIntakes r q = matches [''session_id''] r q"
| "UNIQUE_LOOKUP Events r q =
     (if \<not> is_null r ''source_event_id'' then matches [''run_id'', ''source_event_id''] r q
      else matches [''run_id''] r q \<and> getp q ''sequence'' = VNum (num_at r ''sequence''))"
| "UNIQUE_LOOKUP DeliveryEntries r q = matches [''delivery_id'', ''entry_id''] r q"
| "UNIQUE_LOOKUP IntakeFeedback r q = matches [''run_id'', ''actor'', ''idempotency_key''] r q"
| "UNIQUE_LOOKUP ContextFeedback r q = matches [''run_id'', ''actor'', ''idempotency_key''] r q"
| "UNIQUE_LOOKUP RunFeedback r q = matches [''run_id'', ''actor'', ''idempotency_key''] r q"
| "UNIQUE_LOOKUP t r q = False"

definition hasUniqueConflict :: "archive_db \<Rightarrow> archive_type \<Rightarrow> fields \<Rightarrow> bool" where
  "hasUniqueConflict db t r = list_ex (UNIQUE_LOOKUP t r) (ad_rows db t)"

text \<open>Whether a record is stored already.\<close>

definition compareExisting ::
    "resolution_parser \<Rightarrow> archive_db \<Rightarrow> archive_type \<Rightarrow> fields \<Rightarrow> string \<Rightarrow> bool result" where
  "compareExisting resolution db t r workspace =
     (case selectExisting db t r of
        Some existing \<Rightarrow>
          rbind (normalizeRecord resolution t existing (text_at r ''workspace'') True) (\<lambda>normalized.
          rbind (canonicalJson (VObj normalized)) (\<lambda>a.
          rbind (canonicalJson (VObj r)) (\<lambda>b.
          rbind (check (a = b) archive_conflict) (\<lambda>_. Inr True))))
      | None \<Rightarrow>
          rbind (check (\<not> hasUniqueConflict db t r) archive_conflict) (\<lambda>_.
          rbind (if t = MemoryLinks then check_link (ad_memory db) workspace r else Inr ()) (\<lambda>_. Inr False)))"

section \<open>Order of the import\<close>

text \<open>
  \<open>emitRun\<close>: the parents of a run first. The recursion has no bound of its own; \<open>None\<close> is a call that does not
  return (the call stack overflows).
\<close>

definition parent_of :: "fields list \<Rightarrow> fields \<Rightarrow> fields option" where
  "parent_of runs run =
     (case opt_text run ''parent_run_id'' of
        None \<Rightarrow> None
      | Some p \<Rightarrow> find (\<lambda>c. text_at c ''run_id'' = p) runs)"

type_synonym emitted = "string list \<times> fields list"

partial_function (option) emitRun :: "fields list \<Rightarrow> fields \<Rightarrow> emitted \<Rightarrow> emitted option" where
  "emitRun runs run st =
     (if text_at run ''run_id'' \<in> set (fst st) then Some st
      else Option.bind (case parent_of runs run of None \<Rightarrow> Some st | Some parent \<Rightarrow> emitRun runs parent st)
        (\<lambda>st'. Some (text_at run ''run_id'' # fst st', snd st' @ [run])))"

fun emitRuns :: "fields list \<Rightarrow> fields list \<Rightarrow> emitted \<Rightarrow> emitted option" where
  "emitRuns runs [] st = Some st"
| "emitRuns runs (run # rest) st = Option.bind (emitRun runs run st) (emitRuns runs rest)"

definition IMPORT_ORDER :: "archive_type list" where
  "IMPORT_ORDER = [Sessions, Answers, RunIntakes, IntakeFeedback, Events, Evidence, Deliveries, NudgeDeliveries,
     DeliveryEntries, ContextFeedback, RunFeedback, MemoryLinks, PurgeAudit, MemoryResolutions]"

definition orderedForImport :: "archive_records \<Rightarrow> (archive_type \<times> fields) list option" where
  "orderedForImport records =
     map_option (\<lambda>st. map (Pair Runs) (snd st) @ concat (map (\<lambda>t. map (Pair t) (records t)) IMPORT_ORDER))
       (emitRuns (records Runs) (records Runs) ([], []))"

section \<open>Import\<close>

fun UNIQUE_CONSTRAINT_TARGETS :: "archive_type \<Rightarrow> string list" where
  "UNIQUE_CONSTRAINT_TARGETS MemoryResolutions = [''akinator_memory_resolutions.run_id'']"
| "UNIQUE_CONSTRAINT_TARGETS Runs = [''ledger_runs.run_id'']"
| "UNIQUE_CONSTRAINT_TARGETS Sessions = [''akinator_sessions.id'']"
| "UNIQUE_CONSTRAINT_TARGETS Answers = [''akinator_answers.session_id, akinator_answers.question_id'']"
| "UNIQUE_CONSTRAINT_TARGETS RunIntakes = [''run_intakes.run_id'', ''run_intakes.session_id'']"
| "UNIQUE_CONSTRAINT_TARGETS IntakeFeedback = [''intake_feedback.feedback_id'',
     ''intake_feedback.run_id, intake_feedback.actor, intake_feedback.idempotency_key'']"
| "UNIQUE_CONSTRAINT_TARGETS Events = [''ledger_events.event_id'', ''ledger_events.run_id, ledger_events.sequence'',
     ''ledger_events.run_id, ledger_events.source_event_id'']"
| "UNIQUE_CONSTRAINT_TARGETS Evidence = [''ledger_evidence.evidence_id'']"
| "UNIQUE_CONSTRAINT_TARGETS Deliveries = [''context_deliveries.delivery_id'']"
| "UNIQUE_CONSTRAINT_TARGETS DeliveryEntries = [''context_delivery_entries.delivery_id, context_delivery_entries.entry_id'']"
| "UNIQUE_CONSTRAINT_TARGETS NudgeDeliveries = [''nudge_deliveries.id'',
     ''nudge_deliveries.run_id, nudge_deliveries.policy_version, nudge_deliveries.occurrence_id'',
     ''nudge_deliveries.run_id, nudge_deliveries.policy_version, nudge_deliveries.checkpoint_id'']"
| "UNIQUE_CONSTRAINT_TARGETS ContextFeedback = [''context_feedback.feedback_id'',
     ''context_feedback.run_id, context_feedback.actor, context_feedback.idempotency_key'']"
| "UNIQUE_CONSTRAINT_TARGETS RunFeedback = [''run_feedback.feedback_id'',
     ''run_feedback.run_id, run_feedback.actor, run_feedback.idempotency_key'']"
| "UNIQUE_CONSTRAINT_TARGETS MemoryLinks = [''ledger_memory_links.link_id'']"
| "UNIQUE_CONSTRAINT_TARGETS PurgeAudit = [''ledger_purge_audit.purge_id'']"

type_synonym schema_verdict = "archive_db \<Rightarrow> archive_type \<Rightarrow> fields \<Rightarrow> js_error option"

definition inserted_row :: "archive_type \<Rightarrow> fields \<Rightarrow> fields" where
  "inserted_row t r =
     columns_of t r @ (if t = Deliveries then [(''external_sync_summary_json'', VStr (''{'' @ ''}''))] else [])"

definition insertRecord :: "schema_verdict \<Rightarrow> archive_type \<Rightarrow> fields \<Rightarrow> (archive_db, unit) operation" where
  "insertRecord schema t r db =
     (case schema db t (inserted_row t r) of
        Some e \<Rightarrow>
          (Inl (if isSqliteUniqueConstraintError e (UNIQUE_CONSTRAINT_TARGETS t) then archive_conflict
                else if isSqliteCorruptionError e then archive_integrity else e), db)
      | None \<Rightarrow> (Inr (), db\<lparr>ad_rows := add_record t (inserted_row t r) (ad_rows db)\<rparr>))"

definition clear_backfill :: "string \<Rightarrow> archive_type \<Rightarrow> (archive_db, unit) operation" where
  "clear_backfill workspace t db =
     (Inr (), if t = RunIntakes then db\<lparr>ad_backfill := filter (\<lambda>w. w \<noteq> workspace) (ad_backfill db)\<rparr> else db)"

definition write_record ::
    "schema_verdict \<Rightarrow> string \<Rightarrow> archive_counts \<Rightarrow> archive_type \<times> fields \<Rightarrow> (archive_db, unit) operation" where
  "write_record schema workspace duplicates p db =
     (if 0 < duplicates (fst p) \<and> selectExisting db (fst p) (snd p) \<noteq> None then (Inr (), db)
      else obind (insertRecord schema (fst p) (snd p)) (\<lambda>_. clear_backfill workspace (fst p)) db)"

record tally =
  ty_imported :: archive_counts
  ty_duplicates :: archive_counts
  ty_conflicts :: int

definition one_more :: "archive_type \<Rightarrow> archive_counts \<Rightarrow> archive_counts" where
  "one_more t counts = counts(t := counts t + 1)"

fun is_conflict :: "js_error \<Rightarrow> bool" where
  "is_conflict (KiokukoError CONFLICT m) = True"
| "is_conflict e = False"

fun classify ::
    "resolution_parser \<Rightarrow> archive_db \<Rightarrow> string \<Rightarrow> bool \<Rightarrow> (archive_type \<times> fields) list \<Rightarrow> tally \<Rightarrow> tally result" where
  "classify resolution db workspace dryRun [] y = Inr y"
| "classify resolution db workspace dryRun ((t, r) # ps) y =
     (case compareExisting resolution db t r workspace of
        Inr True \<Rightarrow> classify resolution db workspace dryRun ps (y\<lparr>ty_duplicates := one_more t (ty_duplicates y)\<rparr>)
      | Inr False \<Rightarrow> classify resolution db workspace dryRun ps (y\<lparr>ty_imported := one_more t (ty_imported y)\<rparr>)
      | Inl e \<Rightarrow>
          if dryRun \<and> is_conflict e then classify resolution db workspace dryRun ps (y\<lparr>ty_conflicts := ty_conflicts y + 1\<rparr>)
          else Inl e)"

record import_result =
  ir_workspace :: string
  ir_dryRun :: bool
  ir_counts :: archive_counts
  ir_tally :: tally

definition empty_tally :: tally where
  "empty_tally = \<lparr>ty_imported = (\<lambda>_. 0), ty_duplicates = (\<lambda>_. 0), ty_conflicts = 0\<rparr>"

definition corruption_to_integrity :: "js_error \<Rightarrow> js_error" where
  "corruption_to_integrity e = (if isSqliteCorruptionError e then archive_integrity else e)"

definition accepted_archive ::
    "resolution_parser \<Rightarrow> (string \<Rightarrow> string) \<Rightarrow> string option \<Rightarrow> string \<Rightarrow> parsed_archive result" where
  "accepted_archive resolution sha256 workspace content =
     rbind (parseArchive resolution sha256 content) (\<lambda>parsed.
     rbind (case workspace of
         None \<Rightarrow> Inr ()
       | Some w \<Rightarrow> rbind (requireWorkspace (VStr w)) (\<lambda>w'. valid_if (w' = pa_workspace parsed))) (\<lambda>_.
     rbind (validateGraph resolution sha256 (pa_records parsed) (pa_workspace parsed)) (\<lambda>_. Inr parsed)))"

text \<open>Checks and comparison before anything is written; a dry run ends here.\<close>

definition compare_archive ::
    "resolution_parser \<Rightarrow> bool \<Rightarrow> archive_db \<Rightarrow> parsed_archive \<Rightarrow> (archive_type \<times> fields) list \<Rightarrow> tally result" where
  "compare_archive resolution dryRun db parsed ordered =
     rbind (validateMemoryReferences (ad_memory db) (pa_records parsed) (pa_workspace parsed)) (\<lambda>_.
     classify resolution db (pa_workspace parsed) dryRun ordered empty_tally)"

definition importLedgerArchive ::
    "resolution_parser \<Rightarrow> (string \<Rightarrow> string) \<Rightarrow> schema_verdict \<Rightarrow> string option \<Rightarrow> bool \<Rightarrow> string \<Rightarrow> archive_db connection
     \<Rightarrow> (import_result result \<times> archive_db connection) option" where
  "importLedgerArchive resolution sha256 schema workspace dryRun content c =
     (case accepted_archive resolution sha256 workspace content of
        Inl e \<Rightarrow> Some (Inl e, c)
      | Inr parsed \<Rightarrow>
          (case orderedForImport (pa_records parsed) of
             None \<Rightarrow> None
           | Some ordered \<Rightarrow>
               Some (case compare_archive resolution dryRun (committed c) parsed ordered of
                 Inl e \<Rightarrow> (Inl e, c)
               | Inr y \<Rightarrow>
                   let r = \<lparr>ir_workspace = pa_workspace parsed, ir_dryRun = dryRun, ir_counts = pa_counts parsed, ir_tally = y\<rparr> in
                   if dryRun then (Inr r, c)
                   else (case withImmediateTransaction
                       (oforeach (write_record schema (pa_workspace parsed) (ty_duplicates y)) ordered) c of
                     (Inl e, c') \<Rightarrow> (Inl (corruption_to_integrity e), c')
                   | (Inr _, c') \<Rightarrow> (Inr r, c')))))"

text \<open>Without a database only a dry run is possible.\<close>

definition importWithoutDatabase ::
    "resolution_parser \<Rightarrow> (string \<Rightarrow> string) \<Rightarrow> string option \<Rightarrow> bool \<Rightarrow> string \<Rightarrow> import_result result option" where
  "importWithoutDatabase resolution sha256 workspace dryRun content =
     (case rbind (accepted_archive resolution sha256 workspace content) (\<lambda>parsed.
        rbind (check dryRun (KiokukoError DATABASE_ERROR ''Ledger archive database operation failed'')) (\<lambda>_. Inr parsed)) of
        Inl e \<Rightarrow> Some (Inl e)
      | Inr parsed \<Rightarrow>
          map_option (\<lambda>ordered. Inr
            \<lparr>ir_workspace = pa_workspace parsed, ir_dryRun = True, ir_counts = pa_counts parsed,
             ir_tally = empty_tally\<lparr>ty_imported := fold (\<lambda>p. one_more (fst p)) ordered (ty_imported empty_tally)\<rparr>\<rparr>)
            (orderedForImport (pa_records parsed)))"

end
