(* ===== verification/Archive_Normal.thy ===== *)
theory Archive_Normal
  imports Archive_Import
begin

text \<open>
  What normalization of an archived record does, for every table at once: it keeps the values of the columns it
  was given, in the order of the table, looks at nothing else, and accepts only texts, safe integers and null.
\<close>

fun kept_names :: "archive_step list \<Rightarrow> string list" where
  "kept_names [] = []"
| "kept_names (Keep k f # ss) = k # kept_names ss"
| "kept_names (Guard g # ss) = kept_names ss"

lemma run_steps_columns: "run_steps ss raw = Inr fs \<Longrightarrow> fs = map (\<lambda>k. (k, getp raw k)) (kept_names ss)"
  by (induction ss arbitrary: fs rule: kept_names.induct) (auto simp: result_inv)

lemma kept_names_case [simp]: "kept_names (case_steps resolution workspace t) = TABLE_FIELDS t"
  by (cases t) (simp_all add: run_steps_of_def workspace_guard_def)

lemma run_steps_keep: "run_steps ss raw = Inr fs \<Longrightarrow> Keep k f \<in> set ss \<Longrightarrow> f (getp raw k) = Inr ()"
  by (induction ss raw arbitrary: fs rule: run_steps.induct) (auto simp: result_inv)

lemma run_steps_guard: "run_steps ss raw = Inr fs \<Longrightarrow> Guard g \<in> set ss \<Longrightarrow> g raw = Inr ()"
  by (induction ss raw arbitrary: fs rule: run_steps.induct) (auto simp: result_inv)

lemma kept_names_keep: "k \<in> set (kept_names ss) \<Longrightarrow> \<exists>f. Keep k f \<in> set ss"
  by (induction ss rule: kept_names.induct) auto

lemma guards_local:
  "getp raw ''code'' = getp raw' ''code'' \<Longrightarrow> getp raw ''priority'' = getp raw' ''priority'' \<Longrightarrow>
     nudge_priority_ok raw = nudge_priority_ok raw'"
  "getp raw ''char_count'' = getp raw' ''char_count'' \<Longrightarrow> getp raw ''char_budget'' = getp raw' ''char_budget'' \<Longrightarrow>
     in_budget raw = in_budget raw'"
  by (simp_all only: nudge_priority_ok_def in_budget_def)

lemma run_steps_local:
  assumes "list_all (\<lambda>k. getp raw k = getp raw' k) (TABLE_FIELDS t)"
  shows "run_steps (case_steps resolution workspace t) raw = run_steps (case_steps resolution workspace t) raw'"
  using assms by (cases t) (simp_all add: run_steps_of_def workspace_guard_def guards_local [of raw raw'])

section \<open>Column values\<close>

fun scalar :: "jsvalue \<Rightarrow> bool" where
  "scalar (VStr s) = True"
| "scalar (VNum n) = is_safe_integer (VNum n)"
| "scalar VNull = True"
| "scalar v = False"

definition scalar_only :: "(jsvalue \<Rightarrow> unit result) \<Rightarrow> bool" where
  "scalar_only f = (\<forall>v. f v = Inr () \<longrightarrow> scalar v)"

lemma scalar_onlyI:
  assumes "f VUndefined \<noteq> Inr ()" "f VNonFinite \<noteq> Inr ()" "f VOpaque \<noteq> Inr ()" "\<And>b. f (VBool b) \<noteq> Inr ()"
    "\<And>t. f (VFrac t) \<noteq> Inr ()" "\<And>xs. f (VArr xs) \<noteq> Inr ()" "\<And>fs. f (VObj fs) \<noteq> Inr ()"
    "\<And>n. f (VNum n) = Inr () \<Longrightarrow> is_safe_integer (VNum n)"
  shows "scalar_only f"
  unfolding scalar_only_def
proof (intro allI impI)
  fix v assume "f v = Inr ()"
  with assms show "scalar v" by (cases v) auto
qed

lemma scalar_only_checks [simp]:
  "scalar_only (stringValue m)" "scalar_only (integerValue n)" "scalar_only timestampValue" "scalar_only hashValue"
  "scalar_only (oneOf allowed)" "scalar_only (parsedJson validator)"
  by (rule scalar_onlyI; simp)+

lemma scalar_only_nullOr [simp]: "scalar_only f \<Longrightarrow> scalar_only (nullOr f)"
  by (auto simp: scalar_only_def nullOr_def)

lemma scalar_only_and [simp]: "scalar_only f \<Longrightarrow> scalar_only (\<lambda>v. rbind (f v) (\<lambda>_. g v))"
  by (auto simp: scalar_only_def result_inv)

lemma scalar_only_comment [simp]: "scalar_only commentValue"
  unfolding commentValue_def by simp

fun step_scalar :: "archive_step \<Rightarrow> bool" where
  "step_scalar (Keep k f) = (k = ''workspace'' \<or> scalar_only f)"
| "step_scalar (Guard g) = True"

lemma case_steps_scalar: "list_all step_scalar (case_steps resolution workspace t)"
  by (cases t) (simp_all add: run_steps_of_def workspace_guard_def)

lemma workspace_guarded:
  "''workspace'' \<in> set (TABLE_FIELDS t) \<Longrightarrow> workspace_guard workspace \<in> set (case_steps resolution workspace t)"
  by (cases t) (simp_all add: run_steps_of_def)

lemma run_steps_workspace:
  assumes "run_steps (case_steps resolution workspace t) raw = Inr fs" and "''workspace'' \<in> set (TABLE_FIELDS t)"
  shows "getp raw ''workspace'' = VStr workspace"
  using run_steps_guard [OF assms(1) workspace_guarded [OF assms(2), unfolded workspace_guard_def]]
  by (simp add: result_inv)

lemma run_steps_scalar:
  assumes r: "run_steps (case_steps resolution workspace t) raw = Inr fs" and k: "k \<in> set (TABLE_FIELDS t)"
  shows "scalar (getp raw k)"
proof (cases "k = ''workspace''")
  case True
  with run_steps_workspace [OF r] k show ?thesis by simp
next
  case False
  obtain f where f: "Keep k f \<in> set (case_steps resolution workspace t)" using kept_names_keep k by (metis kept_names_case)
  with case_steps_scalar [of resolution workspace t] False have "scalar_only f" by (auto simp: list_all_iff)
  with run_steps_keep [OF r f] show ?thesis by (simp add: scalar_only_def)
qed

section \<open>A normalized record\<close>

lemma table_fields [simp]: "distinct (TABLE_FIELDS t)" "''type'' \<notin> set (TABLE_FIELDS t)"
  by (cases t; simp)+

lemma map_of_columns: "map_of (map (\<lambda>k. (k, f k)) ks) k = (if k \<in> set ks then Some (f k) else None)"
  by (induction ks) auto

lemma getp_columns [simp]: "k \<in> set (TABLE_FIELDS t) \<Longrightarrow> getp (columns_of t r) k = getp r k"
  by (simp add: columns_of_def getp_def [of "map _ _"] map_of_columns)

lemma getp_Cons: "getp ((k', v) # fs) k = (if k = k' then v else getp fs k)"
  by (simp add: getp_def)

lemma columns_of_cong: "list_all (\<lambda>k. getp q k = getp r k) (TABLE_FIELDS t) \<Longrightarrow> columns_of t q = columns_of t r"
  by (simp add: columns_of_def list_all_iff)

definition typed :: "archive_type \<Rightarrow> string \<Rightarrow> fields \<Rightarrow> fields" where
  "typed t name r = (''type'', VStr name) # columns_of t r"

lemma getp_typed [simp]: "k \<in> set (TABLE_FIELDS t) \<Longrightarrow> getp (typed t name r) k = getp r k"
  using table_fields(2) by (auto simp: typed_def getp_Cons)

lemma getp_typed_type [simp]: "getp (typed t name r) ''type'' = VStr name"
  by (simp add: typed_def getp_Cons)

lemma columns_of_columns [simp]: "columns_of t (columns_of t r) = columns_of t r"
  by (rule columns_of_cong) (simp add: list_all_iff)

lemma columns_of_typed [simp]: "columns_of t (typed t name r) = columns_of t r"
  by (rule columns_of_cong) (simp add: list_all_iff)

lemma typed_typed [simp]: "typed t name (typed t name' r) = typed t name r"
  by (simp add: typed_def) (metis columns_of_typed typed_def)

lemma getp_with_type [simp]: "k \<in> set (TABLE_FIELDS t) \<Longrightarrow> getp (with_type t r) k = getp r k"
  using table_fields(2) by (auto simp: with_type_def getp_Cons)

lemma normalizeRecord_typed:
  assumes "normalizeRecord resolution t source workspace importing = Inr r"
  shows "r = typed t (type_key t) source"
proof -
  obtain fs where fs: "run_steps (case_steps resolution workspace t) (with_type t source) = Inr fs"
    and r: "r = (''type'', VStr (type_key t)) # fs"
    using assms by (auto simp: normalizeRecord_def Let_def result_inv)
  from run_steps_columns [OF fs] have "fs = columns_of t (with_type t source)" by (simp add: columns_of_def)
  also have "\<dots> = columns_of t source" by (rule columns_of_cong) (simp add: list_all_iff)
  finally show ?thesis using r by (simp add: typed_def)
qed

lemma normalizeRecord_steps:
  assumes "normalizeRecord resolution t source workspace importing = Inr r"
  shows "run_steps (case_steps resolution workspace t) r = Inr (columns_of t source)"
proof -
  obtain fs where fs: "run_steps (case_steps resolution workspace t) (with_type t source) = Inr fs"
    and r: "r = (''type'', VStr (type_key t)) # fs"
    using assms by (auto simp: normalizeRecord_def Let_def result_inv)
  have "run_steps (case_steps resolution workspace t) r = run_steps (case_steps resolution workspace t) (with_type t source)"
    by (rule run_steps_local) (simp add: list_all_iff normalizeRecord_typed [OF assms])
  then show ?thesis using fs r normalizeRecord_typed [OF assms] by (simp add: typed_def)
qed

text \<open>Rows that agree with a normalized record on the columns are normalized to the same record.\<close>

lemma normalizeRecord_agrees:
  assumes n: "normalizeRecord resolution t source workspace importing = Inr r"
    and a: "list_all (\<lambda>k. getp q k = getp r k) (TABLE_FIELDS t)"
    and f: "assertFields (with_type t q) (''type'' # TABLE_FIELDS t) = Inr ()"
  shows "normalizeRecord resolution t q workspace True = Inr r"
proof -
  have "run_steps (case_steps resolution workspace t) (with_type t q) = run_steps (case_steps resolution workspace t) r"
    using a by (intro run_steps_local) (simp add: list_all_iff)
  with normalizeRecord_steps [OF n] normalizeRecord_typed [OF n] f show ?thesis
    by (simp add: normalizeRecord_def typed_def)
qed

lemma assertFields_columns: "assertFields (with_type t (columns_of t r)) (''type'' # TABLE_FIELDS t) = Inr ()"
proof -
  have "\<not> hasOwn (columns_of t r) ''type''" by (simp add: hasOwn_def columns_of_def map_of_columns)
  then show ?thesis by (simp add: assertFields_def with_type_def columns_of_def list_all_iff)
qed

lemma case_steps_workspace:
  "''workspace'' \<notin> set (TABLE_FIELDS t) \<Longrightarrow> case_steps resolution w t = case_steps resolution w' t"
  by (cases t) simp_all

text \<open>A stored row is normalized for comparison under the workspace its own column names.\<close>

lemma normalizeRecord_stored:
  assumes "normalizeRecord resolution t source workspace importing = Inr r"
  shows "normalizeRecord resolution t (columns_of t r) (text_at r ''workspace'') True = Inr r"
proof -
  have "case_steps resolution (text_at r ''workspace'') t = case_steps resolution workspace t"
  proof (cases "''workspace'' \<in> set (TABLE_FIELDS t)")
    case True
    from run_steps_workspace [OF normalizeRecord_steps [OF assms] True] show ?thesis by (simp add: text_at_def)
  next
    case False
    then show ?thesis by (rule case_steps_workspace)
  qed
  then have "normalizeRecord resolution t (columns_of t r) (text_at r ''workspace'') True =
      normalizeRecord resolution t (columns_of t r) workspace True"
    by (simp add: normalizeRecord_def)
  also have "\<dots> = Inr r"
    by (rule normalizeRecord_agrees [OF assms _ assertFields_columns]) (simp add: list_all_iff)
  finally show ?thesis .
qed

lemma normalizeRecord_repr:
  assumes "normalizeRecord resolution t source workspace importing = Inr r"
  shows "json_repr (VObj (typed t name r))"
proof -
  have "json_repr (getp r k)" if "k \<in> set (TABLE_FIELDS t)" for k
    using run_steps_scalar [OF normalizeRecord_steps [OF assms] that]
    by (cases "getp r k") (auto simp: MAX_SAFE_INTEGER_def)
  then show ?thesis by (auto simp: typed_def columns_of_def list_all_iff comp_def)
qed

end
