(* ===== verification/Archive_Text.thy ===== *)
theory Archive_Text
  imports Archive_Normal
begin

text \<open>
  Writing an archive and reading it back, \<open>src/src/ledger/archive.ts\<close>: canonical lines hold no line feed, so the
  lines of the content are the lines that were written, and each of them is read as the record it was made of.
\<close>

section \<open>Lines\<close>

lemma hex_char_no_lf: "k < 16 \<Longrightarrow> hex_char k \<noteq> LF"
proof
  assume "k < 16" "hex_char k = LF"
  with hex_value_hex_char [of k] have "hex_value LF = Some k" by simp
  moreover have "hex_value LF = None" by code_simp
  ultimately show False by simp
qed

lemma escape_char_no_lf: "LF \<notin> set (escape_char c)"
proof (cases "c = LF")
  case True
  then show ?thesis by (simp add: escape_char_def LF_def)
next
  case False
  have "(of_char c :: nat) div 16 < 16" by (simp add: less_mult_imp_div_less)
  note hi = hex_char_no_lf [OF this]
  have "(of_char c :: nat) mod 16 < 16" by simp
  note lo = hex_char_no_lf [OF this]
  from hi lo False show ?thesis by (auto simp: escape_char_def Let_def LF_def)
qed

lemma nat_text_no_lf: "LF \<notin> set (nat_text n)"
  using nat_text_digits [of n] by (auto simp: list_all_iff is_digit_def LF_def less_eq_char_int)

lemma frac_text_no_lf: "is_frac_text t \<Longrightarrow> LF \<notin> set t"
  by (auto simp: is_frac_text_def Let_def list_all_iff is_number_char_def is_digit_def LF_def less_eq_char_int)

lemma join_commas_no_lf: "list_all (\<lambda>s. LF \<notin> set s) ss \<Longrightarrow> LF \<notin> set (join_commas ss)"
  by (induction ss rule: join_commas.induct) (auto simp: LF_def)

lemma json_quote_no_lf: "LF \<notin> set (json_quote s)"
  using escape_char_no_lf by (auto simp: json_quote_def LF_def)

lemma stringify_no_lf: "json_ok v \<Longrightarrow> LF \<notin> set (stringifyBoundaryJson v)"
proof (induction v rule: stringifyBoundaryJson.induct)
  case (3 n)
  show ?case using nat_text_no_lf by (auto simp: int_text_def LF_def)
next
  case (6 xs)
  then show ?case by (auto simp: list_all_iff LF_def intro!: join_commas_no_lf [unfolded LF_def])
next
  case (7 fs)
  then show ?case using json_quote_no_lf
    by (auto simp: list_all_iff LF_def intro!: join_commas_no_lf [unfolded LF_def])
qed (simp_all add: LF_def frac_text_no_lf [unfolded LF_def] json_quote_no_lf [unfolded LF_def])

lemma canonicalJson_no_lf:
  assumes "canonicalJson v = Inr t" and "json_repr v"
  shows "LF \<notin> set t"
proof -
  obtain c b where c: "cloneBoundaryJson canonical_options 0 v \<lparr>nodes = 0, stringBytes = 0\<rparr> = Inr (c, b)"
    and t: "t = stringifyBoundaryJson c"
    using assms(1) by (auto simp: canonicalJson_def result_inv)
  from clone_json_ok(1) [OF c assms(2)] show ?thesis unfolding t by (rule stringify_no_lf)
qed

lemma split_lf_line: "LF \<notin> set l \<Longrightarrow> split_lf (l @ LF # s) = l # split_lf s"
  by (induction l) auto

lemma split_lf_unlines: "list_all (\<lambda>l. LF \<notin> set l) ls \<Longrightarrow> split_lf (unlines ls) = ls @ [[]]"
  by (induction ls) (auto simp: unlines_def split_lf_line)

lemma checkBounds_unlines:
  assumes "list_all (\<lambda>l. LF \<notin> set l) ls" and "checkBounds (unlines ls) = Inr ls'"
  shows "ls' = ls \<and> length ls \<le> 10000"
  using assms by (auto simp: checkBounds_def Let_def result_inv split_lf_unlines)

section \<open>Reading a line\<close>

lemma assertFields_mset:
  "mset (map fst gs) = mset (map fst fs) \<Longrightarrow> assertFields gs names = assertFields fs names"
proof -
  assume m: "mset (map fst gs) = mset (map fst fs)"
  have "length gs = length fs" using arg_cong [OF m, of size] by simp
  moreover have e: "fst ` set gs = fst ` set fs" using arg_cong [OF m, of set_mset] by simp
  have "list_all (\<lambda>f. fst f \<in> set names) hs = (fst ` set hs \<subseteq> set names)" for hs :: fields
    by (auto simp: list_all_iff)
  with e have "list_all (\<lambda>f. fst f \<in> set names) gs = list_all (\<lambda>f. fst f \<in> set names) fs" by simp
  ultimately show ?thesis by (simp add: assertFields_def)
qed

lemma line_read:
  assumes r: "json_repr (VObj fs)" and c: "canonicalJson (VObj fs) = Inr line" and f: "assertFields fs names = Inr ()"
  obtains gs where "json_parse line = Some (VObj gs)" and "parseLine line names = Inr gs"
    and "\<And>k. same_json (getp fs k) (getp gs k)" and "assertFields gs names = Inr ()"
proof -
  from canonicalJson_read [OF r c] obtain w where w: "json_parse line = Some w" and s: "same_json (VObj fs) w" by blast
  from r have d: "distinct (map fst fs)" by simp
  from same_json_object [OF s d] obtain gs where gs: "w = VObj gs" and k: "\<And>k. same_json (getp fs k) (getp gs k)"
    and m: "mset (map fst gs) = mset (map fst fs)" by blast
  have a: "assertFields gs names = Inr ()" using assertFields_mset [OF m] f by simp
  have "canonicalJson (VObj gs) = Inr line" using canonicalJson_same_json [OF s] c gs by simp
  then have "parseLine line names = Inr gs" using w gs a by (simp add: parseLine_def)
  with w gs k a show ?thesis using that by blast
qed

lemma same_scalar: "same_json v w \<Longrightarrow> scalar v \<Longrightarrow> w = v"
  by (cases v) auto

section \<open>Reading a record\<close>

lemma record_names [simp]:
  "RECORD_NAMES t \<noteq> ''manifest''" "RECORD_NAMES t \<noteq> ''checksum''" "record_type (RECORD_NAMES t) = Some t"
  by (cases t; simp add: record_type_def ARCHIVE_TYPES_def)+

lemma archived_typed: "archived t (typed t name r) = typed t (RECORD_NAMES t) r"
proof -
  have "map (\<lambda>f. if fst f = ''type'' then (''type'', VStr (RECORD_NAMES t)) else f) (columns_of t r) = columns_of t r"
    unfolding columns_of_def using table_fields(2) [of t] by (auto intro!: map_cong)
  then show ?thesis by (simp add: archived_def typed_def)
qed

lemma typed_fields: "assertFields (typed t name r) (''type'' # TABLE_FIELDS t) = Inr ()"
  by (simp add: assertFields_def typed_def columns_of_def list_all_iff)

lemma parse_written:
  assumes n: "normalizeRecord resolution t source workspace importing = Inr r" and secret: "secretScan r = Inr ()"
    and c: "canonicalJson (VObj (archived t r)) = Inr line"
  shows "parseRecord resolution workspace line = Inr (t, r)"
proof -
  have a: "archived t r = typed t (RECORD_NAMES t) r"
    using normalizeRecord_typed [OF n] archived_typed by simp
  obtain gs where gs: "json_parse line = Some (VObj gs)" "parseLine line (''type'' # TABLE_FIELDS t) = Inr gs"
      "assertFields gs (''type'' # TABLE_FIELDS t) = Inr ()"
    and same: "\<And>k. same_json (getp (typed t (RECORD_NAMES t) r) k) (getp gs k)"
    using line_read [OF normalizeRecord_repr [OF n] c [unfolded a] typed_fields] by blast
  have ty: "getp gs ''type'' = VStr (RECORD_NAMES t)" using same [of "''type''"] by auto
  then have own: "with_type t gs = gs" by (auto simp: with_type_def hasOwn_def getp_def split: option.splits)
  have "getp gs k = getp r k" if "k \<in> set (TABLE_FIELDS t)" for k
    using same_scalar [OF same [of k]] run_steps_scalar [OF normalizeRecord_steps [OF n] that] that by simp
  then have "list_all (\<lambda>k. getp gs k = getp r k) (TABLE_FIELDS t)" by (simp add: list_all_iff)
  from normalizeRecord_agrees [OF n this] own gs(3)
  have "normalizeRecord resolution t gs workspace True = Inr r" by simp
  then show ?thesis using gs ty secret by (simp add: parseRecord_def)
qed

lemma parseRecords_all:
  "list_all2 (\<lambda>p line. parseRecord resolution workspace line = Inr p) ps ls \<Longrightarrow>
   parseRecords resolution workspace ls records = Inr (fold (\<lambda>p. add_record (fst p) (snd p)) ps records)"
  by (induction ps ls arbitrary: records rule: list_all2_induct) simp_all

lemma fold_add_record:
  "fold (\<lambda>p. add_record (fst p) (snd p)) ps records t = records t @ map snd (filter (\<lambda>p. fst p = t) ps)"
  by (induction ps arbitrary: records) (auto simp: add_record_def)

definition all_records :: "archive_records \<Rightarrow> (archive_type \<times> fields) list" where
  "all_records records = concat (map (\<lambda>t. map (Pair t) (records t)) ARCHIVE_TYPES)"

lemma archive_types [simp]: "t \<in> set ARCHIVE_TYPES" "distinct ARCHIVE_TYPES"
  by (cases t; simp add: ARCHIVE_TYPES_def) (simp add: ARCHIVE_TYPES_def)

lemma filter_all_records: "map snd (filter (\<lambda>p. fst p = t) (all_records records)) = records t"
proof -
  have "map snd (filter (\<lambda>p. fst p = t) (concat (map (\<lambda>t. map (Pair t) (records t)) ts))) = (if t \<in> set ts then records t else [])"
    if "distinct ts" for ts
    using that by (induction ts) (auto simp: filter_map comp_def filter_empty_conv)
  from this [of ARCHIVE_TYPES] show ?thesis by (simp add: all_records_def)
qed

lemma add_all_records: "fold (\<lambda>p. add_record (fst p) (snd p)) (all_records records) (\<lambda>_. []) = records"
  by (rule ext) (simp add: fold_add_record filter_all_records)

section \<open>The manifest and the checksum\<close>

lemma counts_value_read:
  assumes "same_json (counts_value counts) v" and b: "\<And>t. 0 \<le> counts t \<and> counts t \<le> MAX_SAFE_INTEGER"
  shows "parseCounts v False = Inr counts"
proof -
  let ?fs = "map (\<lambda>t. (type_key t, VNum (counts t))) ARCHIVE_TYPES"
  have d: "distinct (map fst ?fs)" by (simp add: ARCHIVE_TYPES_def)
  obtain gs where v: "v = VObj gs" and same: "\<And>k. same_json (getp ?fs k) (getp gs k)"
    and m: "mset (map fst gs) = mset (map fst ?fs)"
    using same_json_object [OF assms(1) [unfolded counts_value_def] d] by blast
  have g: "getp gs (type_key t) = VNum (counts t)" for t
  proof -
    have "getp ?fs (type_key t) = VNum (counts t)"
      using map_of_is_SomeI [OF d, of "type_key t" "VNum (counts t)"] by (simp add: getp_def)
    with same [of "type_key t"] show ?thesis by auto
  qed
  have "assertFields gs (map type_key ARCHIVE_TYPES) = Inr ()"
    unfolding assertFields_mset [OF m] by (simp add: assertFields_def list_all_iff)
  moreover have "integerValue 0 (getp gs (type_key t)) = Inr ()" for t
    using b [of t] by (simp add: g MAX_SAFE_INTEGER_def)
  then have "rtraverse (\<lambda>t. integerValue 0 (getp gs (type_key t))) ts = Inr (map (\<lambda>_. ()) ts)" for ts
    by (rule rtraverse_Inr_map)
  ultimately show ?thesis using v g by (auto simp: parseCounts_def num_at_def)
qed

lemma split_lf_length: "length (split_lf s) = Suc (length (filter (\<lambda>c. c = LF) s))"
  by (induction s) (auto split: list.split)

lemma unlines_length: "length ls \<le> length (filter (\<lambda>c. c = LF) (unlines ls))"
  by (induction ls) (simp_all add: unlines_def)

lemma checkBounds_length: "checkBounds (unlines ls) = Inr ls' \<Longrightarrow> length ls \<le> 10000"
  using unlines_length [of ls] by (auto simp: checkBounds_def Let_def result_inv split_lf_length)

lemma count_bound: "length (records t) \<le> length (all_records records)"
proof -
  have "length (records t) = length (map snd (filter (\<lambda>p. fst p = t) (all_records records)))"
    by (simp only: filter_all_records)
  also have "\<dots> \<le> length (all_records records)" by simp
  finally show ?thesis .
qed

lemma manifest_fields: "assertFields (manifest_of workspace counts) MANIFEST_FIELDS = Inr ()"
  by (simp add: assertFields_def manifest_of_def MANIFEST_FIELDS_def)

lemma manifest_repr:
  "(\<And>t. 0 \<le> counts t \<and> counts t \<le> MAX_SAFE_INTEGER) \<Longrightarrow> json_repr (VObj (manifest_of workspace counts))"
  by (simp add: manifest_of_def counts_value_def ARCHIVE_TYPES_def MAX_SAFE_INTEGER_def)
     (smt (verit))

lemma secretScan_same: "canonicalJson (VObj fs) = canonicalJson (VObj gs) \<Longrightarrow> secretScan fs = secretScan gs"
  by (simp add: secretScan_def)

text \<open>The lines of an archive, of which each holds the canonical text of its object.\<close>

lemma buildArchive_lines:
  assumes "buildArchive sha256 workspace records = Inr a"
  obtains first mline ls where
    "canonicalJson (checksum_line (sha256 (unlines (mline # ls)))) = Inr first"
    "canonicalJson (VObj (manifest_of workspace (countRecords records))) = Inr mline"
    "list_all2 (\<lambda>p line. canonicalJson (VObj (archived (fst p) (snd p))) = Inr line) (all_records records) ls"
    "secretScan (manifest_of workspace (countRecords records)) = Inr ()"
    "\<exists>bs. checkBounds (unlines (first # mline # ls)) = Inr bs"
    "ax_content a = unlines (first # mline # ls)"
proof -
  have o: "concat (map (\<lambda>t. map (archived t) (records t)) ARCHIVE_TYPES) = map (\<lambda>p. archived (fst p) (snd p)) (all_records records)"
    by (simp add: all_records_def map_concat comp_def)
  obtain mline ls first bs where b: "canonicalJson (VObj (manifest_of workspace (countRecords records))) = Inr mline"
    "rtraverse (\<lambda>r. canonicalJson (VObj r)) (map (\<lambda>p. archived (fst p) (snd p)) (all_records records)) = Inr ls"
    "secretScan (manifest_of workspace (countRecords records)) = Inr ()"
    "canonicalJson (checksum_line (sha256 (unlines (mline # ls)))) = Inr first"
    "checkBounds (first @ LF # unlines (mline # ls)) = Inr bs"
    "a = \<lparr>ax_workspace = workspace, ax_counts = countRecords records, ax_checksum = sha256 (unlines (mline # ls)),
          ax_content = first @ LF # unlines (mline # ls)\<rparr>"
    using assms unfolding buildArchive_def Let_def o by (auto simp: result_inv)
  have u: "first @ LF # unlines (mline # ls) = unlines (first # mline # ls)" by (simp add: unlines_def)
  show ?thesis
    by (rule that [OF b(4,1) _ b(3)]) (use b(2,5,6) u in \<open>simp_all add: rtraverse_Inr_iff list_all2_map1\<close>)
qed

section \<open>Reading an archive\<close>

lemma canonicalIntegrity_Inr [simp, result_inv]: "canonicalIntegrity r = Inr x \<longleftrightarrow> r = Inr x"
  by (cases r rule: canonicalIntegrity.cases) auto

lemma list_all2_right: "list_all2 (\<lambda>x y. P x y \<and> Q y) xs ys \<Longrightarrow> list_all Q ys"
  by (induction rule: list_all2_induct) simp_all

definition written :: "resolution_parser \<Rightarrow> string \<Rightarrow> archive_type \<Rightarrow> fields \<Rightarrow> bool" where
  "written resolution workspace t r =
     (secretScan r = Inr () \<and> (\<exists>source importing. normalizeRecord resolution t source workspace importing = Inr r))"

lemma buildArchive_read:
  assumes hash: "\<And>s. is_hex64 (sha256 s)" and ws: "requireWorkspace (VStr workspace) = Inr workspace"
    and recs: "\<And>t r. r \<in> set (records t) \<Longrightarrow> written resolution workspace t r"
    and b: "buildArchive sha256 workspace records = Inr a"
  shows "parseArchive resolution sha256 (ax_content a) =
      Inr \<lparr>pa_workspace = workspace, pa_counts = countRecords records, pa_records = records\<rparr>"
proof -
  let ?m = "manifest_of workspace (countRecords records)"
  obtain first mline ls where c: "canonicalJson (checksum_line (sha256 (unlines (mline # ls)))) = Inr first"
      and m: "canonicalJson (VObj ?m) = Inr mline"
      and l: "list_all2 (\<lambda>p line. canonicalJson (VObj (archived (fst p) (snd p))) = Inr line) (all_records records) ls"
      and secret: "secretScan ?m = Inr ()" and bounds: "\<exists>bs. checkBounds (unlines (first # mline # ls)) = Inr bs"
      and a: "ax_content a = unlines (first # mline # ls)"
    by (rule buildArchive_lines [OF b])
  from bounds obtain bs where bs: "checkBounds (unlines (first # mline # ls)) = Inr bs" ..
  have counts: "0 \<le> countRecords records t \<and> countRecords records t \<le> MAX_SAFE_INTEGER" for t
  proof -
    have "length (records t) \<le> 10000"
      using checkBounds_length [OF bs] list_all2_lengthD [OF l] count_bound [of records t] by simp
    then show ?thesis by (simp add: countRecords_def MAX_SAFE_INTEGER_def)
  qed
  have mr: "json_repr (VObj ?m)" using counts by (rule manifest_repr)
  have cr: "json_repr (checksum_line s)" for s by (simp add: checksum_line_def)
  have read: "parseRecord resolution workspace line = Inr p \<and> LF \<notin> set line"
    if "p \<in> set (all_records records)" and "canonicalJson (VObj (archived (fst p) (snd p))) = Inr line" for p line
  proof -
    obtain t r where p: "p = (t, r)" and r: "r \<in> set (records t)" using \<open>p \<in> _\<close> by (auto simp: all_records_def)
    from recs [OF r] obtain source importing where secret: "secretScan r = Inr ()"
      and n: "normalizeRecord resolution t source workspace importing = Inr r" by (auto simp: written_def)
    have arch: "archived t r = typed t (RECORD_NAMES t) r" using normalizeRecord_typed [OF n] archived_typed by simp
    from that(2) p have cl: "canonicalJson (VObj (archived t r)) = Inr line" by simp
    show ?thesis
      using parse_written [OF n secret cl] canonicalJson_no_lf [OF cl] normalizeRecord_repr [OF n] p by (simp add: arch)
  qed
  have l2: "list_all2 (\<lambda>p line. parseRecord resolution workspace line = Inr p \<and> LF \<notin> set line) (all_records records) ls"
    using l by (rule list.rel_mono_strong) (rule read)
  then have nolf: "list_all (\<lambda>l. LF \<notin> set l) (first # mline # ls)"
    using canonicalJson_no_lf [OF c cr] canonicalJson_no_lf [OF m mr] list_all2_right [OF l2] by simp
  have bs_eq: "bs = first # mline # ls" using checkBounds_unlines [OF nolf bs] by simp
  have prs: "parseRecords resolution workspace ls (\<lambda>_. []) = Inr records"
    using parseRecords_all [of resolution workspace "all_records records" ls "\<lambda>_. []"] l2
    by (simp add: add_all_records list_all2_conv_all_nth)
  obtain cs where cs: "parseLine first [''type'', ''sha256''] = Inr cs"
      and csame: "\<And>k. same_json (getp [(''type'', VStr ''checksum''), (''sha256'', VStr (sha256 (unlines (mline # ls))))] k) (getp cs k)"
    using line_read [OF cr [unfolded checksum_line_def] c [unfolded checksum_line_def], of "[''type'', ''sha256'']"]
    by (auto simp: assertFields_def)
  have cf: "getp cs ''type'' = VStr ''checksum''" "getp cs ''sha256'' = VStr (sha256 (unlines (mline # ls)))"
    using csame [of "''type''"] csame [of "''sha256''"] by (auto simp: getp_Cons)
  obtain ms where ms: "parseLine mline MANIFEST_FIELDS = Inr ms"
      and msame: "\<And>k. same_json (getp ?m k) (getp ms k)" and mj: "json_parse mline = Some (VObj ms)"
    using line_read [OF mr m manifest_fields] by blast
  have mf: "getp ms ''type'' = VStr ''manifest''" "getp ms ''archiveVersion'' = VNum 2"
      "getp ms ''format'' = VStr ''kiokuko-ledger-jsonl''" "getp ms ''workspace'' = VStr workspace"
    using msame [of "''type''"] msame [of "''archiveVersion''"] msame [of "''format''"] msame [of "''workspace''"]
    by (auto simp: getp_Cons manifest_of_def)
  have "same_json (counts_value (countRecords records)) (getp ms ''counts'')"
    using msame [of "''counts''"] by (simp add: getp_Cons manifest_of_def)
  then have pc: "parseCounts (getp ms ''counts'') False = Inr (countRecords records)"
    using counts by (rule counts_value_read)
  have "canonicalJson (VObj ms) = Inr mline"
    using ms mj by (auto simp: parseLine_def result_inv)
  then have ss: "secretScan ms = Inr ()" using secret secretScan_same [of ms ?m] m by simp
  show ?thesis
    unfolding parseArchive_def a bs using bs_eq cs cf mf ms ss ws pc prs hash
    by (simp add: countRecords_def list_all_iff)
qed

section \<open>Round trip of an export\<close>

lemma queryRows_written:
  assumes "queryRows resolution db t workspace = Inr rs" and "r \<in> set rs"
  shows "written resolution workspace t r"
proof -
  obtain row where n: "normalizeRecord resolution t (columns_of t row) workspace False = Inr r"
    using assms unfolding queryRows_def by (auto dest: rtraverse_memD)
  then have "secretScan r = Inr ()" by (auto simp: normalizeRecord_def Let_def result_inv)
  with n show ?thesis by (auto simp: written_def)
qed

lemma records_of_rows:
  assumes "list_all2 (\<lambda>t rs. f t = Inr rs) ARCHIVE_TYPES rows"
  shows "f t = Inr (records_of rows t)"
proof -
  have "f t = Inr (case map_of (zip ts rows) t of None \<Rightarrow> [] | Some rs \<Rightarrow> rs)"
    if "list_all2 (\<lambda>t rs. f t = Inr rs) ts rows" "t \<in> set ts" for ts
    using that by (induction ts rows rule: list_all2_induct) auto
  from this [OF assms] show ?thesis by (simp add: records_of_def)
qed

lemma exportLedgerArchive_parts:
  assumes "exportLedgerArchive resolution sha256 workspace db = Inr a"
  obtains records where "requireWorkspace (VStr workspace) = Inr workspace"
    "\<And>t. queryRows resolution db t workspace = Inr (records t)" "validateGraph resolution sha256 records workspace = Inr ()"
    "validateMemoryReferences (ad_memory db) records workspace = Inr ()" "buildArchive sha256 workspace records = Inr a"
proof -
  have ws: "ws = workspace" if "requireWorkspace (VStr workspace) = Inr ws" for ws
    using that by (simp add: requireWorkspace_def nonempty_field_def Let_def result_inv)
  obtain ws rows where e: "requireWorkspace (VStr workspace) = Inr ws"
    "list_all2 (\<lambda>t rs. queryRows resolution db t ws = Inr rs) ARCHIVE_TYPES rows"
    "validateGraph resolution sha256 (records_of rows) ws = Inr ()"
    "validateMemoryReferences (ad_memory db) (records_of rows) ws = Inr ()" "buildArchive sha256 ws (records_of rows) = Inr a"
    using assms unfolding exportLedgerArchive_def Let_def by (auto simp: result_inv rtraverse_Inr_iff)
  from ws [OF e(1)] e records_of_rows [OF e(2)] show ?thesis using that by blast
qed

end
