(* ===== verification/Archive_Order.thy ===== *)
theory Archive_Order
  imports Archive_Text
begin

text \<open>
  The order of an import, \<open>src/src/ledger/archive.ts\<close>: when the recursion over the parents of runs returns, which
  records it gives, and that a parent is written before its children, as the foreign key of the table needs.
\<close>

abbreviation run_id :: "fields \<Rightarrow> string" where
  "run_id r \<equiv> text_at r ''run_id''"

definition parent_rel :: "fields list \<Rightarrow> (string \<times> string) set" where
  "parent_rel runs = {(run_id p, run_id r) | p r. r \<in> set runs \<and> parent_of runs r = Some p}"

definition parents_first :: "fields list \<Rightarrow> fields list \<Rightarrow> bool" where
  "parents_first runs out =
     (\<forall>pre r post p. out = pre @ r # post \<longrightarrow> parent_of runs r = Some p \<longrightarrow> run_id p \<in> run_id ` set pre)"

lemma parent_of_set: "parent_of runs r = Some p \<Longrightarrow> p \<in> set runs"
  by (auto simp: parent_of_def find_Some_iff split: option.splits)

lemma parents_first_snoc:
  "parents_first runs (out @ [r]) \<longleftrightarrow>
     parents_first runs out \<and> (\<forall>p. parent_of runs r = Some p \<longrightarrow> run_id p \<in> run_id ` set out)"
proof
  assume a: "parents_first runs (out @ [r])"
  have "parents_first runs out"
    unfolding parents_first_def
  proof (intro allI impI)
    fix pre q post p assume "out = pre @ q # post" "parent_of runs q = Some p"
    then have "out @ [r] = pre @ q # (post @ [r])" by simp
    with a \<open>parent_of runs q = Some p\<close> show "run_id p \<in> run_id ` set pre" unfolding parents_first_def by blast
  qed
  with a show "parents_first runs out \<and> (\<forall>p. parent_of runs r = Some p \<longrightarrow> run_id p \<in> run_id ` set out)"
    unfolding parents_first_def by blast
next
  assume a: "parents_first runs out \<and> (\<forall>p. parent_of runs r = Some p \<longrightarrow> run_id p \<in> run_id ` set out)"
  show "parents_first runs (out @ [r])"
    unfolding parents_first_def
  proof (intro allI impI)
    fix pre q post p assume e: "out @ [r] = pre @ q # post" and p: "parent_of runs q = Some p"
    show "run_id p \<in> run_id ` set pre"
    proof (cases post rule: rev_cases)
      case Nil
      with e a p show ?thesis by simp
    next
      case (snoc post' x)
      with e have "out = pre @ q # post'" by simp
      with a p show ?thesis unfolding parents_first_def by blast
    qed
  qed
qed

section \<open>What a call that returns has done\<close>

definition emitted_ok :: "fields list \<Rightarrow> emitted \<Rightarrow> bool" where
  "emitted_ok runs st = (set (fst st) = run_id ` set (snd st) \<and> distinct (map run_id (snd st))
     \<and> set (snd st) \<subseteq> set runs \<and> parents_first runs (snd st))"

text \<open>A call adds nothing when the run is there, and otherwise ends with the run.\<close>

definition emits :: "fields list \<Rightarrow> fields \<Rightarrow> emitted \<Rightarrow> emitted \<Rightarrow> bool" where
  "emits runs r st st' = (emitted_ok runs st' \<and> set (snd st) \<subseteq> set (snd st') \<and> run_id r \<in> set (fst st')
     \<and> (if run_id r \<in> set (fst st) then st' = st else (\<exists>ys. snd st' = ys @ [r])))"

lemma emits_step:
  assumes r: "r \<in> set runs" "run_id r \<notin> set (fst st)" and ok: "emitted_ok runs st1"
    and sub: "set (snd st) \<subseteq> set (snd st1)" and fresh: "run_id r \<notin> set (fst st1)"
    and par: "\<forall>p. parent_of runs r = Some p \<longrightarrow> run_id p \<in> set (fst st1)"
  shows "emits runs r st (run_id r # fst st1, snd st1 @ [r])"
  using assms by (auto simp: emits_def emitted_ok_def parents_first_snoc)

text \<open>After a call for the parent the run itself is not there: it would come after the parent, which is the last.\<close>

lemma parent_emits_fresh:
  assumes e: "emits runs p st st1" and p: "parent_of runs r = Some p" and d: "distinct (map run_id runs)"
    and r: "r \<in> set runs" "run_id r \<notin> set (fst st)" and ok: "emitted_ok runs st"
  shows "run_id r \<notin> set (fst st1)"
proof
  assume c: "run_id r \<in> set (fst st1)"
  from e have ok1: "emitted_ok runs st1" by (simp add: emits_def)
  with c obtain q where q: "q \<in> set (snd st1)" "run_id q = run_id r" by (auto simp: emitted_ok_def)
  with ok1 have "q \<in> set runs" by (auto simp: emitted_ok_def)
  with q(2) r(1) d have "q = r" by (metis distinct_map inj_on_eq_iff)
  then obtain pre post where out: "snd st1 = pre @ r # post" using q(1) by (metis split_list)
  with ok1 p have pre: "run_id p \<in> run_id ` set pre" unfolding emitted_ok_def parents_first_def by blast
  show False
  proof (cases "run_id p \<in> set (fst st)")
    case False
    with e obtain ys where "snd st1 = ys @ [p]" by (auto simp: emits_def)
    with out ok1 pre show False by (cases post rule: rev_cases) (auto simp: emitted_ok_def)
  next
    case True
    with e c r(2) show False by (simp add: emits_def)
  qed
qed

lemma emitRun_emits:
  assumes "emitRun runs r st = Some st'"
  shows "distinct (map run_id runs) \<longrightarrow> r \<in> set runs \<longrightarrow> emitted_ok runs st \<longrightarrow> emits runs r st st'"
proof (rule emitRun.raw_induct [OF _ assms], intro impI)
  fix emit runs r st st'
  assume IH: "\<And>runs r st st'. emit runs r st = Some st' \<Longrightarrow>
      distinct (map run_id runs) \<longrightarrow> r \<in> set runs \<longrightarrow> emitted_ok runs st \<longrightarrow> emits runs r st st'"
    and body: "(if run_id r \<in> set (fst st) then Some st
      else Option.bind (case parent_of runs r of None \<Rightarrow> Some st | Some parent \<Rightarrow> emit runs parent st)
        (\<lambda>st'. Some (run_id r # fst st', snd st' @ [r]))) = Some st'"
    and d: "distinct (map run_id runs)" and r: "r \<in> set runs" and ok: "emitted_ok runs st"
  show "emits runs r st st'"
  proof (cases "run_id r \<in> set (fst st)")
    case True
    with body ok show ?thesis by (simp add: emits_def)
  next
    case fresh: False
    obtain st1 where st1: "(case parent_of runs r of None \<Rightarrow> Some st | Some p \<Rightarrow> emit runs p st) = Some st1"
      and st': "st' = (run_id r # fst st1, snd st1 @ [r])"
      using body fresh by (cases "case parent_of runs r of None \<Rightarrow> Some st | Some p \<Rightarrow> emit runs p st") auto
    show ?thesis
    proof (cases "parent_of runs r")
      case None
      with st1 have "st1 = st" by simp
      with emits_step [OF r fresh ok, of ] None fresh ok st' show ?thesis by simp
    next
      case (Some p)
      with st1 have "emit runs p st = Some st1" by simp
      from IH [OF this] parent_of_set [OF Some] ok d have e: "emits runs p st st1" by blast
      have "run_id r \<notin> set (fst st1)" by (rule parent_emits_fresh [OF e Some d r fresh ok])
      with emits_step [OF r fresh, of st1] e Some st' show ?thesis by (simp add: emits_def)
    qed
  qed
qed

lemma emitRuns_emits:
  "emitRuns runs rs st = Some st' \<Longrightarrow> distinct (map run_id runs) \<Longrightarrow> set rs \<subseteq> set runs \<Longrightarrow> emitted_ok runs st \<Longrightarrow>
   emitted_ok runs st' \<and> set (snd st) \<subseteq> set (snd st') \<and> run_id ` set rs \<subseteq> set (fst st')"
proof (induction rs arbitrary: st)
  case (Cons r rs)
  from Cons.prems(1) obtain st1 where a: "emitRun runs r st = Some st1" and b: "emitRuns runs rs st1 = Some st'"
    by (cases "emitRun runs r st") auto
  from emitRun_emits [OF a] Cons.prems(2-4) have e: "emits runs r st st1" by simp
  from Cons.IH [OF b] Cons.prems e have "emitted_ok runs st' \<and> set (snd st1) \<subseteq> set (snd st') \<and> run_id ` set rs \<subseteq> set (fst st')"
    by (simp add: emits_def)
  moreover have "run_id r \<in> set (fst st1)" "set (snd st) \<subseteq> set (snd st1)" "emitted_ok runs st1"
    using e by (simp_all add: emits_def)
  moreover have "set (fst st1) \<subseteq> set (fst st')"
    using calculation by (simp add: emitted_ok_def image_mono)
  ultimately show ?case by auto
qed (simp add: emitted_ok_def)

section \<open>When a call returns\<close>

lemma finite_parent_rel: "finite (parent_rel runs)"
proof -
  have "parent_rel runs \<subseteq> run_id ` set runs \<times> run_id ` set runs" by (auto simp: parent_rel_def parent_of_set)
  then show ?thesis by (rule finite_subset) simp
qed

lemma emitRun_returns:
  assumes "acyclic (parent_rel runs)" and "r \<in> set runs"
  shows "\<exists>st'. emitRun runs r st = Some st'"
proof -
  have "wf (parent_rel runs)" using finite_parent_rel assms(1) by (rule finite_acyclic_wf)
  then show ?thesis using assms(2)
  proof (induction "run_id r" arbitrary: r rule: wf_induct_rule)
    case less
    show ?case
    proof (cases "parent_of runs r")
      case None
      then show ?thesis by (subst emitRun.simps) simp
    next
      case (Some p)
      then have "(run_id p, run_id r) \<in> parent_rel runs" using less.prems by (auto simp: parent_rel_def)
      from less.hyps [OF this] parent_of_set [OF Some] obtain st' where "emitRun runs p st = Some st'" by blast
      with Some show ?thesis by (subst emitRun.simps) simp
    qed
  qed
qed

lemma emitRuns_returns:
  "acyclic (parent_rel runs) \<Longrightarrow> set rs \<subseteq> set runs \<Longrightarrow> \<exists>st'. emitRuns runs rs st = Some st'"
proof (induction rs arbitrary: st)
  case (Cons r rs)
  from emitRun_returns [OF Cons.prems(1), of r st] Cons.prems obtain st1 where "emitRun runs r st = Some st1" by auto
  with Cons show ?case by simp
qed simp

text \<open>A list of distinct runs with parents first has no cycle.\<close>

fun index_of :: "'a list \<Rightarrow> 'a \<Rightarrow> nat" where
  "index_of [] x = 0"
| "index_of (y # ys) x = (if y = x then 0 else Suc (index_of ys x))"

lemma index_of_append: "index_of (xs @ y # ys) y = length xs \<longleftrightarrow> y \<notin> set xs"
  by (induction xs) auto

lemma index_of_less: "x \<in> set xs \<Longrightarrow> index_of (xs @ ys) x < length xs"
  by (induction xs) auto

lemma parents_first_acyclic:
  assumes "distinct (map run_id out)" and "parents_first runs out" and "set runs \<subseteq> set out"
  shows "acyclic (parent_rel runs)"
proof -
  let ?i = "index_of (map run_id out)"
  have "?i (run_id p) < ?i (run_id r)" if "r \<in> set runs" "parent_of runs r = Some p" for p r
  proof -
    have "r \<in> set out" using that(1) assms(3) by blast
    from split_list [OF this] obtain pre post where out: "out = pre @ r # post" by blast
    with assms(2) that(2) have "run_id p \<in> run_id ` set pre" unfolding parents_first_def by blast
    then have "run_id p \<in> set (map run_id pre)" by (simp only: set_map)
    from index_of_less [OF this] have "?i (run_id p) < length (map run_id pre)" unfolding out by (simp only: map_append length_map)
    moreover have "run_id r \<notin> set (map run_id pre)" using assms(1) unfolding out by auto
    then have "?i (run_id r) = length (map run_id pre)" unfolding out by (simp only: map_append list.map index_of_append simp_thms)
    ultimately show ?thesis by simp
  qed
  then have "parent_rel runs \<subseteq> measure ?i" by (auto simp: parent_rel_def)
  then show ?thesis by (rule wf_acyclic [OF wf_subset [OF wf_measure]])
qed

section \<open>The order\<close>

lemma emitRuns_all:
  assumes "emitRuns runs runs ([], []) = Some st" and d: "distinct (map run_id runs)"
  shows "mset (snd st) = mset runs \<and> parents_first runs (snd st) \<and> acyclic (parent_rel runs)"
proof -
  have "emitted_ok runs ([], [])" by (simp add: emitted_ok_def parents_first_def)
  from emitRuns_emits [OF assms(1) d _ this] have ok: "emitted_ok runs st" and all: "run_id ` set runs \<subseteq> set (fst st)" by simp_all
  have "set runs \<subseteq> set (snd st)"
  proof
    fix r assume r: "r \<in> set runs"
    with all ok obtain q where q: "q \<in> set (snd st)" "run_id r = run_id q" by (auto simp: emitted_ok_def)
    with ok have "q \<in> set runs" by (auto simp: emitted_ok_def)
    with q r d have "q = r" by (auto simp: distinct_map dest: inj_onD)
    with q(1) show "r \<in> set (snd st)" by simp
  qed
  with ok have s: "set (snd st) = set runs" by (auto simp: emitted_ok_def)
  have "distinct (snd st)" "distinct runs" using ok d by (simp_all add: emitted_ok_def distinct_map)
  with s have "mset (snd st) = mset runs" by (metis set_eq_iff_mset_eq_distinct)
  moreover have "acyclic (parent_rel runs)"
    using parents_first_acyclic [of "snd st" runs] ok s by (simp add: emitted_ok_def)
  ultimately show ?thesis using ok by (simp add: emitted_ok_def)
qed

lemma ordered_records:
  assumes "mset rs = mset (records Runs)"
  shows "mset (map (Pair Runs) rs @ concat (map (\<lambda>t. map (Pair t) (records t)) IMPORT_ORDER)) = mset (all_records records)"
proof -
  have "mset (map (Pair Runs) rs) = mset (map (Pair Runs) (records Runs))" by (simp add: assms)
  then show ?thesis by (simp add: all_records_def ARCHIVE_TYPES_def IMPORT_ORDER_def)
qed

lemma ordered_import:
  assumes "distinct (map (identity Runs) (records Runs))" and "orderedForImport records = Some ordered"
  shows "acyclic (parent_rel (records Runs)) \<and> mset ordered = mset (all_records records)
    \<and> parents_first (records Runs) (map snd (filter (\<lambda>p. fst p = Runs) ordered))"
proof -
  obtain st where st: "emitRuns (records Runs) (records Runs) ([], []) = Some st"
    and o: "ordered = map (Pair Runs) (snd st) @ concat (map (\<lambda>t. map (Pair t) (records t)) IMPORT_ORDER)"
    using assms(2) by (auto simp: orderedForImport_def)
  have "identity Runs = run_id" by (rule ext) simp
  with assms(1) have "distinct (map run_id (records Runs))" by (simp only:)
  from emitRuns_all [OF st this] ordered_records [of "snd st" records] show ?thesis
    by (simp add: o filter_map comp_def IMPORT_ORDER_def)
qed


end
