(* ===== verification/Archive_Merge.thy ===== *)
theory Archive_Merge
  imports Archive_Order
begin

text \<open>
  Merging an archive into a database, \<open>src/src/ledger/archive.ts\<close>: what the insertion leaves, and that an
  archive which was imported holds nothing new for that database.
\<close>

section \<open>Records of an archive that was read\<close>

definition read_records :: "resolution_parser \<Rightarrow> string \<Rightarrow> archive_records \<Rightarrow> bool" where
  "read_records resolution workspace records = (\<forall>t. \<forall>r\<in>set (records t). written resolution workspace t r)"

lemma parseRecord_written: "parseRecord resolution workspace line = Inr (t, r) \<Longrightarrow> written resolution workspace t r"
  unfolding written_def by (auto simp: parseRecord_def result_inv split: option.splits) blast

lemma parseRecords_written:
  "parseRecords resolution workspace ls records = Inr records' \<Longrightarrow> read_records resolution workspace records \<Longrightarrow>
   read_records resolution workspace records'"
proof (induction ls arbitrary: records)
  case (Cons line ls)
  then obtain t r where p: "parseRecord resolution workspace line = Inr (t, r)"
    and rest: "parseRecords resolution workspace ls (add_record t r records) = Inr records'"
    by (auto simp: result_inv)
  have "read_records resolution workspace (add_record t r records)"
    using Cons.prems(2) parseRecord_written [OF p] by (auto simp: read_records_def add_record_def)
  from Cons.IH [OF rest this] show ?case .
qed simp

lemma parseArchive_parts:
  assumes "parseArchive resolution sha256 content = Inr parsed"
  shows "read_records resolution (pa_workspace parsed) (pa_records parsed)
    \<and> (\<forall>t. pa_counts parsed t = int (length (pa_records parsed t)))"
proof -
  obtain ls ws counts records where r: "parseRecords resolution ws ls (\<lambda>_. []) = Inr records"
    and c: "list_all (\<lambda>t. int (length (records t)) = counts t) ARCHIVE_TYPES"
    and p: "parsed = \<lparr>pa_workspace = ws, pa_counts = counts, pa_records = records\<rparr>"
    using assms unfolding parseArchive_def by (auto simp: result_inv)
  have "read_records resolution ws (\<lambda>_. [])" by (simp add: read_records_def)
  from parseRecords_written [OF r this] c p show ?thesis by (simp add: list_all_iff)
qed

section \<open>Stored records\<close>

definition keyed :: "archive_type \<Rightarrow> fields \<Rightarrow> bool" where
  "keyed t r = list_all (\<lambda>k. getp r k = VStr (text_at r k)) (PRIMARY_KEY t)"

lemma key_texts:
  assumes "run_steps (case_steps resolution workspace t) raw = Inr fs" and "k \<in> set (PRIMARY_KEY t)"
  shows "getp raw k = VStr (text_at raw k)"
proof -
  have "Keep k ident \<in> set (case_steps resolution workspace t) \<or> Keep k (oneOf PROFILE_FIELDS) \<in> set (case_steps resolution workspace t)"
    using assms(2) by (cases t) (auto simp: run_steps_of_def)
  then have "ident (getp raw k) = Inr () \<or> oneOf PROFILE_FIELDS (getp raw k) = Inr ()"
    using run_steps_keep [OF assms(1)] by blast
  then show ?thesis by (cases "getp raw k") (auto simp: text_at_def)
qed

lemma primary_fields: "k \<in> set (PRIMARY_KEY t) \<Longrightarrow> k \<in> set (TABLE_FIELDS t)"
  by (cases t) auto

lemma written_keyed: "written resolution workspace t r \<Longrightarrow> keyed t r"
  using key_texts [OF normalizeRecord_steps] by (auto simp: written_def keyed_def list_all_iff)

lemma columns_of_inserted [simp]: "columns_of t (inserted_row t r) = columns_of t r"
proof (rule columns_of_cong)
  have "getp (inserted_row t r) k = getp r k" if "k \<in> set (TABLE_FIELDS t)" for k
    using that by (simp add: inserted_row_def getp_def [of "_ @ _"] columns_of_def map_add_def map_of_columns)
  then show "list_all (\<lambda>k. getp (inserted_row t r) k = getp r k) (TABLE_FIELDS t)" by (simp add: list_all_iff)
qed

lemma getp_inserted: "k \<in> set (TABLE_FIELDS t) \<Longrightarrow> getp (inserted_row t r) k = getp r k"
  by (metis columns_of_inserted getp_columns)

lemma matches_inserted: "keyed t r \<Longrightarrow> matches (PRIMARY_KEY t) r (inserted_row t r)"
  by (simp add: keyed_def matches_def list_all_iff getp_inserted primary_fields)

text \<open>The identity of a record is determined by its primary key.\<close>

lemma matches_identity:
  assumes "matches (PRIMARY_KEY t) r (inserted_row t q)"
  shows "identity t r = identity t q"
proof -
  have "text_at q k = text_at r k" if "k \<in> set (PRIMARY_KEY t)" for k
  proof -
    have "getp (inserted_row t q) k = VStr (text_at r k)" using assms that by (simp add: matches_def list_all_iff)
    then show ?thesis using getp_inserted [OF primary_fields [OF that], of q] by (simp add: text_at_def)
  qed
  then show ?thesis by (cases t) simp_all
qed

lemma compareExisting_stored:
  assumes w: "written resolution workspace t r" and s: "selectExisting db t r = Some (columns_of t r)"
  shows "compareExisting resolution db t r workspace' = Inr True"
proof -
  obtain source importing where n: "normalizeRecord resolution t source workspace importing = Inr r"
    and secret: "secretScan r = Inr ()" using w by (auto simp: written_def)
  from secret obtain line where "canonicalJson (VObj r) = Inr line" by (auto simp: secretScan_def result_inv)
  with normalizeRecord_stored [OF n] s show ?thesis by (simp add: compareExisting_def)
qed

section \<open>Writing\<close>

text \<open>The rows of the tables during the import: those that were there, then inserted records, in the order of writing.\<close>

definition extends :: "archive_db \<Rightarrow> (archive_type \<times> fields) list \<Rightarrow> archive_db \<Rightarrow> bool" where
  "extends db ps d = (\<forall>t. \<exists>new. ad_rows d t = ad_rows db t @ map (inserted_row t) new \<and> Pair t ` set new \<subseteq> set ps)"

lemma find_append: "find P (xs @ ys) = (case find P xs of None \<Rightarrow> find P ys | Some x \<Rightarrow> Some x)"
  by (induction xs) auto

lemma selectExisting_stays:
  "\<forall>t. \<exists>new. ad_rows d' t = ad_rows d t @ new \<Longrightarrow> selectExisting d t r = Some e \<Longrightarrow> selectExisting d' t r = Some e"
  by (metis (no_types, lifting) find_append option.case(2) option.map_disc_iff option.distinct(1) option.exhaust selectExisting_def)

lemma compareExisting_stays:
  "\<forall>t. \<exists>new. ad_rows d' t = ad_rows d t @ new \<Longrightarrow> compareExisting resolution d t r w = Inr True \<Longrightarrow>
   compareExisting resolution d' t r w = Inr True"
  using selectExisting_stays [of d' d t r]
  by (cases "selectExisting d t r") (auto simp: compareExisting_def result_inv)

lemma compareExisting_new: "compareExisting resolution d t r w = Inr False \<Longrightarrow> selectExisting d t r = None"
  by (auto simp: compareExisting_def result_inv split: option.splits)

lemma compareExisting_present: "compareExisting resolution d t r w = Inr True \<Longrightarrow> selectExisting d t r \<noteq> None"
  by (auto simp: compareExisting_def result_inv split: option.splits)

lemma extends_new:
  assumes e: "extends db pre d" and n: "selectExisting db t r = None" and i: "\<forall>q. (t, q) \<in> set pre \<longrightarrow> identity t q \<noteq> identity t r"
  shows "find (matches (PRIMARY_KEY t) r) (ad_rows d t) = None"
proof -
  obtain new where d: "ad_rows d t = ad_rows db t @ map (inserted_row t) new" and s: "Pair t ` set new \<subseteq> set pre"
    using e unfolding extends_def by blast
  have "\<not> matches (PRIMARY_KEY t) r (inserted_row t q)" if "q \<in> set new" for q
    using matches_identity [of t r q] i s that by (metis image_subset_iff)
  moreover have "find (matches (PRIMARY_KEY t) r) (ad_rows db t) = None" using n by (simp add: selectExisting_def)
  ultimately show ?thesis by (auto simp: d find_None_iff)
qed

definition stored_now :: "resolution_parser \<Rightarrow> string \<Rightarrow> archive_db \<Rightarrow> archive_type \<times> fields \<Rightarrow> bool" where
  "stored_now resolution w d p = (compareExisting resolution d (fst p) (snd p) w = Inr True)"

lemma inserted_stored:
  assumes w: "written resolution ws t r" and none: "find (matches (PRIMARY_KEY t) r) (ad_rows d t) = None"
    and d': "ad_rows d' t = ad_rows d t @ [inserted_row t r]"
  shows "stored_now resolution w d' (t, r)"
proof -
  have "selectExisting d' t r = Some (columns_of t r)"
    using none matches_inserted [OF written_keyed [OF w]] by (simp add: selectExisting_def d' find_append)
  from compareExisting_stored [OF w this] show ?thesis by (simp add: stored_now_def)
qed

lemma write_record_step:
  assumes e: "extends db pre d" and w: "written resolution ws t r"
    and i: "\<forall>q. (t, q) \<in> set pre \<longrightarrow> identity t q \<noteq> identity t r"
    and c: "compareExisting resolution db t r w = Inr dup" and dups: "dup \<longrightarrow> 0 < duplicates t"
    and run: "write_record schema w' duplicates (t, r) d = (Inr u, d')"
  shows "extends db (pre @ [(t, r)]) d' \<and> (\<forall>t. \<exists>new. ad_rows d' t = ad_rows d t @ new)
    \<and> ad_memory d' = ad_memory d \<and> stored_now resolution w d' (t, r)"
proof (cases dup)
  case True
  have grows: "\<forall>t. \<exists>new. ad_rows d t = ad_rows db t @ new" using e unfolding extends_def by blast
  from compareExisting_stays [OF grows] c True have c': "compareExisting resolution d t r w = Inr True" by simp
  with run dups True have "d' = d" by (auto simp: write_record_def dest: compareExisting_present)
  with c' e show ?thesis by (fastforce simp: stored_now_def extends_def)
next
  case False
  with c have none: "selectExisting db t r = None" using compareExisting_new by simp
  from extends_new [OF e none i] have f: "find (matches (PRIMARY_KEY t) r) (ad_rows d t) = None" .
  then have "selectExisting d t r = None" by (simp add: selectExisting_def)
  with run have d': "ad_rows d' = add_record t (inserted_row t r) (ad_rows d)" "ad_memory d' = ad_memory d"
    by (auto simp: write_record_def obind_Inr insertRecord_def clear_backfill_def split: option.splits)
  then have st: "stored_now resolution w d' (t, r)" using inserted_stored [OF w f] by (simp add: add_record_def)
  have "extends db (pre @ [(t, r)]) d'"
    unfolding extends_def
  proof
    fix t'
    obtain new where new: "ad_rows d t' = ad_rows db t' @ map (inserted_row t') new" "Pair t' ` set new \<subseteq> set pre"
      using e unfolding extends_def by blast
    show "\<exists>new. ad_rows d' t' = ad_rows db t' @ map (inserted_row t') new \<and> Pair t' ` set new \<subseteq> set (pre @ [(t, r)])"
    proof (cases "t' = t")
      case True
      with new d' show ?thesis by (intro exI [of _ "new @ [r]"]) (auto simp: add_record_def)
    next
      case False
      with new d' show ?thesis by (intro exI [of _ new]) (auto simp: add_record_def)
    qed
  qed
  with st d' show ?thesis by (auto simp: add_record_def)
qed

definition record_key :: "archive_type \<times> fields \<Rightarrow> archive_type \<times> string" where
  "record_key p = (fst p, identity (fst p) (snd p))"

definition grows :: "archive_db \<Rightarrow> archive_db \<Rightarrow> bool" where
  "grows d d' = ((\<forall>t. \<exists>new. ad_rows d' t = ad_rows d t @ new) \<and> ad_memory d' = ad_memory d)"

lemma grows_trans: "grows a b \<Longrightarrow> grows b c \<Longrightarrow> grows a c"
  unfolding grows_def by (metis append.assoc)

lemma stored_now_grows: "grows d d' \<Longrightarrow> stored_now resolution w d p \<Longrightarrow> stored_now resolution w d' p"
  using compareExisting_stays [of d' d] by (auto simp: grows_def stored_now_def)

lemma write_all:
  "oforeach (write_record schema w' duplicates) ps d = (Inr u, d') \<Longrightarrow> extends db pre d \<Longrightarrow>
   distinct (map record_key (pre @ ps)) \<Longrightarrow>
   \<forall>p\<in>set ps. written resolution ws (fst p) (snd p) \<and>
     (\<exists>dup. compareExisting resolution db (fst p) (snd p) w = Inr dup \<and> (dup \<longrightarrow> 0 < duplicates (fst p))) \<Longrightarrow>
   grows d d' \<and> (\<forall>p\<in>set ps. stored_now resolution w d' p)"
proof (induction ps arbitrary: pre d)
  case Nil
  then show ?case by (simp add: grows_def)
next
  case (Cons p ps)
  obtain t r where p: "p = (t, r)" by (cases p)
  obtain d1 where step: "write_record schema w' duplicates (t, r) d = (Inr (), d1)"
    and rest: "oforeach (write_record schema w' duplicates) ps d1 = (Inr u, d')"
    using Cons.prems(1) by (auto simp: obind_Inr p)
  have i: "\<forall>q. (t, q) \<in> set pre \<longrightarrow> identity t q \<noteq> identity t r"
    using Cons.prems(3) by (force simp: p record_key_def)
  obtain dup where c: "compareExisting resolution db t r w = Inr dup" "dup \<longrightarrow> 0 < duplicates t"
    and wr: "written resolution ws t r" using Cons.prems(4) by (auto simp: p)
  have s: "extends db (pre @ [p]) d1 \<and> grows d d1 \<and> stored_now resolution w d1 p"
    using write_record_step [OF Cons.prems(2) wr i c step] by (simp add: p grows_def)
  have "grows d1 d' \<and> (\<forall>p\<in>set ps. stored_now resolution w d' p)"
    using Cons.prems(3,4) s by (intro Cons.IH [OF rest, of "pre @ [p]"]) auto
  with s grows_trans stored_now_grows show ?case by fastforce
qed

lemma write_stored:
  assumes "\<forall>p\<in>set ps. stored_now resolution w d p \<and> 0 < duplicates (fst p)"
  shows "oforeach (write_record schema w' duplicates) ps d = (Inr (), d)"
  using assms
proof (induction ps)
  case (Cons p ps)
  then have "write_record schema w' duplicates p d = (Inr (), d)"
    by (cases p) (auto simp: write_record_def stored_now_def dest: compareExisting_present)
  with Cons show ?case by (simp add: obind_def)
qed simp

section \<open>Comparing\<close>

definition tallied :: "(archive_type \<times> fields) list \<Rightarrow> archive_counts \<Rightarrow> archive_counts" where
  "tallied ps counts = fold (\<lambda>p. one_more (fst p)) ps counts"

lemma tallied_count: "tallied ps counts t = counts t + int (length (filter (\<lambda>p. fst p = t) ps))"
  by (induction ps arbitrary: counts) (auto simp: tallied_def one_more_def)

lemma classify_stored:
  "\<forall>p\<in>set ps. stored_now resolution w d p \<Longrightarrow>
   classify resolution d w dryRun ps y = Inr (y\<lparr>ty_duplicates := tallied ps (ty_duplicates y)\<rparr>)"
proof (induction ps arbitrary: y)
  case (Cons p ps)
  then show ?case by (cases p) (simp add: stored_now_def tallied_def)
qed (simp add: tallied_def)

lemma classify_compared:
  "classify resolution db w False ps y = Inr y' \<Longrightarrow>
   (\<forall>p\<in>set ps. \<exists>dup. compareExisting resolution db (fst p) (snd p) w = Inr dup \<and>
      (dup \<longrightarrow> ty_duplicates y (fst p) < ty_duplicates y' (fst p)))
   \<and> (\<forall>t. ty_duplicates y t \<le> ty_duplicates y' t)"
proof (induction ps arbitrary: y)
  case (Cons p ps)
  obtain t r where p: "p = (t, r)" by (cases p)
  obtain dup where c: "compareExisting resolution db t r w = Inr dup"
    using Cons.prems by (auto simp: p split: sum.splits)
  let ?y = "if dup then y\<lparr>ty_duplicates := one_more t (ty_duplicates y)\<rparr> else y\<lparr>ty_imported := one_more t (ty_imported y)\<rparr>"
  have "classify resolution db w False ps ?y = Inr y'" using Cons.prems c by (cases dup) (simp_all add: p)
  from Cons.IH [OF this] have all: "\<forall>p\<in>set ps. \<exists>dup. compareExisting resolution db (fst p) (snd p) w = Inr dup \<and>
      (dup \<longrightarrow> ty_duplicates ?y (fst p) < ty_duplicates y' (fst p))" and le: "\<And>t. ty_duplicates ?y t \<le> ty_duplicates y' t"
    by blast+
  have mono: "ty_duplicates y t' \<le> ty_duplicates ?y t'" for t' by (simp add: one_more_def)
  have "dup \<longrightarrow> ty_duplicates y t < ty_duplicates y' t" using le [of t] by (auto simp: one_more_def)
  with c have head: "\<exists>dup. compareExisting resolution db (fst p) (snd p) w = Inr dup \<and>
      (dup \<longrightarrow> ty_duplicates y (fst p) < ty_duplicates y' (fst p))" by (simp add: p)
  have tail: "\<exists>dup. compareExisting resolution db (fst q) (snd q) w = Inr dup \<and>
      (dup \<longrightarrow> ty_duplicates y (fst q) < ty_duplicates y' (fst q))" if "q \<in> set ps" for q
    using all that mono [of "fst q"] le_less_trans by blast
  have "ty_duplicates y t' \<le> ty_duplicates y' t'" for t' using mono le by (rule order_trans)
  with head tail show ?case by simp
qed simp

section \<open>Importing\<close>

lemma accepted_parts:
  assumes "accepted_archive resolution sha256 workspace content = Inr parsed"
  shows "read_records resolution (pa_workspace parsed) (pa_records parsed)
    \<and> (\<forall>t. pa_counts parsed t = int (length (pa_records parsed t)))
    \<and> (\<forall>t. distinct (map (identity t) (pa_records parsed t)))"
proof -
  have "parseArchive resolution sha256 content = Inr parsed" "ensureUniqueRecords (pa_records parsed) = Inr ()"
    using assms by (auto simp: accepted_archive_def validateGraph_def result_inv)
  with parseArchive_parts show ?thesis by (auto simp: ensureUniqueRecords_def list_all_iff)
qed

lemma distinct_keys_concat:
  assumes "\<And>t. distinct (map (identity t) (records t))" and "distinct ts"
  shows "distinct (map record_key (concat (map (\<lambda>t. map (Pair t) (records t)) ts)))"
  using assms(2)
proof (induction ts)
  case (Cons t ts)
  have "map record_key (map (Pair t) (records t)) = map (Pair t) (map (identity t) (records t))"
    by (simp add: record_key_def)
  then have "distinct (map record_key (map (Pair t) (records t)))"
    using assms(1) [of t] by (simp only: distinct_map) (simp add: inj_on_def)
  moreover have "set (map record_key (map (Pair t) (records t))) \<inter>
      set (map record_key (concat (map (\<lambda>t. map (Pair t) (records t)) ts))) = {}"
    using Cons.prems by (auto simp: record_key_def)
  ultimately show ?case using Cons by simp
qed simp

lemma ordered_facts:
  assumes a: "accepted_archive resolution sha256 workspace content = Inr parsed"
    and o: "orderedForImport (pa_records parsed) = Some ordered"
  shows "distinct (map record_key ordered)
    \<and> (\<forall>p\<in>set ordered. written resolution (pa_workspace parsed) (fst p) (snd p))
    \<and> tallied ordered (\<lambda>_. 0) = pa_counts parsed"
proof -
  note f = accepted_parts [OF a]
  then have u: "distinct (map (identity Runs) (pa_records parsed Runs))" by blast
  from ordered_import [where records = "pa_records parsed", OF u o] have m: "mset ordered = mset (all_records (pa_records parsed))" by simp
  have "distinct (map record_key (all_records (pa_records parsed)))"
    unfolding all_records_def using f by (intro distinct_keys_concat) simp_all
  then have "distinct (map record_key ordered)" using m by (metis mset_eq_imp_distinct_iff mset_map)
  moreover have "set ordered = set (all_records (pa_records parsed))" using m by (rule mset_eq_setD)
  then have "\<forall>p\<in>set ordered. written resolution (pa_workspace parsed) (fst p) (snd p)"
    using f by (auto simp: all_records_def read_records_def)
  moreover have "tallied ordered (\<lambda>_. 0) t = pa_counts parsed t" for t
  proof -
    have "length (filter (\<lambda>p. fst p = t) ordered) = length (filter (\<lambda>p. fst p = t) (all_records (pa_records parsed)))"
      using arg_cong [OF m, of "\<lambda>M. size (filter_mset (\<lambda>p. fst p = t) M)"] by (simp flip: mset_filter)
    also have "\<dots> = length (map snd (filter (\<lambda>p. fst p = t) (all_records (pa_records parsed))))" by simp
    also have "\<dots> = length (pa_records parsed t)" by (simp only: filter_all_records)
    finally show ?thesis using f by (simp add: tallied_count)
  qed
  ultimately show ?thesis by blast
qed

lemma import_success:
  assumes "importLedgerArchive resolution sha256 schema workspace False content c = Some (Inr r, c')" and idle: "working c = None"
  obtains parsed ordered y where "accepted_archive resolution sha256 workspace content = Inr parsed"
    "orderedForImport (pa_records parsed) = Some ordered"
    "compare_archive resolution False (committed c) parsed ordered = Inr y"
    "oforeach (write_record schema (pa_workspace parsed) (ty_duplicates y)) ordered (committed c) = (Inr (), committed c')"
    "r = \<lparr>ir_workspace = pa_workspace parsed, ir_dryRun = False, ir_counts = pa_counts parsed, ir_tally = y\<rparr>"
proof -
  obtain parsed ordered y where p: "accepted_archive resolution sha256 workspace content = Inr parsed"
    "orderedForImport (pa_records parsed) = Some ordered"
    "compare_archive resolution False (committed c) parsed ordered = Inr y"
    "withImmediateTransaction (oforeach (write_record schema (pa_workspace parsed) (ty_duplicates y)) ordered) c = (Inr (), c')"
    "r = \<lparr>ir_workspace = pa_workspace parsed, ir_dryRun = False, ir_counts = pa_counts parsed, ir_tally = y\<rparr>"
    using assms(1) unfolding importLedgerArchive_def
    by (auto simp: Let_def split: sum.splits option.splits prod.splits)
  from immediate.run_success [OF idle p(4)] p that show ?thesis by blast
qed

lemma import_stores:
  assumes "accepted_archive resolution sha256 workspace content = Inr parsed"
    and "orderedForImport (pa_records parsed) = Some ordered"
    and "compare_archive resolution False db parsed ordered = Inr y"
    and "oforeach (write_record schema w' (ty_duplicates y)) ordered db = (Inr (), db')"
  shows "grows db db' \<and> (\<forall>p\<in>set ordered. stored_now resolution (pa_workspace parsed) db' p)"
proof -
  note f = ordered_facts [OF assms(1,2)]
  have "classify resolution db (pa_workspace parsed) False ordered empty_tally = Inr y"
    using assms(3) by (auto simp: compare_archive_def result_inv)
  from classify_compared [OF this] have c: "\<forall>p\<in>set ordered. \<exists>dup. compareExisting resolution db (fst p) (snd p) (pa_workspace parsed) = Inr dup
      \<and> (dup \<longrightarrow> 0 < ty_duplicates y (fst p))" by (simp add: empty_tally_def)
  have "extends db [] db" by (simp add: extends_def)
  with f c show ?thesis by (intro write_all [OF assms(4), of db "[]"]) auto
qed


end
