(* ===== verification/Secret_Scan.thy ===== *)
theory Secret_Scan
  imports Secrets
begin

text \<open>
  An executable form of the secret scan of \<open>src/src/memory/secrets.ts\<close>: one pass over the text that tries the
  patterns only where one of them can begin. It computes \<open>findSecret\<close> on long texts.
\<close>

text \<open>\<open>[A-Za-z0-9_]\<close> on the bits of a character, the least significant first.\<close>

fun word_bits :: "char \<Rightarrow> bool" where
  "word_bits (Char b0 b1 b2 b3 b4 b5 b6 b7) =
     (if b7 then False
      else if b6 then
        (if b4 then (if b3 then (if b2 then b0 \<and> b1 \<and> \<not> b5 else \<not> (b0 \<and> b1)) else True)
         else b0 \<or> b1 \<or> b2 \<or> b3)
      else b5 \<and> b4 \<and> (\<not> b3 \<or> \<not> b1 \<and> \<not> b2))"

lemma char_cases:
  assumes "\<forall>b0 b1 b2 b3 b4 b5 b6 b7. P (Char b0 b1 b2 b3 b4 b5 b6 b7)"
  shows "P c"
  using assms by (cases c) simp

lemma word_bits: "is_word_char c = word_bits c"
  by (rule char_cases [of "\<lambda>c. is_word_char c = word_bits c"], unfold all_bool_eq, code_simp)

lemma word_not_space: "word_bits c \<longrightarrow> \<not> is_js_space c \<and> c \<noteq> CHR ''-''"
  by (rule char_cases [of "\<lambda>c. word_bits c \<longrightarrow> \<not> is_js_space c \<and> c \<noteq> CHR ''-''"], unfold all_bool_eq, code_simp)

lemma letters_word: "\<not> word_bits c \<longrightarrow> ascii_lower c \<notin> set ''arcpsgxnh''"
  by (rule char_cases [of "\<lambda>c. \<not> word_bits c \<longrightarrow> ascii_lower c \<notin> set ''arcpsgxnh''"], unfold all_bool_eq, code_simp)

lemma lower_minus: "ascii_lower c = CHR ''-'' \<longrightarrow> c = CHR ''-''"
  by (rule char_cases [of "\<lambda>c. ascii_lower c = CHR ''-'' \<longrightarrow> c = CHR ''-''"], unfold all_bool_eq, code_simp)

text \<open>
  Where a pattern can match: at the start of the text, at a white space or a dash, and at the first letter of a
  word, when it is one that begins a pattern.
\<close>

fun starts_here :: "position \<Rightarrow> bool" where
  "starts_here (prev, []) = True"
| "starts_here (None, c # s) = True"
| "starts_here (Some p, c # s) =
     (if word_bits c then (if word_bits p then False else ascii_lower c \<in> set ''arcpsgxnh'')
      else c = CHR ''-'' \<or> is_js_space c)"

fun any_secret :: "position \<Rightarrow> bool" where
  "any_secret (prev, []) = list_ex (\<lambda>r. ends (snd r) (prev, []) \<noteq> []) PATTERNS"
| "any_secret (prev, c # s) =
     (if starts_here (prev, c # s) then
        (if list_ex (\<lambda>r. ends (snd r) (prev, c # s) \<noteq> []) PATTERNS then True else any_secret (Some c, s))
      else any_secret (Some c, s))"

lemma any_secret_test:
  assumes "\<And>r pos. r \<in> set PATTERNS \<Longrightarrow> \<not> starts_here pos \<Longrightarrow> ends (snd r) pos = []"
  shows "any_secret pos \<longleftrightarrow> list_ex (\<lambda>r. test_from (snd r) pos) PATTERNS"
  using assms
proof (induction pos rule: any_secret.induct)
  case (2 prev c s)
  then show ?case by (cases "starts_here (prev, c # s)") (auto simp: list_ex_iff)
qed (auto simp: list_ex_iff)

lemma start_rules:
  "ends a pos = [] \<Longrightarrow> ends (RSeq a b) pos = []"
  "ends a pos = [] \<Longrightarrow> ends b pos = [] \<Longrightarrow> ends (RAlt a b) pos = []"
  "ascii_lower x \<noteq> ascii_lower c \<Longrightarrow> ends (rlit_i (c # cs)) (prev, x # s) = []"
  "x \<noteq> c \<Longrightarrow> ends (rlit (c # cs)) (prev, x # s) = []"
  by (simp_all, (cases cs; simp add: rlit_i_def), (cases cs; simp add: rlit_def))

lemma word_alone:
  "ends (RSeq RWord r) (prev, s) = (if word_at prev \<noteq> word_at (case s of [] \<Rightarrow> None | c # _ \<Rightarrow> Some c) then ends r (prev, s) else [])"
  by simp

lemma lower_letters:
  "ascii_lower CHR ''A'' = CHR ''a''" "ascii_lower CHR ''a'' = CHR ''a''" "ascii_lower CHR ''r'' = CHR ''r''"
  "ascii_lower CHR ''c'' = CHR ''c''" "ascii_lower CHR ''p'' = CHR ''p''" "ascii_lower CHR ''s'' = CHR ''s''"
  "ascii_lower CHR ''g'' = CHR ''g''" "ascii_lower CHR ''x'' = CHR ''x''" "ascii_lower CHR ''n'' = CHR ''n''"
  "ascii_lower CHR ''h'' = CHR ''h''" "ascii_lower CHR ''-'' = CHR ''-''"
  by code_simp+

lemma letters_start:
  assumes "ascii_lower c \<notin> set ''arcpsgxnh''" and "c \<noteq> CHR ''-''" and "\<not> is_js_space c"
  shows "list_all (\<lambda>r. ends (snd r) (Some p, c # s) = []) PATTERNS"
proof -
  have n: "ascii_lower c \<noteq> CHR ''a''" "ascii_lower c \<noteq> CHR ''r''" "ascii_lower c \<noteq> CHR ''c''" "ascii_lower c \<noteq> CHR ''p''"
    "ascii_lower c \<noteq> CHR ''s''" "ascii_lower c \<noteq> CHR ''g''" "ascii_lower c \<noteq> CHR ''x''" "ascii_lower c \<noteq> CHR ''n''"
    "ascii_lower c \<noteq> CHR ''h''" "ascii_lower c \<noteq> CHR ''-''"
    using assms(1,2) lower_minus [of c] by simp_all
  have e: "c \<noteq> CHR ''A''" "c \<noteq> CHR ''s''" "c \<noteq> CHR ''g''" "c \<noteq> CHR ''x''" "c \<noteq> CHR ''n''" "c \<noteq> CHR ''h''" "c \<noteq> CHR ''-''"
    using n lower_letters by blast+
  have sp: "ends (RAlt RStart (RClass is_js_space)) (Some p, c # s) = []" using assms(3) by simp
  show ?thesis
    unfolding PATTERNS_def credential_words_def Let_def
    by (simp only: list.pred_inject rseq.simps ralt.simps start_rules word_alone lower_letters n e sp snd_conv
        not_False_eq_True simp_thms if_cancel)
qed

lemma patterns_start:
  assumes "r \<in> set PATTERNS" and "\<not> starts_here pos"
  shows "ends (snd r) pos = []"
proof -
  obtain p c s where pos: "pos = (Some p, c # s)" using assms(2) by (cases pos rule: starts_here.cases) auto
  have "list_all (\<lambda>r. ends (snd r) pos = []) PATTERNS"
  proof (cases "word_bits c \<and> word_bits p")
    case False
    with assms(2) word_not_space [of c] have "ascii_lower c \<notin> set ''arcpsgxnh''" "c \<noteq> CHR ''-''" "\<not> is_js_space c"
      using letters_word by (auto simp: pos split: if_splits)
    then show ?thesis unfolding pos by (rule letters_start)
  next
    case True
    then have w: "ends RWord pos = []" "c \<noteq> CHR ''-''" "ends (RAlt RStart (RClass is_js_space)) pos = []"
      using word_not_space [of c] by (simp_all add: pos word_bits)
    have "ascii_lower c \<noteq> ascii_lower CHR ''-''" using w(2) lower_minus [of c] by (simp add: lower_letters)
    then have l: "ends (rlit_i (CHR ''-'' # cs)) pos = []" for cs unfolding pos by (rule start_rules(3))
    show ?thesis
      unfolding PATTERNS_def by (simp only: list.pred_inject rseq.simps start_rules(1) w l snd_conv simp_thms)
  qed
  with assms(1) show ?thesis by (simp only: list_all_iff)
qed

lemma findSecret_scan [code]:
  "findSecret s = (if any_secret (None, s) then map_option fst (find (\<lambda>(kind, pattern). test pattern s) PATTERNS) else None)"
proof (cases "any_secret (None, s)")
  case False
  then have "\<not> list_ex (\<lambda>r. test_from (snd r) (None, s)) PATTERNS" using any_secret_test [OF patterns_start] by blast
  then have "find (\<lambda>(kind, pattern). test pattern s) PATTERNS = None"
    by (auto simp: find_None_iff test_def list_ex_iff)
  with False show ?thesis by (simp add: findSecret_def)
qed (simp add: findSecret_def)


end
