(* ===== verification/Archive_Laws.thy ===== *)
theory Archive_Laws
  imports Archive_Merge Memory_History Secret_Scan
begin

text \<open>
  The properties of the ledger archive, \<open>src/src/ledger/archive.ts\<close>, and an archive with one record on which
  they are seen at work.
\<close>

declare emitRun.simps [code]

section \<open>A sample archive\<close>

text \<open>One row of the purge audit, about an entry of the workspace. Its archive has the lines of a checksum, a manifest and the record.\<close>

definition zero_hash :: "string \<Rightarrow> string" where
  "zero_hash s = replicate 64 (CHR ''0'')"

lemma zero_hash_hex: "is_hex64 (zero_hash s)"
proof -
  have "is_hex64 (zero_hash [])" by code_simp
  then show ?thesis by (simp add: zero_hash_def)
qed

definition sample_purge :: fields where
  "sample_purge =
     [(''purge_id'', VStr ''p''), (''run_id'', VNull), (''event_id'', VNull), (''delivery_id'', VNull), (''entry_id'', VStr ''e1''),
      (''target_type'', VStr ''run''), (''target_id'', VStr ''r''), (''actor'', VStr ''u''), (''reason'', VNull),
      (''created_at'', VStr ''2024-05-01T10:00:00.000Z'')]"

definition purge_records :: archive_records where
  "purge_records t = (if t = PurgeAudit then [typed PurgeAudit ''purgeAudit'' sample_purge] else [])"

definition sample_archive_db :: archive_db where
  "sample_archive_db = \<lparr>ad_rows = (\<lambda>t. if t = PurgeAudit then [sample_purge] else []),
     ad_memory = committed recorded_connection, ad_backfill = []\<rparr>"

definition no_resolution :: resolution_parser where
  "no_resolution v = Inl archive_validation"

abbreviation purge_record :: fields where
  "purge_record \<equiv> typed PurgeAudit ''purgeAudit'' sample_purge"

definition manifest_line :: string where
  "manifest_line = (case canonicalJson (VObj (manifest_of ''w'' (countRecords purge_records))) of Inr l \<Rightarrow> l | Inl e \<Rightarrow> [])"

definition purge_line :: string where
  "purge_line = (case canonicalJson (VObj (archived PurgeAudit purge_record)) of Inr l \<Rightarrow> l | Inl e \<Rightarrow> [])"

definition checksum_text :: string where
  "checksum_text = (case canonicalJson (checksum_line (zero_hash [])) of Inr l \<Rightarrow> l | Inl e \<Rightarrow> [])"

lemma sample_manifest_line: "canonicalJson (VObj (manifest_of ''w'' (countRecords purge_records))) = Inr manifest_line"
  by code_simp
lemma sample_purge_line: "canonicalJson (VObj (archived PurgeAudit purge_record)) = Inr purge_line"
  by code_simp
lemma sample_checksum_line: "canonicalJson (checksum_line (zero_hash [])) = Inr checksum_text"
  by code_simp
lemma sample_total: "byteLength (unlines [checksum_text, manifest_line, purge_line]) \<le> 67108864"
  by code_simp
lemma sample_lines: "list_all (\<lambda>l. l \<noteq> [] \<and> byteLength l \<le> 524288) [checksum_text, manifest_line, purge_line]"
  by code_simp

lemma sample_secrets:
  "secretScan purge_record = Inr ()" "secretScan (manifest_of ''w'' (countRecords purge_records)) = Inr ()"
  by code_simp+

lemma sample_normalized:
  "normalizeRecord no_resolution PurgeAudit (columns_of PurgeAudit sample_purge) ''w'' True = Inr purge_record"
  "filter (in_scope sample_archive_db ''w'' PurgeAudit) (ad_rows sample_archive_db PurgeAudit) = [sample_purge]"
  "requireWorkspace (VStr ''w'') = Inr ''w''"
  by code_simp+

lemma sample_rows: "queryRows no_resolution sample_archive_db t ''w'' = Inr (purge_records t)"
proof (cases "t = PurgeAudit")
  case True
  have "normalizeRecord no_resolution PurgeAudit (columns_of PurgeAudit sample_purge) ''w'' False = Inr purge_record"
    using sample_normalized(1) sample_secrets(1) by (auto simp: normalizeRecord_def Let_def result_inv)
  with True sample_normalized(2) show ?thesis by (simp add: queryRows_def purge_records_def)
qed (simp add: queryRows_def purge_records_def sample_archive_db_def)

lemma sample_graph:
  "validateGraph no_resolution zero_hash purge_records ''w'' = Inr ()"
  "validateMemoryReferences (ad_memory sample_archive_db) purge_records ''w'' = Inr ()"
  by code_simp+

lemma purge_repr: "json_repr (VObj (archived PurgeAudit purge_record))"
  by (simp only: archived_typed) (rule normalizeRecord_repr [OF sample_normalized(1), unfolded typed_typed])

lemma sample_no_lf: "list_all (\<lambda>l. LF \<notin> set l) [checksum_text, manifest_line, purge_line]"
proof -
  have "json_repr (checksum_line (zero_hash []))" by (simp add: checksum_line_def)
  moreover have "json_repr (VObj (manifest_of ''w'' (countRecords purge_records)))"
    by (rule manifest_repr) (simp add: countRecords_def purge_records_def MAX_SAFE_INTEGER_def)
  ultimately show ?thesis
    using canonicalJson_no_lf [OF sample_checksum_line] canonicalJson_no_lf [OF sample_manifest_line]
      canonicalJson_no_lf [OF sample_purge_line purge_repr] by simp
qed

lemma sample_bounds:
  "checkBounds (unlines [checksum_text, manifest_line, purge_line]) = Inr [checksum_text, manifest_line, purge_line]"
proof -
  let ?ls = "[checksum_text, manifest_line, purge_line]"
  have "unlines ?ls \<noteq> [] \<and> last (unlines ?ls) = LF" by (simp add: unlines_def)
  moreover have "split_lf (unlines ?ls) = ?ls @ [[]]" using sample_no_lf by (rule split_lf_unlines)
  ultimately show ?thesis
    using sample_total sample_lines by (simp add: checkBounds_def Let_def del: split_lf.simps)
qed

definition sample_content :: string where
  "sample_content = unlines [checksum_text, manifest_line, purge_line]"

lemma sample_build:
  "\<exists>a. buildArchive zero_hash ''w'' purge_records = Inr a \<and> ax_content a = sample_content"
proof -
  have o: "concat (map (\<lambda>t. map (archived t) (purge_records t)) ARCHIVE_TYPES) = [archived PurgeAudit purge_record]"
    by (simp add: ARCHIVE_TYPES_def purge_records_def)
  have h: "zero_hash s = zero_hash []" for s by (simp add: zero_hash_def)
  have u: "checksum_text @ [LF] @ unlines [manifest_line, purge_line] = unlines [checksum_text, manifest_line, purge_line]"
    by (simp add: unlines_def)
  show ?thesis
    unfolding buildArchive_def Let_def o h [of "unlines _"] sample_content_def
    by (simp only: sample_secrets(2) rbind_Inr rtraverse.simps sample_manifest_line sample_purge_line sample_checksum_line u
        sample_bounds) simp
qed

lemma sample_export:
  "\<exists>a. exportLedgerArchive no_resolution zero_hash ''w'' sample_archive_db = Inr a \<and> ax_content a = sample_content"
proof -
  have rows: "rtraverse (\<lambda>t. queryRows no_resolution sample_archive_db t ''w'') ARCHIVE_TYPES = Inr (map purge_records ARCHIVE_TYPES)"
    by (rule rtraverse_Inr_map) (rule sample_rows)
  have "list_all2 (\<lambda>t rs. Inr (purge_records t) = (Inr rs :: fields list result)) ARCHIVE_TYPES (map purge_records ARCHIVE_TYPES)"
    by (simp add: list_all2_map2 list_all2_same)
  from records_of_rows [OF this] have "records_of (map purge_records ARCHIVE_TYPES) = purge_records" by (intro ext) simp
  with rows sample_normalized(3) sample_graph sample_build show ?thesis by (simp add: exportLedgerArchive_def)
qed

text \<open>
  C10: An archive that was exported is accepted when it is read: its bounds, checksum, canonical lines, counts,
  records and references check, and the records that come back are, table by table, the rows that were selected.
\<close>

theorem archive_round_trip:
  assumes "\<forall>s. is_hex64 (sha256 s)" and "exportLedgerArchive resolution sha256 workspace db = Inr a"
  shows "\<exists>parsed. accepted_archive resolution sha256 (Some workspace) (ax_content a) = Inr parsed
    \<and> pa_workspace parsed = workspace \<and> (\<forall>t. queryRows resolution db t workspace = Inr (pa_records parsed t))"
proof -
  from exportLedgerArchive_parts [OF assms(2)] obtain records where ws: "requireWorkspace (VStr workspace) = Inr workspace"
    and q: "\<And>t. queryRows resolution db t workspace = Inr (records t)"
    and g: "validateGraph resolution sha256 records workspace = Inr ()" and b: "buildArchive sha256 workspace records = Inr a"
    by blast
  have "parseArchive resolution sha256 (ax_content a) =
      Inr \<lparr>pa_workspace = workspace, pa_counts = countRecords records, pa_records = records\<rparr>"
    using assms(1) ws queryRows_written [OF q] b by (intro buildArchive_read) auto
  then show ?thesis using ws q g by (simp add: accepted_archive_def)
qed
theorem archive_round_trip_witness:
  "\<exists>a parsed. exportLedgerArchive no_resolution zero_hash ''w'' sample_archive_db = Inr a
     \<and> accepted_archive no_resolution zero_hash (Some ''w'') (ax_content a) = Inr parsed
     \<and> pa_records parsed PurgeAudit = [purge_record]"
proof -
  have h: "\<forall>s. is_hex64 (zero_hash s)" by (simp add: zero_hash_hex)
  obtain a where a: "exportLedgerArchive no_resolution zero_hash ''w'' sample_archive_db = Inr a" using sample_export by blast
  from archive_round_trip [OF h a] obtain parsed where
    p: "accepted_archive no_resolution zero_hash (Some ''w'') (ax_content a) = Inr parsed"
    and q: "\<forall>t. queryRows no_resolution sample_archive_db t ''w'' = Inr (pa_records parsed t)" by blast
  have "Inr (pa_records parsed PurgeAudit) = (Inr (purge_records PurgeAudit) :: fields list result)"
    using q [rule_format, of PurgeAudit] sample_rows [of PurgeAudit] by (simp only:)
  then have "pa_records parsed PurgeAudit = [purge_record]" by (simp add: purge_records_def)
  with a p show ?thesis by blast
qed

text \<open>
  C31: The order of an import is computed exactly when no run of the archive is its own ancestor. Then it has every
  record of the archive once and every run after its parent; otherwise the recursion of \<open>emitRun\<close> never returns.
\<close>

theorem import_order:
  assumes "distinct (map (identity Runs) (records Runs))"
  shows "case orderedForImport records of
      None \<Rightarrow> \<not> acyclic (parent_rel (records Runs))
    | Some ordered \<Rightarrow> acyclic (parent_rel (records Runs)) \<and> mset ordered = mset (all_records records)
        \<and> parents_first (records Runs) (map snd (filter (\<lambda>p. fst p = Runs) ordered))"
proof (cases "orderedForImport records")
  case None
  with emitRuns_returns [of "records Runs" "records Runs" "([], [])"] show ?thesis by (auto simp: orderedForImport_def)
next
  case (Some ordered)
  from ordered_import [where records = records, OF assms this] Some show ?thesis by simp
qed
text \<open>A child listed before its parent, and two runs that are each other's parent.\<close>

definition sample_child :: "string \<Rightarrow> string \<Rightarrow> fields" where
  "sample_child i p = [(''run_id'', VStr i), (''parent_run_id'', if p = [] then VNull else VStr p)]"

theorem import_order_witness:
  "(case orderedForImport (\<lambda>t. if t = Runs then [sample_child ''a'' ''b'', sample_child ''b'' []] else []) of
      None \<Rightarrow> False
    | Some ordered \<Rightarrow> map (\<lambda>p. text_at (snd p) ''run_id'') ordered = [''b'', ''a''])
   \<and> orderedForImport (\<lambda>t. if t = Runs then [sample_child ''a'' ''b'', sample_child ''b'' ''a''] else []) = None"
proof -
  let ?r = "\<lambda>t. if t = Runs then [sample_child ''a'' ''b'', sample_child ''b'' []] else []"
  let ?c = "\<lambda>t. if t = Runs then [sample_child ''a'' ''b'', sample_child ''b'' ''a''] else []"
  have "distinct (map (identity Runs) (?c Runs))" by code_simp
  note c = import_order [of ?c, OF this]
  have "parent_of (?c Runs) (sample_child ''a'' ''b'') = Some (sample_child ''b'' ''a'')"
    "parent_of (?c Runs) (sample_child ''b'' ''a'') = Some (sample_child ''a'' ''b'')" by code_simp+
  then have "(run_id (sample_child ''b'' ''a''), run_id (sample_child ''a'' ''b'')) \<in> parent_rel (?c Runs)"
    "(run_id (sample_child ''a'' ''b''), run_id (sample_child ''b'' ''a'')) \<in> parent_rel (?c Runs)"
    unfolding parent_rel_def by auto
  then have "\<not> acyclic (parent_rel (?c Runs))" unfolding acyclic_def by (meson r_into_trancl' trancl_into_trancl)
  with c have "orderedForImport ?c = None" by (auto split: option.splits)
  moreover have "case orderedForImport ?r of None \<Rightarrow> False
      | Some ordered \<Rightarrow> map (\<lambda>p. text_at (snd p) ''run_id'') ordered = [''b'', ''a'']" by code_simp
  ultimately show ?thesis by blast
qed

text \<open>
  C11: Importing an archive is idempotent. After an import that returned, the rows that were there are still there
  and in place, a dry run of the same archive finds every record stored and nothing new, and no further import
  of it, whatever its transaction does, changes the database.
\<close>

theorem import_idempotent:
  assumes idle: "working c = None"
    and first: "importLedgerArchive resolution sha256 schema workspace False content c = Some (Inr r, c1)"
  shows "grows (committed c) (committed c1)
    \<and> (\<forall>c2. committed c2 = committed c1 \<and> working c2 = None \<longrightarrow>
        (\<exists>y. importLedgerArchive resolution sha256 schema' workspace True content c2 =
             Some (Inr (r\<lparr>ir_dryRun := True, ir_tally := y\<rparr>), c2)
           \<and> ty_duplicates y = ir_counts r \<and> ty_imported y = (\<lambda>_. 0) \<and> ty_conflicts y = 0)
      \<and> (\<exists>r3 c3. importLedgerArchive resolution sha256 schema' workspace False content c2 = Some (r3, c3)
           \<and> committed c3 = committed c1))"
proof -
  from import_success [OF first idle] obtain parsed ordered y where a: "accepted_archive resolution sha256 workspace content = Inr parsed"
    and o: "orderedForImport (pa_records parsed) = Some ordered"
    and c: "compare_archive resolution False (committed c) parsed ordered = Inr y"
    and w: "oforeach (write_record schema (pa_workspace parsed) (ty_duplicates y)) ordered (committed c) = (Inr (), committed c1)"
    and r: "r = \<lparr>ir_workspace = pa_workspace parsed, ir_dryRun = False, ir_counts = pa_counts parsed, ir_tally = y\<rparr>"
    by blast
  from import_stores [OF a o c w] have g: "grows (committed c) (committed c1)"
    and s: "\<forall>p\<in>set ordered. stored_now resolution (pa_workspace parsed) (committed c1) p" by simp_all
  let ?y = "empty_tally\<lparr>ty_duplicates := tallied ordered (\<lambda>_. 0)\<rparr>"
  have t: "tallied ordered (\<lambda>_. 0) = pa_counts parsed" using ordered_facts [OF a o] by simp
  have cmp: "compare_archive resolution dry (committed c1) parsed ordered = Inr ?y" for dry
    using c g classify_stored [OF s, of dry empty_tally] by (auto simp: compare_archive_def result_inv grows_def empty_tally_def)
  have dry: "importLedgerArchive resolution sha256 schema' workspace True content c2 =
      Some (Inr (r\<lparr>ir_dryRun := True, ir_tally := ?y\<rparr>), c2)" if "committed c2 = committed c1" for c2
    using a o cmp [of True] that r by (simp add: importLedgerArchive_def)
  have pos: "\<forall>p\<in>set ordered. stored_now resolution (pa_workspace parsed) (committed c1) p \<and> 0 < ty_duplicates ?y (fst p)"
    using s by (auto simp: tallied_count empty_tally_def filter_empty_conv)
  have "\<exists>r3 c3. importLedgerArchive resolution sha256 schema' workspace False content c2 = Some (r3, c3) \<and> committed c3 = committed c1"
    if c2: "committed c2 = committed c1" "working c2 = None" for c2
  proof -
    let ?op = "oforeach (write_record schema' (pa_workspace parsed) (ty_duplicates ?y)) ordered"
    have same: "?op (committed c2) = (Inr (), committed c1)" using write_stored [OF pos] c2 by simp
    obtain q c3 where t: "withImmediateTransaction ?op c2 = (q, c3)" by force
    from immediate_outcome [OF c2(2) t] same c2 have "committed c3 = committed c1"
      by (cases q) (auto simp: outcome_of_def)
    with a o cmp [of False] c2 t show ?thesis by (cases q) (auto simp: importLedgerArchive_def)
  qed
  with g dry t r show ?thesis by (auto simp: empty_tally_def)
qed

definition sample_target :: "archive_db connection" where
  "sample_target = \<lparr>committed = sample_archive_db\<lparr>ad_rows := (\<lambda>_. [])\<rparr>, working = None, savepoints = [], outcomes = []\<rparr>"

lemma sample_accepted: "accepted_archive no_resolution zero_hash None sample_content =
    Inr \<lparr>pa_workspace = ''w'', pa_counts = countRecords purge_records, pa_records = purge_records\<rparr>"
proof -
  obtain a where b: "buildArchive zero_hash ''w'' purge_records = Inr a" and a: "ax_content a = sample_content"
    using sample_build by blast
  have "written no_resolution ''w'' t r" if "r \<in> set (purge_records t)" for t r
    using that queryRows_written [OF sample_rows] by blast
  from buildArchive_read [OF zero_hash_hex sample_normalized(3) this b] sample_graph(1) show ?thesis
    by (simp add: accepted_archive_def a)
qed

lemma sample_order: "orderedForImport purge_records = Some [(PurgeAudit, purge_record)]"
  by (simp add: orderedForImport_def purge_records_def IMPORT_ORDER_def)

lemma sample_compared:
  "\<not> isl (classify no_resolution (committed sample_target) ''w'' False [(PurgeAudit, purge_record)] empty_tally)"
  "validateMemoryReferences (ad_memory (committed sample_target)) purge_records ''w'' = Inr ()"
  by code_simp+

lemma sample_import:
  "\<exists>r c. importLedgerArchive no_resolution zero_hash (\<lambda>_ _ _. None) None False sample_content sample_target = Some (Inr r, c)
     \<and> ad_rows (committed c) PurgeAudit = [inserted_row PurgeAudit purge_record]"
proof -
  obtain y where y: "compare_archive no_resolution False (committed sample_target)
      \<lparr>pa_workspace = ''w'', pa_counts = countRecords purge_records, pa_records = purge_records\<rparr> [(PurgeAudit, purge_record)] = Inr y"
    using sample_compared by (cases "classify no_resolution (committed sample_target) ''w'' False [(PurgeAudit, purge_record)] empty_tally")
      (simp_all add: compare_archive_def)
  have n: "selectExisting (committed sample_target) PurgeAudit purge_record = None"
    by (simp add: selectExisting_def sample_target_def)
  show ?thesis
    unfolding importLedgerArchive_def sample_accepted sum.case parsed_archive.select_convs sample_order option.case y
    using n by (simp add: sample_target_def withImmediateTransaction_def withSqliteLockRetry_def retry_from.simps [of "Suc 0"]
        transaction_body_def exec_begin_def run_operation_def commitOrRollback_def exec_commit_def next_outcome_def
        write_record_def insertRecord_def clear_backfill_def obind_def add_record_def oreturn_def Let_def)
qed

theorem import_idempotent_witness:
  "\<exists>r c1 y. importLedgerArchive no_resolution zero_hash (\<lambda>_ _ _. None) None False sample_content sample_target = Some (Inr r, c1)
     \<and> ad_rows (committed c1) PurgeAudit = [inserted_row PurgeAudit purge_record]
     \<and> importLedgerArchive no_resolution zero_hash (\<lambda>_ _ _. None) None True sample_content (sample_target\<lparr>committed := committed c1\<rparr>)
       = Some (Inr (r\<lparr>ir_dryRun := True, ir_tally := y\<rparr>), sample_target\<lparr>committed := committed c1\<rparr>)
     \<and> ty_imported y = (\<lambda>_. 0)"
proof -
  obtain r c1 where i: "importLedgerArchive no_resolution zero_hash (\<lambda>_ _ _. None) None False sample_content sample_target = Some (Inr r, c1)"
    and p: "ad_rows (committed c1) PurgeAudit = [inserted_row PurgeAudit purge_record]" using sample_import by blast
  have idle: "working sample_target = None" by (simp add: sample_target_def)
  have c2: "committed (sample_target\<lparr>committed := committed c1\<rparr>) = committed c1 \<and> working (sample_target\<lparr>committed := committed c1\<rparr>) = None"
    by (simp add: sample_target_def)
  from import_idempotent [OF idle i, of "\<lambda>_ _ _. None", THEN conjunct2, rule_format, OF c2] i p show ?thesis by blast
qed

section \<open>Runs whose intake is not answered\<close>

text \<open>
  A run is active while its intake still asks, and the session of that intake is stored as \<open>active\<close>. The check of
  active runs names the status \<open>needs_answer\<close> of the domain instead, so such records never pass.
\<close>

lemma unanswered_run_rejected:
  assumes "run \<in> set (records Runs)" and "getp run ''status'' = VStr ''active''"
    and "intakeByRun records (run_id run) = Some intake" and "session_of records intake = Some session"
    and "text_at session ''status'' = ''active''"
  shows "validateGraph resolution sha256 records workspace \<noteq> Inr ()"
proof
  assume "validateGraph resolution sha256 records workspace = Inr ()"
  then have "each (check_run sha256 records) (records Runs) = Inr ()" by (auto simp: validateGraph_def result_inv)
  then obtain us where "rtraverse (check_run sha256 records) (records Runs) = Inr us" by (auto simp: each_def result_inv)
  with assms(1) have "check_run sha256 records run = Inr ()" by (auto simp: rtraverse_Inr_iff list_all2_conv_all_nth in_set_conv_nth)
  then have "active_run_ok records run" using assms(2) by (auto simp: check_run_def Let_def result_inv)
  with assms(3-5) show False by (simp add: active_run_ok_def ACTIVE_SESSION_STATUSES_def)
qed

end
