(* ===== verification/Run_Cursor.thy ===== *)
theory Run_Cursor
  imports Ledger_Types Json_Reader Js_Date Js_Regex
begin

text \<open>
  The cursor of the run list, \<open>src/src/ledger/query.ts\<close>: a JSON object of version, creation time and run
  id, in UTF-8, in base64url without padding. The encodings are those of \<open>Buffer\<close>; bytes are natural numbers below
  256. A cursor whose bytes are not the UTF-8 of code units below 256 is rejected, as such a text
  lies outside the strings of the model.
\<close>

section \<open>UTF-8\<close>

definition utf8_char :: "char \<Rightarrow> nat list" where
  "utf8_char c = (let u = (of_char c :: nat) in if u < 128 then [u] else [192 + u div 64, 128 + u mod 64])"

definition utf8_bytes :: "string \<Rightarrow> nat list" where
  "utf8_bytes s = concat (map utf8_char s)"

fun utf8_text :: "nat list \<Rightarrow> string option" where
  "utf8_text [] = Some []"
| "utf8_text [b] = (if b < 128 then Some [char_of b] else None)"
| "utf8_text (b # b' # bs) =
     (if b < 128 then map_option (\<lambda>s. char_of b # s) (utf8_text (b' # bs))
      else if (b = 194 \<or> b = 195) \<and> 128 \<le> b' \<and> b' < 192
      then map_option (\<lambda>s. char_of (64 * (b - 192) + (b' - 128)) # s) (utf8_text bs)
      else None)"

lemma utf8_text_step:
  "utf8_text (utf8_char c @ bs) = map_option (\<lambda>s. c # s) (utf8_text bs)"
proof -
  have u: "(of_char c :: nat) < 256" by (simp add: of_char_def)
  show ?thesis
  proof (cases "(of_char c :: nat) < 128")
    case True
    then show ?thesis by (cases bs) (auto simp: utf8_char_def)
  next
    case False
    let ?u = "of_char c :: nat"
    have "?u div 64 = 2 \<or> ?u div 64 = 3" using u False by linarith
    moreover have "64 * (?u div 64) + ?u mod 64 = ?u" by simp
    ultimately have "192 + ?u div 64 = 194 \<or> 192 + ?u div 64 = 195"
      and "char_of (64 * (192 + ?u div 64 - 192) + (128 + ?u mod 64 - 128)) = c" by auto
    with False show ?thesis by (auto simp: utf8_char_def Let_def)
  qed
qed

lemma utf8_text_bytes: "utf8_text (utf8_bytes s) = Some s"
  by (induction s) (auto simp: utf8_bytes_def utf8_text_step)

lemma utf8_bytes_range: "b \<in> set (utf8_bytes s) \<Longrightarrow> b < 256"
proof -
  have "b < 256" if "b \<in> set (utf8_char c)" for c
  proof -
    have "(of_char c :: nat) < 256" by (simp add: of_char_def)
    moreover from this have "(of_char c :: nat) div 64 < 4" by linarith
    ultimately show ?thesis using that by (auto simp: utf8_char_def Let_def split: if_splits)
  qed
  then show "b \<in> set (utf8_bytes s) \<Longrightarrow> b < 256" by (auto simp: utf8_bytes_def)
qed

section \<open>Base64url\<close>

definition sextet_char :: "nat \<Rightarrow> char" where
  "sextet_char n =
     (if n < 26 then char_of (n + 65) else if n < 52 then char_of (n + 71)
      else if n < 62 then char_of (n - 4) else if n = 62 then CHR ''-'' else CHR ''_'')"

definition sextet :: "char \<Rightarrow> nat" where
  "sextet c =
     (let u = (of_char c :: nat) in
      if 65 \<le> u \<and> u \<le> 90 then u - 65 else if 97 \<le> u \<and> u \<le> 122 then u - 71
      else if 48 \<le> u \<and> u \<le> 57 then u + 4 else if u = 45 then 62 else 63)"

fun base64url :: "nat list \<Rightarrow> string" where
  "base64url [] = []"
| "base64url [a] = [sextet_char (a div 4), sextet_char (a mod 4 * 16)]"
| "base64url [a, b] = [sextet_char (a div 4), sextet_char (a mod 4 * 16 + b div 16), sextet_char (b mod 16 * 4)]"
| "base64url (a # b # c # bs) =
     sextet_char (a div 4) # sextet_char (a mod 4 * 16 + b div 16) # sextet_char (b mod 16 * 4 + c div 64)
       # sextet_char (c mod 64) # base64url bs"

fun from_base64url :: "string \<Rightarrow> nat list" where
  "from_base64url (p # q # r # s # cs) =
     (sextet p * 4 + sextet q div 16) # (sextet q mod 16 * 16 + sextet r div 4) # (sextet r mod 4 * 64 + sextet s)
       # from_base64url cs"
| "from_base64url [p, q, r] = [sextet p * 4 + sextet q div 16, sextet q mod 16 * 16 + sextet r div 4]"
| "from_base64url [p, q] = [sextet p * 4 + sextet q div 16]"
| "from_base64url _ = []"

lemma sextet_sextet_char [simp]:
  assumes "n < 64"
  shows "sextet (sextet_char n) = n"
proof -
  consider "n < 26" | "26 \<le> n" "n < 52" | "52 \<le> n" "n < 62" | "n = 62" | "n = 63" using assms by linarith
  then show ?thesis
  proof cases
    case 1
    then have "(of_char (sextet_char n) :: nat) = n + 65" by (simp add: sextet_char_def)
    with 1 show ?thesis by (simp add: sextet_def)
  next
    case 2
    then have "(of_char (sextet_char n) :: nat) = n + 71" by (simp add: sextet_char_def)
    with 2 show ?thesis by (simp add: sextet_def)
  next
    case 3
    define k where "k = n - 52"
    with 3 have k: "n = 52 + k" "k < 10" by simp_all
    then have "(of_char (sextet_char n) :: nat) = 48 + k" by (simp add: sextet_char_def)
    with k show ?thesis by (simp add: sextet_def)
  next
    case 4
    then show ?thesis by (simp add: sextet_def sextet_char_def)
  next
    case 5
    then show ?thesis by (simp add: sextet_def sextet_char_def)
  qed
qed

lemma split16: "y < 16 \<Longrightarrow> (x * 16 + y) div 16 = (x::nat)" "y < 16 \<Longrightarrow> (x * 16 + y) mod 16 = (y::nat)"
  by auto

lemma split4: "y < 4 \<Longrightarrow> (x * 4 + y) div 4 = (x::nat)" "y < 4 \<Longrightarrow> (x * 4 + y) mod 4 = (y::nat)"
  by auto

lemma pair_below: "x < 4 \<Longrightarrow> y < 16 \<Longrightarrow> x * 16 + y < (64::nat)" "x < 16 \<Longrightarrow> y < 4 \<Longrightarrow> x * 4 + y < (64::nat)"
  by auto

lemma from_base64url_base64url: "list_all (\<lambda>b. b < 256) bs \<Longrightarrow> from_base64url (base64url bs) = bs"
proof (induction bs rule: base64url.induct)
  case (4 a b c bs)
  have "a div 4 < 64" "b div 16 < 16" "c div 64 < 4" "a mod 4 < 4" "b mod 16 < 16" "c mod 64 < 64"
    using "4.prems" by auto
  moreover from this have "a mod 4 * 16 + b div 16 < 64" "b mod 16 * 4 + c div 64 < 64" by (auto intro!: pair_below)
  ultimately show ?case using 4 by (simp add: split16 split4 del: add_mult_distrib2)
next
  case (3 a b)
  have "a div 4 < 64" "b div 16 < 16" "a mod 4 < 4" "b mod 16 < 16" using "3.prems" by auto
  moreover from this have "a mod 4 * 16 + b div 16 < 64" "b mod 16 * 4 < 64" by (auto intro!: pair_below)
  ultimately show ?case by (simp add: split16)
next
  case (2 a)
  have "a div 4 < 64" "a mod 4 * 16 < 64" using "2.prems" by auto
  then show ?case by simp
qed simp

lemma base64url_alphabet: "list_all (\<lambda>b. b < 256) bs \<Longrightarrow> list_all (alnum_or ''_-'') (base64url bs)"
proof (induction bs rule: base64url.induct)
  have s: "alnum_or ''_-'' (sextet_char n)" for n
  proof -
    consider "n < 26" | "26 \<le> n" "n < 52" | "52 \<le> n" "n < 62" | "62 \<le> n" by linarith
    then show ?thesis
      by cases (auto simp: sextet_char_def alnum_or_def is_alnum_def is_digit_def less_eq_char_def)
  qed
  {
    case 1 then show ?case by simp
  next
    case 2 then show ?case by (simp add: s)
  next
    case 3 then show ?case by (simp add: s)
  next
    case 4 then show ?case by (simp add: s)
  }
qed

section \<open>The cursor\<close>

record run_cursor =
  rc_version :: int
  rc_createdAt :: string
  rc_runId :: string

definition RUN_CURSOR_VERSION :: int where "RUN_CURSOR_VERSION = 1"

definition cursor_json :: "run_cursor \<Rightarrow> jsvalue" where
  "cursor_json c = VObj [(''version'', VNum (rc_version c)), (''createdAt'', VStr (rc_createdAt c)), (''runId'', VStr (rc_runId c))]"

definition encodeRunCursor :: "run_cursor \<Rightarrow> string" where
  "encodeRunCursor c = base64url (utf8_bytes (stringifyBoundaryJson (cursor_json c)))"

definition query_validation :: "string \<Rightarrow> js_error" where
  "query_validation message = KiokukoError VALIDATION_ERROR message"

abbreviation invalid_cursor :: js_error where
  "invalid_cursor \<equiv> query_validation ''Invalid run cursor''"

text \<open>The text of a cursor, read back as JSON: the alphabet, the canonical encoding, the syntax.\<close>

definition cursor_value :: "string \<Rightarrow> jsvalue result" where
  "cursor_value value =
     (if value = [] \<or> \<not> list_all (alnum_or ''_-'') value then Inl invalid_cursor
      else let decoded = from_base64url value in
        if base64url decoded \<noteq> value then Inl invalid_cursor
        else case utf8_text decoded of
               None \<Rightarrow> Inl invalid_cursor
             | Some t \<Rightarrow> (case json_parse t of None \<Rightarrow> Inl invalid_cursor | Some v \<Rightarrow> Inr v))"

definition cursor_of :: "jsvalue \<Rightarrow> run_cursor result" where
  "cursor_of parsed =
     rbind (as_fields invalid_cursor parsed) (\<lambda>fs.
     rbind (check (length fs = 3 \<and> keys_within fs [''version'', ''createdAt'', ''runId'']) invalid_cursor) (\<lambda>_.
     rbind (check (getp fs ''version'' = VNum RUN_CURSOR_VERSION) (query_validation ''Unsupported run cursor version'')) (\<lambda>_.
     rbind (as_string invalid_cursor (getp fs ''createdAt'')) (\<lambda>createdAt.
     rbind (check (isCanonicalTimestamp createdAt) invalid_cursor) (\<lambda>_.
     rbind (as_string invalid_cursor (getp fs ''runId'')) (\<lambda>runId.
     rbind (check (runId \<noteq> []) invalid_cursor) (\<lambda>_.
     Inr \<lparr>rc_version = RUN_CURSOR_VERSION, rc_createdAt = createdAt, rc_runId = runId\<rparr>)))))))"

fun parseRunCursor :: "string option \<Rightarrow> run_cursor option result" where
  "parseRunCursor None = Inr None"
| "parseRunCursor (Some value) = rbind (cursor_value value) (\<lambda>v. rbind (cursor_of v) (\<lambda>c. Inr (Some c)))"

lemma parsed_cursor_text:
  "parseRunCursor (Some value) = Inr c \<Longrightarrow> value \<noteq> [] \<and> list_all (alnum_or ''_-'') value"
  by (auto simp: cursor_value_def result_inv split: if_splits)

definition cursor_ok :: "run_cursor \<Rightarrow> bool" where
  "cursor_ok c = (rc_version c = RUN_CURSOR_VERSION \<and> isCanonicalTimestamp (rc_createdAt c) \<and> rc_runId c \<noteq> [])"

lemma keys_of_mset: "mset (map fst gs) = mset (map fst fs) \<Longrightarrow> keys_within gs (map fst fs)"
proof -
  assume m: "mset (map fst gs) = mset (map fst fs)"
  have "fst ` set gs = fst ` set fs" using arg_cong [OF m, of set_mset] by simp
  then have "fst f \<in> set (map fst fs)" if "f \<in> set gs" for f using that by auto
  then show ?thesis by (auto simp: keys_within_def list_all_iff)
qed

lemma cursor_of_read:
  assumes "cursor_ok c" and "same_json (cursor_json c) v"
  shows "cursor_of v = Inr c"
proof -
  let ?fs = "[(''version'', VNum (rc_version c)), (''createdAt'', VStr (rc_createdAt c)), (''runId'', VStr (rc_runId c))]"
  have "same_json (VObj ?fs) v" and "distinct (map fst ?fs)" using assms(2) by (simp_all add: cursor_json_def)
  from same_json_object [OF this] obtain gs where v: "v = VObj gs" and k: "\<And>k. same_json (getp ?fs k) (getp gs k)"
    and m: "mset (map fst gs) = mset (map fst ?fs)" by blast
  have "length gs = 3" using arg_cong [OF m, of size] by simp
  moreover have "keys_within gs (map fst ?fs)"
    by (rule keys_of_mset [OF m])
  moreover have "getp ?fs ''version'' = VNum (rc_version c)" "getp ?fs ''createdAt'' = VStr (rc_createdAt c)"
    "getp ?fs ''runId'' = VStr (rc_runId c)"
    by (simp_all add: getp_def)
  from k [of "''version''", unfolded this] k [of "''createdAt''", unfolded this] k [of "''runId''", unfolded this]
  have "getp gs ''version'' = VNum (rc_version c)" "getp gs ''createdAt'' = VStr (rc_createdAt c)"
    "getp gs ''runId'' = VStr (rc_runId c)"
    by (blast elim: same_strE same_numE)+
  ultimately show ?thesis using v assms(1) by (simp add: cursor_of_def cursor_ok_def)
qed

text \<open>A cursor that the program can have made is read back.\<close>

lemma parse_encoded_cursor:
  assumes "cursor_ok c"
  shows "parseRunCursor (Some (encodeRunCursor c)) = Inr (Some c)"
proof -
  let ?t = "stringifyBoundaryJson (cursor_json c)"
  have "json_ok (cursor_json c)" using assms by (simp add: cursor_json_def cursor_ok_def RUN_CURSOR_VERSION_def)
  from json_parse_stringify [OF this] obtain v where v: "json_parse ?t = Some v" and s: "same_json (cursor_json c) v" by blast
  have b: "list_all (\<lambda>b. b < 256) (utf8_bytes ?t)" using utf8_bytes_range by (auto simp: list_all_iff)
  have "?t \<noteq> []" by (simp add: cursor_json_def)
  then have "utf8_bytes ?t \<noteq> []" using utf8_text_bytes [of ?t] by auto
  then have "encodeRunCursor c \<noteq> []" using from_base64url_base64url [OF b] by (auto simp: encodeRunCursor_def)
  with v b have "cursor_value (encodeRunCursor c) = Inr v"
    by (simp add: cursor_value_def encodeRunCursor_def base64url_alphabet from_base64url_base64url utf8_text_bytes Let_def)
  with cursor_of_read [OF assms s] show ?thesis by simp
qed

end
