(* ===== verification/Cursor_Paging.thy ===== *)
theory Cursor_Paging
  imports Js_Order
begin

text \<open>
  Reading a table page by page. A page is the first rows after a cursor, and its own cursor is made from
  its last row when more rows follow. \<open>cursor_order\<close> states what the order of the rows must satisfy; from
  it the locale proves that a client that follows the cursors sees every row once, in order.
\<close>

text \<open>\<open>rows.at(-1)\<close>.\<close>

definition last_row :: "'a list \<Rightarrow> 'a option" where
  "last_row rows = (if rows = [] then None else Some (last rows))"

text \<open>
  A client that asks again with the cursor it was given until there is none. \<open>None\<close> when a request
  fails or the client stops before the end.
\<close>

fun follow_cursors :: "nat \<Rightarrow> ('c option \<Rightarrow> ('v list \<times> 'c option) result) \<Rightarrow> 'c option \<Rightarrow> 'v list option" where
  "follow_cursors 0 ask c = None"
| "follow_cursors (Suc n) ask c =
     (case ask c of
        Inl e \<Rightarrow> None
      | Inr (shown, next) \<Rightarrow>
          (case next of
             None \<Rightarrow> Some shown
           | Some k \<Rightarrow> map_option (\<lambda>rest. shown @ rest) (follow_cursors n ask (Some k))))"

text \<open>
  The contract of a paged request: asked without a cursor it answers from all rows, asked with the
  cursor of a row from the rows after it; an answer shows the first \<open>l\<close> rows and has the cursor of the
  last of them exactly when there are more.
\<close>

definition answers :: "('a \<Rightarrow> 'v) \<Rightarrow> ('a \<Rightarrow> 'c) \<Rightarrow> nat \<Rightarrow> 'a list \<Rightarrow> ('v list \<times> 'c option) result" where
  "answers view cursor l rows =
     Inr (map view (take l rows), if l < length rows then Some (cursor (last (take l rows))) else None)"

lemma sorted_wrt_unique:
  assumes "\<And>x y. R x y \<Longrightarrow> \<not> R y x"
  shows "sorted_wrt R xs \<Longrightarrow> sorted_wrt R ys \<Longrightarrow> set xs = set ys \<Longrightarrow> xs = ys"
proof (induction xs arbitrary: ys)
  case Nil
  then show ?case by simp
next
  case (Cons x xs)
  then obtain y zs where ys: "ys = y # zs" by (cases ys) auto
  have irrefl: "\<not> R z z" for z using assms by blast
  have "x = y"
  proof (rule ccontr)
    assume "x \<noteq> y"
    then have "y \<in> set xs" "x \<in> set zs" using Cons.prems(3) ys by auto
    then have "R x y" "R y x" using Cons.prems(1,2) ys by auto
    then show False using assms by blast
  qed
  moreover have "x \<notin> set xs" "y \<notin> set zs" using Cons.prems(1,2) ys irrefl by auto
  ultimately have "set xs = set zs" using Cons.prems(3) ys by auto
  with Cons.IH [of zs] Cons.prems(1,2) ys \<open>x = y\<close> show ?case by simp
qed

locale cursor_order = js_comparator cmp for cmp :: "'k \<Rightarrow> 'k \<Rightarrow> int" +
  assumes cmp_zero: "cmp a b = 0 \<Longrightarrow> a = b"
begin

lemma keyed_js_comparator: "js_comparator (\<lambda>x y. cmp (key x) (key y))"
  by unfold_locales (auto intro: cmp_trans simp: cmp_flip)

lemma strict_asym: "cmp a b < 0 \<Longrightarrow> \<not> cmp b a < 0"
  using cmp_flip [of a b] by linarith

text \<open>Rows with different keys are sorted strictly, so the sort commutes with a selection.\<close>

lemma sort_strict:
  assumes "distinct (map key xs)"
  shows "sorted_wrt (\<lambda>x y. cmp (key x) (key y) < 0) (js_sort (\<lambda>x y. cmp (key x) (key y)) xs)"
proof -
  let ?ys = "js_sort (\<lambda>x y. cmp (key x) (key y)) xs"
  have s: "sorted_wrt (\<lambda>x y. cmp (key x) (key y) \<le> 0) ?ys"
    using js_comparator.js_sort_sorted [OF keyed_js_comparator] .
  have "mset (map key ?ys) = mset (map key xs)" by simp
  then have "distinct (map key ?ys)" using assms mset_eq_imp_distinct_iff by blast
  with s have "sorted_wrt (\<lambda>x y. cmp (key x) (key y) \<le> 0 \<and> key x \<noteq> key y) ?ys"
    by (auto simp: sorted_wrt_iff_nth_less distinct_conv_nth)
  then show ?thesis
    by (rule sorted_wrt_mono_rel [rotated]) (auto simp: order_le_less dest: cmp_zero)
qed

lemma sort_filter:
  assumes "distinct (map key xs)"
  shows "js_sort (\<lambda>x y. cmp (key x) (key y)) (filter P xs) = filter P (js_sort (\<lambda>x y. cmp (key x) (key y)) xs)"
proof (rule sorted_wrt_unique [where R = "\<lambda>x y. cmp (key x) (key y) < 0"])
  show "sorted_wrt (\<lambda>x y. cmp (key x) (key y) < 0) (js_sort (\<lambda>x y. cmp (key x) (key y)) (filter P xs))"
    by (rule sort_strict) (simp add: assms distinct_map_filter)
  show "sorted_wrt (\<lambda>x y. cmp (key x) (key y) < 0) (filter P (js_sort (\<lambda>x y. cmp (key x) (key y)) xs))"
    by (rule sorted_wrt_filter [OF sort_strict [OF assms]])
qed (use strict_asym in auto)

lemma rows_after:
  assumes "sorted_wrt (\<lambda>x y. cmp (key x) (key y) < 0) (p @ x # s)"
  shows "filter (\<lambda>y. cmp (key x) (key y) < 0) (p @ x # s) = s"
proof -
  have "filter (\<lambda>y. cmp (key x) (key y) < 0) p = []"
    using assms strict_asym by (auto simp: sorted_wrt_append filter_empty_conv)
  moreover have "filter (\<lambda>y. cmp (key x) (key y) < 0) s = s"
    using assms by (simp add: sorted_wrt_append)
  moreover have "\<not> cmp (key x) (key x) < 0" using strict_asym by blast
  ultimately show ?thesis by simp
qed

lemma follow_suffix:
  assumes sorted: "sorted_wrt (\<lambda>x y. cmp (key x) (key y) < 0) rows" and l: "0 < l"
    and later: "\<And>x. x \<in> set rows \<Longrightarrow>
      ask (Some (cursor x)) = answers view cursor l (filter (\<lambda>y. cmp (key x) (key y) < 0) rows)"
  shows "rows = p @ s \<Longrightarrow> ask c = answers view cursor l s \<Longrightarrow> length s < n \<Longrightarrow>
    follow_cursors n ask c = Some (map view s)"
proof (induction n arbitrary: p s c)
  case 0
  then show ?case by simp
next
  case (Suc n)
  show ?case
  proof (cases "l < length s")
    case False
    with Suc.prems(2) show ?thesis by (simp add: answers_def)
  next
    case True
    define x where "x = last (take l s)"
    have "take l s \<noteq> []" using True l by auto
    then have t: "take l s = butlast (take l s) @ [x]" by (simp add: x_def)
    have "s = butlast (take l s) @ x # drop l s"
      using t append_take_drop_id [of l s] by (metis append.assoc append_Cons append_Nil)
    then have rows: "rows = (p @ butlast (take l s)) @ x # drop l s"
      using Suc.prems(1) by (metis append.assoc)
    have "ask (Some (cursor x)) = answers view cursor l (drop l s)"
      using later [of x] rows_after [of key "p @ butlast (take l s)" x "drop l s"] sorted rows by simp
    moreover have "rows = (p @ take l s) @ drop l s" using Suc.prems(1) by simp
    moreover have "length (drop l s) < n" using Suc.prems(3) l True by simp
    ultimately have "follow_cursors n ask (Some (cursor x)) = Some (map view (drop l s))"
      using Suc.IH by blast
    with Suc.prems(2) True show ?thesis
      by (simp add: answers_def x_def flip: map_append)
  qed
qed

lemma follow_complete:
  assumes "sorted_wrt (\<lambda>x y. cmp (key x) (key y) < 0) rows" and "0 < l"
    and "ask None = answers view cursor l rows"
    and "\<And>x. x \<in> set rows \<Longrightarrow>
      ask (Some (cursor x)) = answers view cursor l (filter (\<lambda>y. cmp (key x) (key y) < 0) rows)"
    and "length rows < n"
  shows "follow_cursors n ask None = Some (map view rows)"
  using follow_suffix [OF assms(1,2,4), of "[]" rows None n] assms(3,5) by simp

end

end
