(* ===== verification/Ledger_Query.thy ===== *)
theory Ledger_Query
  imports Ledger_Store Run_Cursor Cursor_Paging
begin

text \<open>
  Reading the ledger for display, \<open>src/src/ledger/query.ts\<close>: the list of a workspace's runs, one run and the
  list of a run's events, with their input checks, filters, pages and the checks of the stored JSON.
  Inputs are plain data; what a stored column must hold is checked again when it is read.
\<close>

definition DEFAULT_LIMIT :: int where "DEFAULT_LIMIT = 100"
definition MAX_LIMIT :: int where "MAX_LIMIT = 100"

definition stored_integrity :: js_error where
  "stored_integrity = KiokukoError INTEGRITY_ERROR ''Stored ledger JSON is invalid''"

definition run_not_found :: js_error where
  "run_not_found = KiokukoError NOT_FOUND ''Ledger run not found''"

section \<open>Views\<close>

record run_view =
  lv_runId :: string
  lv_workspace :: string
  lv_client :: client_input
  lv_protocolVersion :: string
  lv_captureProfile :: capture_profile
  lv_coverage :: coverage
  lv_status :: run_status
  lv_title :: "string option"
  lv_taskHash :: "string option"
  lv_metadata :: fields
  lv_lastSequence :: int
  lv_lastSourceSequence :: "int option"
  lv_startedAt :: string
  lv_endedAt :: "string option"
  lv_createdAt :: string
  lv_updatedAt :: string
  lv_untrusted :: bool

record event_view =
  ev_eventId :: string
  ev_runId :: string
  ev_sequence :: int
  ev_sourceEventId :: "string option"
  ev_sourceSequence :: "int option"
  ev_eventType :: string
  ev_sourceType :: "string option"
  ev_actor :: string
  ev_outcome :: "string option"
  ev_occurredAt :: "string option"
  ev_ingestedAt :: string
  ev_payload :: jsvalue
  ev_redaction :: "redaction list"
  ev_previousHash :: string
  ev_eventHash :: string
  ev_untrusted :: bool

record runs_page =
  runs_items :: "run_view list"
  runs_nextCursor :: "string option"

record events_page =
  events_items :: "event_view list"
  events_nextCursor :: "int option"

section \<open>Stored JSON\<close>

fun isJsonValue :: "jsvalue \<Rightarrow> bool" where
  "isJsonValue (VArr xs) = list_all isJsonValue xs"
| "isJsonValue (VObj fs) = list_all (\<lambda>f. isJsonValue (snd f)) fs"
| "isJsonValue VUndefined = False"
| "isJsonValue VNonFinite = False"
| "isJsonValue VOpaque = False"
| "isJsonValue v = True"

definition parseStoredJson :: "string \<Rightarrow> jsvalue result" where
  "parseStoredJson value =
     (case json_parse value of
        None \<Rightarrow> Inl stored_integrity
      | Some parsed \<Rightarrow> if isJsonValue parsed then Inr parsed else Inl stored_integrity)"

definition parseJsonObject :: "string \<Rightarrow> fields result" where
  "parseJsonObject value = rbind (parseStoredJson value) (as_fields stored_integrity)"

definition parseStoredCoverage :: "string \<Rightarrow> coverage result" where
  "parseStoredCoverage value =
     (let level = (\<lambda>parsed field. as_enum stored_integrity COVERAGE_LEVELS (getp parsed field)) in
      rbind (parseJsonObject value) (\<lambda>parsed.
      rbind (level parsed ''run'') (\<lambda>r.
      rbind (level parsed ''tool'') (\<lambda>t.
      rbind (level parsed ''command'') (\<lambda>c.
      rbind (level parsed ''file'') (\<lambda>f.
      rbind (level parsed ''approval'') (\<lambda>a.
      Inr \<lparr>cov_run = r, cov_tool = t, cov_command = c, cov_file = f, cov_approval = a\<rparr>)))))))"

definition STORED_REDACTION_KINDS :: "string list" where
  "STORED_REDACTION_KINDS =
     [''sensitive_key'', ''secret_pattern'', ''url'', ''home_path'', ''preview_truncated'',
      ''environment_value'', ''hidden_reasoning'']"

definition stored_redaction :: "jsvalue \<Rightarrow> redaction result" where
  "stored_redaction item =
     rbind (as_fields stored_integrity item) (\<lambda>fs.
     rbind (as_string stored_integrity (getp fs ''path'')) (\<lambda>path.
     rbind (as_string stored_integrity (getp fs ''kind'')) (\<lambda>kind.
     rbind (check (kind \<in> set STORED_REDACTION_KINDS) stored_integrity) (\<lambda>_.
     Inr \<lparr>red_path = path, red_kind = kind\<rparr>))))"

definition parseRedactions :: "string \<Rightarrow> redaction list result" where
  "parseRedactions value =
     rbind (parseStoredJson value) (\<lambda>parsed.
     rbind (as_array stored_integrity parsed) (rtraverse stored_redaction))"

definition rowToEvent :: "event_row \<Rightarrow> event_view result" where
  "rowToEvent row =
     rbind (parseStoredJson (er_payload_json row)) (\<lambda>payload.
     rbind (parseRedactions (er_redaction_json row)) (\<lambda>redaction.
     Inr \<lparr>ev_eventId = er_event_id row, ev_runId = er_run_id row, ev_sequence = er_sequence row,
          ev_sourceEventId = er_source_event_id row, ev_sourceSequence = er_source_sequence row,
          ev_eventType = er_event_type row, ev_sourceType = er_source_type row, ev_actor = er_actor row,
          ev_outcome = er_outcome row, ev_occurredAt = er_occurred_at row, ev_ingestedAt = er_ingested_at row,
          ev_payload = payload, ev_redaction = redaction, ev_previousHash = er_previous_hash row,
          ev_eventHash = er_event_hash row, ev_untrusted = True\<rparr>))"

definition rowToRunView :: "run_row \<Rightarrow> run_view result" where
  "rowToRunView row =
     rbind (parseStoredCoverage (rr_coverage_json row)) (\<lambda>cov.
     rbind (parseJsonObject (rr_metadata_json row)) (\<lambda>metadata.
     Inr \<lparr>lv_runId = rr_run_id row, lv_workspace = rr_workspace row,
          lv_client = \<lparr>cl_kind = rr_client_kind row, cl_version = rr_client_version row,
                       cl_sessionId = rr_source_session_id row\<rparr>,
          lv_protocolVersion = rr_protocol_version row, lv_captureProfile = rr_capture_profile row,
          lv_coverage = cov, lv_status = rr_status row, lv_title = rr_title row, lv_taskHash = rr_task_hash row,
          lv_metadata = metadata, lv_lastSequence = rr_last_sequence row,
          lv_lastSourceSequence = rr_last_source_sequence row, lv_startedAt = rr_started_at row,
          lv_endedAt = rr_ended_at row, lv_createdAt = rr_created_at row, lv_updatedAt = rr_updated_at row,
          lv_untrusted = True\<rparr>))"

section \<open>Inputs\<close>

definition inputObject :: "jsvalue \<Rightarrow> string \<Rightarrow> fields result" where
  "inputObject value label = as_fields (query_validation (label @ '' must be an object'')) value"

definition rejectUnknownFields :: "fields \<Rightarrow> string list \<Rightarrow> string \<Rightarrow> unit result" where
  "rejectUnknownFields value allowed label =
     check (keys_within value allowed) (query_validation (''Unknown '' @ label @ '' field''))"

definition requiredString :: "jsvalue \<Rightarrow> string \<Rightarrow> string result" where
  "requiredString value label =
     (let e = query_validation (label @ '' must be a non-empty string'') in
      rbind (as_string e value) (\<lambda>s.
      rbind (check (trim s \<noteq> [] \<and> CHR 0x00 \<notin> set s) e) (\<lambda>_. Inr s)))"

definition optionalString :: "jsvalue \<Rightarrow> string \<Rightarrow> string option result" where
  "optionalString value label =
     (if value = VUndefined then Inr None else rbind (requiredString value label) (\<lambda>s. Inr (Some s)))"

fun parseLimit :: "jsvalue \<Rightarrow> int result" where
  "parseLimit VUndefined = Inr DEFAULT_LIMIT"
| "parseLimit (VNum n) =
     (if is_safe_integer (VNum n) \<and> 1 \<le> n \<and> n \<le> MAX_LIMIT then Inr n
      else Inl (query_validation ''limit must be an integer between 1 and 100''))"
| "parseLimit v = Inl (query_validation ''limit must be an integer between 1 and 100'')"

definition parseStatus :: "jsvalue \<Rightarrow> run_status option result" where
  "parseStatus value =
     (if value = VUndefined then Inr None
      else rbind (as_enum (query_validation ''status has an invalid enum value'') RUN_STATUSES value) (\<lambda>s. Inr (Some s)))"

fun parseAfter :: "jsvalue \<Rightarrow> int result" where
  "parseAfter VUndefined = Inr 0"
| "parseAfter (VNum n) =
     (if is_safe_integer (VNum n) \<and> 0 \<le> n then Inr n
      else Inl (query_validation ''after must be a non-negative safe integer''))"
| "parseAfter v = Inl (query_validation ''after must be a non-negative safe integer'')"

definition parseEventType :: "jsvalue \<Rightarrow> string option result" where
  "parseEventType value =
     (let e = query_validation ''type has an invalid event type'' in
      if value = VUndefined then Inr None
      else rbind (as_string e value) (\<lambda>s. rbind (check (s \<in> set LEDGER_EVENT_TYPES) e) (\<lambda>_. Inr (Some s))))"

record list_runs_input =
  lr_workspace :: string
  lr_limit :: int
  lr_client :: "string option"
  lr_status :: "run_status option"
  lr_cursor :: "run_cursor option"

definition parseListRunsInput :: "jsvalue \<Rightarrow> list_runs_input result" where
  "parseListRunsInput value =
     (let label = ''run list input'' in
      rbind (inputObject value label) (\<lambda>input.
      rbind (rejectUnknownFields input [''workspace'', ''client'', ''status'', ''cursor'', ''limit''] label) (\<lambda>_.
      rbind (requiredString (getp input ''workspace'') ''workspace'') (\<lambda>workspace.
      rbind (optionalString (getp input ''client'') ''client'') (\<lambda>client.
      rbind (parseStatus (getp input ''status'')) (\<lambda>status.
      rbind (rbind (optionalString (getp input ''cursor'') ''cursor'') parseRunCursor) (\<lambda>cursor.
      rbind (parseLimit (getp input ''limit'')) (\<lambda>limit.
      Inr \<lparr>lr_workspace = workspace, lr_limit = limit, lr_client = client, lr_status = status,
           lr_cursor = cursor\<rparr>))))))))"

record read_run_input =
  ri_workspace :: string
  ri_runId :: string

definition parseReadRunInput :: "jsvalue \<Rightarrow> read_run_input result" where
  "parseReadRunInput value =
     (let label = ''run read input'' in
      rbind (inputObject value label) (\<lambda>input.
      rbind (rejectUnknownFields input [''workspace'', ''runId''] label) (\<lambda>_.
      rbind (requiredString (getp input ''workspace'') ''workspace'') (\<lambda>workspace.
      rbind (requiredString (getp input ''runId'') ''runId'') (\<lambda>runId.
      Inr \<lparr>ri_workspace = workspace, ri_runId = runId\<rparr>)))))"

record list_events_input =
  le_workspace :: string
  le_runId :: string
  le_after :: int
  le_limit :: int
  le_type :: "string option"

definition parseListEventsInput :: "jsvalue \<Rightarrow> list_events_input result" where
  "parseListEventsInput value =
     (let label = ''event list input'' in
      rbind (inputObject value label) (\<lambda>input.
      rbind (rejectUnknownFields input [''workspace'', ''runId'', ''after'', ''type'', ''limit''] label) (\<lambda>_.
      rbind (parseEventType (getp input ''type'')) (\<lambda>eventType.
      rbind (requiredString (getp input ''workspace'') ''workspace'') (\<lambda>workspace.
      rbind (requiredString (getp input ''runId'') ''runId'') (\<lambda>runId.
      rbind (parseAfter (getp input ''after'')) (\<lambda>after.
      rbind (parseLimit (getp input ''limit'')) (\<lambda>limit.
      Inr \<lparr>le_workspace = workspace, le_runId = runId, le_after = after, le_limit = limit,
           le_type = eventType\<rparr>))))))))"

section \<open>Statements\<close>

definition run_in_workspace :: "string \<Rightarrow> string \<Rightarrow> ledger_db \<Rightarrow> run_row option" where
  "run_in_workspace runId workspace d = find (\<lambda>r. rr_run_id r = runId \<and> rr_workspace r = workspace) (db_runs d)"

text \<open>\<open>ORDER BY sequence ASC LIMIT ?\<close>, with the clauses of the filters.\<close>

definition compare_sequences :: "int \<Rightarrow> int \<Rightarrow> int" where
  "compare_sequences left right = left - right"

definition event_selected :: "list_events_input \<Rightarrow> event_row \<Rightarrow> bool" where
  "event_selected input r =
     (er_run_id r = le_runId input \<and> le_after input < er_sequence r \<and> opt_all (\<lambda>t. er_event_type r = t) (le_type input))"

definition select_events :: "list_events_input \<Rightarrow> ledger_db \<Rightarrow> event_row list" where
  "select_events input d =
     take (nat (le_limit input + 1))
       (js_sort (\<lambda>l r. compare_sequences (er_sequence l) (er_sequence r)) (filter (event_selected input) (db_events d)))"

text \<open>\<open>ORDER BY created_at DESC, run_id ASC LIMIT ?\<close>.\<close>

definition run_key :: "run_row \<Rightarrow> string \<times> string" where
  "run_key r = (rr_created_at r, rr_run_id r)"

definition newest_first :: "string \<times> string \<Rightarrow> string \<times> string \<Rightarrow> int" where
  "newest_first left right =
     cmp_or (compareCanonicalStrings (fst right) (fst left)) (compareCanonicalStrings (snd left) (snd right))"

definition after_cursor :: "run_cursor \<Rightarrow> run_row \<Rightarrow> bool" where
  "after_cursor c r =
     (rr_created_at r < rc_createdAt c \<or> (rr_created_at r = rc_createdAt c \<and> rc_runId c < rr_run_id r))"

definition run_selected :: "list_runs_input \<Rightarrow> run_row \<Rightarrow> bool" where
  "run_selected input r =
     (rr_workspace r = lr_workspace input \<and> opt_all (\<lambda>c. rr_client_kind r = c) (lr_client input)
      \<and> opt_all (\<lambda>s. rr_status r = s) (lr_status input) \<and> opt_all (\<lambda>c. after_cursor c r) (lr_cursor input))"

definition select_runs :: "list_runs_input \<Rightarrow> ledger_db \<Rightarrow> run_row list" where
  "select_runs input d =
     take (nat (lr_limit input + 1))
       (js_sort (\<lambda>l r. newest_first (run_key l) (run_key r)) (filter (run_selected input) (db_runs d)))"

section \<open>Operations\<close>

definition listLedgerEvents :: "ledger_db \<Rightarrow> jsvalue \<Rightarrow> events_page result" where
  "listLedgerEvents d input =
     rbind (parseListEventsInput input) (\<lambda>parsed.
       case run_in_workspace (le_runId parsed) (le_workspace parsed) d of
         None \<Rightarrow> Inl run_not_found
       | Some _ \<Rightarrow>
           let rows = select_events parsed d;
               pageRows = take (nat (le_limit parsed)) rows;
               nextCursor = (if int (length rows) > le_limit parsed then map_option er_sequence (last_row pageRows) else None)
           in rbind (rtraverse rowToEvent pageRows) (\<lambda>shown.
                Inr \<lparr>events_items = shown, events_nextCursor = nextCursor\<rparr>))"

definition readLedgerRun :: "ledger_db \<Rightarrow> jsvalue \<Rightarrow> run_view result" where
  "readLedgerRun d input =
     rbind (parseReadRunInput input) (\<lambda>parsed.
       case run_in_workspace (ri_runId parsed) (ri_workspace parsed) d of
         None \<Rightarrow> Inl run_not_found
       | Some row \<Rightarrow> rowToRunView row)"

definition page_cursor :: "run_row list \<Rightarrow> run_cursor" where
  "page_cursor pageRows =
     \<lparr>rc_version = RUN_CURSOR_VERSION,
      rc_createdAt = (case last_row pageRows of None \<Rightarrow> [] | Some r \<Rightarrow> rr_created_at r),
      rc_runId = (case last_row pageRows of None \<Rightarrow> [] | Some r \<Rightarrow> rr_run_id r)\<rparr>"

definition listLedgerRuns :: "ledger_db \<Rightarrow> jsvalue \<Rightarrow> runs_page result" where
  "listLedgerRuns d input =
     rbind (parseListRunsInput input) (\<lambda>parsed.
       let rows = select_runs parsed d;
           pageRows = take (nat (lr_limit parsed)) rows;
           nextCursor = (if int (length rows) > lr_limit parsed then Some (encodeRunCursor (page_cursor pageRows)) else None)
       in rbind (rtraverse rowToRunView pageRows) (\<lambda>shown.
            Inr \<lparr>runs_items = shown, runs_nextCursor = nextCursor\<rparr>))"

end
