(* ===== verification/Ledger_Pages.thy ===== *)
theory Ledger_Pages
  imports Ledger_Query Ledger_Chain
begin

text \<open>
  What the ledger's queries promise: the cursor is read back, a client that follows the cursors sees every
  matching run and every later event once and in order, no query shows another workspace, and
  what the store appends can be shown.
\<close>

section \<open>Orders\<close>

interpretation sequence_order: cursor_order compare_sequences
  by unfold_locales (auto simp: compare_sequences_def)

lemma newest_first_less:
  "newest_first (t, i) (t', i') < 0 \<longleftrightarrow> t' < t \<or> (t' = t \<and> i < i')"
  by (auto simp: newest_first_def cmp_or_def compareCanonicalStrings_def)

lemma newest_first_zero: "newest_first (t, i) (t', i') = 0 \<longleftrightarrow> t = t' \<and> i = i'"
  by (auto simp: newest_first_def cmp_or_def compareCanonicalStrings_def)

lemma newest_first_greater: "0 < newest_first (t, i) (t', i') \<longleftrightarrow> t < t' \<or> (t' = t \<and> i' < i)"
  by (auto simp: newest_first_def cmp_or_def compareCanonicalStrings_def)

lemma newest_first_le: "newest_first (t, i) (t', i') \<le> 0 \<longleftrightarrow> t' < t \<or> (t' = t \<and> i \<le> i')"
  using newest_first_less [of t i t' i'] newest_first_zero [of t i t' i'] by (auto simp: order_le_less)

interpretation run_order: cursor_order newest_first
proof
  fix x y z :: "string \<times> string"
  obtain t i where x: "x = (t, i)" by force
  obtain t' i' where y: "y = (t', i')" by force
  obtain t'' i'' where z: "z = (t'', i'')" by force
  show "newest_first x y < 0 \<longleftrightarrow> 0 < newest_first y x"
    unfolding x y newest_first_less newest_first_greater by auto
  show "newest_first x y \<le> 0 \<Longrightarrow> newest_first y z \<le> 0 \<Longrightarrow> newest_first x z \<le> 0"
    unfolding x y z newest_first_le by auto
  show "newest_first x y = 0 \<Longrightarrow> x = y"
    unfolding x y newest_first_zero by simp
qed

lemma after_cursor_less:
  "after_cursor \<lparr>rc_version = v, rc_createdAt = rr_created_at r, rc_runId = rr_run_id r\<rparr> y \<longleftrightarrow>
     newest_first (run_key r) (run_key y) < 0"
  by (auto simp: after_cursor_def run_key_def newest_first_less)

section \<open>Pages\<close>

lemma page_of_rows:
  assumes "1 \<le> l"
  shows "take (nat l) (take (nat (l + 1)) s) = take (nat l) s"
    and "int (length (take (nat (l + 1)) s)) > l \<longleftrightarrow> nat l < length s"
    and "nat l < length s \<Longrightarrow> last_row (take (nat l) s) = Some (last (take (nat l) s))"
  using assms by (auto simp: last_row_def min_def)

lemma getp_append: "getp (fs @ [(k, v)]) k' = (if hasOwn fs k' then getp fs k' else if k' = k then v else VUndefined)"
  by (auto simp: getp_def hasOwn_def map_add_def split: option.splits)

lemma getp_hasOwn: "\<not> hasOwn fs k \<Longrightarrow> getp fs k = VUndefined"
  by (auto simp: getp_def hasOwn_def)

text \<open>A request for the page after a cursor: the fields of the first request and the cursor.\<close>

definition with_cursor :: "fields \<Rightarrow> string \<Rightarrow> jsvalue option \<Rightarrow> jsvalue" where
  "with_cursor fs k c = VObj (case c of None \<Rightarrow> fs | Some v \<Rightarrow> fs @ [(k, v)])"

definition ask_runs :: "ledger_db \<Rightarrow> fields \<Rightarrow> string option \<Rightarrow> (run_view list \<times> string option) result" where
  "ask_runs d fs c =
     map_sum id (\<lambda>p. (runs_items p, runs_nextCursor p)) (listLedgerRuns d (with_cursor fs ''cursor'' (map_option VStr c)))"

definition ask_events :: "ledger_db \<Rightarrow> fields \<Rightarrow> int option \<Rightarrow> (event_view list \<times> int option) result" where
  "ask_events d fs c =
     map_sum id (\<lambda>p. (events_items p, events_nextCursor p)) (listLedgerEvents d (with_cursor fs ''after'' (map_option VNum c)))"

lemma parseLimit_range: "parseLimit v = Inr l \<Longrightarrow> 1 \<le> l \<and> l \<le> 100"
  by (cases v) (auto simp: DEFAULT_LIMIT_def MAX_LIMIT_def split: if_splits)

section \<open>Runs\<close>

lemma not_space_trim: "s \<noteq> [] \<Longrightarrow> list_all (\<lambda>c. \<not> is_js_space c) s \<Longrightarrow> trim s = s"
proof -
  assume s: "s \<noteq> []" "list_all (\<lambda>c. \<not> is_js_space c) s"
  have d: "dropWhile is_js_space u = u" if "u \<noteq> []" "list_all (\<lambda>c. \<not> is_js_space c) u" for u
    using that by (cases u) auto
  show ?thesis using s by (simp add: trim_def d)
qed

lemma alphabet_plain: "alnum_or ''_-'' c \<Longrightarrow> \<not> is_js_space c \<and> c \<noteq> CHR 0x00"
  by (auto simp: alnum_or_def is_alnum_def is_digit_def is_js_space_def less_eq_char_int)

lemma encoded_cursor_required:
  assumes "cursor_ok c"
  shows "requiredString (VStr (encodeRunCursor c)) label = Inr (encodeRunCursor c)"
proof -
  note a = parsed_cursor_text [OF parse_encoded_cursor [OF assms], THEN conjunct2]
    and n = parsed_cursor_text [OF parse_encoded_cursor [OF assms], THEN conjunct1]
  have "list_all (\<lambda>c. \<not> is_js_space c \<and> c \<noteq> CHR 0x00) (encodeRunCursor c)"
    using a alphabet_plain by (auto simp: list_all_iff)
  then have "trim (encodeRunCursor c) = encodeRunCursor c" and "CHR 0x00 \<notin> set (encodeRunCursor c)"
    using not_space_trim [OF n] by (auto simp: list_all_iff)
  with n show ?thesis by (simp add: requiredString_def Let_def)
qed

lemma encoded_cursor_optional:
  "cursor_ok c \<Longrightarrow> optionalString (VStr (encodeRunCursor c)) label = Inr (Some (encodeRunCursor c))"
  by (simp add: optionalString_def encoded_cursor_required)

lemma list_request_next:
  assumes p: "parseListRunsInput (VObj fs) = Inr input" and n: "\<not> hasOwn fs ''cursor''" and c: "cursor_ok c"
  shows "parseListRunsInput (with_cursor fs ''cursor'' (Some (VStr (encodeRunCursor c)))) = Inr (input\<lparr>lr_cursor := Some c\<rparr>)"
proof -
  let ?gs = "fs @ [(''cursor'', VStr (encodeRunCursor c))]"
  have o: "getp ?gs k = getp fs k" if "k \<noteq> ''cursor''" for k
    using that getp_hasOwn [of fs k] by (simp add: getp_append)
  have k: "keys_within ?gs [''workspace'', ''client'', ''status'', ''cursor'', ''limit''] =
    keys_within fs [''workspace'', ''client'', ''status'', ''cursor'', ''limit'']"
    by (simp add: keys_within_def)
  have u: "getp fs ''cursor'' = VUndefined" "getp ?gs ''cursor'' = VStr (encodeRunCursor c)"
    using n by (simp_all add: getp_append getp_hasOwn)
  have i: "input\<lparr>lr_cursor := Some c\<rparr> = \<lparr>lr_workspace = lr_workspace input, lr_limit = lr_limit input,
      lr_client = lr_client input, lr_status = lr_status input, lr_cursor = Some c\<rparr>" by simp
  from p have
    "rejectUnknownFields fs [''workspace'', ''client'', ''status'', ''cursor'', ''limit''] ''run list input'' = Inr ()"
    "requiredString (getp fs ''workspace'') ''workspace'' = Inr (lr_workspace input)"
    "optionalString (getp fs ''client'') ''client'' = Inr (lr_client input)"
    "parseStatus (getp fs ''status'') = Inr (lr_status input)" "parseLimit (getp fs ''limit'') = Inr (lr_limit input)"
    by (auto simp: parseListRunsInput_def inputObject_def result_inv u Let_def)
  then show ?thesis
    unfolding i
    by (simp add: parseListRunsInput_def with_cursor_def inputObject_def rejectUnknownFields_def k o u Let_def
        encoded_cursor_optional [OF c] parse_encoded_cursor [OF c] del: parseRunCursor.simps)
qed

definition cursor_at :: "run_row \<Rightarrow> run_cursor" where
  "cursor_at r = \<lparr>rc_version = RUN_CURSOR_VERSION, rc_createdAt = rr_created_at r, rc_runId = rr_run_id r\<rparr>"

definition matching_runs :: "list_runs_input \<Rightarrow> ledger_db \<Rightarrow> run_row list" where
  "matching_runs input d = js_sort (\<lambda>l r. newest_first (run_key l) (run_key r)) (filter (run_selected input) (db_runs d))"

lemma parsed_run_limit: "parseListRunsInput v = Inr input \<Longrightarrow> 1 \<le> lr_limit input"
  using parseLimit_range by (fastforce simp: parseListRunsInput_def result_inv Let_def)

lemma ask_runs_page:
  assumes p: "parseListRunsInput (with_cursor fs ''cursor'' (map_option VStr c)) = Inr input"
    and readable: "\<And>r. r \<in> set (matching_runs input d) \<Longrightarrow> rowToRunView r = Inr (view r)"
  shows "ask_runs d fs c = answers view (\<lambda>r. encodeRunCursor (cursor_at r)) (nat (lr_limit input)) (matching_runs input d)"
proof -
  let ?m = "matching_runs input d" and ?l = "lr_limit input"
  note l = parsed_run_limit [OF p]
  have s: "select_runs input d = take (nat (?l + 1)) ?m" by (simp add: select_runs_def matching_runs_def)
  have v: "rtraverse rowToRunView (take (nat ?l) ?m) = Inr (map view (take (nat ?l) ?m))"
    by (rule rtraverse_Inr_map) (use readable in_set_takeD in fast)
  have "page_cursor (take (nat ?l) ?m) = cursor_at (last (take (nat ?l) ?m))" if "nat ?l < length ?m"
    using page_of_rows(3) [OF l that] by (simp add: page_cursor_def cursor_at_def)
  then show ?thesis
    unfolding ask_runs_def listLedgerRuns_def p rbind_Inr s Let_def page_of_rows(1,2) [OF l] v
    by (simp add: answers_def)
qed

text \<open>What a client may rely on: a run that it can be shown at all has a usable cursor.\<close>

definition run_listable :: "run_row \<Rightarrow> bool" where
  "run_listable r = (isCanonicalTimestamp (rr_created_at r) \<and> rr_run_id r \<noteq> [] \<and> \<not> isl (rowToRunView r))"

abbreviation run_shown :: "run_row \<Rightarrow> run_view" where
  "run_shown r \<equiv> projr (rowToRunView r)"

lemma run_selected_after:
  "lr_cursor input = None \<Longrightarrow>
   run_selected (input\<lparr>lr_cursor := Some (cursor_at r)\<rparr>) = (\<lambda>y. run_selected input y \<and> newest_first (run_key r) (run_key y) < 0)"
  by (auto simp: run_selected_def cursor_at_def after_cursor_less)

lemma first_request_cursor: "parseListRunsInput (VObj fs) = Inr input \<Longrightarrow> \<not> hasOwn fs ''cursor'' \<Longrightarrow> lr_cursor input = None"
  using getp_hasOwn [of fs "''cursor''"] by (auto simp: parseListRunsInput_def inputObject_def result_inv Let_def optionalString_def)

lemma runs_followed:
  assumes p: "parseListRunsInput (VObj fs) = Inr input" and n: "\<not> hasOwn fs ''cursor''"
    and ids: "distinct (map rr_run_id (db_runs d))"
    and ok: "\<And>r. r \<in> set (db_runs d) \<Longrightarrow> run_selected input r \<Longrightarrow> run_listable r"
  shows "follow_cursors (Suc (length (db_runs d))) (ask_runs d fs) None = Some (map run_shown (matching_runs input d))"
proof (rule run_order.follow_complete [where key = run_key])
  let ?m = "matching_runs input d" and ?l = "nat (lr_limit input)"
  let ?answer = "answers run_shown (\<lambda>r. encodeRunCursor (cursor_at r)) ?l"
  have key: "distinct (map run_key (filter (run_selected input) (db_runs d)))"
    using ids by (auto simp: distinct_map run_key_def inj_on_def)
  show "sorted_wrt (\<lambda>x y. newest_first (run_key x) (run_key y) < 0) ?m"
    unfolding matching_runs_def by (rule run_order.sort_strict [OF key])
  show "0 < ?l" using parsed_run_limit [OF p] by simp
  have m: "r \<in> set (db_runs d) \<and> run_selected input r \<and> run_listable r" if "r \<in> set ?m" for r
    using that ok by (simp add: matching_runs_def)
  have shown: "rowToRunView r = Inr (run_shown r)" if "r \<in> set ?m" for r
    using m [OF that] by (cases "rowToRunView r") (auto simp: run_listable_def)
  show "ask_runs d fs None = ?answer ?m"
    by (rule ask_runs_page) (use p shown in \<open>simp_all add: with_cursor_def\<close>)
  show "ask_runs d fs (Some (encodeRunCursor (cursor_at r))) = ?answer (filter (\<lambda>y. newest_first (run_key r) (run_key y) < 0) ?m)"
    if r: "r \<in> set ?m" for r
  proof -
    have "cursor_ok (cursor_at r)" using m [OF r] by (simp add: cursor_ok_def cursor_at_def run_listable_def)
    note q = list_request_next [OF p n this]
    let ?input = "input\<lparr>lr_cursor := Some (cursor_at r)\<rparr>"
    have "matching_runs ?input d = filter (\<lambda>y. newest_first (run_key r) (run_key y) < 0) ?m"
      unfolding matching_runs_def run_selected_after [OF first_request_cursor [OF p n]]
      by (simp add: run_order.sort_filter [OF key] flip: filter_filter)
    moreover from this have "rowToRunView y = Inr (run_shown y)" if "y \<in> set (matching_runs ?input d)" for y
      using that shown by simp
    then have "ask_runs d fs (Some (encodeRunCursor (cursor_at r))) =
      answers run_shown (\<lambda>r. encodeRunCursor (cursor_at r)) (nat (lr_limit ?input)) (matching_runs ?input d)"
      by (intro ask_runs_page) (simp_all add: q)
    ultimately show ?thesis by simp
  qed
  have "length ?m \<le> length (db_runs d)" by (simp add: matching_runs_def)
  then show "length ?m < Suc (length (db_runs d))" by simp
qed

section \<open>Events\<close>

interpretation event_sequences: keyed_comparator "\<lambda>l r. compare_sequences (er_sequence l) (er_sequence r)" er_sequence
  by unfold_locales (auto simp: compare_sequences_def)

definition matching_events :: "list_events_input \<Rightarrow> ledger_db \<Rightarrow> event_row list" where
  "matching_events input d =
     filter (\<lambda>e. opt_all (\<lambda>t. er_event_type e = t) (le_type input) \<and> le_after input < er_sequence e)
       (readEvents (le_runId input) d)"

lemma select_events_matching: "select_events input d = take (nat (le_limit input + 1)) (matching_events input d)"
proof -
  have "filter (event_selected input) (db_events d) =
    filter (\<lambda>e. opt_all (\<lambda>t. er_event_type e = t) (le_type input) \<and> le_after input < er_sequence e)
      (filter (\<lambda>r. er_run_id r = le_runId input) (db_events d))"
    unfolding filter_filter by (rule filter_cong) (auto simp: event_selected_def)
  then show ?thesis
    by (simp add: select_events_def matching_events_def readEvents_def event_sequences.js_sort_sort_key filter_sort)
qed

lemma mset_matching_events: "mset (matching_events input d) = mset (filter (event_selected input) (db_events d))"
proof -
  let ?P = "\<lambda>e. opt_all (\<lambda>t. er_event_type e = t) (le_type input) \<and> le_after input < er_sequence e"
  have "mset (matching_events input d) = mset (filter ?P (filter (\<lambda>r. er_run_id r = le_runId input) (db_events d)))"
    unfolding matching_events_def readEvents_def filter_sort mset_sort ..
  also have "filter ?P (filter (\<lambda>r. er_run_id r = le_runId input) (db_events d)) = filter (event_selected input) (db_events d)"
    unfolding filter_filter by (rule filter_cong) (auto simp: event_selected_def)
  finally show ?thesis .
qed

lemma parsed_event_limit: "parseListEventsInput v = Inr input \<Longrightarrow> 1 \<le> le_limit input"
  using parseLimit_range by (fastforce simp: parseListEventsInput_def result_inv Let_def)

lemma ask_events_page:
  assumes p: "parseListEventsInput (with_cursor fs ''after'' (map_option VNum c)) = Inr input"
    and run: "run_in_workspace (le_runId input) (le_workspace input) d = Some run"
    and readable: "\<And>e. e \<in> set (matching_events input d) \<Longrightarrow> rowToEvent e = Inr (view e)"
  shows "ask_events d fs c = answers view er_sequence (nat (le_limit input)) (matching_events input d)"
proof -
  let ?m = "matching_events input d" and ?l = "le_limit input"
  note l = parsed_event_limit [OF p]
  have v: "rtraverse rowToEvent (take (nat ?l) ?m) = Inr (map view (take (nat ?l) ?m))"
    by (rule rtraverse_Inr_map) (use readable in_set_takeD in fast)
  show ?thesis
    unfolding ask_events_def listLedgerEvents_def p rbind_Inr select_events_matching Let_def page_of_rows(1,2) [OF l] v run
    using page_of_rows(3) [OF l, of ?m] by (simp add: answers_def)
qed

definition event_listable :: "event_row \<Rightarrow> bool" where
  "event_listable e = (er_sequence e \<le> MAX_SAFE_INTEGER \<and> \<not> isl (rowToEvent e))"

abbreviation event_shown :: "event_row \<Rightarrow> event_view" where
  "event_shown e \<equiv> projr (rowToEvent e)"

lemma events_request_next:
  assumes p: "parseListEventsInput (VObj fs) = Inr input" and n: "\<not> hasOwn fs ''after''"
    and a: "0 \<le> a" "a \<le> MAX_SAFE_INTEGER"
  shows "parseListEventsInput (with_cursor fs ''after'' (Some (VNum a))) = Inr (input\<lparr>le_after := a\<rparr>)"
proof -
  let ?gs = "fs @ [(''after'', VNum a)]"
  have o: "getp ?gs k = getp fs k" if "k \<noteq> ''after''" for k
    using that getp_hasOwn [of fs k] by (simp add: getp_append)
  have k: "keys_within ?gs [''workspace'', ''runId'', ''after'', ''type'', ''limit''] =
    keys_within fs [''workspace'', ''runId'', ''after'', ''type'', ''limit'']"
    by (simp add: keys_within_def)
  have u: "getp fs ''after'' = VUndefined" "getp ?gs ''after'' = VNum a"
    using n by (simp_all add: getp_append getp_hasOwn)
  have i: "input\<lparr>le_after := a\<rparr> = \<lparr>le_workspace = le_workspace input, le_runId = le_runId input, le_after = a,
      le_limit = le_limit input, le_type = le_type input\<rparr>" by simp
  have "is_safe_integer (VNum a)" using a by (simp add: MAX_SAFE_INTEGER_def)
  moreover from p have
    "rejectUnknownFields fs [''workspace'', ''runId'', ''after'', ''type'', ''limit''] ''event list input'' = Inr ()"
    "parseEventType (getp fs ''type'') = Inr (le_type input)"
    "requiredString (getp fs ''workspace'') ''workspace'' = Inr (le_workspace input)"
    "requiredString (getp fs ''runId'') ''runId'' = Inr (le_runId input)" "parseLimit (getp fs ''limit'') = Inr (le_limit input)"
    by (auto simp: parseListEventsInput_def inputObject_def result_inv u Let_def)
  ultimately show ?thesis
    unfolding i using a(1)
    by (simp add: parseListEventsInput_def with_cursor_def inputObject_def rejectUnknownFields_def k o u Let_def
        del: is_safe_integer.simps)
qed

lemma run_in_workspace_Some:
  "run_in_workspace i w d = Some run \<Longrightarrow> run \<in> set (db_runs d) \<and> rr_run_id run = i \<and> rr_workspace run = w"
  by (auto simp: run_in_workspace_def find_Some_iff)

lemma events_followed:
  assumes p: "parseListEventsInput (VObj fs) = Inr input" and n: "\<not> hasOwn fs ''after''"
    and a: "0 \<le> a" "a \<le> MAX_SAFE_INTEGER" and ledger: "ledger_ok sha256 d"
    and run: "run_in_workspace (le_runId input) (le_workspace input) d = Some run"
    and ok: "\<And>e. e \<in> set (readEvents (le_runId input) d) \<Longrightarrow> a < er_sequence e \<Longrightarrow> event_listable e"
  shows "follow_cursors (Suc (length (db_events d))) (ask_events d fs) (Some a) =
    Some (map event_shown (matching_events (input\<lparr>le_after := a\<rparr>) d))"
proof (rule sequence_order.follow_suffix [where key = er_sequence and p = "[]"])
  let ?m = "\<lambda>a. matching_events (input\<lparr>le_after := a\<rparr>) d" and ?l = "nat (le_limit input)"
  let ?answer = "answers event_shown er_sequence ?l"
  have "map er_sequence (readEvents (le_runId input) d) = [1..int (length (readEvents (le_runId input) d))]"
    using ledger run_in_workspace_Some [OF run] verified_sequences [of sha256 "le_runId input" d]
    by (auto simp: ledger_ok_def run_ok_def list_all_iff)
  then have srt: "sorted_wrt (<) (map er_sequence (readEvents (le_runId input) d))" by simp
  then show "sorted_wrt (\<lambda>x y. compare_sequences (er_sequence x) (er_sequence y) < 0) (?m a)"
    unfolding matching_events_def compare_sequences_def by (intro sorted_wrt_filter) (simp add: sorted_wrt_map)
  show "0 < ?l" using parsed_event_limit [OF p] by simp
  have m: "event_listable e \<and> b < er_sequence e" if "e \<in> set (?m b)" "a \<le> b" for e b
    using that ok by (simp add: matching_events_def)
  have shown: "rowToEvent e = Inr (event_shown e)" if "e \<in> set (?m b)" "a \<le> b" for e b
    using m [OF that] by (cases "rowToEvent e") (auto simp: event_listable_def)
  have ask: "ask_events d fs (Some b) = ?answer (?m b)" if b: "a \<le> b" "b \<le> MAX_SAFE_INTEGER" for b
    using ask_events_page [of fs "Some b" "input\<lparr>le_after := b\<rparr>" d run event_shown]
      events_request_next [OF p n _ b(2)] run shown a(1) b(1) by simp
  show "ask_events d fs (Some a) = ?answer (?m a)" by (rule ask) (simp_all add: a)
  show "ask_events d fs (Some (er_sequence x)) =
      ?answer (filter (\<lambda>y. compare_sequences (er_sequence x) (er_sequence y) < 0) (?m a))"
    if x: "x \<in> set (?m a)" for x
  proof -
    have "filter (\<lambda>y. compare_sequences (er_sequence x) (er_sequence y) < 0) (?m a) = ?m (er_sequence x)"
      using m [OF x order_refl] by (auto simp: matching_events_def compare_sequences_def intro!: filter_cong)
    moreover have "ask_events d fs (Some (er_sequence x)) = ?answer (?m (er_sequence x))"
      using m [OF x order_refl] a(1) by (intro ask) (simp_all add: event_listable_def)
    ultimately show ?thesis by simp
  qed
  have "length (?m a) \<le> length (readEvents (le_runId input) d)" by (simp add: matching_events_def)
  also have "\<dots> \<le> length (db_events d)" by (simp add: readEvents_def)
  finally show "length (?m a) < Suc (length (db_events d))" by simp
qed simp

section \<open>Showing what was appended\<close>

lemma from_entries_all:
  assumes "list_all (\<lambda>f. P (snd f)) kvs"
  shows "list_all (\<lambda>f. P (snd f)) (from_entries kvs)"
proof -
  have put: "list_all (\<lambda>f. P (snd f)) (put_field fs k v)" if "list_all (\<lambda>f. P (snd f)) fs" "P v" for fs k v
    using that by (induction fs k v rule: put_field.induct) auto
  have "list_all (\<lambda>f. P (snd f)) (foldl (\<lambda>fs (k, v). put_field fs k v) acc kvs)" if "list_all (\<lambda>f. P (snd f)) acc" for acc
    using assms that
  proof (induction kvs arbitrary: acc)
    case (Cons f kvs)
    obtain k v where f: "f = (k, v)" by force
    have "list_all (\<lambda>f. P (snd f)) (put_field acc k v)" using put Cons.prems f by simp
    from Cons.IH [OF _ this] Cons.prems f show ?case by simp
  qed simp
  from this [of "[]"] show ?thesis by (simp add: from_entries_def)
qed

lemma parse_json_value:
  "parse_value n s = Some (v, r) \<Longrightarrow> isJsonValue v"
  "parse_items n s = Some (vs, r) \<Longrightarrow> list_all isJsonValue vs"
  "parse_members n s = Some (fs, r) \<Longrightarrow> list_all (\<lambda>f. isJsonValue (snd f)) fs"
proof (induction n s and n s and n s arbitrary: v r and vs r and fs r
    rule: parse_value_parse_items_parse_members.induct)
  case (2 n s)
  have "isJsonValue w" if "parse_number t = Some (w, r)" for w t r
    using that by (auto simp: parse_number_def Let_def split: if_splits)
  moreover have "list_all (\<lambda>f. isJsonValue (snd f)) (from_entries kvs)" if "list_all (\<lambda>f. isJsonValue (snd f)) kvs" for kvs
    using from_entries_all [of isJsonValue, OF that] .
  ultimately show ?case
    using 2 by (auto split: list.splits if_splits)
next
  case (4 n s)
  then show ?case by (auto split: option.splits list.splits if_splits)
next
  case (6 n s)
  then show ?case by (auto split: option.splits list.splits if_splits prod.splits)
qed simp_all

lemma json_parse_value: "json_parse t = Some v \<Longrightarrow> isJsonValue v"
  by (auto simp: json_parse_def simp del: parse_value.simps split: option.splits if_splits dest: parse_json_value(1))

lemma stored_value: "json_repr v \<Longrightarrow> canonicalJson v = Inr t \<Longrightarrow> \<exists>w. parseStoredJson t = Inr w \<and> same_json v w"
  using canonicalJson_read [of v t] json_parse_value by (auto simp: parseStoredJson_def)

lemma stored_redaction_read:
  assumes "same_json (VObj [(''path'', VStr (red_path r)), (''kind'', VStr (red_kind r))]) w"
    and "red_kind r \<in> set STORED_REDACTION_KINDS"
  shows "stored_redaction w = Inr r"
proof -
  let ?fs = "[(''path'', VStr (red_path r)), (''kind'', VStr (red_kind r))]"
  have d: "distinct (map fst ?fs)" by simp
  from same_json_getp [OF assms(1) d] obtain gs where w: "w = VObj gs" and k: "\<And>k. same_json (getp ?fs k) (getp gs k)" by blast
  have "getp gs ''path'' = VStr (red_path r)" using k [of "''path''"] by (auto simp: getp_def)
  moreover have "getp gs ''kind'' = VStr (red_kind r)" using k [of "''kind''"] by (auto simp: getp_def)
  ultimately show ?thesis using w assms(2) by (simp add: stored_redaction_def)
qed

lemma stored_redactions_read:
  assumes "canonicalJson (redactions_json rs) = Inr t" and "list_all (\<lambda>r. red_kind r \<in> set STORED_REDACTION_KINDS) rs"
  shows "parseRedactions t = Inr rs"
proof -
  from stored_value [OF json_repr_redactions assms(1)] obtain w where w: "parseStoredJson t = Inr w"
    and s: "same_json (redactions_json rs) w" by blast
  let ?o = "\<lambda>r. VObj [(''path'', VStr (red_path r)), (''kind'', VStr (red_kind r))]"
  from s [unfolded redactions_json_def] obtain ys where "w = VArr ys" and "list_all2 same_json (map ?o rs) ys"
  proof (rule same_arrE)
    assume "w = VArr (map ?o rs)"
    then show ?thesis using that by (auto simp: list_all2_same same_json.same_refl)
  qed (use that in blast)
  then have "list_all2 (\<lambda>y r. stored_redaction y = Inr r) ys rs"
    using assms(2) stored_redaction_read by (auto simp: list_all2_conv_all_nth list_all_length)
  then show ?thesis using w \<open>w = VArr ys\<close> by (simp add: parseRedactions_def rtraverse_Inr_iff)
qed

text \<open>What a reader is shown of an event: its identity and columns, its payload and what was redacted.\<close>

definition shows_event :: "prepared_event \<Rightarrow> event_view \<Rightarrow> bool" where
  "shows_event e v =
     (ev_eventId v = pe_eventId e \<and> ev_eventType v = ei_eventType (pe_input e) \<and> ev_actor v = ei_actor (pe_input e)
      \<and> ev_sourceEventId v = ei_sourceEventId (pe_input e) \<and> ev_sourceSequence v = ei_sourceSequence (pe_input e)
      \<and> ev_sourceType v = ei_sourceType (pe_input e) \<and> ev_occurredAt v = ei_occurredAt (pe_input e)
      \<and> same_json (ei_payload (pe_input e)) (ev_payload v) \<and> ev_redaction v = pe_redactions e)"

definition redactions_known :: "prepared_event \<Rightarrow> bool" where
  "redactions_known e = list_all (\<lambda>r. red_kind r \<in> set STORED_REDACTION_KINDS) (pe_redactions e)"

lemma appended_row_shown:
  assumes "row_for sha256 run e row" and "json_repr (ei_payload (pe_input e))" and "redactions_known e"
  shows "\<not> isl (rowToEvent row) \<and> shows_event e (event_shown row)"
proof -
  have c: "canonicalJson (ei_payload (pe_input e)) = Inr (er_payload_json row)"
    "canonicalJson (redactions_json (pe_redactions e)) = Inr (er_redaction_json row)"
    using assms(1) by (simp_all add: row_for_def)
  from stored_value [OF assms(2) c(1)] obtain w where w: "parseStoredJson (er_payload_json row) = Inr w"
    "same_json (ei_payload (pe_input e)) w" by blast
  have "parseRedactions (er_redaction_json row) = Inr (pe_redactions e)"
    using stored_redactions_read [OF c(2)] assms(3) by (simp add: redactions_known_def)
  with w assms(1) show ?thesis by (simp add: rowToEvent_def shows_event_def row_for_def)
qed

lemma appended_listed:
  assumes ok: "ledger_ok sha256 d" and batch: "batch_ok events" and known: "list_all redactions_known events"
    and app: "appendPreparedBatchInTransaction sha256 now runId events d = (Inr ack, d')" and changed: "d' \<noteq> d"
    and run: "find_run runId d = Some run"
    and p: "parseListEventsInput (VObj fs) = Inr input" and n: "\<not> hasOwn fs ''after''"
    and input: "le_runId input = runId" "le_workspace input = rr_workspace run" "le_type input = None"
    and safe: "ack_acceptedThrough ack \<le> MAX_SAFE_INTEGER"
  shows "\<exists>shown. follow_cursors (Suc (length (db_events d'))) (ask_events d' fs) (Some (rr_last_sequence run)) = Some shown
    \<and> list_all2 shows_event events shown"
  using app
proof (cases rule: append_cases)
  case (replayed run rows)
  with changed show ?thesis by simp
next
  case (new run')
  have "run' = run" using new(1) run by simp
  note new = new [unfolded this]
  note k = ledger_okD [OF ok run]
  let ?n = "rr_last_sequence run"
  from append_new_rows [OF new(3) k(1) k(3) batch_ok_payload [OF batch]] obtain rows lastSource where
    d': "d' = update_run (rr_run_id run) (\<lambda>r. r\<lparr>rr_last_sequence := ?n + int (length events),
        rr_last_source_sequence := lastSource, rr_updated_at := now\<rparr>) (d\<lparr>db_events := db_events d @ rows\<rparr>)"
    and rows: "list_all2 (row_for sha256 (rr_run_id run)) events rows"
    and ver: "verify_rows sha256 (rr_run_id run) ?n (chain_end GENESIS_HASH (readEvents (rr_run_id run) d)) rows = Inr True"
    and ack: "ack_acceptedThrough ack = ?n + int (length events)" by (metis append_ack.select_convs(2))
  have id: "rr_run_id run = runId" using find_run_Some [OF run] by simp
  have len: "?n = int (length (readEvents runId d))" and vc: "verifyChain sha256 runId d = Inr True"
    using k(1) id by (simp_all add: run_ok_def)
  have ids: "er_run_id r = runId" if "r \<in> set rows" for r
    using rows that id by (auto simp: row_for_def list_all2_conv_all_nth in_set_conv_nth)
  have all: "readEvents runId d' = readEvents runId d @ rows"
    using readEvents_append [OF vc ver [unfolded id len] ids] by (simp add: d')
  have old: "er_sequence e \<le> ?n" if "e \<in> set (readEvents runId d)" for e
  proof -
    have "er_sequence e \<in> set (map er_sequence (readEvents runId d))" using that by simp
    then show ?thesis unfolding verified_sequences [OF vc] by (simp add: len)
  qed
  have fresh: "?n < er_sequence e \<and> er_sequence e \<le> ack_acceptedThrough ack" if "e \<in> set rows" for e
  proof -
    have "er_sequence e \<in> set (map er_sequence rows)" using that by simp
    then show ?thesis
      unfolding verify_rows_sequences [OF ver] ack using rows by (simp add: list_all2_lengthD)
  qed
  have m: "matching_events (input\<lparr>le_after := ?n\<rparr>) d' = rows"
  proof -
    have "filter (\<lambda>e. ?n < er_sequence e) (readEvents runId d) = []"
      using old by (fastforce simp: filter_empty_conv)
    moreover have "filter (\<lambda>e. ?n < er_sequence e) rows = rows" using fresh by (simp add: filter_id_conv)
    ultimately show ?thesis by (simp add: matching_events_def all input)
  qed
  have shown: "list_all2 (\<lambda>e row. \<not> isl (rowToEvent row) \<and> shows_event e (event_shown row)) events rows"
    unfolding list_all2_conv_all_nth
  proof (intro conjI allI impI)
    show "length events = length rows" using rows by (rule list_all2_lengthD)
    fix i assume i: "i < length events"
    then have e: "events ! i \<in> set events" by simp
    have "row_for sha256 (rr_run_id run) (events ! i) (rows ! i)" using list_all2_nthD [OF rows i] .
    from appended_row_shown [OF this batch_ok_payload [OF batch e]] known e
    show "\<not> isl (rowToEvent (rows ! i))" and "shows_event (events ! i) (event_shown (rows ! i))"
      by (simp_all add: list_all_iff)
  qed
  let ?run = "run\<lparr>rr_last_sequence := ?n + int (length events), rr_last_source_sequence := lastSource, rr_updated_at := now\<rparr>"
  have "?run \<in> set (db_runs d')" using find_run_Some [OF run] by (auto simp: d' update_run_def intro!: image_eqI)
  moreover have "rr_run_id ?run = runId" "rr_workspace ?run = rr_workspace run" using id by simp_all
  ultimately have "run_in_workspace runId (rr_workspace run) d' \<noteq> None"
    unfolding run_in_workspace_def find_None_iff by blast
  then obtain run' where run': "run_in_workspace (le_runId input) (le_workspace input) d' = Some run'" using input by auto
  have "follow_cursors (Suc (length (db_events d'))) (ask_events d' fs) (Some ?n) = Some (map event_shown rows)"
    unfolding m [symmetric]
  proof (rule events_followed [OF p n _ _ _ run'])
    show "0 \<le> ?n" "?n \<le> MAX_SAFE_INTEGER" using len ack safe by auto
    show "ledger_ok sha256 d'" by (rule append_ok [OF app ok batch_ok_payload [OF batch]])
    show "event_listable e" if e: "e \<in> set (readEvents (le_runId input) d')" "?n < er_sequence e" for e
    proof -
      have "e \<in> set rows" using e old [of e] input(1) by (auto simp: all)
      then show ?thesis
        using fresh [of e] safe shown by (auto simp: event_listable_def list_all2_conv_all_nth in_set_conv_nth)
    qed
  qed
  moreover have "list_all2 shows_event events (map event_shown rows)"
    using shown by (auto simp: list_all2_conv_all_nth)
  ultimately show ?thesis by blast
qed

section \<open>Workspaces\<close>

lemma required_text: "requiredString v label = Inr s \<Longrightarrow> v = VStr s"
  by (auto simp: requiredString_def result_inv Let_def)

lemma listed_run_workspace:
  assumes "listLedgerRuns d (VObj fs) = Inr page" and "v \<in> set (runs_items page)" and "getp fs ''workspace'' = VStr w"
  shows "lv_workspace v = w"
proof -
  from assms(1) obtain input where p: "parseListRunsInput (VObj fs) = Inr input"
    and t: "rtraverse rowToRunView (take (nat (lr_limit input)) (select_runs input d)) = Inr (runs_items page)"
    by (auto simp: listLedgerRuns_def result_inv Let_def)
  have "lr_workspace input = w"
    using p assms(3) by (auto simp: parseListRunsInput_def inputObject_def result_inv Let_def dest!: required_text)
  moreover from rtraverse_memD [OF t assms(2)] obtain r where "r \<in> set (select_runs input d)" "rowToRunView r = Inr v"
    by (auto dest: in_set_takeD)
  ultimately show ?thesis
    by (auto simp: select_runs_def run_selected_def rowToRunView_def result_inv dest!: in_set_takeD)
qed

lemma read_run_workspace:
  assumes "readLedgerRun d (VObj fs) = Inr v" and "getp fs ''workspace'' = VStr w"
  shows "lv_workspace v = w"
proof -
  from assms(1) obtain input row where p: "parseReadRunInput (VObj fs) = Inr input"
    and row: "run_in_workspace (ri_runId input) (ri_workspace input) d = Some row" and v: "rowToRunView row = Inr v"
    by (auto simp: readLedgerRun_def result_inv split: option.splits)
  have "ri_workspace input = w"
    using p assms(2) by (auto simp: parseReadRunInput_def inputObject_def result_inv Let_def dest!: required_text)
  with run_in_workspace_Some [OF row] v show ?thesis by (auto simp: rowToRunView_def result_inv)
qed

lemma listed_event_workspace:
  assumes "listLedgerEvents d (VObj fs) = Inr page" and "v \<in> set (events_items page)" and "getp fs ''workspace'' = VStr w"
  shows "\<exists>run \<in> set (db_runs d). rr_run_id run = ev_runId v \<and> rr_workspace run = w"
proof -
  from assms(1) obtain input run where p: "parseListEventsInput (VObj fs) = Inr input"
    and run: "run_in_workspace (le_runId input) (le_workspace input) d = Some run"
    and t: "rtraverse rowToEvent (take (nat (le_limit input)) (select_events input d)) = Inr (events_items page)"
    by (auto simp: listLedgerEvents_def result_inv Let_def split: option.splits)
  have "le_workspace input = w"
    using p assms(3) by (auto simp: parseListEventsInput_def inputObject_def result_inv Let_def dest!: required_text)
  moreover from rtraverse_memD [OF t assms(2)] obtain r where "r \<in> set (select_events input d)" "rowToEvent r = Inr v"
    by (auto dest: in_set_takeD)
  then have "ev_runId v = le_runId input"
    by (auto simp: select_events_def event_selected_def rowToEvent_def result_inv dest!: in_set_takeD)
  ultimately show ?thesis using run_in_workspace_Some [OF run] by auto
qed

section \<open>Samples\<close>

definition page_run :: "string \<Rightarrow> string \<Rightarrow> string \<Rightarrow> run_row" where
  "page_run i w t = (sample_run i RunActive)\<lparr>rr_workspace := w, rr_created_at := t,
     rr_coverage_json := (case canonicalJson (coverage_json \<lparr>cov_run = CovComplete, cov_tool = CovDeclared,
        cov_command = CovDeclared, cov_file = CovDeclared, cov_approval = CovDeclared\<rparr>) of Inr c \<Rightarrow> c | Inl e \<Rightarrow> [])\<rparr>"

definition page_db :: ledger_db where
  "page_db = \<lparr>db_runs = [page_run ''a'' ''w'' ''2024-05-01T10:00:00.000Z'', page_run ''b'' ''v'' ''2024-05-01T10:00:00.000Z'',
      page_run ''c'' ''w'' ''2024-05-02T10:00:00.000Z''], db_events = []\<rparr>"

definition page_request :: fields where
  "page_request = [(''workspace'', VStr ''w''), (''limit'', VNum 1)]"

definition page_input :: list_runs_input where
  "page_input = \<lparr>lr_workspace = ''w'', lr_limit = 1, lr_client = None, lr_status = None, lr_cursor = None\<rparr>"

lemma page_facts:
  "parseListRunsInput (VObj page_request) = Inr page_input" "\<not> hasOwn page_request ''cursor''"
  "distinct (map rr_run_id (db_runs page_db))"
  "length (filter (run_selected page_input) (db_runs page_db)) = 2"
  by code_simp+

lemma page_listable: "list_all run_listable (db_runs page_db)"
  by code_simp

lemma page_first: "case listLedgerRuns page_db (VObj page_request) of Inl e \<Rightarrow> False | Inr page \<Rightarrow> runs_items page \<noteq> []"
  by code_simp

definition event_request :: fields where
  "event_request = [(''workspace'', VStr ''w''), (''runId'', VStr ''r''), (''limit'', VNum 1)]"

definition event_input :: list_events_input where
  "event_input = \<lparr>le_workspace = ''w'', le_runId = ''r'', le_after = 0, le_limit = 1, le_type = None\<rparr>"

lemma event_request_facts:
  "parseListEventsInput (VObj event_request) = Inr event_input" "\<not> hasOwn event_request ''after''"
  "list_all redactions_known sample_batch"
  by code_simp+

lemma sample_listable:
  "case appendPreparedBatchInTransaction sample_hash ''t'' ''r'' sample_batch (sample_db RunActive) of
     (r, d) \<Rightarrow> list_all event_listable (db_events d) \<and> length (db_events d) = 1
       \<and> run_in_workspace ''r'' ''w'' d \<noteq> None \<and> list_all (event_selected event_input) (db_events d)"
  by code_simp

section \<open>Properties\<close>

text \<open>
  C16: Listing a workspace's runs page by page loses nothing and repeats nothing. A client that starts
  without a cursor and asks again with the cursor of each page, under any filter and page size, gets
  after finitely many requests exactly the runs that match the filter, newest first and by run id
  among runs created at the same time, whenever the matching runs have a canonical creation time, a
  run id and readable columns.
\<close>

theorem run_pages_complete:
  assumes "parseListRunsInput (VObj fs) = Inr input" and "\<not> hasOwn fs ''cursor''"
    and "distinct (map rr_run_id (db_runs d))"
    and "\<And>r. r \<in> set (db_runs d) \<Longrightarrow> run_selected input r \<Longrightarrow> run_listable r"
  shows "\<exists>rows. follow_cursors (Suc (length (db_runs d))) (ask_runs d fs) None = Some (map run_shown rows)
    \<and> mset rows = mset (filter (run_selected input) (db_runs d))
    \<and> sorted_wrt (\<lambda>a b. rr_created_at b < rr_created_at a \<or> (rr_created_at b = rr_created_at a \<and> rr_run_id a < rr_run_id b)) rows"
proof (intro exI conjI)
  show "follow_cursors (Suc (length (db_runs d))) (ask_runs d fs) None = Some (map run_shown (matching_runs input d))"
    by (rule runs_followed [OF assms])
  show "mset (matching_runs input d) = mset (filter (run_selected input) (db_runs d))"
    by (simp add: matching_runs_def)
  have "distinct (map run_key (filter (run_selected input) (db_runs d)))"
    using assms(3) by (auto simp: distinct_map run_key_def inj_on_def)
  from run_order.sort_strict [OF this]
  show "sorted_wrt (\<lambda>a b. rr_created_at b < rr_created_at a \<or> (rr_created_at b = rr_created_at a \<and> rr_run_id a < rr_run_id b))
      (matching_runs input d)"
    unfolding matching_runs_def run_key_def newest_first_less .
qed

theorem run_pages_complete_witness:
  "\<exists>rows. follow_cursors 4 (ask_runs page_db page_request) None = Some (map run_shown rows) \<and> length rows = 2"
proof -
  have "run_listable r" if "r \<in> set (db_runs page_db)" for r
    using page_listable that by (simp add: list_all_iff)
  from run_pages_complete [OF page_facts(1-3) this] obtain rows where
    "follow_cursors (Suc (length (db_runs page_db))) (ask_runs page_db page_request) None = Some (map run_shown rows)"
    and m: "mset rows = mset (filter (run_selected page_input) (db_runs page_db))" by blast
  moreover have "Suc (length (db_runs page_db)) = 4" by (simp add: page_db_def)
  moreover have "length rows = 2" using mset_eq_length [OF m] page_facts(4) by simp
  ultimately show ?thesis by metis
qed

text \<open>
  C30: Listing a run's events can be resumed anywhere. From any sequence number on, a client that
  follows the cursors gets exactly the later events of the run that match the type filter, in the
  order of their sequences, in every intact ledger whose later events have readable columns.
\<close>

theorem event_pages_complete:
  assumes "parseListEventsInput (VObj fs) = Inr input" and "\<not> hasOwn fs ''after''"
    and "0 \<le> a" and "a \<le> MAX_SAFE_INTEGER" and "ledger_ok sha256 d"
    and "run_in_workspace (le_runId input) (le_workspace input) d = Some run"
    and "\<And>e. e \<in> set (db_events d) \<Longrightarrow> er_run_id e = le_runId input \<Longrightarrow> a < er_sequence e \<Longrightarrow> event_listable e"
  shows "\<exists>rows. follow_cursors (Suc (length (db_events d))) (ask_events d fs) (Some a) = Some (map event_shown rows)
    \<and> mset rows = mset (filter (event_selected (input\<lparr>le_after := a\<rparr>)) (db_events d))
    \<and> sorted_wrt (\<lambda>x y. er_sequence x < er_sequence y) rows"
proof (intro exI conjI)
  let ?m = "matching_events (input\<lparr>le_after := a\<rparr>) d"
  have "map er_sequence (readEvents (le_runId input) d) = [1..int (length (readEvents (le_runId input) d))]"
    using assms(5) run_in_workspace_Some [OF assms(6)] verified_sequences [of sha256 "le_runId input" d]
    by (auto simp: ledger_ok_def run_ok_def list_all_iff)
  then have "sorted_wrt (<) (map er_sequence (readEvents (le_runId input) d))" by simp
  then show "sorted_wrt (\<lambda>x y. er_sequence x < er_sequence y) ?m"
    unfolding matching_events_def by (intro sorted_wrt_filter) (simp add: sorted_wrt_map)
  show "follow_cursors (Suc (length (db_events d))) (ask_events d fs) (Some a) = Some (map event_shown ?m)"
    by (rule events_followed [OF assms(1-6)]) (use assms(7) in \<open>auto simp: set_readEvents\<close>)
  show "mset ?m = mset (filter (event_selected (input\<lparr>le_after := a\<rparr>)) (db_events d))"
    unfolding mset_matching_events ..
qed

theorem event_pages_complete_witness:
  "\<exists>d rows. follow_cursors 2 (ask_events d event_request) (Some 0) = Some (map event_shown rows) \<and> length rows = 1"
proof -
  obtain d where app: "appendPreparedBatchInTransaction sample_hash ''t'' ''r'' sample_batch (sample_db RunActive) = (Inr sample_ack, d)"
    by (rule sample_appended)
  from sample_listable app have l: "list_all event_listable (db_events d)" and n: "length (db_events d) = 1"
    and sel: "list_all (event_selected event_input) (db_events d)"
    and r: "run_in_workspace (le_runId event_input) (le_workspace event_input) d \<noteq> None"
    by (simp_all add: event_input_def)
  have ok: "ledger_ok sample_hash d" by (rule append_ok [OF app sample_db_ok batch_ok_payload [OF sample_batch_ok]])
  obtain run where run: "run_in_workspace (le_runId event_input) (le_workspace event_input) d = Some run" using r by blast
  have "event_listable e" if "e \<in> set (db_events d)" for e using l that by (simp add: list_all_iff)
  from event_pages_complete [OF event_request_facts(1,2) _ _ ok run this, of 0] obtain rows where
    "follow_cursors (Suc (length (db_events d))) (ask_events d event_request) (Some 0) = Some (map event_shown rows)"
    and m: "mset rows = mset (filter (event_selected (event_input\<lparr>le_after := 0\<rparr>)) (db_events d))"
    by (auto simp: MAX_SAFE_INTEGER_def)
  moreover have "event_input\<lparr>le_after := 0\<rparr> = event_input" by (simp add: event_input_def)
  moreover have "filter (event_selected event_input) (db_events d) = db_events d"
    using sel by (simp add: filter_id_conv list_all_iff)
  ultimately have "mset rows = mset (db_events d)" by simp
  then have "length rows = 1" using n mset_eq_length by metis
  moreover have "Suc (length (db_events d)) = 2" using n by simp
  ultimately show ?thesis
    using \<open>follow_cursors (Suc (length (db_events d))) (ask_events d event_request) (Some 0) = Some (map event_shown rows)\<close>
    by metis
qed

text \<open>
  C13: What is appended can be read. When a batch has been appended to an intact ledger, a client that
  had read the run up to its last sequence and asks on is shown exactly the events of the batch, in
  order, each with its identity, type, actor and source, the payload that was given and the list of what was
  redacted from it.
\<close>

theorem appended_events_are_listed:
  assumes "ledger_ok sha256 d" and "batch_ok events" and "list_all redactions_known events"
    and "appendPreparedBatchInTransaction sha256 now runId events d = (Inr ack, d')" and "d' \<noteq> d"
    and "find_run runId d = Some run"
    and "parseListEventsInput (VObj fs) = Inr input" and "\<not> hasOwn fs ''after''"
    and "le_runId input = runId" and "le_workspace input = rr_workspace run" and "le_type input = None"
    and "ack_acceptedThrough ack \<le> MAX_SAFE_INTEGER"
  shows "\<exists>shown. follow_cursors (Suc (length (db_events d'))) (ask_events d' fs) (Some (rr_last_sequence run)) = Some shown
    \<and> list_all2 shows_event events shown"
  by (rule appended_listed [OF assms])

theorem appended_events_are_listed_witness:
  "\<exists>d shown. follow_cursors (Suc (length (db_events d))) (ask_events d event_request) (Some 0) = Some shown
     \<and> list_all2 shows_event sample_batch shown"
proof -
  obtain d where app: "appendPreparedBatchInTransaction sample_hash ''t'' ''r'' sample_batch (sample_db RunActive) = (Inr sample_ack, d)"
    and f: "sample_facts d" by (rule sample_appended)
  have ne: "d \<noteq> sample_db RunActive" using f by (simp add: sample_facts_def)
  have run: "find_run ''r'' (sample_db RunActive) = Some (sample_run ''r'' RunActive)"
    by (simp add: find_run_def sample_db_def sample_run_def)
  have i: "le_runId event_input = ''r''" "le_workspace event_input = rr_workspace (sample_run ''r'' RunActive)"
    "le_type event_input = None" "ack_acceptedThrough sample_ack \<le> MAX_SAFE_INTEGER"
    "rr_last_sequence (sample_run ''r'' RunActive) = 0"
    by (simp_all add: event_input_def sample_run_def sample_ack_def MAX_SAFE_INTEGER_def)
  show ?thesis
    using appended_events_are_listed [OF sample_db_ok sample_batch_ok event_request_facts(3) app ne run event_request_facts(1,2) i(1-4)]
    unfolding i(5) by blast
qed

text \<open>
  C21: No query shows another workspace. Whatever the input and the state of the ledger, every run that
  is listed or read belongs to the workspace that was asked for, and every listed event belongs to a run
  of it.
\<close>

theorem queries_stay_in_workspace:
  assumes "getp fs ''workspace'' = VStr w"
  shows "(\<forall>page v. listLedgerRuns d (VObj fs) = Inr page \<longrightarrow> v \<in> set (runs_items page) \<longrightarrow> lv_workspace v = w)
    \<and> (\<forall>v. readLedgerRun d (VObj fs) = Inr v \<longrightarrow> lv_workspace v = w)
    \<and> (\<forall>page v. listLedgerEvents d (VObj fs) = Inr page \<longrightarrow> v \<in> set (events_items page) \<longrightarrow>
         (\<exists>run \<in> set (db_runs d). rr_run_id run = ev_runId v \<and> rr_workspace run = w))"
  using listed_run_workspace [OF _ _ assms] read_run_workspace [OF _ assms] listed_event_workspace [OF _ _ assms]
  by blast

theorem queries_stay_in_workspace_witness:
  "\<exists>page v. listLedgerRuns page_db (VObj page_request) = Inr page \<and> v \<in> set (runs_items page) \<and> lv_workspace v = ''w''"
proof -
  obtain page where page: "listLedgerRuns page_db (VObj page_request) = Inr page" and "runs_items page \<noteq> []"
    using page_first by (auto split: sum.splits)
  then obtain v where v: "v \<in> set (runs_items page)" by (cases "runs_items page") auto
  have "getp page_request ''workspace'' = VStr ''w''" by (simp add: page_request_def getp_def)
  from queries_stay_in_workspace [OF this, of page_db] page v show ?thesis by blast
qed

end
