(* ===== verification/Query_Outcomes.thy ===== *)
theory Query_Outcomes
  imports Ledger_Pages
begin

text \<open>
  When the queries of \<open>src/src/ledger/query.ts\<close> answer and with which error they refuse: a request is described
  by what its fields must hold, a stored row by the JSON its columns must hold, independently of the order in
  which the code checks them.
\<close>

section \<open>What a request must hold\<close>





section \<open>What a stored row must hold\<close>








section \<open>Requests\<close>

















section \<open>Rows\<close>





















section \<open>Properties\<close>








end
