(* ===== verification/Spec2Isabelle.thy ===== *)
theory Spec2Isabelle
  imports Json_Reader Js_Date Sqlite_Tx Ledger_Projection Ledger_Chain Nudge_Delivery Write_Queue Job_Leases Idempotency
    Ranking_Order Managed_Block Memory_Batch Archive_Laws Query_Outcomes
begin

text \<open>
  Verification of the core of kiokuko, a local memory service for coding agents (TypeScript, under \<open>src/src\<close>).

  THE PROGRAM. Agents call the service over MCP or HTTP. What they report is cleaned of secrets and
  appended to a hash-chained ledger of runs; what they want remembered becomes an entry with numbered
  revisions. For a task the service ranks candidate entries, adds recommendations and at most a few
  nudges. Everything is kept in one SQLite database and written in immediate transactions; a write queue
  orders the requests of one process, leased jobs hand work to background workers, and a receipt per
  request makes retries safe. A managed block in AGENTS.md tells the agent how to use the service.

  HOW THE PARTS MEET. Validation and canonical JSON sit at every boundary: hashes, stored columns and
  idempotency keys are texts of the canonical serializer and are read back by \<open>JSON.parse\<close>. Every
  operation on tables is a function from a database to a result and a database; it is run by a transaction of
  \<open>Sqlite_Tx\<close>, in which every transaction-control statement (begin, commit, rollback, savepoints) may fail at will;
  a data statement fails by the constraints of the schema. The contract of a transaction is the locale
  \<open>transactional\<close>; the ledger, the nudges, the jobs, the receipts and the memory store are its clients and
  reach their theorems over arbitrary drivers through its interpretations.

  THEORIES, the sources they model and what their lemmas show.

  Language and shared vocabulary:
  \<open>Js_Prelude\<close> (\<open>errors.ts\<close>; values, results, string order, trimming, sets), \<open>Js_Order\<close> (comparators, the
  stable sort, own-property order), \<open>Js_Regex\<close>, \<open>Js_Text\<close>, \<open>Js_Number\<close> (double arithmetic), \<open>Js_Date\<close>
  (canonical timestamps), \<open>Db_Operation\<close> (sequencing of operations on a database).

  Data at the boundary:
  \<open>Boundary_Json\<close> (\<open>serialization/boundary-json.ts\<close>) and \<open>Json_Reader\<close>: the canonical text identifies a value up to the
  order of fields, and reading it gives the value back. \<open>Json_Columns\<close>: columns of short strings.
  \<open>Record_Validate\<close> (\<open>serialization/validate.ts\<close>): which records are accepted, and what a content hash identifies.
  \<open>Secrets\<close> (\<open>memory/secrets.ts\<close>) and \<open>Sanitize\<close> (\<open>security/sanitize.ts\<close>): what leaves the sanitizer has no
  sensitive key and no secret, and what is not logged is unchanged.

  Transactions:
  \<open>Sqlite_Tx\<close> (\<open>db/transaction.ts\<close>, \<open>db/sqlite-retry.ts\<close>, the savepoint of \<open>ledger/store.ts\<close>): all or nothing under every
  failure, except for a commit reported as uncertain; bounded retry; isolation of a batch.

  The ledger:
  \<open>Ledger_Types\<close> (\<open>ledger/types.ts\<close>, \<open>checkpoint-eligibility.ts\<close>), \<open>Ledger_Validate\<close> (\<open>validate.ts\<close>, \<open>redaction.ts\<close>),
  \<open>Ledger_Store\<close> (\<open>store.ts\<close>, \<open>hash.ts\<close>), \<open>Ledger_Chain\<close>: appending keeps every chain intact, replays are
  acknowledged without change, terminal runs are frozen and tampering is detected. \<open>Ledger_Projection\<close>
  (\<open>projection.ts\<close>): what the fold over a run's events computes.

  The archive of a workspace's ledger (\<open>ledger/archive.ts\<close>): \<open>Archive_Records\<close> (the fifteen record types and their
  normalization), \<open>Archive_Transfer\<close> (selecting, writing, reading), \<open>Archive_Import\<close> (the graph of references, comparison,
  order, insertion); \<open>Archive_Normal\<close>, \<open>Archive_Text\<close>, \<open>Archive_Order\<close>, \<open>Archive_Merge\<close> and \<open>Archive_Laws\<close>: an export is read
  back as the rows it was made of, an import is idempotent, and the recursion over the parents of runs
  returns exactly when they have no cycle. \<open>Secret_Scan\<close> computes the secret scan on long texts.

  Reading the ledger (\<open>ledger/query.ts\<close>): \<open>Run_Cursor\<close> (the cursor's text and back), \<open>Cursor_Paging\<close> (the locale
  \<open>cursor_order\<close> of paged reading), \<open>Ledger_Query\<close> (inputs, filters, pages, stored JSON) and \<open>Ledger_Pages\<close>: following
  the cursors returns every matching run and event once and in order, appended events are shown, and no query
  shows another workspace; \<open>Query_Outcomes\<close>: when a query answers and with which error it refuses.

  Context for a task:
  \<open>Context_Ranking\<close> and \<open>Ranking_Order\<close> (\<open>context/ranking.ts\<close>), \<open>Recommendations\<close> (\<open>recommendations.ts\<close>), \<open>Nudges\<close> and
  \<open>Nudge_Delivery\<close> (\<open>nudges.ts\<close>, \<open>nudge-store.ts\<close>, \<open>nudge-validation.ts\<close>): the ranking picks the best within its
  budget whatever the order of the input; delivered nudges respect their limits in every reachable history.

  Concurrency and retries:
  \<open>Write_Queue\<close> (\<open>server/write-queue.ts\<close>) refines a FIFO of operations; \<open>Orchestration_Jobs\<close> and \<open>Job_Leases\<close>
  (\<open>orchestration/jobs.ts\<close>): exclusive leases, bounded attempts, progress; \<open>Idempotency\<close>
  (\<open>task-run/idempotency.ts\<close>): an operation takes effect exactly once per key.

  Memory:
  \<open>Structured_Scope\<close> (\<open>memory/structured-memory.ts\<close>), \<open>Memory_Rows\<close> (\<open>revisions.ts\<close>, \<open>entries.ts\<close>, \<open>audit.ts\<close>: tables and
  reading), \<open>Memory_Search\<close> (search projection, embedding job), \<open>Memory_Entries\<close> (\<open>entries.ts\<close>, \<open>revisions.ts\<close>,
  \<open>lifecycle.ts\<close>: writing), \<open>Memory_Laws\<close>, \<open>Memory_History\<close>, \<open>Memory_Batch\<close>: every entry stays readable, the history
  only grows, the life cycle of an entry, idempotent recording, and the batched read against the single one.

  Files:
  \<open>Managed_Block\<close> (\<open>agent-file/managed-block.ts\<close>, \<open>managed-files/rebase.ts\<close>): the user's text is never touched.

  STATE. A table is a list of records in insertion order, with a record field per column; columns have their
  declared types, and the constraints of the schema (\<open>src/migrations\<close>) are checked where rows are inserted or
  updated, with the error numbers of SQLite. A connection holds the committed database, the working copy
  of an open transaction, its savepoints and the outcomes of the transaction-control statements to come,
  which are arbitrary; a data statement fails only when a constraint or trigger of the schema refuses it.

  PARAMETERS. The digest (\<open>sha256\<close>), random identifiers, the clock, the URL parser and the paths of the platform
  and the Unicode tables (NFKC, case mapping, letter classes) are arguments. Theorems that need more
  than totality of a parameter say so in a hypothesis, e.g. that a digest does not confuse given texts.

  BOUNDS AND FUEL. Recursion is structural or has a measure, the retry loop counts its attempts, and the one
  recursion that need not return (\<open>emitRun\<close> of the archive) is a partial function. Only the JSON reader has fuel
  (\<open>parse_value\<close>, \<open>parse_items\<close>, \<open>parse_members\<close>): \<open>json_parse\<close> gives it one more than the length of the text,
  which is enough because an array or object has two brackets for its two steps of fuel, and a comma and a
  value for each further one; for the texts of the serializer it is proved that they are read back. \<open>follow_cursors\<close> of the paging laws counts a client's requests. Integers of the source are unbounded here and checked against \<open>MAX_SAFE_INTEGER\<close>
  where the source checks; depth, node and byte limits are those of the source. Strings are lists of code
  units below 256; every operation used on them treats code units uniformly. An object that the source fills by assignments loses a field named \<open>__proto__\<close> (\<open>assigned_object\<close>). The JSON reader accepts
  numbers in their ECMAScript text only, the one form the serializer writes.

  NOT MODELLED. Input and output (HTTP, MCP, child processes, files, terminals), the web interface, the
  plugin, trace ingestion, Skills and installation; the full-text ranking and vector search, which SQLite
  and the model runtime compute; the akinator and enno-oduno workflows, the context broker and the
  ledger's maintenance, which later work may add on the modelled store. The manifest lists
  each of them with its reason.
\<close>

end
